(* ===== verification/Prelude.thy ===== *)
theory Prelude
  imports Main "HOL-Library.Word"
begin

text \<open>
  Shared vocabulary of the development: the machine types the sources use, the ways a C++
  function can fail to return normally, the error monad over them, and the generic list
  and word lemmas that several components need.
\<close>

unbundle bit_operations_syntax

section \<open>Machine types\<close>

type_synonym u8 = "8 word"
type_synonym u32 = "32 word"
type_synonym u64 = "64 word"

section \<open>Abnormal results\<close>

text \<open>
  \<open>Exited\<close> is a call of \<^verbatim>\<open>std::exit\<close> (which \<^verbatim>\<open>FLETCHER_LOG\<close> makes at the
  levels ERROR and FATAL), \<open>Undefined\<close> an operation to which C++ gives no meaning, such as
  an index past the end of a vector or the dereference of a null pointer. The other
  constructors are the exceptions of the standard library that the sources raise.
\<close>

datatype exn =
    Domain_error
  | Length_error
  | Out_of_range
  | Invalid_argument
  | Runtime_error
  | Bad_optional_access
  | Exited
  | Undefined

type_synonym 'a res = "exn + 'a"

definition res_bind :: "'a res \<Rightarrow> ('a \<Rightarrow> 'b res) \<Rightarrow> 'b res" where
  "res_bind r f = (case r of Inl e \<Rightarrow> Inl e | Inr x \<Rightarrow> f x)"

lemma res_bind_simps [simp]:
  "res_bind (Inl e) f = Inl e"
  "res_bind (Inr x) f = f x"
  by (simp_all add: res_bind_def)

lemma res_bind_Inr_iff: "res_bind r f = Inr y \<longleftrightarrow> (\<exists>x. r = Inr x \<and> f x = Inr y)"
  by (cases r) auto

lemma res_bind_InrE:
  assumes "res_bind r f = Inr y"
  obtains x where "r = Inr x" and "f x = Inr y"
  using assms by (auto simp: res_bind_Inr_iff)

lemma res_bind_cong [fundef_cong]:
  "r = r' \<Longrightarrow> (\<And>x. r' = Inr x \<Longrightarrow> f x = g x) \<Longrightarrow> res_bind r f = res_bind r' g"
  by (cases r') auto

text \<open>A loop over a container whose body may fail: the first failure ends it.\<close>

fun res_mapM :: "('a \<Rightarrow> 'b res) \<Rightarrow> 'a list \<Rightarrow> 'b list res" where
  "res_mapM f [] = Inr []"
| "res_mapM f (x # xs) = res_bind (f x) (\<lambda>y. res_bind (res_mapM f xs) (\<lambda>ys. Inr (y # ys)))"

lemma res_mapM_map: "(\<And>x. x \<in> set xs \<Longrightarrow> f x = Inr (g x)) \<Longrightarrow> res_mapM f xs = Inr (map g xs)"
  by (induction xs) auto

lemma res_mapM_total: "\<forall>x\<in>set xs. \<exists>y. f x = Inr y \<Longrightarrow> \<exists>ys. res_mapM f xs = Inr ys"
  by (induction xs) (auto simp: res_bind_def)

lemma res_mapM_length: "res_mapM f xs = Inr ys \<Longrightarrow> length ys = length xs"
  by (induction xs arbitrary: ys) (auto elim!: res_bind_InrE)

lemma res_mapM_Inr_iff:
  "res_mapM f xs = Inr ys \<longleftrightarrow> length ys = length xs \<and> (\<forall>i<length xs. f (xs ! i) = Inr (ys ! i))"
proof (induction xs arbitrary: ys)
  case (Cons x xs)
  show ?case
    by (cases ys) (auto simp: res_bind_Inr_iff Cons.IH All_less_Suc2)
qed auto

section \<open>Lists\<close>

lemma concat_map_Cons_length: "(\<And>x. x \<in> set xs \<Longrightarrow> length (f x) = k) \<Longrightarrow>
  length (concat (map f xs)) = k * length xs"
  by (induction xs) auto

lemma take_drop_append_exact:
  "length xs = n \<Longrightarrow> take n (xs @ ys) = xs"
  "length xs = n \<Longrightarrow> drop n (xs @ ys) = ys"
  by auto

lemma map_nth_upt_append: "map f [0..<n] @ map f [n..<n + m] = map f [0..<n + m]"
  by (simp flip: map_append upt_add_eq_append)

lemma all_less_2: "(\<forall>i<2. P i) \<longleftrightarrow> P 0 \<and> P (1::nat)"
  by (auto simp: less_2_cases_iff)

section \<open>Words\<close>

lemma unat_of_nat_small [simp]: "n < 2 ^ LENGTH('a) \<Longrightarrow> unat (of_nat n :: 'a::len word) = n"
  by (simp add: unat_of_nat take_bit_nat_eq_self)

lemma unat_of_int_small: "0 \<le> n \<Longrightarrow> n < 2 ^ LENGTH('a) \<Longrightarrow> unat (of_int n :: 'a::len word) = nat n"
proof -
  assume n: "0 \<le> n" "n < 2 ^ LENGTH('a)"
  then have "nat n < 2 ^ LENGTH('a)" by (simp add: nat_less_iff)
  from unat_of_nat_small [OF this] show ?thesis using n(1) by simp
qed

text \<open>The value of a word is below the modulus of its type.\<close>

lemma unat_lt_u8: "unat (b :: u8) < 256"
  using unsigned_less [of b, where ?'a = nat] by simp

lemma unat_lt_u32: "unat (w :: u32) < 4294967296"
  using unsigned_less [of w, where ?'a = nat] by simp

lemma unat_lt_u64: "unat (w :: u64) < 18446744073709551616"
  using unsigned_less [of w, where ?'a = nat] by simp

lemma sint_small: "unat (w :: u32) < 2 ^ 31 \<Longrightarrow> sint w = int (unat w)"
proof -
  assume w: "unat w < 2 ^ 31"
  have "uint w = int (unat w)" by (metis of_nat_unat uint_nat)
  moreover have "signed_take_bit 31 (int m) = int m" if "m < 2 ^ 31" for m
    using that by (intro signed_take_bit_int_eq_self) auto
  then have "signed_take_bit 31 (int (unat w)) = int (unat w)" using w by blast
  ultimately show ?thesis by (simp add: sint_uint)
qed

lemma unat_add_one: "(a :: 'a::len word) < b \<Longrightarrow> unat (a + 1) = unat a + 1"
proof -
  assume "a < b"
  then have "unat a + 1 < 2 ^ LENGTH('a)"
    using unsigned_less [of b, where ?'a = nat] unfolding word_less_nat_alt by linarith
  moreover have "a + 1 = of_nat (unat a + 1)" by simp
  ultimately show ?thesis by (metis unat_of_nat_small)
qed

end
