(* ===== verification/Cxx_Text.thy ===== *)
theory Cxx_Text
  imports Prelude
begin

text \<open>
  The text functions of the C++ standard library that the sources call: printing of numbers
  in base 10 and 16, \<^verbatim>\<open>std::setw\<close>/\<^verbatim>\<open>std::setfill\<close> padding, \<^verbatim>\<open>std::string::substr\<close>,
  \<^verbatim>\<open>std::stoul\<close>, \<^verbatim>\<open>std::strtoul\<close> and \<^verbatim>\<open>std::getline\<close>, on strings as lists of
  characters. The lemmas state that printed numbers are read back.
\<close>

section \<open>Digits\<close>

definition digit_char :: "bool \<Rightarrow> nat \<Rightarrow> char" where
  "digit_char upper d = char_of (if d < 10 then 48 + d else if upper then 55 + d else 87 + d)"

definition digit_val :: "char \<Rightarrow> nat option" where
  "digit_val c = (let n = (of_char c :: nat) in
     if 48 \<le> n \<and> n \<le> 57 then Some (n - 48)
     else if 65 \<le> n \<and> n \<le> 90 then Some (n - 55)
     else if 97 \<le> n \<and> n \<le> 122 then Some (n - 87)
     else None)"

fun digits :: "nat \<Rightarrow> nat \<Rightarrow> nat list" where
  "digits b n = (if b < 2 \<or> n < b then [n] else digits b (n div b) @ [n mod b])"

declare digits.simps [simp del]

text \<open>\<^verbatim>\<open>stream << n\<close>, \<^verbatim>\<open>stream << std::hex << n\<close> and \<^verbatim>\<open>std::to_string(n)\<close> for an unsigned n.\<close>

definition show_nat :: "nat \<Rightarrow> string" where
  "show_nat n = map (digit_char False) (digits 10 n)"

definition show_hex :: "bool \<Rightarrow> nat \<Rightarrow> string" where
  "show_hex upper n = map (digit_char upper) (digits 16 n)"

definition show_int :: "int \<Rightarrow> string" where
  "show_int i = (if i < 0 then CHR ''-'' # show_nat (nat (- i)) else show_nat (nat i))"

text \<open>\<^verbatim>\<open>std::setfill(c) << std::setw(w)\<close> pads on the left and never shortens.\<close>

definition setw :: "char \<Rightarrow> nat \<Rightarrow> string \<Rightarrow> string" where
  "setw c w s = replicate (w - length s) c @ s"

section \<open>Parsing numbers\<close>

definition is_space :: "char \<Rightarrow> bool" where
  "is_space c = (let n = (of_char c :: nat) in n = 32 \<or> (9 \<le> n \<and> n \<le> 13))"

text \<open>The longest prefix of digits below the base: its value so far and whether it has any.\<close>

fun scan_digits :: "nat \<Rightarrow> nat \<Rightarrow> string \<Rightarrow> nat" where
  "scan_digits b acc [] = acc"
| "scan_digits b acc (c # cs) = (case digit_val c of
      Some d \<Rightarrow> if d < b then scan_digits b (acc * b + d) cs else acc
    | None \<Rightarrow> acc)"

definition starts_digit :: "nat \<Rightarrow> string \<Rightarrow> bool" where
  "starts_digit b s = (case s of [] \<Rightarrow> False
     | c # _ \<Rightarrow> (case digit_val c of Some d \<Rightarrow> d < b | None \<Rightarrow> False))"

fun skip_0x :: "nat \<Rightarrow> string \<Rightarrow> string" where
  "skip_0x b (z # x # cs) = (if b = 16 \<and> z = CHR ''0'' \<and> (x = CHR ''x'' \<or> x = CHR ''X'')
      \<and> starts_digit 16 cs then cs else z # x # cs)"
| "skip_0x b s = s"

datatype strto = No_conversion | Overflow | Converted u64

definition strto_unsigned :: "nat \<Rightarrow> bool \<Rightarrow> string \<Rightarrow> strto" where
  "strto_unsigned b neg s = (let t = skip_0x b s in
     if \<not> starts_digit b t then No_conversion
     else let v = scan_digits b 0 t in
       if 2 ^ 64 \<le> v then Overflow
       else Converted (if neg then - of_nat v else of_nat v))"

definition strto :: "nat \<Rightarrow> string \<Rightarrow> strto" where
  "strto b s = (case dropWhile is_space s of
      [] \<Rightarrow> No_conversion
    | c # cs \<Rightarrow> if c = CHR ''-'' then strto_unsigned b True cs
               else if c = CHR ''+'' then strto_unsigned b False cs
               else strto_unsigned b False (c # cs))"

definition stoul :: "string \<Rightarrow> nat \<Rightarrow> u64 res" where
  "stoul s b = (case strto b s of
      No_conversion \<Rightarrow> Inl Invalid_argument
    | Overflow \<Rightarrow> Inl Out_of_range
    | Converted w \<Rightarrow> Inr w)"

definition strtoul :: "string \<Rightarrow> nat \<Rightarrow> u64" where
  "strtoul s b = (case strto b s of No_conversion \<Rightarrow> 0 | Overflow \<Rightarrow> - 1 | Converted w \<Rightarrow> w)"

text \<open>\<^verbatim>\<open>std::stol\<close> has the same syntax; the range is that of a 64-bit signed integer.\<close>

definition stol_value :: "nat \<Rightarrow> bool \<Rightarrow> string \<Rightarrow> int res" where
  "stol_value b neg s = (let t = skip_0x b s in
     if \<not> starts_digit b t then Inl Invalid_argument
     else let v = (if neg then - int (scan_digits b 0 t) else int (scan_digits b 0 t)) in
       if v < - (2 ^ 63) \<or> 2 ^ 63 \<le> v then Inl Out_of_range else Inr v)"

definition stol :: "string \<Rightarrow> nat \<Rightarrow> int res" where
  "stol s b = (case dropWhile is_space s of
      [] \<Rightarrow> Inl Invalid_argument
    | c # cs \<Rightarrow> if c = CHR ''-'' then stol_value b True cs
               else if c = CHR ''+'' then stol_value b False cs
               else stol_value b False (c # cs))"

section \<open>Strings\<close>

definition substr :: "string \<Rightarrow> nat \<Rightarrow> nat \<Rightarrow> string res" where
  "substr s pos n = (if length s < pos then Inl Out_of_range else Inr (take n (drop pos s)))"

text \<open>The pieces of a string between the occurrences of a separator: what a loop over
  \<^verbatim>\<open>std::getline(stream, piece, sep)\<close> reads. An empty piece after the last separator is
  not read.\<close>

fun getlines_acc :: "char \<Rightarrow> string \<Rightarrow> string \<Rightarrow> string list" where
  "getlines_acc sep cur [] = (if cur = [] then [] else [rev cur])"
| "getlines_acc sep cur (c # cs) = (if c = sep then rev cur # getlines_acc sep [] cs
      else getlines_acc sep (c # cur) cs)"

definition getlines :: "char \<Rightarrow> string \<Rightarrow> string list" where
  "getlines sep s = getlines_acc sep [] s"

definition newline :: char where
  "newline = CHR 0x0A"

section \<open>Lemmas on digits\<close>

lemma digits_bound: "1 < b \<Longrightarrow> d \<in> set (digits b n) \<Longrightarrow> d < b"
  by (induction b n rule: digits.induct) (subst (asm) (2) digits.simps, auto split: if_splits)

lemma digits_nonempty [simp]: "digits b n \<noteq> []"
  by (subst digits.simps) auto

lemma of_char_digit_char: "d < 36 \<Longrightarrow>
  (of_char (digit_char up d) :: nat) = (if d < 10 then 48 + d else if up then 55 + d else 87 + d)"
  by (auto simp: digit_char_def)

lemma digit_val_digit_char [simp]: "d < 36 \<Longrightarrow> digit_val (digit_char up d) = Some d"
  by (auto simp: digit_val_def Let_def of_char_digit_char)

lemma digit_char_not_space [simp]: "d < 36 \<Longrightarrow> \<not> is_space (digit_char up d)"
  by (auto simp: is_space_def Let_def of_char_digit_char)

lemma of_char_neq: "(of_char c :: nat) \<noteq> of_char c' \<Longrightarrow> c \<noteq> c'"
  by auto

lemma digit_char_neq [simp]:
  assumes "d < 36"
  shows "digit_char up d \<noteq> CHR ''-''" "digit_char up d \<noteq> CHR ''+''"
    "digit_char up d \<noteq> CHR '',''" "digit_char up d \<noteq> newline"
  by (rule of_char_neq; simp add: of_char_digit_char assms newline_def)+

lemma digit_char_not_x: "d < 16 \<Longrightarrow> digit_char up d \<noteq> CHR ''x''" "d < 16 \<Longrightarrow> digit_char up d \<noteq> CHR ''X''"
  by (rule of_char_neq; simp add: of_char_digit_char)+

lemma scan_digits_map:
  "\<lbrakk>b \<le> 36; \<forall>d\<in>set ds. d < b\<rbrakk> \<Longrightarrow>
   scan_digits b acc (map (digit_char up) ds @ rest) =
   scan_digits b (foldl (\<lambda>a d. a * b + d) acc ds) rest"
  by (induction ds arbitrary: acc) auto

lemma foldl_digits: "1 < b \<Longrightarrow> foldl (\<lambda>a d. a * b + d) 0 (digits b n) = n"
proof (induction b n rule: digits.induct)
  case (1 b n)
  show ?case
  proof (cases "n < b")
    case True
    then show ?thesis by (subst digits.simps) simp
  next
    case False
    then show ?thesis using 1 by (subst digits.simps) (simp add: mult.commute)
  qed
qed

lemma skip_0x_digits: "\<forall>d\<in>set ds. d < 16 \<Longrightarrow> skip_0x b (map (digit_char up) ds) = map (digit_char up) ds"
  using digit_char_not_x by (cases ds rule: remdups_adj.cases) auto

text \<open>What \<^verbatim>\<open>std::stoul\<close> reads from a string of digits.\<close>

lemma strto_digits:
  assumes "ds \<noteq> []" "\<forall>d\<in>set ds. d < b" "b \<le> 16" "foldl (\<lambda>a d. a * b + d) 0 ds < 2 ^ 64"
  shows "strto b (map (digit_char up) ds) = Converted (of_nat (foldl (\<lambda>a d. a * b + d) 0 ds))"
proof -
  obtain d ds' where ds: "ds = d # ds'" using assms(1) by (cases ds) auto
  have d: "d < b" "d < 36" "d < 16" using assms ds by auto
  have skip: "skip_0x b (map (digit_char up) ds) = map (digit_char up) ds"
    using assms by (intro skip_0x_digits) auto
  have "scan_digits b 0 (map (digit_char up) ds @ []) = foldl (\<lambda>a d. a * b + d) 0 ds"
    using assms by (subst scan_digits_map) auto
  moreover have "starts_digit b (map (digit_char up) ds)"
    using d by (simp add: ds starts_digit_def)
  moreover have "strto b (map (digit_char up) ds) = strto_unsigned b False (map (digit_char up) ds)"
    using d by (simp add: strto_def ds)
  ultimately show ?thesis
    using assms(4) skip by (simp add: strto_unsigned_def Let_def)
qed

lemma stoul_show_nat: "n < 2 ^ 64 \<Longrightarrow> stoul (show_nat n) 10 = Inr (of_nat n)"
  using strto_digits [of "digits 10 n" 10 False] digits_bound [of 10]
  by (auto simp: stoul_def show_nat_def foldl_digits)

lemma strtoul_show_nat: "n < 2 ^ 64 \<Longrightarrow> strtoul (show_nat n) 10 = of_nat n"
  using strto_digits [of "digits 10 n" 10 False] digits_bound [of 10]
  by (auto simp: strtoul_def show_nat_def foldl_digits)

lemma show_nat_nonempty [simp]: "show_nat n \<noteq> []"
  by (simp add: show_nat_def)

lemma show_nat_inj: "show_nat m = show_nat n \<longleftrightarrow> m = n"
proof
  assume *: "show_nat m = show_nat n"
  have "scan_digits 10 0 (show_nat k) = k" for k
    using scan_digits_map [of 10 "digits 10 k" 0 False "[]"] digits_bound [of 10 _ k]
    by (auto simp: show_nat_def foldl_digits)
  then show "m = n" by (metis *)
qed simp

lemma set_show_nat: "c \<in> set (show_nat n) \<Longrightarrow> \<exists>d<10. c = digit_char False d"
  using digits_bound [of 10] by (auto simp: show_nat_def)

section \<open>Fixed-width hexadecimal\<close>

definition fixed_digits :: "nat \<Rightarrow> nat \<Rightarrow> nat \<Rightarrow> nat list" where
  "fixed_digits b w n = map (\<lambda>i. n div b ^ i mod b) (rev [0..<w])"

lemma fixed_digits_0 [simp]: "fixed_digits b 0 n = []"
  by (simp add: fixed_digits_def)

lemma fixed_digits_length [simp]: "length (fixed_digits b w n) = w"
  by (simp add: fixed_digits_def)

lemma fixed_digits_snoc: "fixed_digits b (Suc w) n = fixed_digits b w (n div b) @ [n mod b]"
proof -
  have "rev [0..<Suc w] = map Suc (rev [0..<w]) @ [0]"
    by (simp only: upt_conv_Cons [of 0 "Suc w"] rev.simps map_Suc_upt [symmetric] rev_map zero_less_Suc)
  then show ?thesis by (simp add: fixed_digits_def div_mult2_eq comp_def)
qed

lemma fixed_digits_zero: "fixed_digits b w 0 = replicate w 0"
  by (simp add: fixed_digits_def map_replicate_const)

lemma fixed_digits_bound: "0 < b \<Longrightarrow> d \<in> set (fixed_digits b w n) \<Longrightarrow> d < b"
  by (auto simp: fixed_digits_def)

lemma foldl_fixed_digits: "0 < b \<Longrightarrow> n < b ^ w \<Longrightarrow> foldl (\<lambda>a d. a * b + d) 0 (fixed_digits b w n) = n"
proof (induction w arbitrary: n)
  case (Suc w)
  have "n div b < b ^ w" using Suc.prems by (simp add: less_mult_imp_div_less mult.commute)
  then show ?case using Suc by (simp add: fixed_digits_snoc mult.commute)
qed simp

lemma digits_pad: "1 < b \<Longrightarrow> n < b ^ w \<Longrightarrow> 0 < w \<Longrightarrow>
  length (digits b n) \<le> w \<and> replicate (w - length (digits b n)) 0 @ digits b n = fixed_digits b w n"
proof (induction w arbitrary: n)
  case (Suc w)
  show ?case
  proof (cases "n < b")
    case True
    then show ?thesis using Suc.prems
      by (subst (1 2 3) digits.simps) (simp add: fixed_digits_snoc fixed_digits_zero)
  next
    case False
    have w: "0 < w" using False Suc.prems by (cases w) auto
    have "n div b < b ^ w" using Suc.prems by (simp add: less_mult_imp_div_less mult.commute)
    note IH = Suc.IH [OF Suc.prems(1) this w]
    have "digits b n = digits b (n div b) @ [n mod b]"
      using False Suc.prems by (subst digits.simps) auto
    then show ?thesis using IH by (simp add: fixed_digits_snoc Suc_diff_le flip: IH [THEN conjunct2])
  qed
qed simp

lemma digit_char_0: "digit_char up 0 = CHR ''0''"
  by (simp add: digit_char_def char_of_def bit_Suc_0_iff)

lemma setw_show_hex:
  "n < 16 ^ w \<Longrightarrow> 0 < w \<Longrightarrow>
   setw (CHR ''0'') w (show_hex up n) = map (digit_char up) (fixed_digits 16 w n)"
  using digits_pad [of 16 n w]
  by (auto simp: setw_def show_hex_def digit_char_0 dest!: arg_cong [where f = "map (digit_char up)"])

lemma stoul_fixed_hex:
  assumes "n < 16 ^ w" "0 < w" "w \<le> 16"
  shows "stoul (map (digit_char up) (fixed_digits 16 w n)) 16 = Inr (of_nat n)"
proof -
  have "(16::nat) ^ w \<le> 16 ^ 16" using assms by (intro power_increasing) auto
  then have lt: "n < 2 ^ 64" using assms(1) by simp
  have "fixed_digits 16 w n \<noteq> []" using assms(2) by (simp flip: length_0_conv)
  then have "strto 16 (map (digit_char up) (fixed_digits 16 w n)) = Converted (of_nat n)"
    using strto_digits [of "fixed_digits 16 w n" 16 up] fixed_digits_bound [of 16] assms lt
    by (auto simp: foldl_fixed_digits)
  then show ?thesis by (simp add: stoul_def)
qed

section \<open>Lemmas on lines\<close>

lemma getlines_acc_piece:
  "sep \<notin> set l \<Longrightarrow> getlines_acc sep cur (l @ sep # rest) = (rev cur @ l) # getlines_acc sep [] rest"
  by (induction l arbitrary: cur) auto

lemma getlines_concat:
  "\<forall>l\<in>set ls. sep \<notin> set l \<Longrightarrow> getlines sep (concat (map (\<lambda>l. l @ [sep]) ls)) = ls"
  by (induction ls) (auto simp: getlines_def getlines_acc_piece)

lemma getlines_acc_last: "sep \<notin> set l \<Longrightarrow> l \<noteq> [] \<or> cur \<noteq> [] \<Longrightarrow> getlines_acc sep cur l = [rev cur @ l]"
  by (induction l arbitrary: cur) auto

lemma substr_0 [simp]: "substr s 0 n = Inr (take n s)"
  by (simp add: substr_def)

lemma substr_at: "length xs = pos \<Longrightarrow> length ys = n \<Longrightarrow> substr (xs @ ys @ zs) pos n = Inr ys"
  by (simp add: substr_def)

end
