(* ===== verification/Srec_Record.thy ===== *)
theory Srec_Record
  imports Cxx_Text
begin

text \<open>
  The records of SREC files, \<^verbatim>\<open>fletchgen/srec/srec.h\<close> and the \<^verbatim>\<open>Record\<close> part of
  \<^verbatim>\<open>srec.cc\<close>: construction, printing, parsing, the checksum. The buffer \<^verbatim>\<open>data_\<close> always
  holds \<^verbatim>\<open>size_\<close> bytes, so the record has the list of these bytes and \<^verbatim>\<open>size_\<close> is its length.
  \<^verbatim>\<open>FromString\<close> returns a \<^verbatim>\<open>std::optional\<close> and lets the exceptions of \<^verbatim>\<open>substr\<close> and
  \<^verbatim>\<open>stoul\<close> through: its result is an option in the error monad.
\<close>

section \<open>Data\<close>

datatype rec_type =
  HEADER | DATA16 | DATA24 | DATA32 | RESERVED | COUNT16 | COUNT24 | TERM32 | TERM24 | TERM16

fun type_num :: "rec_type \<Rightarrow> nat" where
  "type_num HEADER = 0"
| "type_num DATA16 = 1"
| "type_num DATA24 = 2"
| "type_num DATA32 = 3"
| "type_num RESERVED = 4"
| "type_num COUNT16 = 5"
| "type_num COUNT24 = 6"
| "type_num TERM32 = 7"
| "type_num TERM24 = 8"
| "type_num TERM16 = 9"

definition type_of_num :: "nat \<Rightarrow> rec_type" where
  "type_of_num n = [HEADER, DATA16, DATA24, DATA32, RESERVED, COUNT16, COUNT24, TERM32, TERM24, TERM16] ! n"

record srec =
  rtype :: rec_type
  raddr :: u32
  rdata :: "u8 list"

definition MAX_DATA_BYTES :: nat where
  "MAX_DATA_BYTES = 32"

definition rec_size :: "srec \<Rightarrow> nat" where
  "rec_size r = length (rdata r)"

section \<open>Construction\<close>

text \<open>\<open>mem\<close> is the memory the pointer \<^verbatim>\<open>data\<close> points to; \<^verbatim>\<open>memcpy\<close> reads \<open>sz\<close> bytes of it.\<close>

definition Record_new :: "rec_type \<Rightarrow> u32 \<Rightarrow> u8 list \<Rightarrow> nat \<Rightarrow> srec res" where
  "Record_new t addr mem sz =
    (if MAX_DATA_BYTES < sz then Inl Domain_error
     else if length mem < sz then Inl Undefined
     else Inr \<lparr>rtype = t, raddr = addr, rdata = take sz mem\<rparr>)"

definition char_byte :: "char \<Rightarrow> u8" where
  "char_byte c = of_nat (of_char c)"

definition Record_Header :: "string \<Rightarrow> 16 word \<Rightarrow> srec res" where
  "Record_Header header_str address =
    res_bind (substr header_str 0 (max MAX_DATA_BYTES (length header_str))) (\<lambda>str.
    Record_new HEADER (ucast address) (map char_byte str) (length str))"

definition Record_Data :: "nat \<Rightarrow> u32 \<Rightarrow> u8 list \<Rightarrow> nat \<Rightarrow> srec res" where
  "Record_Data S addr mem sz =
    (if S = 16 then Record_new DATA16 addr mem sz
     else if S = 24 then Record_new DATA24 addr mem sz
     else if S = 32 then Record_new DATA32 addr mem sz
     else Inl Domain_error)"

fun address_width :: "rec_type \<Rightarrow> nat" where
  "address_width DATA24 = 3"
| "address_width COUNT24 = 3"
| "address_width TERM24 = 3"
| "address_width DATA32 = 4"
| "address_width TERM32 = 4"
| "address_width _ = 2"

definition byte_count :: "srec \<Rightarrow> u8" where
  "byte_count r = of_nat (address_width (rtype r) + rec_size r + 1)"

definition checksum :: "srec \<Rightarrow> u8" where
  "checksum r =
    (let sum = (0::u32);
         sum = sum + ucast (byte_count r);
         sum = (if 3 < address_width (rtype r)
                then sum + drop_bit 24 (raddr r AND 0xFF000000) else sum);
         sum = (if 2 < address_width (rtype r)
                then sum + drop_bit 16 (raddr r AND 0x00FF0000) else sum);
         sum = sum + drop_bit 8 (raddr r AND 0x0000FF00);
         sum = sum + (raddr r AND 0x000000FF);
         sum = foldl (\<lambda>s b. s + ucast b) sum (rdata r);
         ret = (ucast (sum AND 0xFF) :: u8)
     in NOT ret)"

section \<open>Printing\<close>

definition PutHex :: "u32 \<Rightarrow> nat \<Rightarrow> string" where
  "PutHex v characters = setw (CHR ''0'') characters (show_hex True (unat v))"

definition Record_ToString :: "bool \<Rightarrow> srec \<Rightarrow> string" where
  "Record_ToString line_feed r =
    ''S'' @ show_nat (type_num (rtype r)) @
    PutHex (ucast (byte_count r)) 2 @
    PutHex (raddr r) (2 * address_width (rtype r)) @
    concat (map (\<lambda>b. PutHex (ucast b) 2) (rdata r)) @
    PutHex (ucast (checksum r)) 2 @
    (if line_feed then [newline] else [])"

section \<open>Parsing\<close>

text \<open>\<^verbatim>\<open>std::stoul(line.substr(offset, n), nullptr, 16)\<close>.\<close>

definition read_hex :: "string \<Rightarrow> nat \<Rightarrow> nat \<Rightarrow> u64 res" where
  "read_hex line offset n = res_bind (substr line offset n) (\<lambda>s. stoul s 16)"

text \<open>The loop over the address bytes, \<open>i\<close> counting down from the address width.\<close>

fun read_address :: "string \<Rightarrow> nat \<Rightarrow> nat \<Rightarrow> u32 \<Rightarrow> u32 res" where
  "read_address line offset 0 addr = Inr addr"
| "read_address line offset (Suc i) addr =
    res_bind (read_hex line offset 2) (\<lambda>v.
    let byte = (ucast v :: u8)
    in read_address line (offset + 2) i (addr OR push_bit (8 * i) (ucast byte)))"

text \<open>The loop over the data bytes.\<close>

fun read_data :: "string \<Rightarrow> nat \<Rightarrow> nat \<Rightarrow> u8 list res" where
  "read_data line offset 0 = Inr []"
| "read_data line offset (Suc n) =
    res_bind (read_hex line offset 2) (\<lambda>v.
    res_bind (read_data line (offset + 2) n) (\<lambda>bs. Inr (ucast v # bs)))"

definition Record_FromString :: "string \<Rightarrow> srec option res" where
  "Record_FromString line =
    res_bind (substr line 0 1) (\<lambda>s.
    if s \<noteq> ''S'' then Inr None
    else res_bind (read_hex line 1 1) (\<lambda>t.
    if 9 < t then Inr None
    else let ty = type_of_num (unat t); aw = address_width ty in
    res_bind (read_hex line 2 2) (\<lambda>c.
    let sz = c - of_nat aw - 1 in
    if of_nat MAX_DATA_BYTES < sz then Inr None
    else res_bind (read_address line 4 aw 0) (\<lambda>addr.
    res_bind (read_data line (4 + 2 * aw) (unat sz)) (\<lambda>bytes.
    res_bind (read_hex line (4 + 2 * aw + 2 * unat sz) 2) (\<lambda>sm.
    let ret = \<lparr>rtype = ty, raddr = addr, rdata = bytes\<rparr> in
    if checksum ret \<noteq> ucast sm then Inr None
    else Inr (Some ret)))))))"

section \<open>Lemmas\<close>

lemma type_num_bound: "type_num t < 10"
  by (cases t) simp_all

lemma type_of_num_type_num [simp]: "type_of_num (type_num t) = t"
  by (cases t) (simp_all add: type_of_num_def)

lemma address_width_cases: "address_width t = 2 \<or> address_width t = 3 \<or> address_width t = 4"
  by (cases t) simp_all

lemma Record_new_ok:
  "Record_new t a mem n = Inr r \<longleftrightarrow>
   n \<le> 32 \<and> n \<le> length mem \<and> r = \<lparr>rtype = t, raddr = a, rdata = take n mem\<rparr>"
  by (auto simp: Record_new_def MAX_DATA_BYTES_def)

text \<open>The records that the constructors and the parser make.\<close>

definition rec_wf :: "srec \<Rightarrow> bool" where
  "rec_wf r = (rec_size r \<le> MAX_DATA_BYTES)"

definition addr_fits :: "srec \<Rightarrow> bool" where
  "addr_fits r = (unat (raddr r) < 256 ^ address_width (rtype r))"

lemma Record_new_wf: "Record_new t a mem n = Inr r \<Longrightarrow> rec_wf r"
  by (auto simp: Record_new_ok rec_wf_def rec_size_def MAX_DATA_BYTES_def)

lemma PutHex_fixed:
  "unat v < 16 ^ w \<Longrightarrow> 0 < w \<Longrightarrow> PutHex v w = map (digit_char True) (fixed_digits 16 w (unat v))"
  by (simp add: PutHex_def setw_show_hex)

lemma PutHex_byte: "PutHex (ucast (b :: u8)) 2 = map (digit_char True) (fixed_digits 16 2 (unat b))"
  using unat_lt_u8 [of b] by (subst PutHex_fixed) (simp_all add: unsigned_ucast_eq take_bit_nat_eq_self)

lemma PutHex_byte_length [simp]: "length (PutHex (ucast (b :: u8)) 2) = 2"
  by (simp add: PutHex_byte)

lemma read_hex_at:
  assumes "length pre = off" "n < 16 ^ w" "0 < w" "w \<le> 16"
  shows "read_hex (pre @ map (digit_char up) (fixed_digits 16 w n) @ post) off w = Inr (of_nat n)"
  using assms by (simp add: read_hex_def substr_at stoul_fixed_hex)

lemma read_hex_byte:
  "length pre = off \<Longrightarrow>
   read_hex (pre @ PutHex (ucast (b :: u8)) 2 @ post) off 2 = Inr (ucast b)"
  using unat_lt_u8 [of b] read_hex_at [of pre off "unat b" 2 True post]
  by (simp add: PutHex_byte)

lemma ucast_u8_u64_u8 [simp]: "ucast (ucast (b :: u8) :: u64) = b"
  by (rule bit_word_eqI) (simp add: bit_simps)

lemma read_data_bytes:
  "length pre = off \<Longrightarrow>
   read_data (pre @ concat (map (\<lambda>b. PutHex (ucast b) 2) bs) @ post) off (length bs) = Inr bs"
proof (induction bs arbitrary: pre off)
  case (Cons b bs)
  have "read_data ((pre @ PutHex (ucast b) 2) @ concat (map (\<lambda>b. PutHex (ucast b) 2) bs) @ post)
      (off + 2) (length bs) = Inr bs"
    by (rule Cons.IH) (simp add: Cons.prems)
  then show ?case
    using read_hex_byte [OF Cons.prems, of b "concat (map (\<lambda>b. PutHex (ucast b) 2) bs) @ post"]
    by simp
qed simp

subsection \<open>The address field\<close>

lemma div_16_256: "(16::nat) ^ (2 * k) = 256 ^ k" "(16::nat) ^ Suc (2 * k) = 16 * 256 ^ k"
  by (simp_all add: power_mult)

lemma div_mod_byte: "n mod 256 mod 16 = n mod (16::nat)" "n mod 256 div 16 mod 16 = n div 16 mod (16::nat)"
  using mod_mult2_eq [of n 16 16] by (simp_all add: mod_mod_cancel)

lemma fixed_digits_Cons: "fixed_digits b (Suc w) n = (n div b ^ w mod b) # fixed_digits b w n"
  by (simp add: fixed_digits_def)

lemma fixed_digits_two: "fixed_digits b 2 n = [n div b mod b, n mod b]"
  by (simp add: fixed_digits_def numeral_2_eq_2)

lemma fixed_digits_byte:
  "fixed_digits 16 (2 * Suc k) n = fixed_digits 16 2 (n div 256 ^ k mod 256) @ fixed_digits 16 (2 * k) n"
proof -
  have "n div (16 * 256 ^ k) = n div 256 ^ k div 16"
    by (metis div_mult2_eq mult.commute)
  then show ?thesis
    by (simp only: mult_Suc_right add_2_eq_Suc fixed_digits_Cons fixed_digits_two div_16_256
        div_mod_byte append.simps)
qed

lemma address_step:
  fixes a :: u32
  assumes "k < 4"
  shows "(acc OR push_bit (8 * k) (ucast (of_nat (unat a div 256 ^ k mod 256) :: u8))) OR take_bit (8 * k) a
       = acc OR take_bit (8 * Suc k) a"
proof -
  have "unat a div 256 ^ k mod 256 = take_bit 8 (drop_bit (8 * k) (unat a))"
    by (simp add: take_bit_eq_mod drop_bit_eq_div power_mult)
  then have "(of_nat (unat a div 256 ^ k mod 256) :: u8) = ucast (drop_bit (8 * k) a)"
    by (intro bit_word_eqI) (auto simp: bit_simps)
  then show ?thesis
    using assms by (intro bit_word_eqI) (auto simp: bit_simps)
qed

lemma read_address_digits:
  fixes a :: u32
  assumes "length pre = off" "k \<le> 4"
  shows "read_address (pre @ map (digit_char True) (fixed_digits 16 (2 * k) (unat a)) @ post) off k acc
       = Inr (acc OR take_bit (8 * k) a)"
  using assms
proof (induction k arbitrary: pre off acc)
  case (Suc k)
  define b :: u8 where "b = of_nat (unat a div 256 ^ k mod 256)"
  define tl where "tl = map (digit_char True) (fixed_digits 16 (2 * k) (unat a)) @ post"
  have line: "map (digit_char True) (fixed_digits 16 (2 * Suc k) (unat a)) @ post = PutHex (ucast b) 2 @ tl"
    unfolding fixed_digits_byte tl_def by (simp add: PutHex_byte b_def)
  have "read_address (pre @ PutHex (ucast b) 2 @ tl) off (Suc k) acc
      = read_address ((pre @ PutHex (ucast b) 2) @ tl) (off + 2) k (acc OR push_bit (8 * k) (ucast b))"
    using read_hex_byte [OF Suc.prems(1), of b tl] by (simp add: Let_def)
  also have "\<dots> = Inr ((acc OR push_bit (8 * k) (ucast b)) OR take_bit (8 * k) a)"
    unfolding tl_def by (rule Suc.IH) (use Suc.prems in simp_all)
  also have "\<dots> = Inr (acc OR take_bit (8 * Suc k) a)"
    using address_step [of k acc a] Suc.prems by (simp add: b_def)
  finally show ?case by (simp only: line)
qed simp

lemma take_bit_fits: "unat (a :: u32) < 256 ^ k \<Longrightarrow> take_bit (8 * k) a = a"
  by (rule unsigned_word_eqI [where ?'a = nat])
    (simp add: unsigned_take_bit_eq take_bit_nat_eq_self power_mult)

subsection \<open>A line and what it is parsed to\<close>

text \<open>A record printed with some value in the place of its checksum.\<close>

definition record_line :: "srec \<Rightarrow> u8 \<Rightarrow> string \<Rightarrow> string" where
  "record_line r cs rest =
    ''S'' @ show_nat (type_num (rtype r)) @
    PutHex (ucast (byte_count r)) 2 @
    PutHex (raddr r) (2 * address_width (rtype r)) @
    concat (map (\<lambda>b. PutHex (ucast b) 2) (rdata r)) @
    PutHex (ucast cs) 2 @ rest"

lemma Record_ToString_line:
  "Record_ToString lf r = record_line r (checksum r) (if lf then [newline] else [])"
  by (simp add: Record_ToString_def record_line_def)

lemma show_type_num: "show_nat (type_num t) = map (digit_char True) (fixed_digits 16 1 (type_num t))"
  using type_num_bound [of t]
  by (subst show_nat_def, subst digits.simps) (simp add: fixed_digits_Cons digit_char_def)

lemma byte_count_size:
  assumes "rec_wf r"
  shows "(ucast (byte_count r) :: u64) - of_nat (address_width (rtype r)) - 1 = of_nat (rec_size r)"
proof -
  have "address_width (rtype r) + rec_size r + 1 < 256"
    using assms address_width_cases [of "rtype r"] by (auto simp: rec_wf_def MAX_DATA_BYTES_def)
  then have "unat (byte_count r) = address_width (rtype r) + rec_size r + 1"
    unfolding byte_count_def by (intro unat_of_nat_small) simp
  then have "(ucast (byte_count r) :: u64) = of_nat (address_width (rtype r) + rec_size r + 1)"
    by (metis of_nat_unat)
  then show ?thesis by simp
qed

lemma FromString_fields:
  assumes "substr line 0 1 = Inr ''S''" "read_hex line 1 1 = Inr t" "\<not> 9 < t"
    "type_of_num (unat t) = ty" "read_hex line 2 2 = Inr c"
    "c - of_nat (address_width ty) - 1 = of_nat n" "n \<le> 32"
    "read_address line 4 (address_width ty) 0 = Inr a"
    "read_data line (4 + 2 * address_width ty) n = Inr bs"
    "read_hex line (4 + 2 * address_width ty + 2 * n) 2 = Inr k"
  shows "Record_FromString line =
    (let ret = \<lparr>rtype = ty, raddr = a, rdata = bs\<rparr>
     in Inr (if checksum ret = ucast k then Some ret else None))"
proof -
  have "\<not> of_nat MAX_DATA_BYTES < (of_nat n :: u64)" "unat (of_nat n :: u64) = n"
    using assms(7) by (simp_all add: word_less_nat_alt MAX_DATA_BYTES_def)
  then show ?thesis using assms by (simp add: Record_FromString_def Let_def)
qed

lemma FromString_record_line:
  assumes wf: "rec_wf r" and fits: "addr_fits r"
  shows "Record_FromString (record_line r cs rest) =
         Inr (if checksum r = cs then Some r else None)"
proof -
  let ?aw = "address_width (rtype r)"
  let ?n = "rec_size r"
  let ?T = "map (digit_char True) (fixed_digits 16 1 (type_num (rtype r)))"
  let ?A = "map (digit_char True) (fixed_digits 16 (2 * ?aw) (unat (raddr r)))"
  let ?D = "concat (map (\<lambda>b. PutHex (ucast b) 2) (rdata r))"
  let ?C = "PutHex (ucast (byte_count r)) 2"
  let ?K = "PutHex (ucast cs) 2"
  let ?L = "''S'' @ ?T @ ?C @ ?A @ ?D @ ?K @ rest"
  have aw: "2 \<le> ?aw" "?aw \<le> 4" using address_width_cases [of "rtype r"] by auto
  have n: "?n \<le> 32" using wf by (simp add: rec_wf_def MAX_DATA_BYTES_def)
  have A: "PutHex (raddr r) (2 * ?aw) = ?A"
    using fits aw by (intro PutHex_fixed) (simp_all add: addr_fits_def power_mult)
  have line: "record_line r cs rest = ?L"
    unfolding record_line_def A show_type_num ..
  have D: "length ?D = 2 * ?n"
    by (simp add: concat_map_Cons_length rec_size_def)
  have t: "read_hex ?L 1 1 = Inr (of_nat (type_num (rtype r)))"
    using read_hex_at [of "''S''" 1 "type_num (rtype r)" 1 True] type_num_bound [of "rtype r"] by simp
  have t9: "\<not> (9 :: u64) < of_nat (type_num (rtype r))"
    and tn: "unat (of_nat (type_num (rtype r)) :: u64) = type_num (rtype r)"
    using type_num_bound [of "rtype r"] by (simp_all add: word_less_nat_alt)
  have c: "read_hex ?L 2 2 = Inr (ucast (byte_count r))"
    using read_hex_byte [of "''S'' @ ?T" 2 "byte_count r"] by simp
  have a: "read_address ?L 4 ?aw 0 = Inr (raddr r)"
    using read_address_digits [of "''S'' @ ?T @ ?C" 4 ?aw "raddr r" "?D @ ?K @ rest" 0] aw fits
    by (simp add: addr_fits_def take_bit_fits)
  have d: "read_data ?L (4 + 2 * ?aw) ?n = Inr (rdata r)"
    using read_data_bytes [of "''S'' @ ?T @ ?C @ ?A" "4 + 2 * ?aw" "rdata r" "?K @ rest"]
    by (simp add: rec_size_def)
  have k: "read_hex ?L (4 + 2 * ?aw + 2 * ?n) 2 = Inr (ucast cs)"
    using read_hex_byte [of "''S'' @ ?T @ ?C @ ?A @ ?D" "4 + 2 * ?aw + 2 * ?n" cs rest] D by simp
  have "Record_FromString ?L = (let ret = \<lparr>rtype = rtype r, raddr = raddr r, rdata = rdata r\<rparr>
     in Inr (if checksum ret = ucast (ucast cs :: u64) then Some ret else None))"
    by (rule FromString_fields [OF _ t t9 _ c byte_count_size [OF wf] n a d k]) (simp_all add: tn)
  moreover have "\<lparr>rtype = rtype r, raddr = raddr r, rdata = rdata r\<rparr> = r" by simp
  ultimately show ?thesis by (simp only: line Let_def ucast_u8_u64_u8)
qed

lemma FromString_ToString:
  "rec_wf r \<Longrightarrow> addr_fits r \<Longrightarrow> Record_FromString (Record_ToString lf r) = Inr (Some r)"
  by (simp add: Record_ToString_line FromString_record_line)

subsection \<open>The checksum\<close>

text \<open>The bytes of a line that the checksum covers.\<close>

definition address_bytes :: "srec \<Rightarrow> u8 list" where
  "address_bytes r = map (\<lambda>i. ucast (drop_bit (8 * i) (raddr r))) (rev [0..<address_width (rtype r)])"

definition covered_bytes :: "srec \<Rightarrow> u8 list" where
  "covered_bytes r = byte_count r # address_bytes r @ rdata r"

lemma ucast_u32_u8_add: "(ucast (a + b :: u32) :: u8) = ucast a + ucast b"
proof -
  have "take_bit 8 (x + y) = take_bit 8 (take_bit 32 x + take_bit 32 y)" for x y :: int
    using take_bit_add [of 8 "take_bit 32 x" "take_bit 32 y"] take_bit_add [of 8 x y] by simp
  then show ?thesis by transfer simp
qed

lemma ucast_u8_u32_u8 [simp]: "ucast (ucast (b :: u8) :: u32) = b"
  by (rule bit_word_eqI) (simp add: bit_simps)

lemma ucast_foldl_sum:
  "(ucast (foldl (\<lambda>s b. s + ucast b) (acc :: u32) bs) :: u8) = ucast acc + sum_list (bs :: u8 list)"
  by (induction bs arbitrary: acc) (simp_all add: ucast_u32_u8_add add.assoc)

lemma ucast_address_parts:
  "(ucast (drop_bit 24 (a AND 0xFF000000) :: u32) :: u8) = ucast (drop_bit 24 a)"
  "(ucast (drop_bit 16 (a AND 0x00FF0000) :: u32) :: u8) = ucast (drop_bit 16 a)"
  "(ucast (drop_bit 8 (a AND 0x0000FF00) :: u32) :: u8) = ucast (drop_bit 8 a)"
  "(ucast (a AND 0x000000FF :: u32) :: u8) = ucast a"
  by (rule bit_word_eqI, auto simp: bit_simps less_Suc_eq numeral_eq_Suc)+

lemma address_bytes_width:
  "address_width (rtype r) = 2 \<Longrightarrow>
     address_bytes r = [ucast (drop_bit 8 (raddr r)), ucast (raddr r)]"
  "address_width (rtype r) = 3 \<Longrightarrow>
     address_bytes r = [ucast (drop_bit 16 (raddr r)), ucast (drop_bit 8 (raddr r)), ucast (raddr r)]"
  "address_width (rtype r) = 4 \<Longrightarrow>
     address_bytes r = [ucast (drop_bit 24 (raddr r)), ucast (drop_bit 16 (raddr r)),
       ucast (drop_bit 8 (raddr r)), ucast (raddr r)]"
  by (simp_all add: address_bytes_def numeral_2_eq_2 numeral_3_eq_3 numeral_eq_Suc)

lemma checksum_complement: "checksum r = NOT (sum_list (covered_bytes r))"
proof -
  have and_FF: "(ucast (x AND 0xFF :: u32) :: u8) = ucast x" for x
    by (rule ucast_address_parts)
  note defs = checksum_def Let_def covered_bytes_def ucast_foldl_sum ucast_u32_u8_add
    ucast_address_parts and_FF
  consider "address_width (rtype r) = 2" | "address_width (rtype r) = 3" | "address_width (rtype r) = 4"
    using address_width_cases [of "rtype r"] by auto
  then show ?thesis
    by cases (simp_all only: defs address_bytes_width, simp_all add: ucast_u32_u8_add
        ucast_address_parts add.assoc)
qed

lemma checksum_total: "sum_list (covered_bytes r) + checksum r = 255"
proof -
  have "x + NOT x = (- 1 :: u8)" for x
    by (simp add: not_eq_complement)
  then show ?thesis by (simp add: checksum_complement)
qed

lemma sum_list_update_word:
  "i < length xs \<Longrightarrow> sum_list (xs[i := b]) = sum_list xs - xs ! i + (b :: 'a::ab_group_add)"
  by (induction xs arbitrary: i) (auto split: nat.split)

lemma checksum_data_update:
  assumes "i < rec_size r" "b \<noteq> rdata r ! i"
  shows "checksum (r\<lparr>rdata := (rdata r)[i := b]\<rparr>) \<noteq> checksum r"
  using assms
  by (simp add: checksum_complement covered_bytes_def address_bytes_def byte_count_def rec_size_def
      sum_list_update_word)

section \<open>Properties\<close>

text \<open>A record that holds at most 32 data bytes and an address that fits the address field of
  its type is read back unchanged from the line printed for it, with or without a line feed, and
  whatever follows the checksum on the line.\<close>

theorem srec_record_roundtrip:
  assumes "rec_wf r" "addr_fits r"
  shows "Record_FromString (Record_ToString lf r @ rest) = Inr (Some r)"
proof -
  have "Record_ToString lf r @ rest = record_line r (checksum r) ((if lf then [newline] else []) @ rest)"
    by (simp add: Record_ToString_line record_line_def)
  then show ?thesis by (simp add: FromString_record_line assms)
qed

lemma srec_record_roundtrip_witness:
  "Record_FromString (Record_ToString True \<lparr>rtype = DATA24, raddr = 0x12ABCD, rdata = [0, 255, 16]\<rparr> @ ''S'')
   = Inr (Some \<lparr>rtype = DATA24, raddr = 0x12ABCD, rdata = [0, 255, 16]\<rparr>)"
  by (rule srec_record_roundtrip) (simp_all add: rec_wf_def rec_size_def MAX_DATA_BYTES_def addr_fits_def)

text \<open>The byte count, the bytes of the address field, the data bytes and the checksum of every
  record add up to 0xFF, which is the rule of the SREC format.\<close>

theorem srec_checksum_rule: "byte_count r + sum_list (address_bytes r) + sum_list (rdata r) + checksum r = 255"
  using checksum_total [of r] by (simp add: covered_bytes_def add.assoc)

text \<open>C36: when one data byte of a printed line is replaced by another value and the checksum of the
  line is kept, the parser rejects the line.\<close>

theorem srec_corruption_rejected:
  assumes "rec_wf r" "addr_fits r" "i < rec_size r" "b \<noteq> rdata r ! i"
  shows "Record_FromString (record_line (r\<lparr>rdata := (rdata r)[i := b]\<rparr>) (checksum r) rest) = Inr None"
proof -
  have "rec_wf (r\<lparr>rdata := (rdata r)[i := b]\<rparr>)" "addr_fits (r\<lparr>rdata := (rdata r)[i := b]\<rparr>)"
    using assms(1,2) by (simp_all add: rec_wf_def rec_size_def addr_fits_def)
  then show ?thesis
    using checksum_data_update [OF assms(3,4)] by (simp add: FromString_record_line)
qed

lemma srec_corruption_rejected_witness:
  "Record_FromString (record_line (\<lparr>rtype = DATA16, raddr = 7, rdata = [1, 2]\<rparr>\<lparr>rdata := [1, 2][1 := 3]\<rparr>)
     (checksum \<lparr>rtype = DATA16, raddr = 7, rdata = [1, 2]\<rparr>) []) = Inr None"
  using srec_corruption_rejected [of "\<lparr>rtype = DATA16, raddr = 7, rdata = [1, 2]\<rparr>" 1 3 "[]"]
  by (simp add: rec_wf_def rec_size_def MAX_DATA_BYTES_def addr_fits_def)

end
