(* ===== verification/Srec_File.thy ===== *)
theory Srec_File
  imports Srec_Record
begin

text \<open>
  SREC files, the \<^verbatim>\<open>File\<close> part of \<^verbatim>\<open>fletchgen/srec/srec.cc\<close>: chopping a memory area
  into records, writing and reading the text form, and rebuilding the memory area. A file
  is the vector \<^verbatim>\<open>records\<close>; an output stream is the text written to it, an input stream
  the text it holds. Memory is a list of bytes; a copy that leaves the destination is
  \<open>Undefined\<close>.
\<close>

section \<open>Line-oriented codecs\<close>

text \<open>
  What a file format with one record per line needs of its records: a record is read back
  from what is printed for it, and no printed record holds a line end.
\<close>

definition read_lines :: "(string \<Rightarrow> 'a option res) \<Rightarrow> string \<Rightarrow> 'a list res" where
  "read_lines parse input = res_mapM (\<lambda>line. res_bind (parse line) (\<lambda>r.
     case r of None \<Rightarrow> Inl Runtime_error | Some x \<Rightarrow> Inr x)) (getlines newline input)"

locale line_codec =
  fixes print :: "'a \<Rightarrow> string"
    and parse :: "string \<Rightarrow> 'a option res"
    and ok :: "'a \<Rightarrow> bool"
  assumes parse_print: "ok x \<Longrightarrow> parse (print x) = Inr (Some x)"
    and print_one_line: "ok x \<Longrightarrow> newline \<notin> set (print x)"
begin

lemma read_printed:
  assumes "\<forall>x\<in>set xs. ok x"
  shows "read_lines parse (concat (map (\<lambda>x. print x @ [newline]) xs)) = Inr xs"
proof -
  have "getlines newline (concat (map (\<lambda>l. l @ [newline]) (map print xs))) = map print xs"
    by (rule getlines_concat) (use assms print_one_line in auto)
  then have "getlines newline (concat (map (\<lambda>x. print x @ [newline]) xs)) = map print xs"
    by (simp add: comp_def)
  moreover have "res_mapM (\<lambda>line. res_bind (parse line) (\<lambda>r.
      case r of None \<Rightarrow> Inl Runtime_error | Some x \<Rightarrow> Inr x)) (map print xs) = Inr xs"
    using assms by (induction xs) (auto simp: parse_print)
  ultimately show ?thesis by (simp add: read_lines_def)
qed

lemma read_printed_inj:
  assumes "\<forall>x\<in>set xs. ok x" "\<forall>x\<in>set ys. ok x"
    "concat (map (\<lambda>x. print x @ [newline]) xs) = concat (map (\<lambda>x. print x @ [newline]) ys)"
  shows "xs = ys"
  by (metis read_printed [OF assms(1)] read_printed [OF assms(2)] assms(3) sum.inject(2))

end

section \<open>Making a file from memory\<close>

function File_chunks :: "u32 \<Rightarrow> u8 list \<Rightarrow> nat \<Rightarrow> nat \<Rightarrow> srec list res" where
  "File_chunks start mem n pos =
    (if pos < n then
       let rec_size = (if 0 < (n - pos) div MAX_DATA_BYTES then MAX_DATA_BYTES
                       else (n - pos) mod MAX_DATA_BYTES)
       in res_bind (Record_Data 32 (of_nat (unat start + pos)) (drop pos mem) rec_size) (\<lambda>rec.
          res_bind (File_chunks start mem n (pos + rec_size)) (\<lambda>recs. Inr (rec # recs)))
     else Inr [])"
  by auto
termination
  by (relation "measure (\<lambda>(_, _, n, pos). n - pos)") (auto simp: MAX_DATA_BYTES_def split: if_splits)

declare File_chunks.simps [simp del]

definition File_new :: "u32 \<Rightarrow> u8 list \<Rightarrow> nat \<Rightarrow> string \<Rightarrow> srec list res" where
  "File_new start mem n header_str =
    res_bind (Record_Header header_str 0) (\<lambda>header.
    res_bind (File_chunks start mem n 0) (\<lambda>recs. Inr (header # recs)))"

section \<open>Text form\<close>

definition File_write :: "bool \<Rightarrow> srec list \<Rightarrow> string res" where
  "File_write good records =
    (if good then Inr (concat (map (Record_ToString True) records)) else Inl Exited)"

definition File_read :: "string \<Rightarrow> srec list res" where
  "File_read input = read_lines Record_FromString input"

section \<open>Rebuilding the memory\<close>

definition memcpy_at :: "u8 list \<Rightarrow> nat \<Rightarrow> u8 list \<Rightarrow> u8 list res" where
  "memcpy_at buf off src =
    (if length buf < off + length src then Inl Undefined
     else Inr (take off buf @ src @ drop (off + length src) buf))"

definition top_record :: "srec list \<Rightarrow> u32 \<times> srec option" where
  "top_record records = foldl (\<lambda>(top_addr, top_rec) r.
     if top_addr < raddr r then (raddr r, Some r) else (top_addr, top_rec)) (0, None) records"

fun copy_records :: "u8 list \<Rightarrow> srec list \<Rightarrow> u8 list res" where
  "copy_records buf [] = Inr buf"
| "copy_records buf (r # rs) =
    res_bind (memcpy_at buf (unat (raddr r)) (rdata r)) (\<lambda>buf'. copy_records buf' rs)"

text \<open>The buffer (None is the null pointer) and its size.\<close>

definition File_ToBuffer :: "srec list \<Rightarrow> (u8 list option \<times> nat) res" where
  "File_ToBuffer records =
    (case top_record records of
       (top_addr, Some top_rec) \<Rightarrow>
         let sz = unat top_addr + rec_size top_rec
         in res_bind (copy_records (replicate sz 0) records) (\<lambda>buf. Inr (Some buf, sz))
     | (_, None) \<Rightarrow> Inr (None, 0))"

section \<open>The chunks of a file\<close>

text \<open>The records of a memory area, written without positions.\<close>

function chunk_records :: "nat \<Rightarrow> u8 list \<Rightarrow> srec list" where
  "chunk_records a bs = (if bs = [] then []
     else \<lparr>rtype = DATA32, raddr = of_nat a, rdata = take 32 bs\<rparr> # chunk_records (a + 32) (drop 32 bs))"
  by auto
termination by (relation "measure (\<lambda>(_, bs). length bs)") auto

declare chunk_records.simps [simp del]

lemma File_chunks_records:
  assumes "n \<le> length mem" "pos \<le> n"
  shows "File_chunks start mem n pos = Inr (chunk_records (unat start + pos) (drop pos (take n mem)))"
  using assms
proof (induction start mem n pos rule: File_chunks.induct)
  case (1 start mem n pos)
  show ?case
  proof (cases "pos < n")
    case False
    then show ?thesis using 1 by (simp add: File_chunks.simps chunk_records.simps)
  next
    case True
    define k where "k = (if 0 < (n - pos) div MAX_DATA_BYTES then MAX_DATA_BYTES
        else (n - pos) mod MAX_DATA_BYTES)"
    have k: "k = min 32 (n - pos)"
      by (auto simp: k_def MAX_DATA_BYTES_def min_def div_eq_0_iff)
    have rec: "Record_Data 32 (of_nat (unat start + pos)) (drop pos mem) k
        = Inr \<lparr>rtype = DATA32, raddr = of_nat (unat start + pos), rdata = take k (drop pos mem)\<rparr>"
      using 1 k by (simp add: Record_Data_def Record_new_ok)
    have take: "take k (drop pos mem) = take 32 (drop pos (take n mem))"
      by (simp add: k drop_take)
    have IH: "File_chunks start mem n (pos + k)
        = Inr (chunk_records (unat start + (pos + k)) (drop (pos + k) (take n mem)))"
      by (rule 1(1) [OF True k_def rec 1(2)]) (use 1 True k in simp)
    show ?thesis
    proof (cases "32 \<le> n - pos")
      case big: True
      then have "k = 32" using k by simp
      then show ?thesis
        using rec IH take True 1 by (subst File_chunks.simps, subst chunk_records.simps)
          (simp add: k_def [symmetric] Let_def ac_simps)
    next
      case False
      then have kn: "pos + k = n" using k True by simp
      then have "chunk_records (unat start + (pos + k)) (drop (pos + k) (take n mem)) = []"
        by (simp add: chunk_records.simps)
      moreover have "chunk_records (unat start + pos + 32) (drop 32 (drop pos (take n mem))) = []"
        using False by (simp add: chunk_records.simps)
      ultimately show ?thesis
        using rec IH take True 1 by (subst File_chunks.simps, subst chunk_records.simps)
          (simp add: k_def [symmetric] Let_def)
    qed
  qed
qed

lemma chunk_records_ok: "a + length bs \<le> 2 ^ 32 \<Longrightarrow> r \<in> set (chunk_records a bs) \<Longrightarrow>
  rec_wf r \<and> addr_fits r"
proof (induction a bs rule: chunk_records.induct)
  case (1 a bs)
  show ?case
  proof (cases "r \<in> set (chunk_records (a + 32) (drop 32 bs))")
    case True
    then show ?thesis
      using 1 by (cases "bs = []"; cases "32 \<le> length bs")
        (auto simp: chunk_records.simps [of _ "[]"])
  next
    case False
    then show ?thesis
      using "1.prems" unat_lt_u32 [of "of_nat a"]
      by (subst (asm) chunk_records.simps)
        (auto simp: rec_wf_def rec_size_def MAX_DATA_BYTES_def addr_fits_def split: if_splits)
  qed
qed

lemma top_record_chunks:
  assumes "bs \<noteq> []" "unat ta < a" "a + length bs \<le> 2 ^ 32"
  obtains top r where
    "foldl (\<lambda>(top_addr, top_rec) r. if top_addr < raddr r then (raddr r, Some r) else (top_addr, top_rec))
       (ta, tr) (chunk_records a bs) = (top, Some r)"
    "unat top + rec_size r = a + length bs"
  using assms
proof (induction a bs arbitrary: ta tr thesis rule: chunk_records.induct)
  case (1 a bs)
  have a: "unat (of_nat a :: u32) = a"
    using 1 by (intro unat_of_nat_small) (cases bs; simp)
  have gt: "ta < of_nat a" using 1 a by (simp add: word_less_nat_alt)
  show ?case
  proof (cases "drop 32 bs = []")
    case True
    then have "chunk_records a bs = [\<lparr>rtype = DATA32, raddr = of_nat a, rdata = bs\<rparr>]"
      using 1 by (subst chunk_records.simps) (simp add: chunk_records.simps [of _ "[]"])
    then show ?thesis using 1 gt a by (auto simp: rec_size_def)
  next
    case False
    have "a + 32 + length (drop 32 bs) = a + length bs" using False by simp
    then obtain top r where tr: "foldl (\<lambda>(top_addr, top_rec) r. if top_addr < raddr r then (raddr r, Some r) else (top_addr, top_rec))
       (of_nat a, Some \<lparr>rtype = DATA32, raddr = of_nat a, rdata = take 32 bs\<rparr>)
       (chunk_records (a + 32) (drop 32 bs)) = (top, Some r)" "unat top + rec_size r = a + length bs"
      using 1 False a by (metis (no_types, lifting) less_add_same_cancel1 zero_less_numeral)
    show ?thesis
      by (rule 1(2) [of top r]) (use 1 gt tr in \<open>simp_all add: chunk_records.simps [of a bs]\<close>)
  qed
qed

lemma copy_chunks:
  assumes "a + length bs \<le> 2 ^ 32" "a + length bs \<le> length buf"
  shows "copy_records buf (chunk_records a bs) = Inr (take a buf @ bs @ drop (a + length bs) buf)"
  using assms
proof (induction a bs arbitrary: buf rule: chunk_records.induct)
  case (1 a bs)
  show ?case
  proof (cases "bs = []")
    case True
    then show ?thesis by (simp add: chunk_records.simps)
  next
    case False
    have a: "unat (of_nat a :: u32) = a"
      using 1 False by (intro unat_of_nat_small) (cases bs; simp)
    let ?c = "take 32 bs"
    let ?buf = "take a buf @ ?c @ drop (a + length ?c) buf"
    have head: "memcpy_at buf a ?c = Inr ?buf"
      using 1 by (auto simp: memcpy_at_def)
    show ?thesis
    proof (cases "length bs \<le> 32")
      case True
      then show ?thesis
        using False a head by (subst chunk_records.simps) (simp add: chunk_records.simps [of _ "[]"])
    next
      case big: False
      then have "copy_records ?buf (chunk_records (a + 32) (drop 32 bs))
          = Inr (take (a + 32) ?buf @ drop 32 bs @ drop (a + 32 + length (drop 32 bs)) ?buf)"
        using 1 False by (intro 1(1)) simp_all
      also have "\<dots> = Inr (take a buf @ bs @ drop (a + length bs) buf)"
      proof -
        have "length (take a buf) = a" "length ?c = 32" using big 1 by simp_all
        then have "take (a + 32) ?buf = take a buf @ ?c"
          and "drop (a + 32 + length (drop 32 bs)) ?buf = drop (a + length bs) buf"
          using big by (simp_all add: add.commute)
        moreover have "?c @ drop 32 bs = bs" by simp
        ultimately show ?thesis by (simp only: append.assoc) (simp only: append.assoc [symmetric])
      qed
      finally show ?thesis
        using False a head by (subst chunk_records.simps) simp
    qed
  qed
qed

section \<open>Files\<close>

lemma substr_header: "substr s 0 (max n (length s)) = Inr s"
  by simp

lemma Record_Header_ok:
  "length h \<le> 32 \<Longrightarrow>
   Record_Header h addr = Inr \<lparr>rtype = HEADER, raddr = ucast addr, rdata = map char_byte h\<rparr>"
  by (simp add: Record_Header_def Record_new_ok)

lemma Record_Header_long: "32 < length h \<Longrightarrow> Record_Header h addr = Inl Domain_error"
  by (simp add: Record_Header_def Record_new_def MAX_DATA_BYTES_def)

abbreviation file_records :: "u32 \<Rightarrow> u8 list \<Rightarrow> string \<Rightarrow> srec list" where
  "file_records start bs h \<equiv> \<lparr>rtype = HEADER, raddr = 0, rdata = map char_byte h\<rparr> # chunk_records (unat start) bs"

lemma File_new_ok:
  "n \<le> length mem \<Longrightarrow> length h \<le> 32 \<Longrightarrow>
   File_new start mem n h = Inr (file_records start (take n mem) h)"
  by (simp add: File_new_def Record_Header_ok File_chunks_records)

lemma not_newline_digits: "\<forall>d\<in>set ds. d < 36 \<Longrightarrow> newline \<notin> set (map (digit_char up) ds)"
  using digit_char_neq(4) [of _ up] by (auto simp: eq_commute [of newline])

lemma PutHex_no_newline [simp]: "newline \<notin> set (PutHex v w)"
proof -
  have "newline \<noteq> CHR ''0''" by (simp add: newline_def)
  moreover have "newline \<notin> set (show_hex up n)" for up n
    unfolding show_hex_def using digits_bound [of 16] by (intro not_newline_digits) fastforce
  ultimately show ?thesis by (auto simp: PutHex_def setw_def)
qed

lemma ToString_one_line: "newline \<notin> set (Record_ToString False r)"
proof -
  have "newline \<notin> set (show_nat n)" for n
    unfolding show_nat_def using digits_bound [of 10] by (intro not_newline_digits) fastforce
  moreover have "newline \<noteq> CHR ''S''" by (simp add: newline_def)
  ultimately show ?thesis by (auto simp: Record_ToString_def)
qed

lemma ToString_True: "Record_ToString True r = Record_ToString False r @ [newline]"
  by (simp add: Record_ToString_def)

interpretation srec_codec: line_codec "Record_ToString False" Record_FromString "\<lambda>r. rec_wf r \<and> addr_fits r"
  by unfold_locales (auto simp: FromString_ToString ToString_one_line)

lemma File_read_write:
  assumes "\<forall>r\<in>set rs. rec_wf r \<and> addr_fits r" "File_write good rs = Inr out"
  shows "File_read out = Inr rs"
  using srec_codec.read_printed [OF assms(1)] assms(2)
  by (auto simp: File_write_def File_read_def ToString_True [abs_def] split: if_splits)

lemma file_records_ok:
  "length h \<le> 32 \<Longrightarrow> unat start + length bs \<le> 2 ^ 32 \<Longrightarrow>
   \<forall>r\<in>set (file_records start bs h). rec_wf r \<and> addr_fits r"
  using chunk_records_ok [of "unat start" bs]
  by (auto simp: rec_wf_def rec_size_def MAX_DATA_BYTES_def addr_fits_def)

text \<open>The text of a file and what is read back from it.\<close>

lemma File_text_roundtrip:
  assumes "n \<le> length mem" "length h \<le> 32" "unat start + n \<le> 2 ^ 32"
  obtains out where "res_bind (File_new start mem n h) (File_write True) = Inr out"
    and "File_read out = Inr (file_records start (take n mem) h)"
proof -
  let ?rs = "file_records start (take n mem) h"
  have "File_read (concat (map (Record_ToString True) ?rs)) = Inr ?rs"
    by (rule File_read_write [where good = True, OF file_records_ok])
      (use assms in \<open>simp_all add: File_write_def\<close>)
  then show ?thesis
    using assms by (intro that) (simp_all add: File_new_ok File_write_def)
qed

lemma memcpy_at_0: "length src \<le> length buf \<Longrightarrow> memcpy_at buf 0 src = Inr (src @ drop (length src) buf)"
  by (simp add: memcpy_at_def)

lemma ToBuffer_file_above_0:
  assumes "bs \<noteq> []" "0 < start" "unat start + length bs \<le> 2 ^ 32" "length h \<le> unat start + length bs"
  shows "File_ToBuffer (file_records start bs h) =
    Inr (Some (take (unat start) (map char_byte h @ replicate (unat start) 0) @ bs), unat start + length bs)"
proof -
  have gt: "unat (0::u32) < unat start" using assms(2) by (simp add: unat_gt_0)
  obtain top r where top: "top_record (file_records start bs h) = (top, Some r)"
      "unat top + rec_size r = unat start + length bs"
    by (rule top_record_chunks [OF assms(1) gt assms(3), of None]) (simp add: top_record_def)
  let ?n = "unat start + length bs"
  have "copy_records (map char_byte h @ drop (length h) (replicate ?n 0)) (chunk_records (unat start) bs)
      = Inr (take (unat start) (map char_byte h @ drop (length h) (replicate ?n 0)) @ bs)"
    using copy_chunks [OF assms(3), of "map char_byte h @ drop (length h) (replicate ?n 0)"] assms(4)
    by simp
  moreover have "take (unat start) (map char_byte h @ drop (length h) (replicate ?n 0))
      = take (unat start) (map char_byte h @ replicate (unat start) 0)"
    by (simp add: min_def)
  ultimately show ?thesis
    using top assms(4) by (simp add: File_ToBuffer_def Let_def memcpy_at_0)
qed

lemma ToBuffer_file_at_0:
  assumes "32 < length bs" "length bs \<le> 2 ^ 32" "length h \<le> 32"
  shows "File_ToBuffer (file_records 0 bs h) = Inr (Some bs, length bs)"
proof -
  have cr: "chunk_records 0 bs = \<lparr>rtype = DATA32, raddr = 0, rdata = take 32 bs\<rparr> # chunk_records 32 (drop 32 bs)"
    using assms by (subst chunk_records.simps) auto
  have *: "drop 32 bs \<noteq> []" "unat (0::u32) < 32" "32 + length (drop 32 bs) \<le> 2 ^ 32"
    using assms by auto
  obtain top r where top: "top_record (file_records 0 bs h) = (top, Some r)"
      "unat top + rec_size r = length bs"
    by (rule top_record_chunks [OF *, of None]) (use assms in \<open>simp add: top_record_def cr\<close>)
  have "copy_records (map char_byte h @ drop (length h) (replicate (length bs) 0)) (chunk_records 0 bs)
      = Inr bs"
    using copy_chunks [of 0 bs "map char_byte h @ drop (length h) (replicate (length bs) 0)"] assms by simp
  then show ?thesis
    using top assms by (simp add: File_ToBuffer_def Let_def memcpy_at_0)
qed

text \<open>Records at address 0 never become the top record.\<close>

lemma ToBuffer_file_single:
  assumes "length bs \<le> 32"
  shows "File_ToBuffer (file_records 0 bs h) = Inr (None, 0)"
proof (cases "bs = []")
  case True
  then show ?thesis by (simp add: File_ToBuffer_def top_record_def chunk_records.simps)
next
  case False
  then have "chunk_records 0 bs = [\<lparr>rtype = DATA32, raddr = 0, rdata = bs\<rparr>]"
    using assms by (subst chunk_records.simps) (simp add: chunk_records.simps [of _ "[]"])
  then show ?thesis by (simp add: File_ToBuffer_def top_record_def)
qed

section \<open>Properties\<close>

text \<open>C10: more than 32 and at most \<open>2 ^ 32\<close> bytes of memory, written as an SREC file that starts at
  address 0 with a header of at most 32 characters, parsed again and turned back into a buffer, give
  the same bytes.\<close>

theorem srec_file_roundtrip:
  assumes "32 < n" "n \<le> 2 ^ 32" "n \<le> length mem" "length h \<le> 32"
  shows "res_bind (res_bind (res_bind (File_new 0 mem n h) (File_write True)) File_read) File_ToBuffer
       = Inr (Some (take n mem), n)"
proof -
  obtain out where "res_bind (File_new 0 mem n h) (File_write True) = Inr out"
    "File_read out = Inr (file_records 0 (take n mem) h)"
    by (rule File_text_roundtrip [of n mem h 0]) (use assms in simp_all)
  then show ?thesis using ToBuffer_file_at_0 [of "take n mem" h] assms by simp
qed

lemma srec_file_roundtrip_witness:
  "res_bind (res_bind (res_bind (File_new 0 (replicate 40 7) 33 ''HDR'') (File_write True)) File_read) File_ToBuffer
   = Inr (Some (take 33 (replicate 40 7)), 33)"
  by (rule srec_file_roundtrip) simp_all

text \<open>For a file that starts above address 0 the rebuilt buffer has the data at its start address;
  the bytes below it are those of the header text, padded with zeros and cut at the start address.\<close>

theorem srec_file_above_zero:
  assumes "0 < n" "n \<le> length mem" "0 < start" "unat start + n \<le> 2 ^ 32" "length h \<le> min 32 (unat start + n)"
  shows "res_bind (File_new start mem n h) File_ToBuffer =
    Inr (Some (take (unat start) (map char_byte h @ replicate (unat start) 0) @ take n mem), unat start + n)"
  using ToBuffer_file_above_0 [of "take n mem" start h] assms by (cases "mem = []") (simp_all add: File_new_ok)

lemma srec_file_above_zero_witness:
  "res_bind (File_new 8 [1, 2] 2 ''HDR'') File_ToBuffer =
    Inr (Some (take (unat (8 :: u32)) (map char_byte ''HDR'' @ replicate (unat (8 :: u32)) 0) @ take 2 [1, 2]),
      unat (8 :: u32) + 2)"
  by (rule srec_file_above_zero) simp_all

text \<open>A memory area of at most 32 bytes written at address 0 is lost on the way back: the rebuilt
  buffer is the null pointer with size 0, because the search for the top record starts at address 0 and
  only takes records strictly above it.\<close>

theorem srec_small_file_lost:
  assumes "n \<le> 32" "n \<le> length mem" "length h \<le> 32"
  shows "res_bind (File_new 0 mem n h) File_ToBuffer = Inr (None, 0)"
  using ToBuffer_file_single [of "take n mem" h] assms by (simp add: File_new_ok)

lemma srec_small_file_lost_witness: "res_bind (File_new 0 [1, 2, 3] 3 ''HDR'') File_ToBuffer = Inr (None, 0)"
  by (rule srec_small_file_lost) simp_all

text \<open>A header text of more than 32 characters is not chopped, as the documentation of the
  function says, but makes the construction of the file fail.\<close>

theorem srec_long_header_throws:
  assumes "32 < length h"
  shows "File_new start mem n h = Inl Domain_error"
  using assms by (simp add: File_new_def Record_Header_long)

lemma srec_long_header_throws_witness: "File_new 0 [1] 1 (replicate 33 (CHR ''x'')) = Inl Domain_error"
  by (rule srec_long_header_throws) simp

end
