(* ===== verification/Meta.thy ===== *)
theory Meta
  imports Cxx_Text
begin

text \<open>
  The values of Arrow types, fields and schemas that the sources read, the Fletcher metadata
  on them, and \<^verbatim>\<open>fletcher/common/cpp/src/fletcher/arrow-utils.cc\<close>. Arrow is not part of the
  repository: a type is its structure (a list type has a vector of children as
  \<^verbatim>\<open>num_children()\<close> and \<^verbatim>\<open>child(i)\<close> give them), the metadata of a field or schema is the list
  of key and value pairs that \<^verbatim>\<open>ToUnorderedMap\<close> puts in a map (None is the null pointer), and
  Arrow's file functions are parameters.
\<close>

section \<open>Arrow types and fields\<close>

datatype fixed_kind =
    INT8 | INT16 | INT32 | INT64 | UINT8 | UINT16 | UINT32 | UINT64
  | HALF_FLOAT | FLOAT | DOUBLE | DATE32 | DATE64 | TIMESTAMP | TIME32 | TIME64
  | FIXED_SIZE_BINARY nat | DECIMAL128

type_synonym metadata = "(string \<times> string) list option"

text \<open>\<open>OTHER\<close> stands for every type the visitors of the sources do not handle.\<close>

datatype arrow_field = Field (field_name: string) (field_type: arrow_type) (field_nullable: bool)
    (field_metadata: metadata)
  and arrow_type = FIXED fixed_kind | BOOL | STRING | BINARY
    | LIST "arrow_field list" | STRUCT "arrow_field list" | OTHER string

record arrow_schema =
  schema_fields :: "arrow_field list"
  schema_metadata :: metadata

fun type_children :: "arrow_type \<Rightarrow> arrow_field list" where
  "type_children (LIST fs) = fs"
| "type_children (STRUCT fs) = fs"
| "type_children _ = []"

section \<open>Keys and values of the metadata\<close>

definition meta_NAME :: string where "meta_NAME = ''fletcher_name''"
definition meta_MODE :: string where "meta_MODE = ''fletcher_mode''"
definition meta_READ :: string where "meta_READ = ''read''"
definition meta_WRITE :: string where "meta_WRITE = ''write''"
definition meta_BUS_SPEC :: string where "meta_BUS_SPEC = ''fletcher_bus_spec''"
definition meta_PROFILE :: string where "meta_PROFILE = ''fletcher_profile''"
definition meta_IGNORE :: string where "meta_IGNORE = ''fletcher_ignore''"
definition meta_VALUE_EPC :: string where "meta_VALUE_EPC = ''fletcher_epc''"
definition meta_LIST_EPC :: string where "meta_LIST_EPC = ''fletcher_lepc''"
definition meta_TAG_WIDTH :: string where "meta_TAG_WIDTH = ''fletcher_tag_width''"

lemmas meta_keys = meta_NAME_def meta_MODE_def meta_READ_def meta_WRITE_def meta_BUS_SPEC_def
  meta_PROFILE_def meta_IGNORE_def meta_VALUE_EPC_def meta_LIST_EPC_def meta_TAG_WIDTH_def

datatype mode = READ | WRITE

section \<open>Reading metadata\<close>

definition lookup_meta :: "metadata \<Rightarrow> string \<Rightarrow> string" where
  "lookup_meta md key = (case md of
      None \<Rightarrow> ''''
    | Some kvs \<Rightarrow> (case map_of kvs key of Some v \<Rightarrow> v | None \<Rightarrow> ''''))"

definition GetMeta_schema :: "arrow_schema \<Rightarrow> string \<Rightarrow> string" where
  "GetMeta_schema schema key = lookup_meta (schema_metadata schema) key"

definition GetMeta :: "arrow_field \<Rightarrow> string \<Rightarrow> string" where
  "GetMeta f key = lookup_meta (field_metadata f) key"

definition GetMode :: "arrow_schema \<Rightarrow> mode" where
  "GetMode schema = (if GetMeta_schema schema meta_MODE = ''write'' then WRITE else READ)"

text \<open>The local \<^verbatim>\<open>ret\<close> is an \<^verbatim>\<open>int\<close>: the value read is cut to 32 bits and sign-extended.\<close>

definition GetUIntMeta :: "arrow_field \<Rightarrow> string \<Rightarrow> u32 \<Rightarrow> u64 res" where
  "GetUIntMeta f key default_to =
    (let ret = default_to; str = GetMeta f key in
     if str \<noteq> '''' then res_bind (stoul str 10) (\<lambda>v. Inr (scast (ucast v :: u32)))
     else Inr (scast ret))"

definition GetIntMeta :: "arrow_field \<Rightarrow> string \<Rightarrow> u32 \<Rightarrow> int res" where
  "GetIntMeta f key default_to =
    (let ret = default_to; str = GetMeta f key in
     if str \<noteq> '''' then res_bind (stol str 10) (\<lambda>v. Inr (sint (of_int v :: u32)))
     else Inr (sint ret))"

definition GetBoolMeta :: "arrow_field \<Rightarrow> string \<Rightarrow> bool \<Rightarrow> bool" where
  "GetBoolMeta f key default_to =
    (let str = GetMeta f key in
     if str \<noteq> '''' \<and> str = ''true'' then True
     else if str \<noteq> '''' \<and> str = ''false'' then False
     else default_to)"

section \<open>Attaching metadata\<close>

text \<open>Arrow's \<^verbatim>\<open>WithMetadata\<close> replaces the metadata.\<close>

definition WithMetadata_schema :: "arrow_schema \<Rightarrow> (string \<times> string) list \<Rightarrow> arrow_schema" where
  "WithMetadata_schema s kvs = s\<lparr>schema_metadata := Some kvs\<rparr>"

fun WithMetadata :: "arrow_field \<Rightarrow> (string \<times> string) list \<Rightarrow> arrow_field" where
  "WithMetadata (Field n t nl _) kvs = Field n t nl (Some kvs)"

definition WithMetaRequired :: "arrow_schema \<Rightarrow> string \<Rightarrow> mode \<Rightarrow> arrow_schema" where
  "WithMetaRequired schema schema_name md =
    WithMetadata_schema schema (zip [meta_NAME, meta_MODE]
      ([schema_name] @ (if md = READ then [meta_READ] else [meta_WRITE])))"

definition WithMetaBusSpec ::
    "arrow_schema \<Rightarrow> int \<Rightarrow> int \<Rightarrow> int \<Rightarrow> int \<Rightarrow> int \<Rightarrow> int \<Rightarrow> arrow_schema" where
  "WithMetaBusSpec schema aw dw sw lw bs bm =
    WithMetadata_schema schema [(meta_BUS_SPEC,
      show_int aw @ '','' @ show_int aw @ '','' @ show_int dw @ '','' @ show_int sw @ '','' @
      show_int lw @ '','' @ show_int bs @ '','' @ show_int bm)]"

definition WithMetaEPC :: "arrow_field \<Rightarrow> int \<Rightarrow> arrow_field" where
  "WithMetaEPC f epc = WithMetadata f [(meta_VALUE_EPC, show_int epc)]"

definition WithMetaIgnore :: "arrow_field \<Rightarrow> arrow_field" where
  "WithMetaIgnore f = WithMetadata f [(meta_IGNORE, ''true'')]"

definition WithMetaProfile :: "arrow_field \<Rightarrow> arrow_field" where
  "WithMetaProfile f = WithMetadata f [(meta_PROFILE, ''true'')]"

section \<open>Joining strings\<close>

definition strvec_ToString :: "string list \<Rightarrow> string \<Rightarrow> string" where
  "strvec_ToString strvec sep =
    foldl (\<lambda>result s. (result @ s) @ (if s \<noteq> last strvec then sep else [])) [] strvec"

fun join :: "string \<Rightarrow> string list \<Rightarrow> string" where
  "join sep [] = []"
| "join sep [s] = s"
| "join sep (s # t # ss) = s @ sep @ join sep (t # ss)"

section \<open>Schema and record batch files\<close>

text \<open>
  The Arrow functions on files, for files of type \<open>'f\<close>, readers of type \<open>'r\<close> and record batches
  of type \<open>'b\<close>; None is a status that is not OK. Writing yields the new contents.
\<close>

record ('f, 'r, 'b) arrow_io =
  io_open_readable :: "string \<Rightarrow> 'f option"
  io_ReadSchema :: "'f \<Rightarrow> arrow_schema option"
  io_open_reader :: "'f \<Rightarrow> 'r option"
  io_num_record_batches :: "'r \<Rightarrow> nat"
  io_ReadRecordBatch :: "'r \<Rightarrow> nat \<Rightarrow> 'b option"
  io_AllocateResizableBuffer :: "nat \<Rightarrow> u8 list option"
  io_SerializeSchema :: "arrow_schema \<Rightarrow> u8 list option"
  io_open_output :: "string \<Rightarrow> 'f option"
  io_Write :: "'f \<Rightarrow> u8 list \<Rightarrow> 'f option"
  io_NewFileWriter :: "'f \<Rightarrow> 'b \<Rightarrow> 'f option"
  io_WriteRecordBatch :: "'f \<Rightarrow> 'b \<Rightarrow> 'f option"
  io_CloseWriter :: "'f \<Rightarrow> 'f"

definition ReadSchemaFromFile :: "('f, 'r, 'b) arrow_io \<Rightarrow> string \<Rightarrow> arrow_schema res" where
  "ReadSchemaFromFile io file_name =
    (case io_open_readable io file_name of
       None \<Rightarrow> Inl Exited
     | Some fis \<Rightarrow> (case io_ReadSchema io fis of
         Some schema \<Rightarrow> Inr schema
       | None \<Rightarrow> Inl Exited))"

definition WriteSchemaToFile :: "('f, 'r, 'b) arrow_io \<Rightarrow> string \<Rightarrow> arrow_schema \<Rightarrow> 'f res" where
  "WriteSchemaToFile io file_name schema =
    (case io_AllocateResizableBuffer io 0 of
       None \<Rightarrow> Inl Runtime_error
     | Some _ \<Rightarrow> (case io_SerializeSchema io schema of
         None \<Rightarrow> Inl Runtime_error
       | Some buffer \<Rightarrow> (case io_open_output io file_name of
           None \<Rightarrow> Inl Runtime_error
         | Some fos \<Rightarrow> (case io_Write io fos buffer of
             None \<Rightarrow> Inl Runtime_error
           | Some fos' \<Rightarrow> Inr fos'))))"

text \<open>\<^verbatim>\<open>ValueOrDie\<close> of a failed result aborts the process.\<close>

fun write_batches :: "('f, 'r, 'b) arrow_io \<Rightarrow> 'f \<Rightarrow> 'b list \<Rightarrow> 'f res" where
  "write_batches io f [] = Inr f"
| "write_batches io f (rb # rbs) =
    (case io_NewFileWriter io f rb of
       None \<Rightarrow> Inl Exited
     | Some f1 \<Rightarrow> (case io_WriteRecordBatch io f1 rb of
         None \<Rightarrow> Inl Runtime_error
       | Some f2 \<Rightarrow> write_batches io (io_CloseWriter io f2) rbs))"

definition WriteRecordBatchesToFile :: "('f, 'r, 'b) arrow_io \<Rightarrow> string \<Rightarrow> 'b list \<Rightarrow> 'f res" where
  "WriteRecordBatchesToFile io filename recordbatches =
    (case io_open_output io filename of
       None \<Rightarrow> Inl Exited
     | Some f \<Rightarrow> write_batches io f recordbatches)"

text \<open>The output vector is extended; what it held before is \<open>out\<close>.\<close>

definition ReadRecordBatchesFromFile ::
    "('f, 'r, 'b) arrow_io \<Rightarrow> string \<Rightarrow> 'b list \<Rightarrow> 'b list res" where
  "ReadRecordBatchesFromFile io file_name out =
    (case io_open_readable io file_name of
       None \<Rightarrow> Inl Exited
     | Some f \<Rightarrow> (case io_open_reader io f of
         None \<Rightarrow> Inl Exited
       | Some r \<Rightarrow> res_bind (res_mapM (\<lambda>i. case io_ReadRecordBatch io r i of
             Some rb \<Rightarrow> Inr rb | None \<Rightarrow> Inl Exited) [0..<io_num_record_batches io r])
           (\<lambda>rbs. Inr (out @ rbs))))"

section \<open>Lemmas\<close>

lemma strvec_fold: "foldl (\<lambda>result s. (result @ s) @ g s) acc xs = acc @ concat (map (\<lambda>s. s @ g s) xs)"
  by (induction xs arbitrary: acc) auto

lemma strvec_concat:
  "strvec_ToString xs sep = concat (map (\<lambda>s. s @ (if s \<noteq> last xs then sep else [])) xs)"
  by (simp only: strvec_ToString_def strvec_fold append_Nil)

lemma concat_join:
  "\<forall>s\<in>set (butlast xs). s \<noteq> z \<Longrightarrow> xs \<noteq> [] \<Longrightarrow> last xs = z \<Longrightarrow>
   concat (map (\<lambda>s. s @ (if s \<noteq> z then sep else [])) xs) = join sep xs"
  by (induction sep xs rule: join.induct) auto

lemma GetMode_WithMetaRequired: "GetMode (WithMetaRequired s n m) = m"
  by (cases m) (simp_all add: GetMode_def WithMetaRequired_def WithMetadata_schema_def
      GetMeta_schema_def lookup_meta_def meta_keys)

lemma GetName_WithMetaRequired: "GetMeta_schema (WithMetaRequired s n m) meta_NAME = n"
  by (simp add: WithMetaRequired_def WithMetadata_schema_def GetMeta_schema_def lookup_meta_def meta_keys)

lemma read_nat_meta:
  assumes "n < 2 ^ 31"
  shows "scast (ucast (of_nat n :: u64) :: u32) = (of_nat n :: u64)"
proof -
  have "ucast (of_nat n :: u64) = (of_nat n :: u32)"
    using assms by (intro word_unat_eq_iff [THEN iffD2]) (simp add: unsigned_ucast_eq take_bit_nat_eq_self)
  moreover have "sint (of_nat n :: u32) = int n"
    using assms by (simp add: signed_of_nat signed_take_bit_int_eq_self)
  then have "(of_int (sint (of_nat n :: u32)) :: u64) = of_nat n" by simp
  ultimately show ?thesis by (metis of_int_sint)
qed

lemma GetUIntMeta_WithMetaEPC:
  assumes "n < 2 ^ 31"
  shows "GetUIntMeta (WithMetaEPC f (int n)) meta_VALUE_EPC d = Inr (of_nat n)"
  using assms
  by (cases f) (simp add: GetUIntMeta_def WithMetaEPC_def GetMeta_def lookup_meta_def show_int_def
      stoul_show_nat read_nat_meta)

end
