(* ===== verification/Batch_Desc.thy ===== *)
theory Batch_Desc
  imports Meta
begin

text \<open>
  Descriptions of record batches: the structures of \<^verbatim>\<open>fletcher/arrow-utils.h\<close>, the analyzer of
  physical record batches (\<^verbatim>\<open>arrow-recordbatch.cc\<close>) and that of schemas (\<^verbatim>\<open>arrow-schema.cc\<close>),
  which lists the buffers a batch of the schema is expected to have. The visitors of the
  sources keep the current buffer name, the nesting level and the output in member variables;
  here these are the fields of a state that the visits pass on. The member \<^verbatim>\<open>field\<close> of the
  record batch analyzer is set right before each visit and read only on entry, so it is an
  argument of the visit.
\<close>

section \<open>Descriptions\<close>

record buffer_metadata =
  raw_buffer :: u64
  buf_size :: int
  buf_desc :: "string list"
  buf_level :: int
  buf_implicit :: bool

record field_metadata_desc =
  fm_type :: arrow_type
  fm_length :: int
  fm_null_count :: int
  fm_buffers :: "buffer_metadata list"

record batch_description =
  bd_name :: string
  bd_rows :: int
  bd_fields :: "field_metadata_desc list"
  bd_mode :: mode
  bd_virtual :: bool

definition mk_buffer :: "u64 \<Rightarrow> int \<Rightarrow> string list \<Rightarrow> int \<Rightarrow> bool \<Rightarrow> buffer_metadata" where
  "mk_buffer raw sz desc lvl impl =
    \<lparr>raw_buffer = raw, buf_size = sz, buf_desc = desc, buf_level = lvl, buf_implicit = impl\<rparr>"

definition batch_ToString :: "batch_description \<Rightarrow> string" where
  "batch_ToString d = concat (map (\<lambda>f. concat (map (\<lambda>b.
      setw (CHR '' '') (nat (2 * buf_level b)) '':'' @ strvec_ToString (buf_desc b) ''_'' @ '':'' @
      show_int (buf_size b) @ [newline]) (fm_buffers f))) (bd_fields d))"

text \<open>The status a visit returns. \<open>Not_implemented\<close> is what Arrow's visitors return for the types that the sources give no visit for.\<close>

datatype visit_status = Visit_ok | Type_error | Not_implemented

section \<open>Analyzing schemas\<close>

record analyzer =
  an_buffers :: "buffer_metadata list"
  an_level :: int
  an_name :: "string list"

definition an_emplace :: "u64 \<Rightarrow> int \<Rightarrow> string \<Rightarrow> bool \<Rightarrow> analyzer \<Rightarrow> analyzer" where
  "an_emplace raw sz suffix impl s =
    s\<lparr>an_buffers := an_buffers s @ [mk_buffer raw sz (an_name s @ [suffix]) (an_level s) impl]\<rparr>"

definition FA_VisitFixedWidth :: "analyzer \<Rightarrow> analyzer \<times> visit_status" where
  "FA_VisitFixedWidth s = (an_emplace 0 0 ''values'' False s, Visit_ok)"

definition FA_VisitBinary :: "analyzer \<Rightarrow> analyzer \<times> visit_status" where
  "FA_VisitBinary s = (an_emplace 0 0 ''values'' False (an_emplace 0 0 ''offsets'' False s), Visit_ok)"

fun FA_VisitType :: "arrow_type \<Rightarrow> analyzer \<Rightarrow> analyzer \<times> visit_status"
  and FA_VisitChildren :: "string list \<Rightarrow> arrow_field list \<Rightarrow> analyzer \<Rightarrow> analyzer \<times> visit_status" where
  "FA_VisitType (FIXED k) s = FA_VisitFixedWidth s"
| "FA_VisitType STRING s = FA_VisitBinary s"
| "FA_VisitType BINARY s = FA_VisitBinary s"
| "FA_VisitType (LIST [Field n t nl md]) s =
    (let s1 = an_emplace 0 0 ''offsets'' False s; s2 = s1\<lparr>an_level := an_level s1 + 1\<rparr>
     in FA_VisitType t s2)"
| "FA_VisitType (LIST cs) s =
    (let s1 = an_emplace 0 0 ''offsets'' False s
     in (s1\<lparr>an_level := an_level s1 + 1\<rparr>, Type_error))"
| "FA_VisitType (STRUCT cs) s = FA_VisitChildren (an_name s) cs s"
| "FA_VisitType BOOL s = (s, Not_implemented)"
| "FA_VisitType (OTHER _) s = (s, Not_implemented)"
| "FA_VisitChildren struct_name [] s = (s, Visit_ok)"
| "FA_VisitChildren struct_name (Field n t nl md # cs) s =
    (let s1 = s\<lparr>an_level := an_level s + 1, an_name := struct_name @ [n]\<rparr>;
         (s2, status) = FA_VisitType t s1
     in if status \<noteq> Visit_ok then (s2, status)
        else FA_VisitChildren struct_name cs (s2\<lparr>an_level := an_level s2 - 1\<rparr>))"

definition FA_VisitField :: "arrow_field \<Rightarrow> analyzer \<Rightarrow> analyzer \<times> visit_status" where
  "FA_VisitField f s =
    (let s1 = (if field_nullable f then an_emplace 0 0 ''validity'' False s else s)
     in FA_VisitType (field_type f) s1)"

definition FieldAnalyzer_Analyze :: "string list \<Rightarrow> arrow_field \<Rightarrow> field_metadata_desc res" where
  "FieldAnalyzer_Analyze prefix f =
    (let s = \<lparr>an_buffers = [], an_level = 0, an_name = prefix\<rparr>;
         s1 = (if field_nullable f then an_emplace 0 0 ''validity'' False s else s);
         (s2, status) = FA_VisitType (field_type f) s1
     in if status \<noteq> Visit_ok then Inl Exited
        else Inr \<lparr>fm_type = field_type f, fm_length = 0, fm_null_count = 0, fm_buffers = an_buffers s2\<rparr>)"

definition SchemaAnalyzer_Analyze :: "batch_description \<Rightarrow> arrow_schema \<Rightarrow> batch_description res" where
  "SchemaAnalyzer_Analyze out schema =
    res_bind (res_mapM (\<lambda>f. FieldAnalyzer_Analyze [field_name f] f) (schema_fields schema)) (\<lambda>fms.
    Inr (out\<lparr>bd_virtual := True, bd_name := GetMeta_schema schema meta_NAME, bd_rows := 0,
             bd_fields := bd_fields out @ fms\<rparr>))"

section \<open>Arrays and record batches\<close>

text \<open>A buffer of an array: its address and its size in bytes.\<close>

type_synonym array_buffer = "u64 \<times> int"

text \<open>\<open>null_bitmap\<close> is only read where the null count is positive.\<close>

record array_header =
  arr_type :: arrow_type
  arr_length :: int
  arr_null_count :: int
  arr_null_bitmap :: array_buffer

datatype arrow_array =
    Fixed_array (arr_hdr: array_header) array_buffer
  | Binary_array (arr_hdr: array_header) array_buffer array_buffer
  | List_array (arr_hdr: array_header) array_buffer arrow_array
  | Struct_array (arr_hdr: array_header) "arrow_array list"
  | Other_array (arr_hdr: array_header)

record record_batch =
  rb_schema :: arrow_schema
  rb_num_rows :: int
  rb_columns :: "arrow_array list"

section \<open>Analyzing record batches\<close>

definition RBA_VisitFixedWidth :: "array_buffer \<Rightarrow> analyzer \<Rightarrow> analyzer \<times> visit_status" where
  "RBA_VisitFixedWidth buf s = (an_emplace (fst buf) (snd buf) ''values'' False s, Visit_ok)"

definition RBA_VisitBinary :: "array_buffer \<Rightarrow> array_buffer \<Rightarrow> analyzer \<Rightarrow> analyzer \<times> visit_status" where
  "RBA_VisitBinary obuf vbuf s =
    (an_emplace (fst vbuf) (snd vbuf) ''values'' False
      (an_emplace (fst obuf) (snd obuf) ''offsets'' False s), Visit_ok)"

definition RBA_validity :: "arrow_field \<Rightarrow> array_header \<Rightarrow> analyzer \<Rightarrow> analyzer" where
  "RBA_validity f h s =
    (if field_nullable f then
       if 0 < arr_null_count h
       then an_emplace (fst (arr_null_bitmap h)) (snd (arr_null_bitmap h)) ''validity'' False s
       else an_emplace 0 0 ''validity'' True s
     else s)"

fun RBA_VisitArray :: "arrow_field \<Rightarrow> arrow_array \<Rightarrow> analyzer \<Rightarrow> analyzer \<times> visit_status"
  and RBA_VisitChildren :: "string list \<Rightarrow> arrow_field list \<Rightarrow> arrow_array list \<Rightarrow> analyzer \<Rightarrow>
    analyzer \<times> visit_status" where
  "RBA_VisitArray f (Fixed_array h buf) s = RBA_VisitFixedWidth buf (RBA_validity f h s)"
| "RBA_VisitArray f (Binary_array h obuf vbuf) s = RBA_VisitBinary obuf vbuf (RBA_validity f h s)"
| "RBA_VisitArray f (List_array h obuf values) s =
    (let s1 = an_emplace (fst obuf) (snd obuf) ''offsets'' False (RBA_validity f h s);
         s2 = s1\<lparr>an_level := an_level s1 + 1\<rparr>
     in case type_children (field_type f) of
          [child] \<Rightarrow> RBA_VisitArray child values s2
        | _ \<Rightarrow> (s2, Type_error))"
| "RBA_VisitArray f (Struct_array h arrs) s =
    (let s1 = RBA_validity f h s
     in if length arrs \<noteq> length (type_children (field_type f)) then (s1, Type_error)
        else RBA_VisitChildren (an_name s1) (type_children (field_type f)) arrs s1)"
| "RBA_VisitArray f (Other_array h) s = (RBA_validity f h s, Not_implemented)"
| "RBA_VisitChildren struct_name (c # cs) (a # arrs) s =
    (let s1 = s\<lparr>an_level := an_level s + 1, an_name := struct_name @ [field_name c]\<rparr>;
         (s2, status) = RBA_VisitArray c a s1
     in if status \<noteq> Visit_ok then (s2, status)
        else RBA_VisitChildren struct_name cs arrs (s2\<lparr>an_level := an_level s2 - 1\<rparr>))"
| "RBA_VisitChildren struct_name _ _ s = (s, Visit_ok)"

text \<open>The loop over the columns. The level is not reset between them. The boolean is the result
  of \<^verbatim>\<open>Analyze\<close>; the fields found up to a failure stay in the output.\<close>

fun RBA_columns :: "arrow_field list \<Rightarrow> arrow_array list \<Rightarrow> int \<Rightarrow> field_metadata_desc list \<Rightarrow>
    (field_metadata_desc list \<times> bool) res" where
  "RBA_columns fs [] lvl out = Inr (out, True)"
| "RBA_columns [] (a # arrs) lvl out = Inl Undefined"
| "RBA_columns (f # fs) (a # arrs) lvl out =
    (let (s, status) = RBA_VisitArray f a \<lparr>an_buffers = [], an_level = lvl, an_name = [field_name f]\<rparr>;
         fm = \<lparr>fm_type = arr_type (arr_hdr a), fm_length = arr_length (arr_hdr a),
               fm_null_count = arr_null_count (arr_hdr a), fm_buffers = an_buffers s\<rparr>
     in if status \<noteq> Visit_ok then Inr (out @ [fm], False)
        else RBA_columns fs arrs (an_level s) (out @ [fm]))"

definition RecordBatchAnalyzer_Analyze ::
    "batch_description \<Rightarrow> record_batch \<Rightarrow> (batch_description \<times> bool) res" where
  "RecordBatchAnalyzer_Analyze out batch =
    res_bind (RBA_columns (schema_fields (rb_schema batch)) (rb_columns batch) 0 (bd_fields out)) (\<lambda>(fms, ok).
    Inr (out\<lparr>bd_name := GetMeta_schema (rb_schema batch) meta_NAME, bd_rows := rb_num_rows batch,
             bd_fields := fms\<rparr>, ok))"

definition empty_description :: batch_description where
  "empty_description = \<lparr>bd_name = [], bd_rows = 0, bd_fields = [], bd_mode = READ, bd_virtual = False\<rparr>"

section \<open>What the analyzers list\<close>

text \<open>
  The names of the buffers of a type in the order of the Arrow format. The flag says whether
  the validity buffers of nested nullable fields are among them.
\<close>

fun supported :: "arrow_type \<Rightarrow> bool" and supported_children :: "arrow_field list \<Rightarrow> bool" where
  "supported (FIXED k) = True"
| "supported STRING = True"
| "supported BINARY = True"
| "supported (LIST [Field n t nl md]) = supported t"
| "supported (LIST cs) = False"
| "supported (STRUCT cs) = supported_children cs"
| "supported BOOL = False"
| "supported (OTHER _) = False"
| "supported_children [] = True"
| "supported_children (Field n t nl md # cs) = (supported t \<and> supported_children cs)"

definition validity_name :: "bool \<Rightarrow> bool \<Rightarrow> string list \<Rightarrow> string list list" where
  "validity_name nested nullable p = (if nested \<and> nullable then [p @ [''validity'']] else [])"

fun type_buffers :: "bool \<Rightarrow> string list \<Rightarrow> arrow_type \<Rightarrow> string list list"
  and children_buffers :: "bool \<Rightarrow> string list \<Rightarrow> arrow_field list \<Rightarrow> string list list" where
  "type_buffers nv p (FIXED k) = [p @ [''values'']]"
| "type_buffers nv p STRING = [p @ [''offsets''], p @ [''values'']]"
| "type_buffers nv p BINARY = [p @ [''offsets''], p @ [''values'']]"
| "type_buffers nv p (LIST [Field n t nl md]) =
    [p @ [''offsets'']] @ validity_name nv nl p @ type_buffers nv p t"
| "type_buffers nv p (LIST cs) = []"
| "type_buffers nv p (STRUCT cs) = children_buffers nv p cs"
| "type_buffers nv p BOOL = []"
| "type_buffers nv p (OTHER _) = []"
| "children_buffers nv p [] = []"
| "children_buffers nv p (Field n t nl md # cs) =
    validity_name nv nl (p @ [n]) @ type_buffers nv (p @ [n]) t @ children_buffers nv p cs"

text \<open>The nullable fields below the top.\<close>

fun nested_nullables :: "arrow_type \<Rightarrow> nat" and nullables_children :: "arrow_field list \<Rightarrow> nat" where
  "nested_nullables (LIST [Field n t nl md]) = of_bool nl + nested_nullables t"
| "nested_nullables (STRUCT cs) = nullables_children cs"
| "nested_nullables _ = 0"
| "nullables_children [] = 0"
| "nullables_children (Field n t nl md # cs) = of_bool nl + nested_nullables t + nullables_children cs"

lemma length_type_buffers:
  "length (type_buffers True p t) = length (type_buffers False p t) + nested_nullables t"
  "length (children_buffers True p cs) = length (children_buffers False p cs) + nullables_children cs"
  by (induction t and cs arbitrary: p and p rule: nested_nullables_nullables_children.induct)
    (simp_all add: validity_name_def)

lemma type_buffers_no_nested:
  "nested_nullables t = 0 \<Longrightarrow> type_buffers True p t = type_buffers False p t"
  "nullables_children cs = 0 \<Longrightarrow> children_buffers True p cs = children_buffers False p cs"
  by (induction t and cs arbitrary: p and p rule: nested_nullables_nullables_children.induct)
    (simp_all add: validity_name_def)

definition field_buffers :: "bool \<Rightarrow> string list \<Rightarrow> arrow_field \<Rightarrow> string list list" where
  "field_buffers nv p f = validity_name True (field_nullable f) p @ type_buffers nv p (field_type f)"

definition descs :: "analyzer \<Rightarrow> string list list" where
  "descs s = map buf_desc (an_buffers s)"

lemma descs_emplace [simp]:
  "descs (an_emplace r n x i s) = descs s @ [an_name s @ [x]]"
  "an_name (an_emplace r n x i s) = an_name s"
  "an_level (an_emplace r n x i s) = an_level s"
  by (simp_all add: an_emplace_def descs_def mk_buffer_def)

lemma descs_level [simp]: "descs (s\<lparr>an_level := l\<rparr>) = descs s" "descs (s\<lparr>an_name := m\<rparr>) = descs s"
  by (simp_all add: descs_def)

lemma FA_Visit_descs:
  "supported t \<Longrightarrow> snd (FA_VisitType t s) = Visit_ok \<and>
     descs (fst (FA_VisitType t s)) = descs s @ type_buffers False (an_name s) t"
  "supported_children cs \<Longrightarrow> snd (FA_VisitChildren p cs s) = Visit_ok \<and>
     descs (fst (FA_VisitChildren p cs s)) = descs s @ children_buffers False p cs"
  by (induction t s and p cs s rule: FA_VisitType_FA_VisitChildren.induct)
    (auto simp: FA_VisitFixedWidth_def FA_VisitBinary_def Let_def validity_name_def split: prod.splits)

lemma FA_Visit_fails:
  "\<not> supported t \<Longrightarrow> snd (FA_VisitType t s) \<noteq> Visit_ok"
  "\<not> supported_children cs \<Longrightarrow> snd (FA_VisitChildren p cs s) \<noteq> Visit_ok"
proof (induction t s and p cs s rule: FA_VisitType_FA_VisitChildren.induct)
  case (10 p n t nl md cs s)
  obtain s2 st where "FA_VisitType t (s\<lparr>an_level := an_level s + 1, an_name := p @ [n]\<rparr>) = (s2, st)"
    by fastforce
  then show ?case using 10 by (auto simp: Let_def)
qed (auto simp: Let_def)

lemma FieldAnalyzer_unfold:
  defines "s f p \<equiv> (let s = \<lparr>an_buffers = [], an_level = 0, an_name = p\<rparr>
     in if field_nullable f then an_emplace 0 0 ''validity'' False s else s)"
  shows "FieldAnalyzer_Analyze p f =
    (if supported (field_type f)
     then Inr \<lparr>fm_type = field_type f, fm_length = 0, fm_null_count = 0,
               fm_buffers = an_buffers (fst (FA_VisitType (field_type f) (s f p)))\<rparr>
     else Inl Exited)"
  using FA_Visit_descs(1) [of "field_type f" "s f p"] FA_Visit_fails(1) [of "field_type f" "s f p"]
  by (cases "field_nullable f"; cases "supported (field_type f)")
    (auto simp: FieldAnalyzer_Analyze_def Let_def s_def split: prod.splits)

lemma FieldAnalyzer_result:
  assumes "FieldAnalyzer_Analyze prefix f = Inr fm"
  shows "supported (field_type f) \<and> map buf_desc (fm_buffers fm) = field_buffers False prefix f"
proof -
  let ?s = "let s = \<lparr>an_buffers = [], an_level = 0, an_name = prefix\<rparr>
     in if field_nullable f then an_emplace 0 0 ''validity'' False s else s"
  have "descs ?s = validity_name True (field_nullable f) prefix" "an_name ?s = prefix"
    by (auto simp: Let_def validity_name_def) (simp add: descs_def)
  then show ?thesis
    using assms FA_Visit_descs(1) [of "field_type f" ?s]
    by (auto simp: FieldAnalyzer_unfold field_buffers_def descs_def split: if_splits)
qed

lemma FieldAnalyzer_ok_iff: "(\<exists>fm. FieldAnalyzer_Analyze prefix f = Inr fm) \<longleftrightarrow> supported (field_type f)"
  by (simp add: FieldAnalyzer_unfold)

text \<open>Arrays of the shape of a field, as the columns of a batch of a schema are.\<close>

fun conforms :: "arrow_field \<Rightarrow> arrow_array \<Rightarrow> bool"
  and conforms_list :: "arrow_field list \<Rightarrow> arrow_array list \<Rightarrow> bool" where
  "conforms f (Fixed_array h b) = (\<exists>k. field_type f = FIXED k)"
| "conforms f (Binary_array h ob vb) = (field_type f = STRING \<or> field_type f = BINARY)"
| "conforms f (List_array h ob v) = (case field_type f of LIST [c] \<Rightarrow> conforms c v | _ \<Rightarrow> False)"
| "conforms f (Struct_array h arrs) = (case field_type f of STRUCT cs \<Rightarrow> conforms_list cs arrs | _ \<Rightarrow> False)"
| "conforms f (Other_array h) = False"
| "conforms_list [] [] = True"
| "conforms_list (c # cs) (a # arrs) = (conforms c a \<and> conforms_list cs arrs)"
| "conforms_list _ _ = False"

lemma conforms_list_Nil [simp]: "conforms_list cs [] \<longleftrightarrow> cs = []" "conforms_list [] arrs \<longleftrightarrow> arrs = []"
  by (cases cs, simp_all) (cases arrs, simp_all)

lemma conforms_list_length: "conforms_list cs arrs \<Longrightarrow> length arrs = length cs"
  by (induction cs arrs rule: list_induct2') auto

lemma RBA_validity_simps [simp]:
  "descs (RBA_validity f h s) = descs s @ validity_name True (field_nullable f) (an_name s)"
  "an_name (RBA_validity f h s) = an_name s"
  by (simp_all add: RBA_validity_def validity_name_def)

lemma RBA_Visit_descs:
  "conforms f a \<Longrightarrow> snd (RBA_VisitArray f a s) = Visit_ok \<and>
     descs (fst (RBA_VisitArray f a s)) = descs s @ field_buffers True (an_name s) f"
  "conforms_list cs arrs \<Longrightarrow> snd (RBA_VisitChildren p cs arrs s) = Visit_ok \<and>
     descs (fst (RBA_VisitChildren p cs arrs s)) = descs s @ children_buffers True p cs"
proof (induction f a s and p cs arrs s rule: RBA_VisitArray_RBA_VisitChildren.induct)
  case (3 f h obuf vs s)
  then obtain c where "field_type f = LIST [c]" by (auto split: arrow_type.splits list.splits)
  moreover obtain n t nl md where "c = Field n t nl md" by (cases c)
  ultimately show ?case using 3 by (auto simp: Let_def field_buffers_def validity_name_def)
next
  case (4 f h arrs s)
  then obtain cs where "field_type f = STRUCT cs" "conforms_list cs arrs"
    by (auto split: arrow_type.splits)
  then show ?case using 4 conforms_list_length [of cs arrs] by (auto simp: Let_def field_buffers_def)
next
  case (6 p c cs a arrs s)
  obtain n t nl md where "c = Field n t nl md" by (cases c)
  then show ?case using 6 by (auto simp: Let_def field_buffers_def split: prod.splits)
qed (auto simp: RBA_VisitFixedWidth_def RBA_VisitBinary_def field_buffers_def)

lemma conforms_supported:
  "conforms f a \<Longrightarrow> supported (field_type f)"
  "conforms_list cs arrs \<Longrightarrow> supported_children cs"
proof (induction f a and cs arrs rule: conforms_conforms_list.induct)
  case (3 f h ob v)
  then obtain c where "field_type f = LIST [c]" by (auto split: arrow_type.splits list.splits)
  then show ?case using 3 by (cases c) fastforce
next
  case (7 c cs a arrs)
  then show ?case by (cases c) auto
qed (auto split: arrow_type.splits)

lemma RBA_columns_descs:
  assumes "conforms_list fs arrs"
  shows "\<exists>fms. RBA_columns fs arrs lvl out = Inr (out @ fms, True) \<and>
    map (\<lambda>fm. map buf_desc (fm_buffers fm)) fms = map (\<lambda>f. field_buffers True [field_name f] f) fs"
  using assms
proof (induction fs arrs lvl out rule: RBA_columns.induct)
  case (1 fs lvl out)
  then show ?case by (cases fs) auto
next
  case (3 f fs a arrs lvl out)
  let ?s = "\<lparr>an_buffers = [], an_level = lvl, an_name = [field_name f]\<rparr>"
  obtain s st where r: "RBA_VisitArray f a ?s = (s, st)" by fastforce
  have "st = Visit_ok" "map buf_desc (an_buffers s) = field_buffers True [field_name f] f"
    using RBA_Visit_descs(1) [of f a ?s] 3 r by (auto simp: descs_def)
  then show ?case using 3 r by (force simp: Let_def)
qed auto

lemma SchemaAnalyzer_descs:
  assumes "\<forall>f\<in>set fs. supported (field_type f)"
  shows "\<exists>fms. res_mapM (\<lambda>f. FieldAnalyzer_Analyze [field_name f] f) fs = Inr fms \<and>
    map (\<lambda>fm. map buf_desc (fm_buffers fm)) fms = map (\<lambda>f. field_buffers False [field_name f] f) fs"
  using assms
proof (induction fs)
  case (Cons f fs)
  then obtain fms fm where "res_mapM (\<lambda>f. FieldAnalyzer_Analyze [field_name f] f) fs = Inr fms"
    "map (\<lambda>fm. map buf_desc (fm_buffers fm)) fms = map (\<lambda>f. field_buffers False [field_name f] f) fs"
    "FieldAnalyzer_Analyze [field_name f] f = Inr fm"
    using FieldAnalyzer_ok_iff [of "[field_name f]" f] by auto
  then show ?case using FieldAnalyzer_result [of "[field_name f]" f fm] by simp
qed simp

lemma conforms_list_supported: "conforms_list fs arrs \<Longrightarrow> \<forall>f\<in>set fs. supported (field_type f)"
proof (induction fs arrs rule: list_induct2')
  case (4 c cs a arrs)
  then show ?case using conforms_supported(1) by auto
qed auto

lemma length_field_buffers:
  "length (field_buffers True p f) = length (field_buffers False p f) + nested_nullables (field_type f)"
  by (simp add: field_buffers_def length_type_buffers)

section \<open>Properties\<close>

text \<open>C33: for a record batch whose columns have the shape of its schema both analyzers succeed. The
  record batch analyzer lists for every field the buffers of the Arrow format, nested validity
  buffers included, and the schema analyzer the same buffers without the nested validity buffers. So
  the number of buffers the generated hardware expects differs from the number the run time passes by
  the number of nested nullable fields.\<close>

theorem analyzers_compared:
  assumes "conforms_list (schema_fields (rb_schema batch)) (rb_columns batch)"
  shows "\<exists>d v. RecordBatchAnalyzer_Analyze empty_description batch = Inr (d, True)
    \<and> SchemaAnalyzer_Analyze empty_description (rb_schema batch) = Inr v
    \<and> bd_name d = bd_name v
    \<and> map (\<lambda>fm. map buf_desc (fm_buffers fm)) (bd_fields d)
      = map (\<lambda>f. field_buffers True [field_name f] f) (schema_fields (rb_schema batch))
    \<and> map (\<lambda>fm. map buf_desc (fm_buffers fm)) (bd_fields v)
      = map (\<lambda>f. field_buffers False [field_name f] f) (schema_fields (rb_schema batch))
    \<and> map (\<lambda>fm. length (fm_buffers fm)) (bd_fields d)
      = map2 (\<lambda>fm f. length (fm_buffers fm) + nested_nullables (field_type f)) (bd_fields v)
          (schema_fields (rb_schema batch))"
proof -
  let ?fs = "schema_fields (rb_schema batch)"
  obtain fms where d: "RBA_columns ?fs (rb_columns batch) 0 [] = Inr (fms, True)"
    "map (\<lambda>fm. map buf_desc (fm_buffers fm)) fms = map (\<lambda>f. field_buffers True [field_name f] f) ?fs"
    using RBA_columns_descs [OF assms, of 0 "[]"] by auto
  obtain vms where v: "res_mapM (\<lambda>f. FieldAnalyzer_Analyze [field_name f] f) ?fs = Inr vms"
    "map (\<lambda>fm. map buf_desc (fm_buffers fm)) vms = map (\<lambda>f. field_buffers False [field_name f] f) ?fs"
    using SchemaAnalyzer_descs [OF conforms_list_supported [OF assms]] by blast
  have lens: "length fms = length ?fs" "length vms = length ?fs"
    using arg_cong [OF d(2), of length] arg_cong [OF v(2), of length] by simp_all
  have nth: "map buf_desc (fm_buffers (fms ! i)) = field_buffers True [field_name (?fs ! i)] (?fs ! i)"
    "map buf_desc (fm_buffers (vms ! i)) = field_buffers False [field_name (?fs ! i)] (?fs ! i)"
    if "i < length ?fs" for i
    using arg_cong [OF d(2), of "\<lambda>xs. xs ! i"] arg_cong [OF v(2), of "\<lambda>xs. xs ! i"] lens that by simp_all
  have "length (fm_buffers (fms ! i)) = length (fm_buffers (vms ! i)) + nested_nullables (field_type (?fs ! i))"
    if "i < length ?fs" for i
    using arg_cong [OF nth(1) [OF that], of length] arg_cong [OF nth(2) [OF that], of length]
    by (simp add: length_field_buffers)
  then have "map (\<lambda>fm. length (fm_buffers fm)) fms
      = map2 (\<lambda>fm f. length (fm_buffers fm) + nested_nullables (field_type f)) vms ?fs"
    using lens by (intro nth_equalityI) simp_all
  then show ?thesis
    using d v by (simp add: RecordBatchAnalyzer_Analyze_def SchemaAnalyzer_Analyze_def empty_description_def)
qed

definition example_list_batch :: record_batch where
  "example_list_batch = \<lparr>rb_schema = \<lparr>schema_fields =
       [Field ''l'' (LIST [Field ''item'' (FIXED INT32) True None]) True None], schema_metadata = None\<rparr>,
     rb_num_rows = 1, rb_columns =
       [List_array \<lparr>arr_type = LIST [Field ''item'' (FIXED INT32) True None], arr_length = 1,
            arr_null_count = 0, arr_null_bitmap = (0, 0)\<rparr> (64, 8)
          (Fixed_array \<lparr>arr_type = FIXED INT32, arr_length = 2, arr_null_count = 0, arr_null_bitmap = (0, 0)\<rparr>
            (128, 8))]\<rparr>"

lemma analyzers_compared_witness:
  "\<exists>d v. RecordBatchAnalyzer_Analyze empty_description example_list_batch = Inr (d, True)
    \<and> SchemaAnalyzer_Analyze empty_description (rb_schema example_list_batch) = Inr v
    \<and> map (\<lambda>fm. length (fm_buffers fm)) (bd_fields d)
      = map2 (\<lambda>fm f. length (fm_buffers fm) + nested_nullables (field_type f)) (bd_fields v)
          (schema_fields (rb_schema example_list_batch))"
proof -
  have "conforms_list (schema_fields (rb_schema example_list_batch)) (rb_columns example_list_batch)"
    by (simp add: example_list_batch_def)
  then show ?thesis using analyzers_compared [of example_list_batch] by blast
qed

end
