(* ===== verification/Host_Memory.thy ===== *)
theory Host_Memory
  imports Prelude
begin

text \<open>
  The memory of the host process as a partial map from addresses to bytes, with the two
  halves of \<^verbatim>\<open>memcpy\<close>: reading and writing an address that is not mapped is \<open>Undefined\<close>.
\<close>

type_synonym host_memory = "u64 \<Rightarrow> u8 option"

definition read_host :: "host_memory \<Rightarrow> u64 \<Rightarrow> nat \<Rightarrow> u8 list res" where
  "read_host mem a n =
    res_mapM (\<lambda>i. case mem (a + of_nat i) of Some b \<Rightarrow> Inr b | None \<Rightarrow> Inl Undefined) [0..<n]"

text \<open>The memory in which the bytes from \<open>a\<close> on are those of a list.\<close>

definition put_bytes :: "host_memory \<Rightarrow> u64 \<Rightarrow> u8 list \<Rightarrow> host_memory" where
  "put_bytes mem a bs = (\<lambda>x. let i = unat (x - a) in if i < length bs then Some (bs ! i) else mem x)"

definition write_host :: "host_memory \<Rightarrow> u64 \<Rightarrow> u8 list \<Rightarrow> host_memory res" where
  "write_host mem a bs = res_bind (read_host mem a (length bs)) (\<lambda>_. Inr (put_bytes mem a bs))"

lemma read_host_iff:
  "read_host mem a n = Inr bs \<longleftrightarrow> length bs = n \<and> (\<forall>i<n. mem (a + of_nat i) = Some (bs ! i))"
  by (auto simp: read_host_def res_mapM_Inr_iff split: option.splits)

lemma read_host_0 [simp]: "read_host mem a 0 = Inr []"
  by (simp add: read_host_def)

lemma read_put_same:
  "length bs \<le> 2 ^ 64 \<Longrightarrow> read_host (put_bytes mem a bs) a (length bs) = Inr bs"
  by (auto simp: read_host_iff put_bytes_def Let_def)

text \<open>A block of fresh addresses: nothing is mapped there.\<close>

definition fresh_block :: "host_memory \<Rightarrow> u64 \<Rightarrow> nat \<Rightarrow> bool" where
  "fresh_block mem a n \<longleftrightarrow> n \<le> 2 ^ 64 \<and> (\<forall>x. unat (x - a) < n \<longrightarrow> mem x = None)"

lemma read_put_fresh:
  assumes "fresh_block mem a (length bs)" "read_host mem b n = Inr cs"
  shows "read_host (put_bytes mem a bs) b n = Inr cs"
  using assms by (fastforce simp: fresh_block_def read_host_iff put_bytes_def Let_def)

lemma put_put_same: "length bs = length cs \<Longrightarrow> put_bytes (put_bytes mem a bs) a cs = put_bytes mem a cs"
  by (auto simp: put_bytes_def Let_def)

lemma write_host_iff:
  "write_host mem a bs = Inr mem' \<longleftrightarrow>
   (\<forall>i<length bs. mem (a + of_nat i) \<noteq> None) \<and> mem' = put_bytes mem a bs"
proof -
  have "(\<exists>cs. read_host mem a n = Inr cs) \<longleftrightarrow> (\<forall>i<n. mem (a + of_nat i) \<noteq> None)" for n
  proof
    assume *: "\<forall>i<n. mem (a + of_nat i) \<noteq> None"
    have "read_host mem a n = Inr (map (\<lambda>i. the (mem (a + of_nat i))) [0..<n])"
      using * by (auto simp: read_host_iff)
    then show "\<exists>cs. read_host mem a n = Inr cs" by blast
  qed (auto simp: read_host_iff)
  then show ?thesis by (auto simp: write_host_def res_bind_Inr_iff)
qed

lemma put_bytes_Nil [simp]: "put_bytes mem a [] = mem"
  by (simp add: put_bytes_def)

end
