(* ===== verification/Hex_View.thy ===== *)
theory Hex_View
  imports Cxx_Text "HOL-Library.Signed_Division"
begin

text \<open>
  \<^verbatim>\<open>common/cpp/src/fletcher/hex-view.cc\<close>: the hex dump of a block of bytes. The members of type
  \<^verbatim>\<open>int64_t\<close> are integers, with the remainder of C++, which has the sign of the dividend; the sums
  are taken to stay below \<open>2 ^ 63\<close>. A width of 0 divides by zero, and with a negative width the loop over
  the rows runs until its counter overflows: both are \<open>Undefined\<close>. The lemmas read a dump back.
\<close>

section \<open>The dump\<close>

definition ConvertToReadable :: "u8 \<Rightarrow> char" where
  "ConvertToReadable c = (if unat c < 32 \<or> unat c > 126 then CHR ''.'' else char_of (unat c))"

record hex_view =
  hv_width :: int
  hv_start :: int
  hv_data :: "u8 list"

definition HexView_new :: "u64 \<Rightarrow> u64 \<Rightarrow> hex_view" where
  "HexView_new start width = \<lparr>hv_width = sint width, hv_start = sint start, hv_data = []\<rparr>"

definition AddData :: "u8 list \<Rightarrow> hex_view \<Rightarrow> hex_view" where
  "AddData bs v = v\<lparr>hv_data := hv_data v @ bs\<rparr>"

text \<open>\<^verbatim>\<open>HEX2\<close> and \<^verbatim>\<open>HEX16\<close>: a negative number is printed as its two's complement.\<close>

definition HEX :: "nat \<Rightarrow> int \<Rightarrow> string" where
  "HEX w i = setw (CHR ''0'') w (show_hex True (unat (of_int i :: u64)))"

definition hex_header :: "int \<Rightarrow> string" where
  "hex_header width = replicate 17 (CHR '' '') @
     concat (map (\<lambda>i. HEX 2 (int i) @ (if int i \<noteq> width - 1 then '' '' else [])) [0..<nat width])"

definition hex_cell :: "u8 list \<Rightarrow> int \<Rightarrow> string" where
  "hex_cell bs pos = (if pos < 0 \<or> pos \<ge> int (length bs) then ''   ''
     else HEX 2 (uint (bs ! nat pos)) @ '' '')"

definition ascii_cell :: "u8 list \<Rightarrow> int \<Rightarrow> char" where
  "ascii_cell bs pos = (if pos < 0 \<or> pos \<ge> int (length bs) then CHR '' '' else ConvertToReadable (bs ! nat pos))"

definition aligned_start :: "hex_view \<Rightarrow> int" where
  "aligned_start v = hv_start v - hv_start v smod hv_width v"

definition aligned_size :: "hex_view \<Rightarrow> int" where
  "aligned_size v =
    (let sz = int (length (hv_data v));
         aligned_end = aligned_start v + sz + (aligned_start v + sz) smod hv_width v
     in aligned_end - aligned_start v)"

definition hex_row :: "hex_view \<Rightarrow> int \<Rightarrow> string" where
  "hex_row v row_offset =
    (let position = (\<lambda>col. row_offset + int col - (hv_start v - aligned_start v));
         columns = [0..<nat (hv_width v)]
     in HEX 16 (aligned_start v + row_offset) @ '' '' @
        concat (map (\<lambda>col. hex_cell (hv_data v) (position col)) columns) @
        map (\<lambda>col. ascii_cell (hv_data v) (position col)) columns)"

text \<open>\<^verbatim>\<open>for (row_offset = 0; row_offset < aligned_size; row_offset += width)\<close> for a positive width.\<close>

function row_offsets :: "int \<Rightarrow> int \<Rightarrow> int \<Rightarrow> int list" where
  "row_offsets width bound row_offset =
    (if 0 < width \<and> row_offset < bound then row_offset # row_offsets width bound (row_offset + width) else [])"
  by pat_completeness auto
termination by (relation "measure (\<lambda>(w, b, r). nat (b - r))") auto

declare row_offsets.simps [simp del]

definition HexView_ToString :: "bool \<Rightarrow> hex_view \<Rightarrow> string res" where
  "HexView_ToString header v =
    (if hv_width v = 0 then Inl Undefined
     else if hv_width v < 0 \<and> 0 < aligned_size v then Inl Undefined
     else Inr ((if header then hex_header (hv_width v) else []) @
       concat (map (\<lambda>row_offset. (if row_offset \<noteq> 0 \<or> header then [newline] else []) @ hex_row v row_offset)
         (row_offsets (hv_width v) (aligned_size v) 0))))"

section \<open>Reading a dump back\<close>

text \<open>The bytes that the lines below the header show.\<close>

definition cell_byte :: "string \<Rightarrow> u8 list" where
  "cell_byte s = (if s = ''  '' then [] else (case stoul s 16 of Inr v \<Rightarrow> [ucast v] | Inl _ \<Rightarrow> []))"

definition row_bytes :: "nat \<Rightarrow> string \<Rightarrow> u8 list" where
  "row_bytes w line = concat (map (\<lambda>c. cell_byte (take 2 (drop (17 + 3 * c) line))) [0..<w])"

definition dump_bytes :: "nat \<Rightarrow> string \<Rightarrow> u8 list" where
  "dump_bytes w txt = concat (map (row_bytes w) (tl (getlines newline txt)))"

section \<open>Rows\<close>

lemma row_offsets_upt: "0 < w \<Longrightarrow> row_offsets w b (int k * w) = map (\<lambda>i. int i * w) [k..<nat ((b + w - 1) div w)]"
proof (induction "nat (b - int k * w)" arbitrary: k rule: less_induct)
  case less
  show ?case
  proof (cases "int k * w < b")
    case True
    have "(int k + 1) * w \<le> b + w - 1" using True by (simp add: distrib_right)
    then have "(int k + 1) * w div w \<le> (b + w - 1) div w" using less.prems by (intro zdiv_mono1)
    then have "int k + 1 \<le> (b + w - 1) div w" using less.prems by simp
    then have k: "k < nat ((b + w - 1) div w)" by linarith
    have "row_offsets w b (int (Suc k) * w) = map (\<lambda>i. int i * w) [Suc k..<nat ((b + w - 1) div w)]"
      using less True by (intro less.hyps) (auto simp: algebra_simps)
    then show ?thesis using True less.prems k
      by (subst row_offsets.simps) (simp add: algebra_simps upt_conv_Cons)
  next
    case False
    then have "b + w - 1 < (int k + 1) * w" using less.prems by (simp add: distrib_right)
    moreover have "(b + w - 1) div w * w = b + w - 1 - (b + w - 1) mod w" by (simp add: minus_mod_eq_div_mult)
    moreover have "0 \<le> (b + w - 1) mod w" using less.prems by simp
    ultimately have "(b + w - 1) div w * w < (int k + 1) * w" by linarith
    then have "(b + w - 1) div w < int k + 1" using less.prems by (simp add: mult_less_cancel_right)
    then have "nat ((b + w - 1) div w) \<le> k" by linarith
    then show ?thesis using False by (subst row_offsets.simps) simp
  qed
qed

lemma concat_blocks: "concat (map (\<lambda>k. concat (map (\<lambda>c. f (k * w + c)) [0..<w])) [0..<n]) = concat (map f [0..<n * w])"
proof (induction n)
  case (Suc n)
  have "map (\<lambda>c. f (n * w + c)) [0..<w] = map f [n * w..<n * w + w]"
    using arg_cong [OF map_add_upt [of "n * w" w], of "map f"] by (simp add: comp_def add.commute)
  then show ?case using Suc arg_cong [OF map_nth_upt_append [of f "n * w" w], of concat] by (simp add: add.commute)
qed simp

lemma shown_positions:
  "concat (map (\<lambda>j. if int j - int o' < 0 \<or> int j - int o' \<ge> int (length bs) then [] else [bs ! nat (int j - int o')]) [0..<m])
   = take (m - o') bs"
proof (induction m)
  case (Suc m)
  then show ?case by (auto simp: Suc_diff_le take_Suc_conv_app_nth nat_diff_distrib)
qed simp

lemma HEX_byte: "HEX w (uint (b :: u8)) = setw (CHR ''0'') w (show_hex True (unat b))"
proof -
  have "unat (of_int (uint b) :: u64) = unat b" by (simp add: unsigned_ucast_eq take_bit_nat_eq_self_iff unat_lt_u8 [THEN less_trans])
  then show ?thesis by (simp only: HEX_def)
qed

lemma HEX_2: "HEX 2 (uint (b :: u8)) = map (digit_char True) (fixed_digits 16 2 (unat b))"
  using setw_show_hex [of "unat b" 2 True] unat_lt_u8 [of b] by (simp add: HEX_byte)

lemma cell_byte_hex: "cell_byte (HEX 2 (uint (b :: u8))) = [b]"
proof -
  have n: "unat b < 16 ^ 2" using unat_lt_u8 [of b] by simp
  have "digit_char True (unat b mod 16) \<noteq> CHR '' ''"
    using digit_char_not_space [of "unat b mod 16" True] by (fastforce simp: is_space_def intro: less_trans [of _ 16])
  moreover have "fixed_digits 16 2 (unat b) = [unat b div 16 mod 16, unat b mod 16]"
    by (simp add: numeral_2_eq_2 fixed_digits_snoc)
  ultimately have "map (digit_char True) (fixed_digits 16 2 (unat b)) \<noteq> ''  ''" by simp
  then show ?thesis
    unfolding HEX_2 cell_byte_def using stoul_fixed_hex [OF n, of True] by (simp add: ucast_up_ucast_id is_up)
qed

lemma length_hex_cell [simp]: "length (hex_cell bs pos) = 3"
  by (simp add: hex_cell_def HEX_2)

lemma cell_byte_cell:
  "cell_byte (take 2 (hex_cell bs pos)) = (if pos < 0 \<or> pos \<ge> int (length bs) then [] else [bs ! nat pos])"
proof (cases "pos < 0 \<or> pos \<ge> int (length bs)")
  case True
  then show ?thesis by (simp add: hex_cell_def cell_byte_def)
next
  case False
  have "length (HEX 2 (uint b)) = 2" for b :: u8 by (simp add: HEX_2)
  then show ?thesis using False cell_byte_hex [of "bs ! nat pos"] by (simp add: hex_cell_def)
qed

lemma drop_cells:
  "\<forall>x\<in>set xs. length (f x) = 3 \<Longrightarrow> c < length xs \<Longrightarrow>
   \<exists>rest. drop (3 * c) (concat (map f xs) @ tl') = f (xs ! c) @ rest"
proof (induction xs arbitrary: c)
  case (Cons x xs)
  then show ?case by (cases c) auto
qed simp

lemma length_address [simp]: "length (HEX 16 a) = 16"
  using setw_show_hex [of "unat (of_int a :: u64)" 16 True] unat_lt_u64 [of "of_int a"] by (simp add: HEX_def)

lemma row_bytes_row:
  "row_bytes (nat (hv_width v)) (hex_row v r) = concat (map (\<lambda>c.
     let pos = r + int c - (hv_start v - aligned_start v) in
     if pos < 0 \<or> pos \<ge> int (length (hv_data v)) then [] else [hv_data v ! nat pos]) [0..<nat (hv_width v)])"
proof -
  let ?pos = "\<lambda>c. r + int c - (hv_start v - aligned_start v)"
  have "cell_byte (take 2 (drop (17 + 3 * c) (hex_row v r))) = cell_byte (take 2 (hex_cell (hv_data v) (?pos c)))"
    if c: "c < nat (hv_width v)" for c
  proof -
    have "drop (17 + 3 * c) (hex_row v r) = drop (3 * c) (drop 17 (hex_row v r))" by (simp add: add.commute)
    also have "drop 17 (hex_row v r) = concat (map (\<lambda>c. hex_cell (hv_data v) (?pos c)) [0..<nat (hv_width v)])
        @ map (\<lambda>c. ascii_cell (hv_data v) (?pos c)) [0..<nat (hv_width v)]"
      by (simp add: hex_row_def Let_def)
    finally obtain rest where "drop (17 + 3 * c) (hex_row v r) = hex_cell (hv_data v) (?pos ([0..<nat (hv_width v)] ! c)) @ rest"
      using drop_cells [of "[0..<nat (hv_width v)]" "\<lambda>c. hex_cell (hv_data v) (?pos c)" c] c by (metis length_hex_cell length_upt minus_nat.diff_0)
    then show ?thesis using c by simp
  qed
  then show ?thesis unfolding row_bytes_def cell_byte_cell Let_def by (intro arg_cong [where f = concat]) auto
qed

section \<open>Lines\<close>

lemma getlines_rows:
  "\<forall>l\<in>set (l0 # ls). newline \<notin> set l \<and> l \<noteq> [] \<Longrightarrow> getlines newline (l0 @ concat (map (\<lambda>l. newline # l) ls)) = l0 # ls"
proof -
  have "\<forall>l\<in>set (l0 # ls). newline \<notin> set l \<and> l \<noteq> [] \<Longrightarrow>
      getlines_acc newline [] (l0 @ concat (map (\<lambda>l. newline # l) ls)) = l0 # ls"
    by (induction ls arbitrary: l0) (auto simp: getlines_acc_last getlines_acc_piece)
  then show "\<forall>l\<in>set (l0 # ls). newline \<notin> set l \<and> l \<noteq> [] \<Longrightarrow> ?thesis" by (simp add: getlines_def)
qed

lemma newline_not_hex: "newline \<notin> set (HEX w i)"
proof -
  have "c \<in> set (show_hex True n) \<Longrightarrow> \<exists>d<16. c = digit_char True d" for c n
    using digits_bound [of 16] by (auto simp: show_hex_def)
  moreover have "digit_char True d \<noteq> newline" if "d < 16" for d
    using digit_char_not_space [of d True] that by (auto simp: newline_def is_space_def)
  ultimately show ?thesis by (fastforce simp: HEX_def setw_def newline_def)
qed

lemma newline_not_row: "newline \<notin> set (hex_row v r)"
proof -
  have "newline \<noteq> ascii_cell bs pos" for bs pos
  proof -
    have "newline \<noteq> char_of n" if "32 \<le> n" "n \<le> 126" for n :: nat
    proof
      assume "newline = char_of n"
      then have "(of_char newline :: nat) = of_char (char_of n :: char)" by simp
      then have "(of_char newline :: nat) = n" using that by simp
      then show False using that by (simp add: newline_def)
    qed
    from this [of "unat (bs ! nat pos)"] show ?thesis
      by (auto simp: ascii_cell_def ConvertToReadable_def newline_def not_less)
  qed
  moreover have "newline \<notin> set (hex_cell bs pos)" for bs pos
    by (simp add: hex_cell_def newline_not_hex) (simp add: newline_def)
  ultimately show ?thesis by (auto simp: hex_row_def Let_def newline_not_hex) (auto simp: newline_def)
qed

lemma newline_not_header: "newline \<notin> set (hex_header w)"
  by (auto simp: hex_header_def newline_not_hex) (auto simp: newline_def)

section \<open>What a dump shows\<close>

text \<open>The dump with a header reads back as a prefix of the data: \<open>hv_width\<close> bytes for each of its rows, less those of the
  first row that lie before the start. The number of rows comes from a rounding that adds the remainder of the size
  instead of what the size lacks.\<close>

definition dump_rows :: "nat \<Rightarrow> nat \<Rightarrow> nat" where
  "dump_rows w n = (n + n mod w + w - 1) div w"

lemma aligned_parts:
  assumes "0 < w"
  shows "aligned_start \<lparr>hv_width = int w, hv_start = int st, hv_data = bs\<rparr> = int (st - st mod w)"
    "aligned_size \<lparr>hv_width = int w, hv_start = int st, hv_data = bs\<rparr> = int (length bs + length bs mod w)"
proof -
  have sm: "int a smod int w = int (a mod w)" for a by (simp add: signed_modulo_int_def sgn_if zmod_int)
  let ?v = "\<lparr>hv_width = int w, hv_start = int st, hv_data = bs\<rparr>"
  show start: "aligned_start ?v = int (st - st mod w)" by (simp add: aligned_start_def sm of_nat_diff)
  have "(st - st mod w + length bs) mod w = length bs mod w" by (simp add: minus_mod_eq_div_mult)
  then have "(aligned_start ?v + int (length bs)) smod int w = int (length bs mod w)"
    using sm [of "st - st mod w + length bs"] unfolding start of_nat_add [symmetric] by simp
  moreover have "aligned_size ?v = int (length bs) + (aligned_start ?v + int (length bs)) smod int w"
    by (simp add: aligned_size_def Let_def)
  ultimately show "aligned_size ?v = int (length bs + length bs mod w)" by simp
qed

lemma hexview_reads_back:
  assumes "0 < w"
  shows "\<exists>txt. HexView_ToString True \<lparr>hv_width = int w, hv_start = int st, hv_data = bs\<rparr> = Inr txt
    \<and> dump_bytes w txt = take (dump_rows w (length bs) * w - st mod w) bs"
proof -
  let ?v = "\<lparr>hv_width = int w, hv_start = int st, hv_data = bs\<rparr>"
  let ?n = "dump_rows w (length bs)"
  have "int (length bs + length bs mod w) + int w - 1 = int (length bs + length bs mod w + w - 1)"
    using assms by (simp add: of_nat_diff)
  then have "nat ((int (length bs + length bs mod w) + int w - 1) div int w) = ?n"
    by (simp only: zdiv_int [symmetric] nat_int dump_rows_def)
  then have rows: "row_offsets (int w) (aligned_size ?v) 0 = map (\<lambda>i. int i * int w) [0..<?n]"
    using row_offsets_upt [of "int w" "aligned_size ?v" 0] assms aligned_parts(2) [OF assms, of st bs] by simp
  define ls where "ls = map (hex_row ?v) (row_offsets (int w) (aligned_size ?v) 0)"
  have dump: "HexView_ToString True ?v = Inr (hex_header (int w) @ concat (map (\<lambda>l. newline # l) ls))"
    using assms by (simp add: HexView_ToString_def ls_def comp_def)
  have "\<forall>l\<in>set (hex_header (int w) # ls). newline \<notin> set l \<and> l \<noteq> []"
    by (auto simp: ls_def newline_not_header newline_not_row) (auto simp: hex_header_def hex_row_def Let_def)
  then have lines: "tl (getlines newline (hex_header (int w) @ concat (map (\<lambda>l. newline # l) ls))) = ls"
    by (simp add: getlines_rows)
  have pos: "int (k * w) + int c - (int st - int (st - st mod w)) = int (k * w + c) - int (st mod w)" for k c
    by (simp add: of_nat_diff)
  have "map (row_bytes w) ls = map (\<lambda>k. concat (map (\<lambda>c. (\<lambda>j. if int j - int (st mod w) < 0 \<or> int j - int (st mod w) \<ge> int (length bs)
      then [] else [bs ! nat (int j - int (st mod w))]) (k * w + c)) [0..<w])) [0..<?n]"
    unfolding ls_def rows map_map comp_def
  proof (intro map_cong refl)
    fix k
    show "row_bytes w (hex_row ?v (int k * int w)) = concat (map (\<lambda>c. (\<lambda>j. if int j - int (st mod w) < 0 \<or> int j - int (st mod w) \<ge> int (length bs)
      then [] else [bs ! nat (int j - int (st mod w))]) (k * w + c)) [0..<w])"
      using row_bytes_row [of ?v "int (k * w)"] pos [of k] aligned_parts(1) [OF assms, of st bs] by (simp add: Let_def cong: if_cong)
  qed
  then have "dump_bytes w (hex_header (int w) @ concat (map (\<lambda>l. newline # l) ls)) = take (?n * w - st mod w) bs"
    unfolding dump_bytes_def lines concat_blocks [symmetric] shown_positions [symmetric] by (simp only: concat_blocks)
  with dump show ?thesis by blast
qed

lemma dump_rows_enough: "0 < w \<Longrightarrow> n \<le> dump_rows w n * w"
proof -
  assume w: "0 < w"
  have "dump_rows w n * w = n + n mod w + w - 1 - (n + n mod w + w - 1) mod w"
    by (simp add: dump_rows_def minus_mod_eq_div_mult)
  moreover have "(n + n mod w + w - 1) mod w < w" using w by simp
  ultimately show ?thesis using w by linarith
qed

text \<open>C34: a dump with a header shows a prefix of the data, as many bytes as its rows have room for. When the start is
  a multiple of the width this is all of the data; otherwise the last bytes may be missing, because the number of rows does not
  count the bytes before the start.\<close>

theorem hexview_shows:
  assumes "0 < w"
  shows "\<exists>s. HexView_ToString True \<lparr>hv_width = int w, hv_start = int st, hv_data = bs\<rparr> = Inr s
    \<and> dump_bytes w s = take (dump_rows w (length bs) * w - st mod w) bs
    \<and> (w dvd st \<longrightarrow> dump_bytes w s = bs)"
  using hexview_reads_back [OF assms, of st bs] dump_rows_enough [OF assms, of "length bs"] by fastforce

lemma hexview_shows_witness:
  "\<exists>s. HexView_ToString True \<lparr>hv_width = int 32, hv_start = int 31, hv_data = [170, 187]\<rparr> = Inr s \<and> dump_bytes 32 s = [170]"
  using hexview_shows [of 32 31 "[170, 187]"] by (simp add: dump_rows_def)

end
