(* ===== verification/Layout.thy ===== *)
theory Layout
  imports Prelude
begin

text \<open>
  The contract of the code that lays out things one after the other: registers in the address
  space of the generated hardware, buffers in an SREC image. Each thing takes some space and
  gets the first free address, as long as everything stays below a bound, above which the
  machine integers of the code wrap around.
\<close>

locale sequential_layout =
  fixes space :: "'a \<Rightarrow> nat"
    and ok :: "'a \<Rightarrow> bool"
    and bound :: nat
    and place :: "nat \<Rightarrow> 'a list \<Rightarrow> nat list"
  assumes place_Nil: "place a [] = []"
    and place_Cons: "ok x \<Longrightarrow> a + space x \<le> bound \<Longrightarrow> place a (x # xs) = a # place (a + space x) xs"
begin

definition total :: "'a list \<Rightarrow> nat" where
  "total xs = sum_list (map space xs)"

lemma total_simps [simp]: "total [] = 0" "total (x # xs) = space x + total xs"
  by (simp_all add: total_def)

lemma total_append: "total (xs @ ys) = total xs + total ys"
  by (simp add: total_def)

lemma place_nth:
  assumes "\<forall>x\<in>set xs. ok x" "a + total xs \<le> bound"
  shows "length (place a xs) = length xs"
    and "i < length xs \<Longrightarrow> place a xs ! i = a + total (take i xs)"
proof -
  have *: "length (place a xs) = length xs \<and> (\<forall>i<length xs. place a xs ! i = a + total (take i xs))"
    using assms
  proof (induction xs arbitrary: a)
    case (Cons x xs)
    have p: "place a (x # xs) = a # place (a + space x) xs"
      using Cons.prems by (intro place_Cons) auto
    have IH: "length (place (a + space x) xs) = length xs
      \<and> (\<forall>i<length xs. place (a + space x) xs ! i = a + space x + total (take i xs))"
      using Cons.prems by (intro Cons.IH) auto
    have "(a # place (a + space x) xs) ! i = a + total (take i (x # xs))" if "i < Suc (length xs)" for i
      using IH that by (cases i) auto
    then show ?case using IH p by auto
  qed (simp add: place_Nil)
  then show "length (place a xs) = length xs"
    and "i < length xs \<Longrightarrow> place a xs ! i = a + total (take i xs)" by auto
qed

text \<open>Things do not overlap and lie between the start and the end.\<close>

lemma total_take_mono: "i < j \<Longrightarrow> j \<le> length xs \<Longrightarrow> total (take i xs) + space (xs ! i) \<le> total (take j xs)"
proof (induction xs arbitrary: i j)
  case (Cons x xs)
  then obtain j' where j: "j = Suc j'" by (cases j) auto
  show ?case
    using Cons by (cases i) (auto simp: j)
qed simp

lemma place_disjoint:
  assumes "\<forall>x\<in>set xs. ok x" "a + total xs \<le> bound" "i < j" "j < length xs"
  shows "place a xs ! i + space (xs ! i) \<le> place a xs ! j"
  using total_take_mono [of i j xs] place_nth(2) [OF assms(1,2)] assms(3,4) by simp

lemma place_within:
  assumes "\<forall>x\<in>set xs. ok x" "a + total xs \<le> bound" "i < length xs"
  shows "a \<le> place a xs ! i" and "place a xs ! i + space (xs ! i) \<le> a + total xs"
  using total_take_mono [of i "length xs" xs] place_nth(2) [OF assms(1,2)] assms(3) by simp_all

end

text \<open>When every thing takes some space, their addresses differ.\<close>

locale strict_layout = sequential_layout +
  assumes space_pos: "ok x \<Longrightarrow> 0 < space x"
begin

lemma place_distinct:
  assumes "\<forall>x\<in>set xs. ok x" "a + total xs \<le> bound"
  shows "distinct (place a xs)"
  unfolding distinct_conv_nth
proof (intro allI impI)
  fix i j assume ij: "i < length (place a xs)" "j < length (place a xs)" "i \<noteq> j"
  have lt: "place a xs ! i < place a xs ! j" if "i < j" "j < length xs" for i j
  proof -
    have "0 < space (xs ! i)" using assms(1) that by (intro space_pos) simp
    then show ?thesis using place_disjoint [OF assms that] by linarith
  qed
  show "place a xs ! i \<noteq> place a xs ! j"
    using ij lt [of i j] lt [of j i] place_nth(1) [OF assms] by (cases "i < j") auto
qed

end

end
