(* ===== verification/Srec_Batch.thy ===== *)
theory Srec_Batch
  imports Srec_File Batch_Desc Host_Memory Hex_View Layout
begin

text \<open>
  \<^verbatim>\<open>fletchgen/srec/recordbatch.cc\<close>: laying out the buffers of record batches in one memory image
  and writing it as an SREC file for simulation. The host memory the raw buffers point into is
  a partial map from addresses to bytes; copying skips a null buffer. The lines of the log are left out,
  but not the hex dump made for them, which reads every buffer: a null buffer must be empty. The output stream is the text
  written to it.
\<close>

section \<open>Layout\<close>

definition PaddedLength :: "u64 \<Rightarrow> u64 \<Rightarrow> u64" where
  "PaddedLength sz alignment = ((sz + alignment - 1) div alignment) * alignment"

fun place_buffers :: "u64 \<Rightarrow> u64 \<Rightarrow> buffer_metadata list \<Rightarrow> buffer_metadata list \<times> u64" where
  "place_buffers align offset [] = ([], offset)"
| "place_buffers align offset (buf # bufs) =
    (let out = mk_buffer offset (buf_size buf) (buf_desc buf) (buf_level buf) False;
         padded_size = PaddedLength (of_int (buf_size buf)) align;
         (outs, offset') = place_buffers align (offset + padded_size) bufs
     in (out # outs, offset'))"

fun place_fields :: "u64 \<Rightarrow> u64 \<Rightarrow> field_metadata_desc list \<Rightarrow> field_metadata_desc list \<times> u64" where
  "place_fields align offset [] = ([], offset)"
| "place_fields align offset (f # fs) =
    (let (bufs, offset1) = place_buffers align offset (fm_buffers f);
         (outs, offset2) = place_fields align offset1 fs
     in (f\<lparr>fm_buffers := bufs\<rparr> # outs, offset2))"

fun place_batches :: "u64 \<Rightarrow> u64 \<Rightarrow> batch_description list \<Rightarrow> batch_description list \<times> u64" where
  "place_batches align offset [] = ([], offset)"
| "place_batches align offset (desc_in # ds) =
    (let (desc_out, offset1) =
           (if \<not> bd_virtual desc_in
            then (let (fs, off) = place_fields align offset (bd_fields desc_in)
                  in (desc_in\<lparr>bd_fields := fs\<rparr>, off))
            else (desc_in, offset));
         (outs, offset2) = place_batches align offset1 ds
     in (desc_out # outs, offset2))"

section \<open>Dumping for the log\<close>

definition dump_buffer :: "host_memory \<Rightarrow> buffer_metadata \<times> buffer_metadata \<Rightarrow> string res" where
  "dump_buffer mem = (\<lambda>(bin, bout).
    if raw_buffer bin = 0 \<and> buf_size bin \<noteq> 0 then Inl Undefined
    else res_bind (read_host mem (raw_buffer bin) (unat (of_int (buf_size bin) :: u64))) (\<lambda>bs.
      HexView_ToString True (AddData bs (HexView_new (raw_buffer bout) 32))))"

section \<open>Copying\<close>

definition copy_buffer :: "host_memory \<Rightarrow> buffer_metadata \<Rightarrow> buffer_metadata \<Rightarrow> u8 list \<Rightarrow> u8 list res" where
  "copy_buffer mem bin bout img =
    (if raw_buffer bin \<noteq> 0
     then res_bind (read_host mem (raw_buffer bin) (unat (of_int (buf_size bin) :: u64)))
            (memcpy_at img (unat (raw_buffer bout)))
     else Inr img)"

fun copy_buffers :: "host_memory \<Rightarrow> buffer_metadata list \<Rightarrow> buffer_metadata list \<Rightarrow> u8 list \<Rightarrow> u8 list res" where
  "copy_buffers mem [] outs img = Inr img"
| "copy_buffers mem (b # bs) [] img = Inl Undefined"
| "copy_buffers mem (b # bs) (b' # outs) img =
    res_bind (copy_buffer mem b b' img) (copy_buffers mem bs outs)"

fun copy_fields :: "host_memory \<Rightarrow> field_metadata_desc list \<Rightarrow> field_metadata_desc list \<Rightarrow> u8 list \<Rightarrow> u8 list res" where
  "copy_fields mem [] outs img = Inr img"
| "copy_fields mem (f # fs) [] img =
    (if fm_buffers f = [] then copy_fields mem fs [] img else Inl Undefined)"
| "copy_fields mem (f # fs) (f' # outs) img =
    res_bind (copy_buffers mem (fm_buffers f) (fm_buffers f') img) (copy_fields mem fs outs)"

fun copy_batches :: "host_memory \<Rightarrow> batch_description list \<Rightarrow> batch_description list \<Rightarrow> u8 list \<Rightarrow> u8 list res" where
  "copy_batches mem [] outs img = Inr img"
| "copy_batches mem (m # ms) [] img = Inl Out_of_range"
| "copy_batches mem (m # ms) (m' # outs) img =
    res_bind (if \<not> bd_virtual m then copy_fields mem (bd_fields m) (bd_fields m') img else Inr img)
      (copy_batches mem ms outs)"

text \<open>\<open>meta_out\<close> is what the output vector holds on entry.\<close>

definition GenerateReadSREC ::
    "host_memory \<Rightarrow> batch_description list \<Rightarrow> batch_description list \<Rightarrow> bool \<Rightarrow> int \<Rightarrow>
     (batch_description list \<times> string) res" where
  "GenerateReadSREC mem meta_in meta_out good buffer_align =
    (if buffer_align = 0 then Inl Undefined else
     let (placed, offset) = place_batches (of_int buffer_align) 0 meta_in;
         outs = meta_out @ placed
     in res_bind (res_mapM (dump_buffer mem) (concat (map (\<lambda>(d, d'). if bd_virtual d then [] else
            zip (concat (map fm_buffers (bd_fields d))) (concat (map fm_buffers (bd_fields d')))) (zip meta_in placed)))) (\<lambda>_.
        res_bind (copy_batches mem meta_in outs (replicate (unat offset) 0)) (\<lambda>srec_buffer.
        res_bind (File_new 0 srec_buffer (unat offset) ''HDR'') (\<lambda>sr.
        if good then res_bind (File_write good sr) (\<lambda>out. Inr (outs, out))
        else Inl Exited))))"

text \<open>The reader of record batches is not implemented by the source either.\<close>

definition ReadRecordBatchesFromSREC :: "string \<Rightarrow> arrow_schema list \<Rightarrow> u64 list \<Rightarrow> u64 list \<Rightarrow> record_batch list res" where
  "ReadRecordBatchesFromSREC input schemas num_rows buf_offsets = Inl Exited"

section \<open>The layout in numbers\<close>

definition padded :: "nat \<Rightarrow> nat \<Rightarrow> nat" where
  "padded a n = (n + a - 1) div a * a"

lemma padded_bounds:
  assumes "0 < a"
  shows "n \<le> padded a n" "padded a n < n + a" "a dvd padded a n"
proof -
  have "(n + a - 1) mod a < a" using assms by simp
  moreover have "(n + a - 1) div a * a + (n + a - 1) mod a = n + a - 1" by (rule div_mult_mod_eq)
  ultimately show "n \<le> padded a n" "padded a n < n + a" using assms unfolding padded_def by linarith+
qed (simp add: padded_def)

lemma PaddedLength_nat:
  assumes "0 < a" "n + a < 2 ^ 64"
  shows "PaddedLength (of_nat n) (of_nat a) = of_nat (padded a n)"
proof -
  have "(of_nat n + of_nat a - 1 :: u64) = of_nat (n + a - 1)"
    using assms by (simp add: of_nat_diff)
  moreover have "unat (of_nat (n + a - 1) :: u64) = n + a - 1" "unat (of_nat a :: u64) = a"
    using assms by (intro unat_of_nat_small; simp)+
  ultimately have "(of_nat n + of_nat a - 1 :: u64) div of_nat a = of_nat ((n + a - 1) div a)"
    by (simp add: word_arith_nat_div)
  then show ?thesis by (simp add: PaddedLength_def padded_def)
qed

definition size_nat :: "buffer_metadata \<Rightarrow> nat" where
  "size_nat b = nat (buf_size b)"

definition total_padded :: "nat \<Rightarrow> buffer_metadata list \<Rightarrow> nat" where
  "total_padded a bs = sum_list (map (\<lambda>b. padded a (size_nat b)) bs)"

definition batch_buffers :: "batch_description \<Rightarrow> buffer_metadata list" where
  "batch_buffers d = (if bd_virtual d then [] else concat (map fm_buffers (bd_fields d)))"

definition all_buffers :: "batch_description list \<Rightarrow> buffer_metadata list" where
  "all_buffers ds = concat (map batch_buffers ds)"

lemma place_buffers_append:
  "place_buffers al off (bs @ cs) =
    (let (o1, off1) = place_buffers al off bs; (o2, off2) = place_buffers al off1 cs in (o1 @ o2, off2))"
  by (induction bs arbitrary: off) (auto simp: Let_def split: prod.splits)

lemma place_fields_flat:
  "place_fields al off fs = (fs', off') \<Longrightarrow>
   place_buffers al off (concat (map fm_buffers fs)) = (concat (map fm_buffers fs'), off')
   \<and> list_all2 (\<lambda>f f'. length (fm_buffers f) = length (fm_buffers f')) fs fs'"
proof (induction fs arbitrary: off fs' off')
  case (Cons f fs)
  have len: "length (fst (place_buffers al o1 bs)) = length bs" for o1 bs
    by (induction bs arbitrary: o1) (auto simp: Let_def split: prod.splits, metis fst_conv)
  obtain bufs off1 outs where
    1: "place_buffers al off (fm_buffers f) = (bufs, off1)" "place_fields al off1 fs = (outs, off')"
      "fs' = f\<lparr>fm_buffers := bufs\<rparr> # outs"
    using Cons.prems by (auto simp: Let_def split: prod.splits)
  moreover have "length bufs = length (fm_buffers f)" using len [of off "fm_buffers f"] 1 by simp
  ultimately show ?case using Cons.IH by (fastforce simp: place_buffers_append)
qed simp

lemma place_batches_flat:
  "place_batches al off ds = (ds', off') \<Longrightarrow>
   place_buffers al off (all_buffers ds) = (all_buffers ds', off')
   \<and> list_all2 (\<lambda>d d'. bd_virtual d = bd_virtual d' \<and>
       list_all2 (\<lambda>f f'. length (fm_buffers f) = length (fm_buffers f')) (bd_fields d) (bd_fields d')) ds ds'"
proof (induction ds arbitrary: off ds' off')
  case (Cons d ds)
  show ?case
  proof (cases "bd_virtual d")
    case True
    then obtain outs where o: "place_batches al off ds = (outs, off')" "ds' = d # outs"
      using Cons.prems by (auto simp: Let_def split: prod.splits)
    then show ?thesis using True Cons.IH [OF o(1)]
      by (auto simp: all_buffers_def batch_buffers_def list_all2_conv_all_nth [of _ "bd_fields d" "bd_fields d"])
  next
    case False
    then obtain fs off1 outs where o: "place_fields al off (bd_fields d) = (fs, off1)"
      "place_batches al off1 ds = (outs, off')" "ds' = d\<lparr>bd_fields := fs\<rparr> # outs"
      using Cons.prems by (auto simp: Let_def split: prod.splits)
    then show ?thesis using False Cons.IH [OF o(2)] place_fields_flat [OF o(1)]
      by (auto simp: all_buffers_def batch_buffers_def place_buffers_append)
  qed
qed (simp add: all_buffers_def)

text \<open>The addresses of the buffers in the image are a sequential layout.\<close>

definition placeable :: "nat \<Rightarrow> buffer_metadata \<Rightarrow> bool" where
  "placeable a b \<longleftrightarrow> 0 < a \<and> a \<le> 2 ^ 32 \<and> 0 \<le> buf_size b"

definition image_addresses :: "nat \<Rightarrow> nat \<Rightarrow> buffer_metadata list \<Rightarrow> nat list" where
  "image_addresses a off bs = map (\<lambda>b. unat (raw_buffer b)) (fst (place_buffers (of_nat a) (of_nat off) bs))"

lemma place_buffers_Cons:
  assumes "placeable a b" "off + padded a (size_nat b) \<le> 2 ^ 32"
  shows "place_buffers (of_nat a) (of_nat off) (b # bs) =
    (let (outs, off') = place_buffers (of_nat a) (of_nat (off + padded a (size_nat b))) bs
     in (mk_buffer (of_nat off) (buf_size b) (buf_desc b) (buf_level b) False # outs, off'))"
proof -
  have n: "size_nat b \<le> 2 ^ 32" using padded_bounds(1) [of a "size_nat b"] assms by (simp add: placeable_def)
  have sz: "(of_int (buf_size b) :: u64) = of_nat (size_nat b)"
    using assms by (simp add: size_nat_def placeable_def of_nat_nat)
  have "PaddedLength (of_int (buf_size b)) (of_nat a) = of_nat (padded a (size_nat b))"
    unfolding sz by (rule PaddedLength_nat) (use assms n in \<open>auto simp: placeable_def\<close>)
  then show ?thesis by (simp add: Let_def)
qed

interpretation image_layout: sequential_layout "\<lambda>b. padded a (size_nat b)" "placeable a" "2 ^ 32" "image_addresses a" for a
proof
  fix x off xs
  assume x: "placeable a x" "off + padded a (size_nat x) \<le> 2 ^ 32"
  have "unat (of_nat off :: u64) = off" using x(2) by (intro unat_of_nat_small) simp
  then show "image_addresses a off (x # xs) = off # image_addresses a (off + padded a (size_nat x)) xs"
    by (simp add: image_addresses_def place_buffers_Cons [OF x] split_beta mk_buffer_def
        del: of_nat_add place_buffers.simps)
qed (simp add: image_addresses_def)

lemma total_padded_layout: "image_layout.total a bs = total_padded a bs"
  by (simp add: image_layout.total_def total_padded_def)

lemma copy_buffers_append:
  "length bs = length bs' \<Longrightarrow> copy_buffers mem (bs @ cs) (bs' @ cs') im =
    res_bind (copy_buffers mem bs bs' im) (copy_buffers mem cs cs')"
proof (induction bs bs' arbitrary: im rule: list_induct2)
  case (Cons b bs b' bs')
  then show ?case by (cases "copy_buffer mem b b' im") auto
qed simp

lemma copy_fields_flat:
  "list_all2 (\<lambda>f f'. length (fm_buffers f) = length (fm_buffers f')) fs fs' \<Longrightarrow>
   copy_fields mem fs fs' im = copy_buffers mem (concat (map fm_buffers fs)) (concat (map fm_buffers fs')) im"
proof (induction fs fs' arbitrary: im rule: list_all2_induct)
  case (Cons f fs f' fs')
  then show ?case
    by (cases "copy_buffers mem (fm_buffers f) (fm_buffers f') im") (auto simp: copy_buffers_append)
qed simp

lemma length_concat_buffers:
  "list_all2 (\<lambda>f f'. length (fm_buffers f) = length (fm_buffers f')) fs fs' \<Longrightarrow>
   length (concat (map fm_buffers fs)) = length (concat (map fm_buffers fs'))"
  by (induction rule: list_all2_induct) auto

lemma copy_batches_flat:
  "list_all2 (\<lambda>d d'. bd_virtual d = bd_virtual d' \<and>
     list_all2 (\<lambda>f f'. length (fm_buffers f) = length (fm_buffers f')) (bd_fields d) (bd_fields d')) ds ds' \<Longrightarrow>
   copy_batches mem ds ds' im = copy_buffers mem (all_buffers ds) (all_buffers ds') im"
proof (induction ds ds' arbitrary: im rule: list_all2_induct)
  case (Cons d ds d' ds')
  then show ?case
    by (cases "copy_buffers mem (batch_buffers d) (batch_buffers d') im")
      (auto simp: all_buffers_def batch_buffers_def copy_buffers_append copy_fields_flat length_concat_buffers)
qed (simp add: all_buffers_def)

section \<open>The image\<close>

definition readable :: "host_memory \<Rightarrow> buffer_metadata \<Rightarrow> bool" where
  "readable mem b = (if raw_buffer b = 0 then buf_size b = 0 else (\<forall>i < size_nat b. mem (raw_buffer b + of_nat i) \<noteq> None))"

text \<open>What the buffer holds: the bytes of the host memory, and zeros for a null buffer.\<close>

definition contents :: "host_memory \<Rightarrow> buffer_metadata \<Rightarrow> u8 list" where
  "contents mem b = (if raw_buffer b = 0 then replicate (size_nat b) 0
     else map (\<lambda>i. the (mem (raw_buffer b + of_nat i))) [0..<size_nat b])"

definition padded_contents :: "host_memory \<Rightarrow> nat \<Rightarrow> buffer_metadata \<Rightarrow> u8 list" where
  "padded_contents mem a b = contents mem b @ replicate (padded a (size_nat b) - size_nat b) 0"

lemma length_contents [simp]: "length (contents mem b) = size_nat b"
  by (simp add: contents_def)

lemma length_padded_contents: "0 < a \<Longrightarrow> length (padded_contents mem a b) = padded a (size_nat b)"
  using padded_bounds(1) [of a "size_nat b"] by (simp add: padded_contents_def)

lemma length_image: "0 < a \<Longrightarrow> length (concat (map (padded_contents mem a) bs)) = total_padded a bs"
  by (induction bs) (simp_all add: total_padded_def length_padded_contents)

lemma read_host_contents:
  "raw_buffer b \<noteq> 0 \<Longrightarrow> readable mem b \<Longrightarrow>
   read_host mem (raw_buffer b) (size_nat b) = Inr (contents mem b)"
  unfolding read_host_def contents_def readable_def
  by (subst res_mapM_map [where g = "\<lambda>i. the (mem (raw_buffer b + of_nat i))"]) auto

lemma copy_buffer_padded:
  assumes "0 < a" "0 \<le> buf_size bin" "size_nat bin < 2 ^ 64" "readable mem bin"
    "unat (raw_buffer bout) = length pre"
  shows "copy_buffer mem bin bout (pre @ replicate (padded a (size_nat bin)) 0 @ post)
       = Inr (pre @ padded_contents mem a bin @ post)"
proof -
  have size: "unat (of_int (buf_size bin) :: u64) = size_nat bin"
  proof -
    have "(of_int (buf_size bin) :: u64) = of_nat (size_nat bin)"
      using assms(2) by (simp add: size_nat_def of_nat_nat)
    then show ?thesis using assms(3) by simp
  qed
  have split: "replicate (padded a (size_nat bin)) (0::u8)
      = replicate (size_nat bin) 0 @ replicate (padded a (size_nat bin) - size_nat bin) 0"
    using padded_bounds(1) [OF assms(1), of "size_nat bin"] by (simp flip: replicate_add)
  show ?thesis
  proof (cases "raw_buffer bin = 0")
    case True
    then show ?thesis unfolding copy_buffer_def split by (simp add: padded_contents_def contents_def)
  next
    case False
    then show ?thesis
      unfolding copy_buffer_def size split using read_host_contents [OF False assms(4)] assms(5)
      by (simp add: memcpy_at_def padded_contents_def)
  qed
qed

lemma place_copy:
  assumes "0 < a" "a \<le> 2 ^ 32" "off + total_padded a bs \<le> 2 ^ 32"
    "\<forall>b\<in>set bs. 0 \<le> buf_size b \<and> readable mem b"
    "place_buffers (of_nat a) (of_nat off) bs = (outs, off')" "length pre = off"
  shows "off' = of_nat (off + total_padded a bs)
    \<and> length outs = length bs
    \<and> copy_buffers mem bs outs (pre @ replicate (total_padded a bs) 0)
      = Inr (pre @ concat (map (padded_contents mem a) bs))"
  using assms
proof (induction bs arbitrary: off outs pre)
  case Nil
  then show ?case by (simp add: total_padded_def)
next
  case (Cons b bs)
  let ?n = "size_nat b"
  have tp: "total_padded a (b # bs) = padded a ?n + total_padded a bs"
    by (simp add: total_padded_def)
  have n: "?n \<le> 2 ^ 32" using padded_bounds(1) [OF \<open>0 < a\<close>, of ?n] Cons.prems tp by linarith
  have pb: "placeable a b" "off + padded a ?n \<le> 2 ^ 32" using Cons.prems tp by (simp_all add: placeable_def)
  obtain outs' where o: "place_buffers (of_nat a) (of_nat (off + padded a ?n)) bs = (outs', off')"
    and outs: "outs = mk_buffer (of_nat off) (buf_size b) (buf_desc b) (buf_level b) False # outs'"
    using Cons.prems(5) by (auto simp: place_buffers_Cons [OF pb] simp del: place_buffers.simps of_nat_add split: prod.splits)
  have raw: "unat (of_nat off :: u64) = length pre"
    using Cons.prems by (subst unat_of_nat_small) auto
  let ?pre = "pre @ padded_contents mem a b"
  have IH: "off' = of_nat (off + padded a ?n + total_padded a bs)
    \<and> length outs' = length bs
    \<and> copy_buffers mem bs outs' (?pre @ replicate (total_padded a bs) 0)
      = Inr (?pre @ concat (map (padded_contents mem a) bs))"
    using Cons.prems tp by (intro Cons.IH [OF _ _ _ _ o]) (auto simp: length_padded_contents)
  have "copy_buffer mem b (mk_buffer (of_nat off) (buf_size b) (buf_desc b) (buf_level b) False)
      (pre @ replicate (padded a ?n) 0 @ replicate (total_padded a bs) 0)
      = Inr (pre @ padded_contents mem a b @ replicate (total_padded a bs) 0)"
    by (rule copy_buffer_padded) (use Cons.prems n raw in \<open>simp_all add: mk_buffer_def\<close>)
  then have cp: "copy_buffers mem (b # bs) outs (pre @ replicate (total_padded a (b # bs)) 0)
      = Inr (pre @ concat (map (padded_contents mem a) (b # bs)))"
    using IH by (simp add: outs tp replicate_add)
  show ?case using IH cp by (simp add: outs tp add.assoc)
qed

lemma image_address:
  assumes "0 < a" "a \<le> 2 ^ 32" "total_padded a bs \<le> 2 ^ 32" "\<forall>b\<in>set bs. 0 \<le> buf_size b"
    "place_buffers (of_nat a) 0 bs = (outs, off')" "i < length bs"
  shows "raw_buffer (outs ! i) = of_nat (total_padded a (take i bs))"
proof -
  have ok: "\<forall>b\<in>set bs. placeable a b" "0 + image_layout.total a bs \<le> 2 ^ 32"
    using assms by (simp_all add: placeable_def total_padded_layout)
  have "length outs = length bs"
    using image_layout.place_nth(1) [OF ok] assms(5) by (simp add: image_addresses_def)
  then have "unat (raw_buffer (outs ! i)) = total_padded a (take i bs)"
    using image_layout.place_nth(2) [OF ok assms(6)] assms(5,6) by (simp add: image_addresses_def total_padded_layout)
  then show ?thesis by (metis of_nat_unat ucast_id)
qed

lemma dump_buffer_ok:
  assumes "0 \<le> buf_size b" "size_nat b < 2 ^ 64" "readable mem b"
  shows "\<exists>s. dump_buffer mem (b, b') = Inr s"
proof -
  have "(of_int (buf_size b) :: u64) = of_nat (size_nat b)" using assms(1) by (simp add: size_nat_def of_nat_nat)
  then have size: "unat (of_int (buf_size b) :: u64) = size_nat b" using assms(2) by simp
  have "\<exists>bs. read_host mem (raw_buffer b) (size_nat b) = Inr bs"
  proof (cases "raw_buffer b = 0")
    case True
    then show ?thesis using assms(3) by (auto simp: readable_def size_nat_def)
  next
    case False
    then show ?thesis using read_host_contents assms(3) by blast
  qed
  moreover have "\<exists>s. HexView_ToString True (AddData bs (HexView_new off 32)) = Inr s" for bs off
    by (simp add: HexView_ToString_def AddData_def HexView_new_def)
  ultimately show ?thesis using assms(3) size by (auto simp: dump_buffer_def readable_def)
qed

lemma dump_buffers_ok:
  assumes "\<forall>b\<in>set (all_buffers ds). 0 \<le> buf_size b \<and> size_nat b < 2 ^ 64 \<and> readable mem b"
  shows "\<exists>ss. res_mapM (dump_buffer mem) (concat (map (\<lambda>(d, d'). if bd_virtual d then [] else
            zip (concat (map fm_buffers (bd_fields d))) (concat (map fm_buffers (bd_fields d')))) (zip ds ds'))) = Inr ss"
proof (rule res_mapM_total, safe)
  fix b b'
  assume "(b, b') \<in> set (concat (map (\<lambda>(d, d'). if bd_virtual d then [] else
            zip (concat (map fm_buffers (bd_fields d))) (concat (map fm_buffers (bd_fields d')))) (zip ds ds')))"
  then have "\<exists>d\<in>set ds. \<not> bd_virtual d \<and> b \<in> set (concat (map fm_buffers (bd_fields d)))"
    by (fastforce split: if_splits dest: set_zip_leftD)
  then have "b \<in> set (all_buffers ds)" by (fastforce simp: all_buffers_def batch_buffers_def)
  then show "\<exists>s. dump_buffer mem (b, b') = Inr s" using assms dump_buffer_ok by blast
qed

section \<open>Properties\<close>

lemma place_batches_keeps:
  "place_batches al off ds = (ds', off') \<Longrightarrow> map (\<lambda>d. (bd_name d, bd_rows d, bd_virtual d)) ds' = map (\<lambda>d. (bd_name d, bd_rows d, bd_virtual d)) ds"
  by (induction ds arbitrary: off ds' off') (auto simp: Let_def split: prod.splits if_splits)

lemma GenerateReadSREC_image:
  assumes "0 < a" "a \<le> 2 ^ 32" "32 < total_padded a (all_buffers ms)" "total_padded a (all_buffers ms) \<le> 2 ^ 32"
    "\<forall>b\<in>set (all_buffers ms). 0 \<le> buf_size b \<and> readable mem b"
  shows "\<exists>outs out off. place_batches (of_nat a) 0 ms = (outs, off) \<and> length (all_buffers outs) = length (all_buffers ms)
    \<and> GenerateReadSREC mem ms [] True (int a) = Inr (outs, out)
    \<and> res_bind (File_read out) File_ToBuffer
      = Inr (Some (concat (map (padded_contents mem a) (all_buffers ms))), total_padded a (all_buffers ms))
    \<and> (\<forall>i<length (all_buffers ms).
        raw_buffer (all_buffers outs ! i) = of_nat (total_padded a (take i (all_buffers ms))))"
proof -
  let ?bs = "all_buffers ms"
  let ?img = "concat (map (padded_contents mem a) ?bs)"
  let ?n = "total_padded a ?bs"
  obtain outs off' where o: "place_batches (of_nat a) 0 ms = (outs, off')" by fastforce
  note flat = place_batches_flat [OF o]
  have pc: "off' = of_nat (0 + ?n) \<and> length (all_buffers outs) = length ?bs
    \<and> copy_buffers mem ?bs (all_buffers outs) ([] @ replicate ?n 0) = Inr ([] @ ?img)"
    using assms flat by (intro place_copy [where off' = off']) simp_all
  have n: "unat off' = ?n" using pc assms(4) by (simp add: unat_of_nat_small)
  have len: "length ?img = ?n" by (rule length_image [OF assms(1)])
  obtain out where out: "res_bind (File_new 0 ?img ?n ''HDR'') (File_write True) = Inr out"
    "File_read out = Inr (file_records 0 (take ?n ?img) ''HDR'')"
    by (rule File_text_roundtrip [of ?n ?img "''HDR''" 0]) (use assms len in simp_all)
  have "size_nat b < 2 ^ 64" if "b \<in> set ?bs" for b
  proof -
    have "padded a (size_nat b) \<le> ?n" using that by (auto simp: total_padded_def intro: member_le_sum_list)
    then have "size_nat b \<le> 2 ^ 32" using padded_bounds(1) [OF assms(1), of "size_nat b"] assms(4) by linarith
    then show ?thesis by simp
  qed
  then obtain ss where "res_mapM (dump_buffer mem) (concat (map (\<lambda>(d, d'). if bd_virtual d then [] else
      zip (concat (map fm_buffers (bd_fields d))) (concat (map fm_buffers (bd_fields d')))) (zip ms outs))) = Inr ss"
    using dump_buffers_ok [of ms mem outs] assms(5) by blast
  then have "GenerateReadSREC mem ms [] True (int a) = Inr (outs, out)"
    using assms(1) o pc n out(1) copy_batches_flat [OF conjunct2 [OF flat]]
    by (simp add: GenerateReadSREC_def File_new_ok len)
  moreover have "res_bind (File_read out) File_ToBuffer = Inr (Some ?img, ?n)"
    using out(2) ToBuffer_file_at_0 [of ?img "''HDR''"] assms len by simp
  moreover have "raw_buffer (all_buffers outs ! i) = of_nat (total_padded a (take i ?bs))" if "i < length ?bs" for i
    using assms flat that by (intro image_address [where off' = off']) simp_all
  ultimately show ?thesis using pc o by auto
qed

text \<open>C11: the SREC file made for record batches holds every buffer. For readable buffers whose padded
  sizes add up to more than 32 and at most \<open>2 ^ 32\<close> bytes, the function succeeds; reading its text and
  rebuilding the memory gives the contents of all buffers in order, each padded with zeros to the
  alignment; and the address reported for a buffer is the place of its contents in that memory.\<close>

theorem srec_batches_image:
  assumes "0 < a" "a \<le> 2 ^ 32" "32 < total_padded a (all_buffers ms)" "total_padded a (all_buffers ms) \<le> 2 ^ 32"
    "\<forall>b\<in>set (all_buffers ms). 0 \<le> buf_size b \<and> readable mem b"
  shows "\<exists>outs out. GenerateReadSREC mem ms [] True (int a) = Inr (outs, out)
    \<and> res_bind (File_read out) File_ToBuffer
      = Inr (Some (concat (map (padded_contents mem a) (all_buffers ms))), total_padded a (all_buffers ms))
    \<and> (\<forall>i<length (all_buffers ms).
        raw_buffer (all_buffers outs ! i) = of_nat (total_padded a (take i (all_buffers ms))))"
  using GenerateReadSREC_image [OF assms] by blast

definition example_batch :: batch_description where
  "example_batch = \<lparr>bd_name = ''R'', bd_rows = 1, bd_fields =
     [\<lparr>fm_type = STRING, fm_length = 1, fm_null_count = 0, fm_buffers =
        [mk_buffer 0 0 [''a''] 0 True, mk_buffer 4096 5 [''b''] 0 False]\<rparr>],
     bd_mode = READ, bd_virtual = False\<rparr>"

lemma srec_batches_image_witness:
  "\<exists>outs out. GenerateReadSREC (\<lambda>_. Some 1) [example_batch] [] True (int 64) = Inr (outs, out)
    \<and> res_bind (File_read out) File_ToBuffer
      = Inr (Some (concat (map (padded_contents (\<lambda>_. Some 1) 64) (all_buffers [example_batch]))),
          total_padded 64 (all_buffers [example_batch]))
    \<and> (\<forall>i<length (all_buffers [example_batch]).
        raw_buffer (all_buffers outs ! i) = of_nat (total_padded 64 (take i (all_buffers [example_batch]))))"
  by (rule srec_batches_image)
    (simp_all add: all_buffers_def batch_buffers_def example_batch_def total_padded_def padded_def
      size_nat_def mk_buffer_def readable_def)

end
