(* ===== verification/Platform.thy ===== *)
theory Platform
  imports Cxx_Text
begin

text \<open>
  The run-time view of an accelerator platform: \<^verbatim>\<open>fletcher.h\<close>, \<^verbatim>\<open>status.h\<close>, \<^verbatim>\<open>platform.h\<close> and
  \<^verbatim>\<open>platform.cc\<close>. The functions a platform library exports are parameters: each takes the state
  \<open>'d\<close> of the device and the host and returns its raw status and the new state. A function that
  fills an output pointer also takes the value the pointer had, which it may leave alone. The
  shared-library loader is a parameter as well.
\<close>

section \<open>Constants\<close>

type_synonym fstatus = u64

definition FLETCHER_AUTODETECT_PLATFORMS :: "string list" where
  "FLETCHER_AUTODETECT_PLATFORMS = [''snap'', ''aws'', ''echo'']"

definition FLETCHER_STATUS_OK :: fstatus where "FLETCHER_STATUS_OK = 0"
definition FLETCHER_STATUS_ERROR :: fstatus where "FLETCHER_STATUS_ERROR = 1"
definition FLETCHER_STATUS_NO_PLATFORM :: fstatus where "FLETCHER_STATUS_NO_PLATFORM = 2"
definition FLETCHER_STATUS_DEVICE_OUT_OF_MEMORY :: fstatus where "FLETCHER_STATUS_DEVICE_OUT_OF_MEMORY = 3"

definition D_NULLPTR :: u64 where "D_NULLPTR = 0"

definition FLETCHER_REG_CONTROL :: nat where "FLETCHER_REG_CONTROL = 0"
definition FLETCHER_REG_STATUS :: nat where "FLETCHER_REG_STATUS = 1"
definition FLETCHER_REG_RETURN0 :: nat where "FLETCHER_REG_RETURN0 = 2"
definition FLETCHER_REG_RETURN1 :: nat where "FLETCHER_REG_RETURN1 = 3"
definition FLETCHER_REG_SCHEMA :: nat where "FLETCHER_REG_SCHEMA = 4"
definition FLETCHER_REG_CONTROL_START :: nat where "FLETCHER_REG_CONTROL_START = 0"
definition FLETCHER_REG_CONTROL_STOP :: nat where "FLETCHER_REG_CONTROL_STOP = 1"
definition FLETCHER_REG_CONTROL_RESET :: nat where "FLETCHER_REG_CONTROL_RESET = 2"
definition FLETCHER_REG_STATUS_IDLE :: nat where "FLETCHER_REG_STATUS_IDLE = 0"
definition FLETCHER_REG_STATUS_BUSY :: nat where "FLETCHER_REG_STATUS_BUSY = 1"
definition FLETCHER_REG_STATUS_DONE :: nat where "FLETCHER_REG_STATUS_DONE = 2"

lemmas reg_defs = FLETCHER_REG_CONTROL_def FLETCHER_REG_STATUS_def FLETCHER_REG_RETURN0_def
  FLETCHER_REG_RETURN1_def FLETCHER_REG_SCHEMA_def FLETCHER_REG_CONTROL_START_def
  FLETCHER_REG_CONTROL_STOP_def FLETCHER_REG_CONTROL_RESET_def FLETCHER_REG_STATUS_IDLE_def
  FLETCHER_REG_STATUS_BUSY_def FLETCHER_REG_STATUS_DONE_def

lemmas status_codes = FLETCHER_STATUS_OK_def FLETCHER_STATUS_ERROR_def FLETCHER_STATUS_NO_PLATFORM_def
  FLETCHER_STATUS_DEVICE_OUT_OF_MEMORY_def

text \<open>The two halves of a device address, as the union \<^verbatim>\<open>dau_t\<close> reads them.\<close>

definition dau_lo :: "u64 \<Rightarrow> u32" where
  "dau_lo full = ucast full"

definition dau_hi :: "u64 \<Rightarrow> u32" where
  "dau_hi full = ucast (drop_bit 32 full)"

section \<open>Status\<close>

record status =
  st_val :: fstatus
  st_message :: string

definition mk_status :: "fstatus \<Rightarrow> string \<Rightarrow> status" where
  "mk_status v msg = \<lparr>st_val = v, st_message = msg\<rparr>"

definition status_ok :: "status \<Rightarrow> bool" where
  "status_ok s = (st_val s = FLETCHER_STATUS_OK)"

definition status_eq :: "status \<Rightarrow> status \<Rightarrow> bool" where
  "status_eq s rhs = (st_val s = st_val rhs)"

definition Status_default :: status where
  "Status_default = mk_status FLETCHER_STATUS_ERROR []"

definition Status_OK :: status where
  "Status_OK = mk_status FLETCHER_STATUS_OK []"

definition Status_ERROR :: "string \<Rightarrow> status" where
  "Status_ERROR msg = mk_status FLETCHER_STATUS_ERROR msg"

definition Status_NO_PLATFORM :: status where
  "Status_NO_PLATFORM = mk_status FLETCHER_STATUS_NO_PLATFORM ''Could not detect platform.''"

definition Status_DEVICE_OUT_OF_MEMORY :: status where
  "Status_DEVICE_OUT_OF_MEMORY = mk_status FLETCHER_STATUS_DEVICE_OUT_OF_MEMORY ''Device out of memory.''"

text \<open>The text \<^verbatim>\<open>ewf\<close> prints before it exits: both branches print \<^verbatim>\<open>msg\<close>. Some text is a value on \<open>Inl\<close>.\<close>

definition status_ewf :: "status \<Rightarrow> string \<Rightarrow> string + unit" where
  "status_ewf s msg =
    (if \<not> status_ok s then (if msg \<noteq> [] then Inl (msg @ [newline]) else Inl (msg @ [newline])) else Inr ())"

lemma status_ok_simps [simp]:
  "status_ok Status_OK" "\<not> status_ok (Status_ERROR m)" "\<not> status_ok Status_NO_PLATFORM"
  "\<not> status_ok Status_default" "status_ok (mk_status v m) \<longleftrightarrow> v = 0"
  by (simp_all add: status_ok_def Status_OK_def Status_ERROR_def Status_NO_PLATFORM_def Status_default_def
      mk_status_def status_codes)

section \<open>Linked platforms\<close>

record 'd platform_api =
  p_GetName :: "nat \<Rightarrow> 'd \<Rightarrow> fstatus \<times> string \<times> 'd"
  p_Init :: "'d \<Rightarrow> fstatus \<times> 'd"
  p_WriteMMIO :: "u64 \<Rightarrow> u64 \<Rightarrow> u32 \<Rightarrow> 'd \<Rightarrow> fstatus \<times> 'd"
  p_ReadMMIO :: "u64 \<Rightarrow> u64 \<Rightarrow> u32 \<Rightarrow> 'd \<Rightarrow> fstatus \<times> u32 \<times> 'd"
  p_DeviceMalloc :: "u64 \<Rightarrow> int \<Rightarrow> 'd \<Rightarrow> fstatus \<times> u64 \<times> 'd"
  p_DeviceFree :: "u64 \<Rightarrow> 'd \<Rightarrow> fstatus \<times> 'd"
  p_CopyHostToDevice :: "u64 \<Rightarrow> u64 \<Rightarrow> int \<Rightarrow> 'd \<Rightarrow> fstatus \<times> 'd"
  p_CopyDeviceToHost :: "u64 \<Rightarrow> u64 \<Rightarrow> int \<Rightarrow> 'd \<Rightarrow> fstatus \<times> 'd"
  p_PrepareHostBuffer :: "u64 \<Rightarrow> u64 \<Rightarrow> int \<Rightarrow> int \<Rightarrow> 'd \<Rightarrow> fstatus \<times> u64 \<times> int \<times> 'd"
  p_CacheHostBuffer :: "u64 \<Rightarrow> u64 \<Rightarrow> int \<Rightarrow> 'd \<Rightarrow> fstatus \<times> u64 \<times> 'd"
  p_Terminate :: "'d \<Rightarrow> fstatus \<times> 'd"

record 'd platform =
  pf_api :: "'d platform_api"
  pf_terminated :: bool

text \<open>\<^verbatim>\<open>std::string(buf)\<close> of a zero-terminated buffer.\<close>

definition Platform_name :: "'d platform_api \<Rightarrow> 'd \<Rightarrow> string \<times> 'd" where
  "Platform_name p d =
    (let (_, buf, d') = p_GetName p 64 d in (takeWhile (\<lambda>c. c \<noteq> CHR 0x00) buf, d'))"

definition Platform_Init :: "'d platform_api \<Rightarrow> 'd \<Rightarrow> status \<times> 'd" where
  "Platform_Init p d = (let (v, d') = p_Init p d in (mk_status v [], d'))"

definition WriteMMIO :: "'d platform_api \<Rightarrow> u64 \<Rightarrow> u64 \<Rightarrow> u32 \<Rightarrow> 'd \<Rightarrow> status \<times> 'd" where
  "WriteMMIO p base offset v d = (let (s, d') = p_WriteMMIO p base offset v d in (mk_status s [], d'))"

definition ReadMMIO :: "'d platform_api \<Rightarrow> u64 \<Rightarrow> u64 \<Rightarrow> u32 \<Rightarrow> 'd \<Rightarrow> status \<times> u32 \<times> 'd" where
  "ReadMMIO p base offset old d =
    (let (s, v, d') = p_ReadMMIO p base offset old d in (mk_status s [], v, d'))"

definition DeviceMalloc :: "'d platform_api \<Rightarrow> u64 \<Rightarrow> u64 \<Rightarrow> 'd \<Rightarrow> status \<times> u64 \<times> 'd" where
  "DeviceMalloc p old n d = (let (s, a, d') = p_DeviceMalloc p old (sint n) d in (mk_status s [], a, d'))"

definition DeviceFree :: "'d platform_api \<Rightarrow> u64 \<Rightarrow> 'd \<Rightarrow> status \<times> 'd" where
  "DeviceFree p addr d = (let (s, d') = p_DeviceFree p addr d in (mk_status s [], d'))"

definition CopyHostToDevice :: "'d platform_api \<Rightarrow> u64 \<Rightarrow> u64 \<Rightarrow> u64 \<Rightarrow> 'd \<Rightarrow> status \<times> 'd" where
  "CopyHostToDevice p src dst n d = (let (s, d') = p_CopyHostToDevice p src dst (sint n) d in (mk_status s [], d'))"

definition CopyDeviceToHost :: "'d platform_api \<Rightarrow> u64 \<Rightarrow> u64 \<Rightarrow> u64 \<Rightarrow> 'd \<Rightarrow> status \<times> 'd" where
  "CopyDeviceToHost p src dst n d = (let (s, d') = p_CopyDeviceToHost p src dst (sint n) d in (mk_status s [], d'))"

definition PrepareHostBuffer ::
    "'d platform_api \<Rightarrow> u64 \<Rightarrow> u64 \<Rightarrow> int \<Rightarrow> 'd \<Rightarrow> status \<times> u64 \<times> bool \<times> 'd" where
  "PrepareHostBuffer p src old n d =
    (let ll_alloced = 0;
         (stat, a, ll_alloced, d') = p_PrepareHostBuffer p src old n ll_alloced d
     in (mk_status stat [], a, ll_alloced = 1, d'))"

definition CacheHostBuffer :: "'d platform_api \<Rightarrow> u64 \<Rightarrow> u64 \<Rightarrow> int \<Rightarrow> 'd \<Rightarrow> status \<times> u64 \<times> 'd" where
  "CacheHostBuffer p src old n d =
    (let (s, a, d') = p_CacheHostBuffer p src old n d in (mk_status s [], a, d'))"

definition Platform_Terminate :: "'d platform \<Rightarrow> 'd \<Rightarrow> status \<times> 'd platform \<times> 'd" where
  "Platform_Terminate p d =
    (let p' = p\<lparr>pf_terminated := True\<rparr>; (s, d') = p_Terminate (pf_api p) d in (mk_status s [], p', d'))"

definition Platform_destruct :: "'d platform \<Rightarrow> 'd \<Rightarrow> 'd" where
  "Platform_destruct p d = (if \<not> pf_terminated p then snd (p_Terminate (pf_api p) d) else d)"

section \<open>Finding a platform\<close>

text \<open>
  \<open>dl_link\<close> is the table of functions that \<^verbatim>\<open>dlsym\<close> finds under the eleven names, \<open>dl_error\<close> what
  \<^verbatim>\<open>dlerror\<close> returns after these calls.
\<close>

record ('h, 'd) loader =
  dl_ext :: string
  dl_open :: "string \<Rightarrow> 'h option"
  dl_link :: "'h \<Rightarrow> 'd platform_api"
  dl_error :: "'h \<Rightarrow> string option"

definition Platform_Link :: "('h, 'd) loader \<Rightarrow> 'h option \<Rightarrow> bool \<Rightarrow> status res" where
  "Platform_Link dl handle quiet =
    (case handle of
       Some h \<Rightarrow> (case dl_error dl h of
           None \<Rightarrow> Inr Status_OK
         | Some err \<Rightarrow> if \<not> quiet then Inl Exited else Inr (Status_ERROR []))
     | None \<Rightarrow> Inl Exited)"

text \<open>The platform the output pointer held is kept when the library cannot be opened.\<close>

definition Platform_Make ::
    "('h, 'd) loader \<Rightarrow> string \<Rightarrow> 'd platform option \<Rightarrow> bool \<Rightarrow> (status \<times> 'd platform option) res" where
  "Platform_Make dl name platform_out quiet =
    (case dl_open dl (''libfletcher_'' @ name @ dl_ext dl) of
       Some h \<Rightarrow> res_bind (Platform_Link dl (Some h) quiet) (\<lambda>st.
           Inr (st, Some \<lparr>pf_api = dl_link dl h, pf_terminated = False\<rparr>))
     | None \<Rightarrow> Inr (Status_NO_PLATFORM, platform_out))"

fun Platform_Make_loop ::
    "('h, 'd) loader \<Rightarrow> string list \<Rightarrow> status \<Rightarrow> 'd platform option \<Rightarrow> bool \<Rightarrow> (status \<times> 'd platform option) res" where
  "Platform_Make_loop dl [] st out quiet = Inr (st, out)"
| "Platform_Make_loop dl (p # ps) st out quiet =
    res_bind (Platform_Make dl p out quiet) (\<lambda>(st', out').
    if status_ok st' then Inr (st', out') else Platform_Make_loop dl ps st' out' quiet)"

definition Platform_Make_autodetect ::
    "('h, 'd) loader \<Rightarrow> 'd platform option \<Rightarrow> bool \<Rightarrow> (status \<times> 'd platform option) res" where
  "Platform_Make_autodetect dl out quiet =
    Platform_Make_loop dl FLETCHER_AUTODETECT_PLATFORMS Status_NO_PLATFORM out quiet"

section \<open>Register access\<close>

text \<open>\<open>old\<close> is the value behind the output pointer on entry; the locals \<^verbatim>\<open>hi\<close> and \<^verbatim>\<open>lo\<close> start
  undefined, so what the platform leaves in them is the model's \<open>hi0\<close> and \<open>lo0\<close>.\<close>

definition ReadMMIO64 ::
    "'d platform_api \<Rightarrow> u64 \<Rightarrow> u64 \<Rightarrow> u64 \<Rightarrow> u32 \<Rightarrow> u32 \<Rightarrow> 'd \<Rightarrow> status \<times> u64 \<times> 'd" where
  "ReadMMIO64 p base offset old hi0 lo0 d =
    (let (stat, hi, d1) = ReadMMIO p base (offset + 1) hi0 d in
     if \<not> status_ok stat then (stat, old, d1)
     else let v = push_bit 32 (ucast hi :: u64);
              (stat, lo, d2) = ReadMMIO p base offset lo0 d1 in
     if \<not> status_ok stat then (stat, v, d2)
     else (Status_OK, v OR ucast lo, d2))"

definition mmio_line :: "u64 \<Rightarrow> u32 \<Rightarrow> string" where
  "mmio_line off v = ''R'' @ setw (CHR ''0'') 3 (show_hex True (unat off)) @ '':'' @
     setw (CHR ''0'') 8 (show_hex True (unat v)) @ [newline]"

function MmioToString_loop ::
    "'d platform_api \<Rightarrow> u64 \<Rightarrow> u64 \<Rightarrow> u64 \<Rightarrow> bool \<Rightarrow> string \<Rightarrow> 'd \<Rightarrow> (status + string) \<times> 'd" where
  "MmioToString_loop p base off stop quiet ss d =
    (if off < stop then
       let (stat, v, d') = ReadMMIO p base off 0 d in
       if \<not> status_ok stat then (Inl stat, d')
       else MmioToString_loop p base (off + 1) stop quiet (if \<not> quiet then ss @ mmio_line off v else ss) d'
     else (Inr ss, d))"
  by auto
termination
proof (relation "measure (\<lambda>(_, _, off, stop, _, _, _). unat stop - unat off)")
  fix p :: "'d platform_api" and base off stop :: u64 and quiet ss d x xa y xb ya
  assume lt: "off < stop"
  have "unat (off + 1) = unat off + 1"
    by (rule unat_add_one [OF lt])
  then show "((p, base, off + 1, stop, quiet, if \<not> quiet then ss @ mmio_line off xb else ss, ya), p, base, off, stop, quiet, ss, d)
    \<in> measure (\<lambda>(_, _, off, stop, _, _, _). unat stop - unat off)"
    using lt by (simp add: word_less_nat_alt)
qed auto

declare MmioToString_loop.simps [simp del]

definition MmioToString ::
    "'d platform_api \<Rightarrow> u64 \<Rightarrow> string \<Rightarrow> u64 \<Rightarrow> u64 \<Rightarrow> bool \<Rightarrow> 'd \<Rightarrow> status \<times> string \<times> 'd" where
  "MmioToString p base str start stop quiet d =
    (case MmioToString_loop p base start stop quiet [] d of
       (Inl stat, d') \<Rightarrow> (stat, str, d')
     | (Inr ss, d') \<Rightarrow> (Status_OK, ss, d'))"

section \<open>Sequences of register writes\<close>

text \<open>Writing a list of register values, whatever the platform reports.\<close>

definition write_regs :: "'d platform_api \<Rightarrow> u64 \<Rightarrow> (u64 \<times> u32) list \<Rightarrow> 'd \<Rightarrow> 'd" where
  "write_regs p base ops d = fold (\<lambda>(off, v) d. snd (p_WriteMMIO p base off v d)) ops d"

lemma write_regs_simps [simp]:
  "write_regs p base [] d = d"
  "write_regs p base ((off, v) # ops) d = write_regs p base ops (snd (p_WriteMMIO p base off v d))"
  "write_regs p base (xs @ ys) d = write_regs p base ys (write_regs p base xs d)"
  by (simp_all add: write_regs_def)

lemma snd_WriteMMIO [simp]: "snd (WriteMMIO p base off v d) = snd (p_WriteMMIO p base off v d)"
  by (simp add: WriteMMIO_def split: prod.split)

lemma status_ok_WriteMMIO [simp]:
  "status_ok (fst (WriteMMIO p base off v d)) \<longleftrightarrow> fst (p_WriteMMIO p base off v d) = 0"
  by (simp add: WriteMMIO_def split: prod.split)

text \<open>
  Platforms with a register file: writing a register succeeds and changes this register only.
  \<open>reg\<close> reads the registers off the state of the device.
\<close>

definition has_registers :: "'d platform_api \<Rightarrow> u64 \<Rightarrow> ('d \<Rightarrow> u64 \<Rightarrow> u32) \<Rightarrow> bool" where
  "has_registers p base reg \<longleftrightarrow>
    (\<forall>off v d. fst (p_WriteMMIO p base off v d) = 0 \<and>
       reg (snd (p_WriteMMIO p base off v d)) = (reg d)(off := v))"

lemma has_registers_write:
  assumes "has_registers p base reg"
  shows "fst (p_WriteMMIO p base off v d) = 0" "reg (snd (p_WriteMMIO p base off v d)) = (reg d)(off := v)"
  using assms by (simp_all add: has_registers_def)

definition apply_writes :: "(u64 \<times> u32) list \<Rightarrow> (u64 \<Rightarrow> u32) \<Rightarrow> u64 \<Rightarrow> u32" where
  "apply_writes ops r = fold (\<lambda>(off, v) r. r(off := v)) ops r"

lemma apply_writes_simps [simp]:
  "apply_writes [] r = r"
  "apply_writes ((off, v) # ops) r = apply_writes ops (r(off := v))"
  by (simp_all add: apply_writes_def)

lemma reg_write_regs:
  assumes "has_registers p base reg"
  shows "reg (write_regs p base ops d) = apply_writes ops (reg d)"
proof (induction ops arbitrary: d)
  case (Cons x ops)
  then show ?case
    by (cases x) (simp only: write_regs_simps apply_writes_simps has_registers_write(2) [OF assms])
qed simp

lemma apply_writes_other: "off \<notin> fst ` set ops \<Longrightarrow> apply_writes ops r off = r off"
proof (induction ops arbitrary: r)
  case (Cons x ops)
  then show ?case by (cases x) (simp only: apply_writes_simps, simp)
qed simp

lemma apply_writes_nth:
  "distinct (map fst ops) \<Longrightarrow> i < length ops \<Longrightarrow> apply_writes ops r (fst (ops ! i)) = snd (ops ! i)"
proof (induction ops arbitrary: r i)
  case (Cons x ops)
  obtain off v where x: "x = (off, v)" by fastforce
  show ?case
  proof (cases i)
    case 0
    have "off \<notin> fst ` set ops" using Cons.prems by (simp add: x)
    from apply_writes_other [OF this, of "r(off := v)"] show ?thesis
      by (simp only: 0 x nth_Cons_0 apply_writes_simps fst_conv snd_conv fun_upd_same)
  next
    case (Suc j)
    then show ?thesis using Cons
      by (simp only: x apply_writes_simps nth_Cons_Suc length_Cons Suc_less_eq list.map distinct.simps)
  qed
qed simp

text \<open>Consecutive registers.\<close>

definition consecutive :: "nat \<Rightarrow> u32 list \<Rightarrow> (u64 \<times> u32) list" where
  "consecutive k vs = map (\<lambda>i. (of_nat (k + i), vs ! i)) [0..<length vs]"

lemma consecutive_Nil [simp]: "consecutive k [] = []"
  by (simp add: consecutive_def)

lemma consecutive_Cons: "consecutive k (v # vs) = (of_nat k, v) # consecutive (Suc k) vs"
proof -
  have "[0..<length (v # vs)] = 0 # map Suc [0..<length vs]"
    by (simp add: map_Suc_upt upt_conv_Cons del: upt_Suc)
  then show ?thesis by (simp add: consecutive_def comp_def)
qed

lemma consecutive_append: "consecutive k (xs @ ys) = consecutive k xs @ consecutive (k + length xs) ys"
  by (induction xs arbitrary: k) (simp_all add: consecutive_Cons)

lemma length_consecutive [simp]: "length (consecutive k vs) = length vs"
  by (simp add: consecutive_def)

lemma consecutive_nth: "i < length vs \<Longrightarrow> consecutive k vs ! i = (of_nat (k + i), vs ! i)"
  by (simp add: consecutive_def)

lemma of_nat_u64_inject: "m < 2 ^ 64 \<Longrightarrow> n < 2 ^ 64 \<Longrightarrow> (of_nat m :: u64) = of_nat n \<longleftrightarrow> m = n"
  by (auto dest!: arg_cong [where f = unat])

lemma distinct_consecutive:
  "k + length vs \<le> 2 ^ 64 \<Longrightarrow> distinct (map fst (consecutive k vs))"
  by (auto simp: consecutive_def distinct_map inj_on_def of_nat_u64_inject comp_def
      simp del: of_nat_add)

lemma reg_consecutive:
  assumes "has_registers p base reg" "k + length vs \<le> 2 ^ 64"
  shows "i < length vs \<Longrightarrow> reg (write_regs p base (consecutive k vs) d) (of_nat (k + i)) = vs ! i"
    and "off < 2 ^ 64 \<Longrightarrow> off < k \<or> k + length vs \<le> off \<Longrightarrow>
      reg (write_regs p base (consecutive k vs) d) (of_nat off) = reg d (of_nat off)"
proof -
  show "i < length vs \<Longrightarrow> reg (write_regs p base (consecutive k vs) d) (of_nat (k + i)) = vs ! i"
    using apply_writes_nth [OF distinct_consecutive [OF assms(2)], of i "reg d"]
    by (simp add: reg_write_regs [OF assms(1)] consecutive_nth)
  assume "off < 2 ^ 64" "off < k \<or> k + length vs \<le> off"
  then have "of_nat off \<notin> fst ` set (consecutive k vs)"
    using assms(2) by (auto simp: consecutive_def of_nat_u64_inject simp del: of_nat_add)
  then show "reg (write_regs p base (consecutive k vs) d) (of_nat off) = reg d (of_nat off)"
    by (simp add: reg_write_regs [OF assms(1)] apply_writes_other)
qed

section \<open>Lemmas\<close>

lemma Make_loop_first:
  assumes "\<forall>n\<in>set pre. dl_open dl (''libfletcher_'' @ n @ dl_ext dl) = None"
    "dl_open dl (''libfletcher_'' @ n @ dl_ext dl) = Some h" "dl_error dl h = None"
  shows "Platform_Make_loop dl (pre @ n # post) st out q =
    Inr (Status_OK, Some \<lparr>pf_api = dl_link dl h, pf_terminated = False\<rparr>)"
  using assms by (induction pre arbitrary: st out) (simp_all add: Platform_Make_def Platform_Link_def)

lemma Make_loop_none:
  "\<forall>n\<in>set ps. dl_open dl (''libfletcher_'' @ n @ dl_ext dl) = None \<Longrightarrow>
   Platform_Make_loop dl ps Status_NO_PLATFORM out q = Inr (Status_NO_PLATFORM, out)"
  by (induction ps) (simp_all add: Platform_Make_def)

lemma hi_lo_combine: "push_bit 32 (ucast (dau_hi a) :: u64) OR ucast (dau_lo a) = a"
  by (rule bit_word_eqI) (auto simp: dau_hi_def dau_lo_def bit_simps)

lemma MmioToString_registers:
  assumes "\<forall>off old d. p_ReadMMIO p base off old d = (0, reg off, d)" "unat start \<le> unat stop"
  shows "MmioToString_loop p base start stop False ss d =
    (Inr (ss @ concat (map (\<lambda>i. mmio_line (of_nat i) (reg (of_nat i))) [unat start..<unat stop])), d)"
  using assms(2)
proof (induction "unat stop - unat start" arbitrary: start ss)
  case 0
  then have "start = stop" by (simp add: word_unat_eq_iff)
  then show ?case by (subst MmioToString_loop.simps) simp
next
  case (Suc n)
  then have lt: "start < stop" by (simp add: word_less_nat_alt)
  have one: "unat (start + 1) = unat start + 1" by (rule unat_add_one [OF lt])
  have IH: "MmioToString_loop p base (start + 1) stop False ss' d =
    (Inr (ss' @ concat (map (\<lambda>i. mmio_line (of_nat i) (reg (of_nat i))) [unat (start + 1)..<unat stop])), d)" for ss'
    by (rule Suc.hyps(1)) (use Suc one in auto)
  have upt: "[unat start..<unat stop] = unat start # [unat (start + 1)..<unat stop]"
    using lt one by (simp add: upt_conv_Cons word_less_nat_alt)
  show ?case
    using assms(1) lt IH by (subst MmioToString_loop.simps) (simp add: ReadMMIO_def upt)
qed

section \<open>Properties\<close>

text \<open>Autodetection takes the first platform of the list snap, aws, echo whose library can be
  opened, when its functions link, and reports success; when none can be opened it reports that there is
  no platform and leaves the output pointer alone.\<close>

theorem autodetect_first:
  assumes "FLETCHER_AUTODETECT_PLATFORMS = pre @ n # post"
    "\<forall>m\<in>set pre. dl_open dl (''libfletcher_'' @ m @ dl_ext dl) = None"
    "dl_open dl (''libfletcher_'' @ n @ dl_ext dl) = Some h" "dl_error dl h = None"
  shows "Platform_Make_autodetect dl out quiet =
    Inr (Status_OK, Some \<lparr>pf_api = dl_link dl h, pf_terminated = False\<rparr>)"
  unfolding Platform_Make_autodetect_def assms(1) by (rule Make_loop_first [OF assms(2-4)])

definition toy_api :: "(u64 \<Rightarrow> u32) platform_api" where
  "toy_api = \<lparr>p_GetName = (\<lambda>n d. (0, ''toy'', d)), p_Init = (\<lambda>d. (0, d)),
     p_WriteMMIO = (\<lambda>base off v d. (0, d(off := v))),
     p_ReadMMIO = (\<lambda>base off old d. (0, d off, d)),
     p_DeviceMalloc = (\<lambda>old n d. (0, old, d)), p_DeviceFree = (\<lambda>a d. (0, d)),
     p_CopyHostToDevice = (\<lambda>s t n d. (0, d)), p_CopyDeviceToHost = (\<lambda>s t n d. (0, d)),
     p_PrepareHostBuffer = (\<lambda>s old n al d. (0, s, 0, d)),
     p_CacheHostBuffer = (\<lambda>s old n d. (0, s, d)), p_Terminate = (\<lambda>d. (0, d))\<rparr>"

lemma toy_registers: "has_registers toy_api base (\<lambda>d. d)"
  by (simp add: has_registers_def toy_api_def)

definition toy_loader :: "(nat, u64 \<Rightarrow> u32) loader" where
  "toy_loader = \<lparr>dl_ext = ''.so'', dl_open = (\<lambda>s. if s = ''libfletcher_echo.so'' then Some 0 else None),
     dl_link = (\<lambda>h. toy_api), dl_error = (\<lambda>h. None)\<rparr>"

lemma autodetect_first_witness:
  "Platform_Make_autodetect toy_loader None True =
    Inr (Status_OK, Some \<lparr>pf_api = dl_link toy_loader 0, pf_terminated = False\<rparr>)"
  by (rule autodetect_first [of "[''snap'', ''aws'']" "''echo''" "[]"])
    (simp_all add: FLETCHER_AUTODETECT_PLATFORMS_def toy_loader_def)

text \<open>On a platform with a register file that also reads what was written, a 64-bit value whose low
  half is written to a register and whose high half to the next one is read back by \<^verbatim>\<open>ReadMMIO64\<close>.\<close>

theorem read64_roundtrip:
  assumes "has_registers p base reg" "\<forall>off old d. p_ReadMMIO p base off old d = (0, reg d off, d)"
  shows "ReadMMIO64 p base off old hi0 lo0 (write_regs p base [(off, dau_lo a), (off + 1, dau_hi a)] d)
    = (Status_OK, a, write_regs p base [(off, dau_lo a), (off + 1, dau_hi a)] d)"
proof -
  let ?d = "write_regs p base [(off, dau_lo a), (off + 1, dau_hi a)] d"
  have "reg ?d off = dau_lo a" "reg ?d (off + 1) = dau_hi a"
    by (simp_all add: has_registers_write [OF assms(1)])
  then show ?thesis
    using assms(2) hi_lo_combine [of a]
    by (simp add: ReadMMIO64_def ReadMMIO_def Let_def del: write_regs_simps)
qed

lemma read64_roundtrip_witness:
  "ReadMMIO64 toy_api 0 2 0 0 0 (write_regs toy_api 0 [(2, dau_lo 0x100000002), (2 + 1, dau_hi 0x100000002)] (\<lambda>_. 0))
    = (Status_OK, 0x100000002, write_regs toy_api 0 [(2, dau_lo 0x100000002), (2 + 1, dau_hi 0x100000002)] (\<lambda>_. 0))"
  by (rule read64_roundtrip [OF toy_registers]) (simp add: toy_api_def)

end
