(* ===== verification/Context.thy ===== *)
theory Context
  imports Platform Batch_Desc
begin

text \<open>
  Contexts, \<^verbatim>\<open>fletcher/context.h\<close> and \<^verbatim>\<open>context.cc\<close>: queueing record batches, making their
  buffers available to the device, freeing them. A context holds its platform; the functions of
  that platform and the state of the device are threaded through the operations. Asserts are
  those of a build with \<^verbatim>\<open>NDEBUG\<close>, and DEBUG log lines are left out.
\<close>

section \<open>State\<close>

datatype mem_type = MEM_ANY | MEM_CACHE

record device_buffer =
  db_host_address :: u64
  db_device_address :: u64
  db_size :: int
  db_memory :: mem_type
  db_mode :: mode
  db_available :: bool
  db_was_alloced :: bool

definition DeviceBuffer_default :: device_buffer where
  "DeviceBuffer_default = \<lparr>db_host_address = 0, db_device_address = D_NULLPTR, db_size = 0,
     db_memory = MEM_CACHE, db_mode = READ, db_available = False, db_was_alloced = False\<rparr>"

definition DeviceBuffer_new :: "u64 \<Rightarrow> int \<Rightarrow> mem_type \<Rightarrow> mode \<Rightarrow> device_buffer" where
  "DeviceBuffer_new host n t m =
    DeviceBuffer_default\<lparr>db_host_address := host, db_size := n, db_memory := t, db_mode := m\<rparr>"

record ctx =
  ctx_reg_offset :: u64
  host_batches :: "record_batch list"
  host_batch_desc :: "batch_description list"
  host_batch_memtype :: "mem_type list"
  device_buffers :: "device_buffer list"

definition Context_Make :: "status \<times> ctx" where
  "Context_Make = (Status_OK, \<lparr>ctx_reg_offset = 0, host_batches = [], host_batch_desc = [],
     host_batch_memtype = [], device_buffers = []\<rparr>)"

section \<open>Operations\<close>

fun Context_destruct_loop :: "'d platform_api \<Rightarrow> device_buffer list \<Rightarrow> 'd \<Rightarrow> 'd res" where
  "Context_destruct_loop p [] d = Inr d"
| "Context_destruct_loop p (buf # bufs) d =
    (if db_was_alloced buf then
       let (status, d') = DeviceFree p (db_device_address buf) d in
       if \<not> status_ok status then Inl Exited else Context_destruct_loop p bufs d'
     else Context_destruct_loop p bufs d)"

definition Context_destruct :: "'d platform_api \<Rightarrow> ctx \<Rightarrow> 'd \<Rightarrow> 'd res" where
  "Context_destruct p c d = Context_destruct_loop p (device_buffers c) d"

text \<open>One buffer: the status, the device buffer as it then is, and the state.\<close>

definition enable_buffer ::
    "'d platform_api \<Rightarrow> mem_type \<Rightarrow> mode \<Rightarrow> buffer_metadata \<Rightarrow> 'd \<Rightarrow> status \<times> device_buffer \<times> 'd" where
  "enable_buffer p type md b d =
    (let device_buf = DeviceBuffer_new (raw_buffer b) (buf_size b) type md in
     case type of
       MEM_ANY \<Rightarrow>
         let (status, a, alloced, d') = PrepareHostBuffer p (db_host_address device_buf)
               (db_device_address device_buf) (db_size device_buf) d
         in (status, device_buf\<lparr>db_device_address := a, db_was_alloced := alloced\<rparr>, d')
     | MEM_CACHE \<Rightarrow>
         let (status, a, d') = CacheHostBuffer p (db_host_address device_buf)
               (db_device_address device_buf) (db_size device_buf) d
         in (status, device_buf\<lparr>db_device_address := a, db_was_alloced := True\<rparr>, d'))"

fun enable_buffers ::
    "'d platform_api \<Rightarrow> mem_type \<Rightarrow> mode \<Rightarrow> buffer_metadata list \<Rightarrow> device_buffer list \<Rightarrow> 'd \<Rightarrow>
     status \<times> device_buffer list \<times> 'd" where
  "enable_buffers p type md [] bufs d = (Status_OK, bufs, d)"
| "enable_buffers p type md (b # bs) bufs d =
    (let (status, device_buf, d') = enable_buffer p type md b d in
     if \<not> status_ok status then (status, bufs, d')
     else enable_buffers p type md bs (bufs @ [device_buf]) d')"

fun enable_fields ::
    "'d platform_api \<Rightarrow> mem_type \<Rightarrow> mode \<Rightarrow> field_metadata_desc list \<Rightarrow> device_buffer list \<Rightarrow> 'd \<Rightarrow>
     status \<times> device_buffer list \<times> 'd" where
  "enable_fields p type md [] bufs d = (Status_OK, bufs, d)"
| "enable_fields p type md (f # fs) bufs d =
    (let (status, bufs', d') = enable_buffers p type md (fm_buffers f) bufs d in
     if \<not> status_ok status then (status, bufs', d')
     else enable_fields p type md fs bufs' d')"

fun enable_batches ::
    "'d platform_api \<Rightarrow> (batch_description \<times> mem_type) list \<Rightarrow> device_buffer list \<Rightarrow> 'd \<Rightarrow>
     status \<times> device_buffer list \<times> 'd" where
  "enable_batches p [] bufs d = (Status_OK, bufs, d)"
| "enable_batches p ((rbd, type) # rest) bufs d =
    (let (status, bufs', d') = enable_fields p type (bd_mode rbd) (bd_fields rbd) bufs d in
     if \<not> status_ok status then (status, bufs', d')
     else enable_batches p rest bufs' d')"

definition Context_Enable :: "'d platform_api \<Rightarrow> ctx \<Rightarrow> 'd \<Rightarrow> status \<times> ctx \<times> 'd" where
  "Context_Enable p c d =
    (let (status, bufs, d') =
       enable_batches p (zip (host_batch_desc c) (host_batch_memtype c)) (device_buffers c) d
     in (status, c\<lparr>device_buffers := bufs\<rparr>, d'))"

text \<open>None is a null pointer. The result of the analyzer is not looked at.\<close>

definition QueueRecordBatch :: "ctx \<Rightarrow> record_batch option \<Rightarrow> mem_type \<Rightarrow> (status \<times> ctx) res" where
  "QueueRecordBatch c record_batch type =
    (case record_batch of
       None \<Rightarrow> Inr (Status_ERROR ''RecordBatch is nullptr.'', c)
     | Some rb \<Rightarrow>
         res_bind (RecordBatchAnalyzer_Analyze empty_description rb) (\<lambda>(rbd, _).
         Inr (Status_OK, c\<lparr>host_batches := host_batches c @ [rb],
                           host_batch_desc := host_batch_desc c @ [rbd],
                           host_batch_memtype := host_batch_memtype c @ [type]\<rparr>)))"

definition num_buffers :: "ctx \<Rightarrow> nat" where
  "num_buffers c = foldl (\<lambda>ret rbd. foldl (\<lambda>ret f. ret + length (fm_buffers f)) ret (bd_fields rbd))
     0 (host_batch_desc c)"

definition GetQueueSize :: "ctx \<Rightarrow> u64" where
  "GetQueueSize c = foldl (\<lambda>sz rbd. foldl (\<lambda>sz f. foldl (\<lambda>sz b. sz + of_int (buf_size b)) sz
     (fm_buffers f)) sz (bd_fields rbd)) 0 (host_batch_desc c)"

definition device_buffer_at :: "ctx \<Rightarrow> nat \<Rightarrow> device_buffer res" where
  "device_buffer_at c i = (if i < length (device_buffers c) then Inr (device_buffers c ! i) else Inl Undefined)"

definition num_recordbatches :: "ctx \<Rightarrow> nat" where
  "num_recordbatches c = length (host_batches c)"

definition recordbatch_at :: "ctx \<Rightarrow> nat \<Rightarrow> record_batch res" where
  "recordbatch_at c i = (if i < length (host_batches c) then Inr (host_batches c ! i) else Inl Undefined)"

section \<open>Well-formed contexts\<close>

definition ctx_wf :: "ctx \<Rightarrow> bool" where
  "ctx_wf c \<longleftrightarrow> length (host_batch_desc c) = length (host_batches c)
    \<and> length (host_batch_memtype c) = length (host_batches c)"

lemma ctx_wf_Make: "ctx_wf (snd Context_Make)"
  by (simp add: ctx_wf_def Context_Make_def)

lemma ctx_wf_Queue: "ctx_wf c \<Longrightarrow> QueueRecordBatch c rb t = Inr (st, c') \<Longrightarrow> ctx_wf c'"
  by (auto simp: QueueRecordBatch_def ctx_wf_def split: option.splits elim!: res_bind_InrE)

lemma ctx_wf_Enable: "ctx_wf c \<Longrightarrow> Context_Enable p c d = (st, c', d') \<Longrightarrow> ctx_wf c'"
  by (auto simp: Context_Enable_def ctx_wf_def split: prod.splits)

section \<open>The buffers of a context\<close>

definition desc_buffers :: "batch_description \<Rightarrow> buffer_metadata list" where
  "desc_buffers d = concat (map fm_buffers (bd_fields d))"

text \<open>The buffers of all queued batches with the way each is made available.\<close>

definition queued_buffers :: "ctx \<Rightarrow> (mem_type \<times> mode \<times> buffer_metadata) list" where
  "queued_buffers c = concat (map (\<lambda>(rbd, t). map (\<lambda>b. (t, bd_mode rbd, b)) (desc_buffers rbd))
     (zip (host_batch_desc c) (host_batch_memtype c)))"

fun enable_all ::
    "'d platform_api \<Rightarrow> (mem_type \<times> mode \<times> buffer_metadata) list \<Rightarrow> device_buffer list \<Rightarrow> 'd \<Rightarrow>
     status \<times> device_buffer list \<times> 'd" where
  "enable_all p [] bufs d = (Status_OK, bufs, d)"
| "enable_all p ((t, m, b) # qs) bufs d =
    (let (status, device_buf, d') = enable_buffer p t m b d in
     if \<not> status_ok status then (status, bufs, d')
     else enable_all p qs (bufs @ [device_buf]) d')"

lemma enable_all_append:
  "enable_all p (xs @ ys) bufs d =
    (let (st, bufs', d') = enable_all p xs bufs d in
     if \<not> status_ok st then (st, bufs', d') else enable_all p ys bufs' d')"
  by (induction p xs bufs d rule: enable_all.induct) (auto simp: Let_def split: prod.splits)

lemma enable_buffers_all:
  "enable_buffers p t m bs bufs d = enable_all p (map (\<lambda>b. (t, m, b)) bs) bufs d"
  by (induction p t m bs bufs d rule: enable_buffers.induct) (auto simp: Let_def split: prod.splits)

lemma enable_fields_all:
  "enable_fields p t m fs bufs d = enable_all p (map (\<lambda>b. (t, m, b)) (concat (map fm_buffers fs))) bufs d"
  by (induction p t m fs bufs d rule: enable_fields.induct)
    (auto simp: Let_def enable_buffers_all enable_all_append split: prod.splits)

lemma enable_batches_all:
  "enable_batches p rs bufs d = enable_all p (concat (map (\<lambda>(rbd, t).
     map (\<lambda>b. (t, bd_mode rbd, b)) (desc_buffers rbd)) rs)) bufs d"
  by (induction p rs bufs d rule: enable_batches.induct)
    (auto simp: Let_def enable_fields_all enable_all_append desc_buffers_def split: prod.splits)

lemma Context_Enable_all:
  "Context_Enable p c d = (let (st, bufs, d') = enable_all p (queued_buffers c) (device_buffers c) d
     in (st, c\<lparr>device_buffers := bufs\<rparr>, d'))"
  by (simp add: Context_Enable_def enable_batches_all queued_buffers_def)

lemma enable_buffer_host:
  "enable_buffer p t m b d = (st, db, d') \<Longrightarrow>
   db_host_address db = raw_buffer b \<and> db_size db = buf_size b \<and> db_memory db = t \<and> db_mode db = m"
  by (cases t) (auto simp: enable_buffer_def DeviceBuffer_new_def Let_def split: prod.splits)

lemma enable_all_host:
  "enable_all p qs bufs d = (st, bufs', d') \<Longrightarrow>
   \<exists>k\<le>length qs. (status_ok st \<longrightarrow> k = length qs) \<and>
     map (\<lambda>db. (db_memory db, db_mode db, db_host_address db, db_size db)) bufs' =
     map (\<lambda>db. (db_memory db, db_mode db, db_host_address db, db_size db)) bufs @
     map (\<lambda>(t, m, b). (t, m, raw_buffer b, buf_size b)) (take k qs)"
proof (induction qs arbitrary: bufs d)
  case (Cons q qs)
  obtain t m b where q: "q = (t, m, b)" by (metis prod_cases3)
  obtain st1 db d1 where e: "enable_buffer p t m b d = (st1, db, d1)" by (metis prod_cases3)
  show ?case
  proof (cases "status_ok st1")
    case True
    then obtain k where "k \<le> length qs" "status_ok st \<longrightarrow> k = length qs"
      "map (\<lambda>db. (db_memory db, db_mode db, db_host_address db, db_size db)) bufs' =
       map (\<lambda>db. (db_memory db, db_mode db, db_host_address db, db_size db)) (bufs @ [db]) @
       map (\<lambda>(t, m, b). (t, m, raw_buffer b, buf_size b)) (take k qs)"
      using Cons.IH [of "bufs @ [db]" d1] Cons.prems e q by (auto simp: Let_def)
    then show ?thesis using enable_buffer_host [OF e] q by (intro exI [of _ "Suc k"]) auto
  next
    case False
    then show ?thesis using Cons.prems e q by (intro exI [of _ 0]) (auto simp: Let_def)
  qed
qed auto

lemma foldl_sum_nat: "foldl (\<lambda>a x. a + g x) (a :: nat) xs = a + sum_list (map g xs)"
  by (induction xs arbitrary: a) auto

lemma num_buffers_sum: "num_buffers c = sum_list (map (\<lambda>d. length (desc_buffers d)) (host_batch_desc c))"
proof -
  have "foldl (\<lambda>ret rbd. foldl (\<lambda>ret f. ret + length (fm_buffers f)) ret (bd_fields rbd)) a ds
      = a + sum_list (map (\<lambda>d. length (desc_buffers d)) ds)" for a ds
    by (induction ds arbitrary: a) (simp_all add: foldl_sum_nat desc_buffers_def length_concat comp_def)
  then show ?thesis by (simp add: num_buffers_def)
qed

lemma length_queued_buffers: "ctx_wf c \<Longrightarrow> length (queued_buffers c) = num_buffers c"
proof -
  have "length xs = length ys \<Longrightarrow> length (concat (map (\<lambda>(rbd, t). map (\<lambda>b. (t, bd_mode rbd, b))
      (desc_buffers rbd)) (zip xs ys))) = sum_list (map (\<lambda>d. length (desc_buffers d)) xs)" for xs and ys :: "mem_type list"
    by (induction xs ys rule: list_induct2) auto
  then show "ctx_wf c \<Longrightarrow> length (queued_buffers c) = num_buffers c"
    by (simp add: num_buffers_sum queued_buffers_def ctx_wf_def)
qed

lemma Enable_buffer_count:
  assumes "ctx_wf c" "Context_Enable p c d = (st, c', d')" "status_ok st"
  shows "length (device_buffers c') = length (device_buffers c) + num_buffers c"
proof -
  obtain bufs where e: "enable_all p (queued_buffers c) (device_buffers c) d = (st, bufs, d')"
    "c' = c\<lparr>device_buffers := bufs\<rparr>"
    using assms(2) by (auto simp: Context_Enable_all split: prod.splits)
  from enable_all_host [OF e(1)] assms(3)
  have "map (\<lambda>db. (db_memory db, db_mode db, db_host_address db, db_size db)) bufs =
     map (\<lambda>db. (db_memory db, db_mode db, db_host_address db, db_size db)) (device_buffers c) @
     map (\<lambda>(t, m, b). (t, m, raw_buffer b, buf_size b)) (queued_buffers c)" by auto
  from arg_cong [OF this, of length] show ?thesis
    by (simp add: e(2) length_queued_buffers assms(1))
qed

end
