(* ===== verification/Kernel.thy ===== *)
theory Kernel
  imports Context
begin

text \<open>
  Kernels, \<^verbatim>\<open>fletcher/kernel.h\<close> and \<^verbatim>\<open>kernel.cc\<close>: writing the metadata of the context to the
  registers, starting, polling and reading the results. A kernel works on a context and on the
  platform of this context; both are arguments, and \<^verbatim>\<open>usleep\<close> between two polls is left out.
  Waiting is a loop that may never end, so its result is an option.
\<close>

section \<open>State\<close>

record kernel =
  ctrl_start :: u32
  ctrl_reset :: u32
  done_status :: u32
  done_status_mask :: u32
  metadata_written :: bool

definition Kernel_new :: kernel where
  "Kernel_new = \<lparr>ctrl_start = push_bit FLETCHER_REG_CONTROL_START 1,
     ctrl_reset = push_bit FLETCHER_REG_CONTROL_RESET 1,
     done_status = push_bit FLETCHER_REG_STATUS_DONE 1,
     done_status_mask = push_bit FLETCHER_REG_STATUS_DONE 1,
     metadata_written = False\<rparr>"

definition ImplementsSchemaSet :: "arrow_schema list \<Rightarrow> bool" where
  "ImplementsSchemaSet schema_set = False"

section \<open>Operations\<close>

definition Kernel_Reset :: "'d platform_api \<Rightarrow> kernel \<Rightarrow> ctx \<Rightarrow> 'd \<Rightarrow> status \<times> 'd" where
  "Kernel_Reset p k c d =
    (let (status, d1) = WriteMMIO p (ctx_reg_offset c) (of_nat FLETCHER_REG_CONTROL) (ctrl_reset k) d in
     if status_ok status then WriteMMIO p (ctx_reg_offset c) (of_nat FLETCHER_REG_CONTROL) 0 d1
     else (status, d1))"

text \<open>\<open>first\<close> and \<open>last\<close> are signed 32-bit values. The local \<^verbatim>\<open>ret\<close> is set but not returned.\<close>

definition Kernel_SetRange ::
    "'d platform_api \<Rightarrow> kernel \<Rightarrow> ctx \<Rightarrow> u64 \<Rightarrow> u32 \<Rightarrow> u32 \<Rightarrow> 'd \<Rightarrow> (status \<times> 'd) res" where
  "Kernel_SetRange p k c recordbatch_index first_row last_row d =
    (if sint last_row \<le> sint first_row then Inl Exited
     else let ret = Status_default;
       (st1, d1) = WriteMMIO p (ctx_reg_offset c) (of_nat FLETCHER_REG_SCHEMA + 2 * recordbatch_index) first_row d;
       ret = (if \<not> status_ok st1 then Status_ERROR [] else ret);
       (st2, d2) = WriteMMIO p (ctx_reg_offset c) (of_nat FLETCHER_REG_SCHEMA + 2 * recordbatch_index + 1) last_row d1;
       ret = (if \<not> status_ok st2 then Status_ERROR [] else ret)
     in Inr (Status_OK, d2))"

text \<open>The index \<open>i\<close> is an \<^verbatim>\<open>int\<close> in the code; there are fewer than \<open>2 ^ 31\<close> arguments.\<close>

fun SetArguments_loop :: "'d platform_api \<Rightarrow> ctx \<Rightarrow> nat \<Rightarrow> u32 list \<Rightarrow> 'd \<Rightarrow> 'd" where
  "SetArguments_loop p c i [] d = d"
| "SetArguments_loop p c i (a # args) d =
    (let (_, d') = WriteMMIO p (ctx_reg_offset c)
       (of_nat FLETCHER_REG_SCHEMA + 2 * of_nat (num_recordbatches c) + 2 * of_nat (num_buffers c) + of_nat i) a d
     in SetArguments_loop p c (Suc i) args d')"

definition Kernel_SetArguments :: "'d platform_api \<Rightarrow> kernel \<Rightarrow> ctx \<Rightarrow> u32 list \<Rightarrow> 'd \<Rightarrow> status \<times> 'd" where
  "Kernel_SetArguments p k c arguments d = (Status_OK, SetArguments_loop p c 0 arguments d)"

text \<open>The ranges of the record batches from batch \<open>i\<close> on: the next free register or the failing status.\<close>

fun write_ranges ::
    "'d platform_api \<Rightarrow> u64 \<Rightarrow> record_batch list \<Rightarrow> u64 \<Rightarrow> 'd \<Rightarrow> (status + u64) \<times> 'd" where
  "write_ranges p base [] offset d = (Inr offset, d)"
| "write_ranges p base (rb # rbs) offset d =
    (let (status, d1) = WriteMMIO p base offset 0 d in
     if \<not> status_ok status then (Inl status, d1)
     else let (status, d2) = WriteMMIO p base (offset + 1) (of_int (rb_num_rows rb)) d1 in
     if \<not> status_ok status then (Inl status, d2)
     else write_ranges p base rbs (offset + 2) d2)"

text \<open>The loop over the buffer addresses: \<open>todo\<close> buffers from buffer \<open>i\<close> on. The status of the
  writes is dropped, so the checks after them look at the status of the last range write,
  which was OK.\<close>

fun write_addresses ::
    "'d platform_api \<Rightarrow> ctx \<Rightarrow> nat \<Rightarrow> nat \<Rightarrow> u64 \<Rightarrow> 'd \<Rightarrow> 'd res" where
  "write_addresses p c 0 i offset d = Inr d"
| "write_addresses p c (Suc todo) i offset d =
    res_bind (device_buffer_at c i) (\<lambda>device_buf.
    let address = db_device_address device_buf;
        (_, d1) = WriteMMIO p (ctx_reg_offset c) offset (dau_lo address) d;
        (_, d2) = WriteMMIO p (ctx_reg_offset c) (offset + 1) (dau_hi address) d1
    in write_addresses p c todo (Suc i) (offset + 2) d2)"

text \<open>Without a record batch the status that the checks look at is the one of the
  declaration, an error: the first buffer then ends the function after one write.\<close>

definition Kernel_WriteMetaData ::
    "'d platform_api \<Rightarrow> kernel \<Rightarrow> ctx \<Rightarrow> 'd \<Rightarrow> (status \<times> kernel \<times> 'd) res" where
  "Kernel_WriteMetaData p k c d =
    (case write_ranges p (ctx_reg_offset c) (host_batches c) (of_nat FLETCHER_REG_SCHEMA) d of
       (Inl status, d1) \<Rightarrow> Inr (status, k, d1)
     | (Inr offset, d1) \<Rightarrow>
         if host_batches c = [] \<and> 0 < num_buffers c then
           res_bind (device_buffer_at c 0) (\<lambda>device_buf.
           Inr (Status_default, k,
             snd (WriteMMIO p (ctx_reg_offset c) offset (dau_lo (db_device_address device_buf)) d1)))
         else res_bind (write_addresses p c (num_buffers c) 0 offset d1) (\<lambda>d2.
           Inr (Status_OK, k\<lparr>metadata_written := True\<rparr>, d2)))"

definition Kernel_Start :: "'d platform_api \<Rightarrow> kernel \<Rightarrow> ctx \<Rightarrow> 'd \<Rightarrow> (status \<times> kernel \<times> 'd) res" where
  "Kernel_Start p k c d =
    res_bind (if \<not> metadata_written k
              then res_bind (Kernel_WriteMetaData p k c d) (\<lambda>(_, k1, d1). Inr (k1, d1))
              else Inr (k, d)) (\<lambda>(k1, d1).
    let (status, d2) = WriteMMIO p (ctx_reg_offset c) (of_nat FLETCHER_REG_CONTROL) (ctrl_start k1) d1 in
    if \<not> status_ok status then Inr (status, k1, d2)
    else let (status, d3) = WriteMMIO p (ctx_reg_offset c) (of_nat FLETCHER_REG_CONTROL) 0 d2
         in Inr (status, k1, d3))"

definition Kernel_GetStatus :: "'d platform_api \<Rightarrow> ctx \<Rightarrow> u32 \<Rightarrow> 'd \<Rightarrow> status \<times> u32 \<times> 'd" where
  "Kernel_GetStatus p c status_out d =
    ReadMMIO p (ctx_reg_offset c) (of_nat FLETCHER_REG_STATUS) status_out d"

text \<open>\<open>ret1\<close> is None for a null pointer.\<close>

definition Kernel_GetReturn ::
    "'d platform_api \<Rightarrow> ctx \<Rightarrow> u32 \<Rightarrow> u32 option \<Rightarrow> 'd \<Rightarrow> status \<times> u32 \<times> u32 option \<times> 'd" where
  "Kernel_GetReturn p c ret0 ret1 d =
    (let (status, v0, d1) = ReadMMIO p (ctx_reg_offset c) (of_nat FLETCHER_REG_RETURN0) ret0 d in
     case ret1 of
       None \<Rightarrow> (status, v0, None, d1)
     | Some r1 \<Rightarrow>
         if \<not> status_ok status then (status, v0, Some r1, d1)
         else let (status, v1, d2) = ReadMMIO p (ctx_reg_offset c) (of_nat FLETCHER_REG_RETURN1) r1 d1
              in (status, v0, Some v1, d2))"

partial_function (option) poll ::
    "'d platform_api \<Rightarrow> u64 \<Rightarrow> u32 \<Rightarrow> u32 \<Rightarrow> u32 \<Rightarrow> 'd \<Rightarrow> 'd option" where
  "poll p base msk done st d =
    (let r = ReadMMIO p base (of_nat FLETCHER_REG_STATUS) st d;
         st' = fst (snd r); d' = snd (snd r)
     in if st' AND msk \<noteq> done then poll p base msk done st' d' else Some d')"

definition Kernel_WaitForFinish ::
    "'d platform_api \<Rightarrow> kernel \<Rightarrow> ctx \<Rightarrow> nat \<Rightarrow> 'd \<Rightarrow> (status \<times> 'd) option" where
  "Kernel_WaitForFinish p k c poll_interval_usec d =
    (if poll_interval_usec = 0
     then Option.bind (poll p (ctx_reg_offset c) (done_status_mask k) (done_status k) 0 d) (\<lambda>d'. Some (Status_OK, d'))
     else Option.bind (poll p (ctx_reg_offset c) (done_status_mask k) (done_status k) 0 d) (\<lambda>d'. Some (Status_OK, d')))"

definition Kernel_WaitForFinish_0 ::
    "'d platform_api \<Rightarrow> kernel \<Rightarrow> ctx \<Rightarrow> 'd \<Rightarrow> (status \<times> 'd) option" where
  "Kernel_WaitForFinish_0 p k c d = Kernel_WaitForFinish p k c 0 d"

section \<open>The registers that hold the metadata\<close>

definition range_values :: "record_batch list \<Rightarrow> u32 list" where
  "range_values rbs = concat (map (\<lambda>rb. [0, of_int (rb_num_rows rb)]) rbs)"

definition address_values :: "u64 list \<Rightarrow> u32 list" where
  "address_values as = concat (map (\<lambda>a. [dau_lo a, dau_hi a]) as)"

text \<open>The values of the schema-derived registers, in the order of the registers.\<close>

definition metadata_values :: "ctx \<Rightarrow> u32 list" where
  "metadata_values c = range_values (host_batches c) @
     address_values (map db_device_address (take (num_buffers c) (device_buffers c)))"

lemma length_range_values [simp]: "length (range_values rbs) = 2 * length rbs"
  by (induction rbs) (simp_all add: range_values_def)

lemma length_address_values [simp]: "length (address_values as) = 2 * length as"
  by (induction as) (simp_all add: address_values_def)

lemma write_ranges_ok:
  assumes "\<forall>off v d. fst (p_WriteMMIO p base off v d) = 0"
  shows "write_ranges p base rbs (of_nat k) d =
    (Inr (of_nat (k + 2 * length rbs)), write_regs p base (consecutive k (range_values rbs)) d)"
proof (induction rbs arbitrary: k d)
  case (Cons rb rbs)
  have "(of_nat k + 2 :: u64) = of_nat (Suc (Suc k))" by simp
  then show ?case
    using assms Cons.IH [of "Suc (Suc k)"]
    by (simp add: Let_def split_beta range_values_def consecutive_Cons add.commute)
qed (simp add: range_values_def)

lemma write_addresses_ok:
  assumes "i + todo \<le> length (device_buffers c)"
  shows "write_addresses p c todo i (of_nat k) d = Inr (write_regs p (ctx_reg_offset c)
    (consecutive k (address_values (map db_device_address (take todo (drop i (device_buffers c)))))) d)"
  using assms
proof (induction todo arbitrary: i k d)
  case (Suc todo)
  have i: "i < length (device_buffers c)" using Suc.prems by simp
  then have drop: "drop i (device_buffers c) = device_buffers c ! i # drop (Suc i) (device_buffers c)"
    by (rule Cons_nth_drop_Suc [symmetric])
  have "(of_nat k + 2 :: u64) = of_nat (Suc (Suc k))" by simp
  then show ?case
    using Suc.IH [of "Suc i" "Suc (Suc k)"] Suc.prems i
    by (simp add: Let_def split_beta device_buffer_at_def drop address_values_def consecutive_Cons add.commute)
qed (simp add: address_values_def)

lemma WriteMetaData_ok:
  assumes "\<forall>off v d. fst (p_WriteMMIO p (ctx_reg_offset c) off v d) = 0"
    "num_buffers c \<le> length (device_buffers c)" "host_batches c \<noteq> [] \<or> num_buffers c = 0"
  shows "Kernel_WriteMetaData p k c d = Inr (Status_OK, k\<lparr>metadata_written := True\<rparr>,
    write_regs p (ctx_reg_offset c) (consecutive 4 (metadata_values c)) d)"
proof -
  have off: "(of_nat FLETCHER_REG_SCHEMA :: u64) = of_nat 4" by (simp add: FLETCHER_REG_SCHEMA_def)
  have r: "write_ranges p (ctx_reg_offset c) (host_batches c) (of_nat FLETCHER_REG_SCHEMA) d =
    (Inr (of_nat (4 + 2 * length (host_batches c))),
     write_regs p (ctx_reg_offset c) (consecutive 4 (range_values (host_batches c))) d)"
    unfolding off by (rule write_ranges_ok [OF assms(1)])
  have a: "write_addresses p c (num_buffers c) 0 (of_nat (4 + 2 * length (host_batches c))) d' =
    Inr (write_regs p (ctx_reg_offset c) (consecutive (4 + 2 * length (host_batches c))
      (address_values (map db_device_address (take (num_buffers c) (device_buffers c))))) d')" for d'
  proof -
    have "0 + num_buffers c \<le> length (device_buffers c)" using assms(2) by simp
    from write_addresses_ok [OF this] show ?thesis by (simp only: drop_0)
  qed
  have *: "\<not> (host_batches c = [] \<and> 0 < num_buffers c)" using assms(3) by auto
  show ?thesis
    unfolding Kernel_WriteMetaData_def r
    by (simp only: * if_False prod.case sum.case a res_bind_simps metadata_values_def
        consecutive_append length_range_values write_regs_simps)
qed

lemma SetArguments_regs:
  "SetArguments_loop p c i args d = write_regs p (ctx_reg_offset c)
    (consecutive (4 + 2 * num_recordbatches c + 2 * num_buffers c + i) args) d"
  by (induction args arbitrary: i d)
    (simp_all add: consecutive_Cons Let_def split_beta FLETCHER_REG_SCHEMA_def add.commute)

section \<open>Polling\<close>

text \<open>The state and the status value after \<open>n\<close> reads of the status register.\<close>

fun status_reads :: "'d platform_api \<Rightarrow> u64 \<Rightarrow> nat \<Rightarrow> u32 \<times> 'd \<Rightarrow> u32 \<times> 'd" where
  "status_reads p base 0 s = s"
| "status_reads p base (Suc n) s =
    status_reads p base n (snd (ReadMMIO p base (of_nat FLETCHER_REG_STATUS) (fst s) (snd s)))"

lemma poll_finds:
  assumes "fst (status_reads p base (Suc n) (st, d)) AND msk = done"
    "\<forall>m<n. fst (status_reads p base (Suc m) (st, d)) AND msk \<noteq> done"
  shows "poll p base msk done st d = Some (snd (status_reads p base (Suc n) (st, d)))"
  using assms
proof (induction n arbitrary: st d)
  case 0
  then show ?case by (subst poll.simps) (simp add: Let_def)
next
  case (Suc n)
  let ?r = "ReadMMIO p base (of_nat FLETCHER_REG_STATUS) st d"
  have "fst (status_reads p base (Suc n) (fst (snd ?r), snd (snd ?r))) AND msk = done"
    using Suc.prems(1) by simp
  moreover have "\<forall>m<n. fst (status_reads p base (Suc m) (fst (snd ?r), snd (snd ?r))) AND msk \<noteq> done"
    using Suc.prems(2) by force
  ultimately have "poll p base msk done (fst (snd ?r)) (snd (snd ?r))
      = Some (snd (status_reads p base (Suc n) (fst (snd ?r), snd (snd ?r))))"
    by (rule Suc.IH)
  moreover have "fst (snd ?r) AND msk \<noteq> done" using Suc.prems(2) by force
  ultimately show ?case by (subst poll.simps) (simp add: Let_def)
qed

lemma poll_result:
  assumes "poll p base msk done st d = Some d'"
  shows "\<exists>n. fst (status_reads p base (Suc n) (st, d)) AND msk = done
    \<and> (\<forall>m<n. fst (status_reads p base (Suc m) (st, d)) AND msk \<noteq> done)
    \<and> d' = snd (status_reads p base (Suc n) (st, d))"
proof (rule poll.raw_induct [OF _ assms, where
      P = "\<lambda>p base msk done st d d'. \<exists>n. fst (status_reads p base (Suc n) (st, d)) AND msk = done
        \<and> (\<forall>m<n. fst (status_reads p base (Suc m) (st, d)) AND msk \<noteq> done)
        \<and> d' = snd (status_reads p base (Suc n) (st, d))"])
  fix poll p base msk "done" st d d'
  let ?r = "ReadMMIO p base (of_nat FLETCHER_REG_STATUS) st d"
  let ?R = "\<lambda>n s. status_reads p base (Suc n) s"
  assume IH: "\<And>p base msk done st d d'. poll p base msk done st d = Some d' \<Longrightarrow>
      \<exists>n. fst (status_reads p base (Suc n) (st, d)) AND msk = done
        \<and> (\<forall>m<n. fst (status_reads p base (Suc m) (st, d)) AND msk \<noteq> done)
        \<and> d' = snd (status_reads p base (Suc n) (st, d))"
    and step: "(let r = ?r; st' = fst (snd r); d' = snd (snd r)
      in if st' AND msk \<noteq> done then poll p base msk done st' d' else Some d') = Some d'"
  show "\<exists>n. fst (?R n (st, d)) AND msk = done \<and> (\<forall>m<n. fst (?R m (st, d)) AND msk \<noteq> done)
      \<and> d' = snd (?R n (st, d))"
  proof (cases "fst (snd ?r) AND msk = done")
    case True
    then show ?thesis using step by (intro exI [of _ 0]) (simp add: Let_def)
  next
    case False
    then have "poll p base msk done (fst (snd ?r)) (snd (snd ?r)) = Some d'"
      using step by (simp add: Let_def)
    from IH [OF this] obtain n where n: "fst (?R n (snd ?r)) AND msk = done"
      "\<forall>m<n. fst (?R m (snd ?r)) AND msk \<noteq> done" "d' = snd (?R n (snd ?r))" by auto
    have "fst (?R m (st, d)) AND msk \<noteq> done" if "m < Suc n" for m
      using that n(2) False by (cases m) auto
    then show ?thesis using n by (intro exI [of _ "Suc n"]) auto
  qed
qed

lemma poll_iff:
  "(\<exists>d'. poll p base msk done st d = Some d') \<longleftrightarrow>
   (\<exists>n. fst (status_reads p base (Suc n) (st, d)) AND msk = done)"
proof
  assume "\<exists>n. fst (status_reads p base (Suc n) (st, d)) AND msk = done"
  then obtain n where "fst (status_reads p base (Suc n) (st, d)) AND msk = done"
    "\<forall>m<n. fst (status_reads p base (Suc m) (st, d)) AND msk \<noteq> done"
    using exists_least_iff [of "\<lambda>n. fst (status_reads p base (Suc n) (st, d)) AND msk = done"] by auto
  then show "\<exists>d'. poll p base msk done st d = Some d'" by (intro exI) (rule poll_finds)
next
  assume "\<exists>d'. poll p base msk done st d = Some d'"
  then obtain d' where "poll p base msk done st d = Some d'" ..
  from poll_result [OF this] show "\<exists>n. fst (status_reads p base (Suc n) (st, d)) AND msk = done"
    by (elim exE conjE) (rule exI)
qed

section \<open>The registers after a start\<close>

lemma pairs_nth:
  "i < length xs \<Longrightarrow> concat (map (\<lambda>x. [f x, g x]) xs) ! (2 * i) = f (xs ! i)"
  "i < length xs \<Longrightarrow> concat (map (\<lambda>x. [f x, g x]) xs) ! (2 * i + 1) = g (xs ! i)"
proof -
  show "i < length xs \<Longrightarrow> concat (map (\<lambda>x. [f x, g x]) xs) ! (2 * i) = f (xs ! i)"
    by (induction xs arbitrary: i) (auto simp: nth_Cons split: nat.split)
  show "i < length xs \<Longrightarrow> concat (map (\<lambda>x. [f x, g x]) xs) ! (2 * i + 1) = g (xs ! i)"
    by (induction xs arbitrary: i) (auto simp: nth_Cons split: nat.split)
qed

lemma range_values_nth:
  assumes "i < length rbs"
  shows "range_values rbs ! (2 * i) = 0" "range_values rbs ! (2 * i + 1) = of_int (rb_num_rows (rbs ! i))"
  unfolding range_values_def by (rule pairs_nth [OF assms])+

lemma address_values_nth:
  assumes "i < length as"
  shows "address_values as ! (2 * i) = dau_lo (as ! i)" "address_values as ! (2 * i + 1) = dau_hi (as ! i)"
  unfolding address_values_def by (rule pairs_nth [OF assms])+

lemma metadata_nth:
  assumes "num_buffers c \<le> length (device_buffers c)"
  shows "i < num_recordbatches c \<Longrightarrow> metadata_values c ! (2 * i) = 0"
    and "i < num_recordbatches c \<Longrightarrow> metadata_values c ! (2 * i + 1) = of_int (rb_num_rows (host_batches c ! i))"
    and "b < num_buffers c \<Longrightarrow> metadata_values c ! (2 * num_recordbatches c + 2 * b) =
      dau_lo (db_device_address (device_buffers c ! b))"
    and "b < num_buffers c \<Longrightarrow> metadata_values c ! (2 * num_recordbatches c + 2 * b + 1) =
      dau_hi (db_device_address (device_buffers c ! b))"
  using assms range_values_nth [of i "host_batches c"]
    address_values_nth [of b "map db_device_address (take (num_buffers c) (device_buffers c))"]
  by (simp_all add: metadata_values_def nth_append num_recordbatches_def)

lemma length_metadata_values:
  "num_buffers c \<le> length (device_buffers c) \<Longrightarrow>
   length (metadata_values c) = 2 * num_recordbatches c + 2 * num_buffers c"
  by (simp add: metadata_values_def num_recordbatches_def)

lemma Start_writes:
  assumes "\<forall>off v d. fst (p_WriteMMIO p (ctx_reg_offset c) off v d) = 0"
    "num_buffers c \<le> length (device_buffers c)" "host_batches c \<noteq> [] \<or> num_buffers c = 0"
    "\<not> metadata_written k"
  shows "\<exists>st. status_ok st \<and> Kernel_Start p k c d = Inr (st, k\<lparr>metadata_written := True\<rparr>,
    write_regs p (ctx_reg_offset c) (consecutive 4 (metadata_values c) @ [(0, ctrl_start k), (0, 0)]) d)"
  using assms WriteMetaData_ok [OF assms(1-3), of k d]
  by (simp add: Kernel_Start_def Let_def split_beta FLETCHER_REG_CONTROL_def)

lemma start_registers:
  assumes "has_registers p (ctx_reg_offset c) reg" "\<not> metadata_written k"
    "num_buffers c \<le> length (device_buffers c)" "host_batches c \<noteq> [] \<or> num_buffers c = 0"
    "4 + 2 * num_recordbatches c + 2 * num_buffers c \<le> 2 ^ 64"
  shows "\<exists>st d'. Kernel_Start p k c d = Inr (st, k\<lparr>metadata_written := True\<rparr>, d') \<and> status_ok st
    \<and> reg d' 0 = 0
    \<and> (\<forall>i<num_recordbatches c. reg d' (of_nat (4 + 2 * i)) = 0
        \<and> reg d' (of_nat (4 + 2 * i + 1)) = of_int (rb_num_rows (host_batches c ! i)))
    \<and> (\<forall>b<num_buffers c.
        reg d' (of_nat (4 + 2 * num_recordbatches c + 2 * b)) = dau_lo (db_device_address (device_buffers c ! b))
        \<and> reg d' (of_nat (4 + 2 * num_recordbatches c + 2 * b + 1)) = dau_hi (db_device_address (device_buffers c ! b)))
    \<and> (\<forall>off. 0 < off \<and> off < 4 \<or> 4 + 2 * num_recordbatches c + 2 * num_buffers c \<le> off \<and> off < 2 ^ 64 \<longrightarrow>
        reg d' (of_nat off) = reg d (of_nat off))"
proof -
  let ?vs = "metadata_values c"
  let ?w = "\<lambda>d. write_regs p (ctx_reg_offset c) (consecutive 4 ?vs) d"
  define D where "D = write_regs p (ctx_reg_offset c) (consecutive 4 ?vs @ [(0, ctrl_start k), (0, 0)]) d"
  note len = length_metadata_values [OF assms(3)]
  obtain st where st: "status_ok st" "Kernel_Start p k c d = Inr (st, k\<lparr>metadata_written := True\<rparr>, D)"
    using Start_writes [of p c k d] has_registers_write(1) [OF assms(1)] assms(2-4) unfolding D_def by auto
  have reg: "reg D = (reg (?w d))(0 := 0)"
    unfolding D_def by (simp only: write_regs_simps has_registers_write(2) [OF assms(1)] fun_upd_upd)
  have bound: "4 + length ?vs \<le> 2 ^ 64" using assms(5) len by simp
  have nz: "(of_nat off :: u64) \<noteq> 0" if "0 < off" "off < 2 ^ 64" for off
    using that of_nat_u64_inject [of off 0] by simp
  have at: "reg D (of_nat (4 + i)) = ?vs ! i" if "i < length ?vs" for i
    using reg_consecutive(1) [OF assms(1) bound that, of d] nz [of "4 + i"] that bound by (simp add: reg)
  have other: "reg D (of_nat off) = reg d (of_nat off)"
    if "0 < off \<and> off < 4 \<or> 4 + 2 * num_recordbatches c + 2 * num_buffers c \<le> off \<and> off < 2 ^ 64" for off
    using reg_consecutive(2) [OF assms(1) bound, of off d] nz [of off] that len by (auto simp: reg)
  have "reg D (of_nat (4 + 2 * i)) = 0 \<and> reg D (of_nat (4 + 2 * i + 1)) = of_int (rb_num_rows (host_batches c ! i))"
    if "i < num_recordbatches c" for i
    using at [of "2 * i"] at [of "2 * i + 1"] metadata_nth(1,2) [OF assms(3) that] that len
    by (simp add: add.assoc)
  moreover have "reg D (of_nat (4 + 2 * num_recordbatches c + 2 * b)) = dau_lo (db_device_address (device_buffers c ! b))
      \<and> reg D (of_nat (4 + 2 * num_recordbatches c + 2 * b + 1)) = dau_hi (db_device_address (device_buffers c ! b))"
    if "b < num_buffers c" for b
    using at [of "2 * num_recordbatches c + 2 * b"] at [of "2 * num_recordbatches c + 2 * b + 1"]
      metadata_nth(3,4) [OF assms(3) that] that len
    by (simp add: add.assoc)
  ultimately show ?thesis
    using st other reg by (intro exI [of _ st] exI [of _ D]) simp
qed

section \<open>Properties\<close>

text \<open>C6: starting a kernel whose metadata was not written yet, on a platform with a register file, leaves
  the registers as the hardware expects them: for every record batch the first and last row from register 4
  on, after them for every buffer the low and high half of its device address, the control register back at
  0, and all other registers as they were.\<close>

theorem kernel_start_registers:
  assumes "has_registers p (ctx_reg_offset c) reg" "\<not> metadata_written k"
    "num_buffers c \<le> length (device_buffers c)" "host_batches c \<noteq> [] \<or> num_buffers c = 0"
    "4 + 2 * num_recordbatches c + 2 * num_buffers c \<le> 2 ^ 64"
  shows "\<exists>st d'. Kernel_Start p k c d = Inr (st, k\<lparr>metadata_written := True\<rparr>, d') \<and> status_ok st
    \<and> reg d' 0 = 0
    \<and> (\<forall>i<num_recordbatches c. reg d' (of_nat (4 + 2 * i)) = 0
        \<and> reg d' (of_nat (4 + 2 * i + 1)) = of_int (rb_num_rows (host_batches c ! i)))
    \<and> (\<forall>b<num_buffers c.
        reg d' (of_nat (4 + 2 * num_recordbatches c + 2 * b)) = dau_lo (db_device_address (device_buffers c ! b))
        \<and> reg d' (of_nat (4 + 2 * num_recordbatches c + 2 * b + 1)) = dau_hi (db_device_address (device_buffers c ! b)))
    \<and> (\<forall>off. 0 < off \<and> off < 4 \<or> 4 + 2 * num_recordbatches c + 2 * num_buffers c \<le> off \<and> off < 2 ^ 64 \<longrightarrow>
        reg d' (of_nat off) = reg d (of_nat off))"
  by (rule start_registers [OF assms])

definition example_ctx :: ctx where
  "example_ctx = \<lparr>ctx_reg_offset = 0,
     host_batches = [\<lparr>rb_schema = \<lparr>schema_fields = [], schema_metadata = None\<rparr>, rb_num_rows = 2, rb_columns = []\<rparr>],
     host_batch_desc = [\<lparr>bd_name = [], bd_rows = 2, bd_fields = [\<lparr>fm_type = FIXED INT8, fm_length = 2,
       fm_null_count = 0, fm_buffers = [mk_buffer 64 2 [''values''] 0 False]\<rparr>], bd_mode = READ, bd_virtual = False\<rparr>],
     host_batch_memtype = [MEM_ANY],
     device_buffers = [(DeviceBuffer_new 64 2 MEM_ANY READ)\<lparr>db_device_address := 0x10000000A\<rparr>]\<rparr>"

lemma example_ctx_counts:
  "num_buffers example_ctx = 1" "num_recordbatches example_ctx = 1" "length (device_buffers example_ctx) = 1"
  "host_batches example_ctx \<noteq> []"
  by (simp_all add: example_ctx_def num_buffers_def num_recordbatches_def)

lemma kernel_start_registers_witness:
  "\<exists>st d'. Kernel_Start toy_api Kernel_new example_ctx (\<lambda>_. 7) =
      Inr (st, Kernel_new\<lparr>metadata_written := True\<rparr>, d') \<and> status_ok st \<and> d' 0 = 0
    \<and> d' (of_nat (4 + 2 * num_recordbatches example_ctx + 2 * 0 + 1)) =
       dau_hi (db_device_address (device_buffers example_ctx ! 0))"
  using kernel_start_registers [of toy_api example_ctx "\<lambda>d. d" Kernel_new "\<lambda>_. 7"]
  by (auto simp: toy_registers example_ctx_counts Kernel_new_def)

text \<open>C22: waiting for a kernel returns, with status OK and the state after the first read of the status
  register whose masked value is the done status, if and only if some read of the status register shows the
  done status; otherwise it never returns. The status of the reads does not matter.\<close>

theorem wait_for_finish_iff:
  "((\<exists>d'. Kernel_WaitForFinish p k c usec d = Some (Status_OK, d')) \<longleftrightarrow>
     (\<exists>n. fst (status_reads p (ctx_reg_offset c) (Suc n) (0, d)) AND done_status_mask k = done_status k))
   \<and> (Kernel_WaitForFinish p k c usec d = Some r \<longrightarrow> status_ok (fst r)
       \<and> (\<exists>n. snd r = snd (status_reads p (ctx_reg_offset c) (Suc n) (0, d))
          \<and> fst (status_reads p (ctx_reg_offset c) (Suc n) (0, d)) AND done_status_mask k = done_status k
          \<and> (\<forall>m<n. fst (status_reads p (ctx_reg_offset c) (Suc m) (0, d)) AND done_status_mask k \<noteq> done_status k)))"
proof -
  have w: "Kernel_WaitForFinish p k c usec d =
    Option.bind (poll p (ctx_reg_offset c) (done_status_mask k) (done_status k) 0 d) (\<lambda>d'. Some (Status_OK, d'))"
    by (simp add: Kernel_WaitForFinish_def)
  show ?thesis
  proof (intro conjI impI)
    show "(\<exists>d'. Kernel_WaitForFinish p k c usec d = Some (Status_OK, d')) \<longleftrightarrow>
     (\<exists>n. fst (status_reads p (ctx_reg_offset c) (Suc n) (0, d)) AND done_status_mask k = done_status k)"
      unfolding poll_iff [symmetric] w by (auto simp: bind_eq_Some_conv)
    assume "Kernel_WaitForFinish p k c usec d = Some r"
    then obtain d' where p: "poll p (ctx_reg_offset c) (done_status_mask k) (done_status k) 0 d = Some d'"
      and r: "r = (Status_OK, d')" by (auto simp: w bind_eq_Some_conv)
    show "status_ok (fst r)" using r by simp
    show "\<exists>n. snd r = snd (status_reads p (ctx_reg_offset c) (Suc n) (0, d))
          \<and> fst (status_reads p (ctx_reg_offset c) (Suc n) (0, d)) AND done_status_mask k = done_status k
          \<and> (\<forall>m<n. fst (status_reads p (ctx_reg_offset c) (Suc m) (0, d)) AND done_status_mask k \<noteq> done_status k)"
      using poll_result [OF p] r by auto
  qed
qed

text \<open>A platform whose status register shows done from the third read on: its state counts the reads.\<close>

definition counting_api :: "nat platform_api" where
  "counting_api = \<lparr>p_GetName = (\<lambda>n d. (0, [], d)), p_Init = (\<lambda>d. (0, d)), p_WriteMMIO = (\<lambda>base off v d. (0, d)),
     p_ReadMMIO = (\<lambda>base off old d. (0, if 2 \<le> d then 4 else 2, d + 1)),
     p_DeviceMalloc = (\<lambda>old n d. (0, old, d)), p_DeviceFree = (\<lambda>a d. (0, d)),
     p_CopyHostToDevice = (\<lambda>s t n d. (0, d)), p_CopyDeviceToHost = (\<lambda>s t n d. (0, d)),
     p_PrepareHostBuffer = (\<lambda>s old n al d. (0, s, 0, d)), p_CacheHostBuffer = (\<lambda>s old n d. (0, s, d)),
     p_Terminate = (\<lambda>d. (0, d))\<rparr>"

lemma wait_for_finish_iff_witness: "\<exists>d'. Kernel_WaitForFinish counting_api Kernel_new example_ctx 0 0 = Some (Status_OK, d')"
proof -
  have "\<exists>n. fst (status_reads counting_api (ctx_reg_offset example_ctx) (Suc n) (0, 0))
      AND done_status_mask Kernel_new = done_status Kernel_new"
    by (intro exI [of _ 2]) (simp add: numeral_2_eq_2 ReadMMIO_def counting_api_def Kernel_new_def
        FLETCHER_REG_STATUS_DONE_def push_bit_eq_mult)
  then show ?thesis using wait_for_finish_iff [of counting_api Kernel_new example_ctx 0 0] by blast
qed

text \<open>Failing writes of buffer addresses go unnoticed. When the platform accepts the writes of the row
  ranges, \<^verbatim>\<open>WriteMetaData\<close> reports success and marks the metadata as written, whatever status the platform
  returns for the writes of the addresses.\<close>

theorem address_writes_unchecked:
  assumes "\<forall>off v d. unat off < 4 + 2 * num_recordbatches c \<longrightarrow> fst (p_WriteMMIO p (ctx_reg_offset c) off v d) = 0"
    "num_buffers c \<le> length (device_buffers c)" "host_batches c \<noteq> []" "4 + 2 * num_recordbatches c < 2 ^ 64"
  shows "\<exists>d'. Kernel_WriteMetaData p k c d = Inr (Status_OK, k\<lparr>metadata_written := True\<rparr>, d')"
proof -
  have ranges: "write_ranges p (ctx_reg_offset c) rbs (of_nat n) d = (Inr (of_nat (n + 2 * length rbs)),
      write_regs p (ctx_reg_offset c) (consecutive n (range_values rbs)) d)"
    if "n + 2 * length rbs \<le> 4 + 2 * num_recordbatches c" for rbs n d
    using that
  proof (induction rbs arbitrary: n d)
    case (Cons rb rbs)
    have small: "unat (of_nat m :: u64) = m" if "m < 4 + 2 * num_recordbatches c" for m
      using that assms(4) by (intro unat_of_nat_small) simp
    have w: "fst (p_WriteMMIO p (ctx_reg_offset c) (of_nat m) v d) = 0" if "m < 4 + 2 * num_recordbatches c" for m v d
      using assms(1) small [OF that] that by simp
    have w1: "fst (p_WriteMMIO p (ctx_reg_offset c) (of_nat n) v d) = 0"
      "fst (p_WriteMMIO p (ctx_reg_offset c) (of_nat n + 1) v d) = 0" for v d
      using w [of n] w [of "Suc n"] Cons.prems by (simp_all add: add.commute)
    have "(of_nat n + 2 :: u64) = of_nat (Suc (Suc n))" by simp
    then show ?case
      using w1 Cons.IH [of "Suc (Suc n)"] Cons.prems
      by (simp add: Let_def split_beta range_values_def consecutive_Cons add.commute)
  qed (simp add: range_values_def)
  have off: "(of_nat FLETCHER_REG_SCHEMA :: u64) = of_nat 4" by (simp add: FLETCHER_REG_SCHEMA_def)
  have r: "write_ranges p (ctx_reg_offset c) (host_batches c) (of_nat FLETCHER_REG_SCHEMA) d =
    (Inr (of_nat (4 + 2 * length (host_batches c))),
     write_regs p (ctx_reg_offset c) (consecutive 4 (range_values (host_batches c))) d)"
    unfolding off by (rule ranges) (simp add: num_recordbatches_def)
  have "0 + num_buffers c \<le> length (device_buffers c)" using assms(2) by simp
  from write_addresses_ok [OF this, of p "4 + 2 * length (host_batches c)"] show ?thesis
    unfolding Kernel_WriteMetaData_def r using assms(3) by simp
qed

definition failing_api :: "nat platform_api" where
  "failing_api = counting_api\<lparr>p_WriteMMIO := (\<lambda>base off v d. (if unat off < 6 then 0 else 1, d))\<rparr>"

lemma address_writes_unchecked_witness:
  "\<exists>d'. Kernel_WriteMetaData failing_api Kernel_new example_ctx 0 = Inr (Status_OK, Kernel_new\<lparr>metadata_written := True\<rparr>, d')"
  by (rule address_writes_unchecked) (simp_all add: example_ctx_counts failing_api_def)

end
