(* ===== verification/Echo.thy ===== *)
theory Echo
  imports Context Host_Memory
begin

text \<open>
  The echo platform, \<^verbatim>\<open>fletcher/platforms/echo/runtime/src/fletcher_echo.c\<close>, and the contract a
  context has with its platform. Device memory is memory of the process: the state is the
  memory, the blocks that were allocated, the options and the C library's \<^verbatim>\<open>posix_memalign\<close>,
  a parameter that for a memory and a size gives the address of a new block and what it
  happens to hold, or None. The messages printed when the platform is not quiet are left out.
  An operation without a meaning in C makes the state \<open>Inl Undefined\<close>.
\<close>

section \<open>What a context needs of a platform\<close>

text \<open>
  \<open>good\<close> are the states in which nothing undefined has happened, \<open>host d src n\<close> the \<open>n\<close> bytes
  at a host address, \<open>holds d a bs\<close> that the device reads \<open>bs\<close> at the device address \<open>a\<close>.
\<close>

definition byte_count_ok :: "int \<Rightarrow> bool" where
  "byte_count_ok n \<longleftrightarrow> 0 \<le> n \<and> n < 2 ^ 63"

locale device_memory =
  fixes p :: "'d platform_api"
    and good :: "'d \<Rightarrow> bool"
    and host :: "'d \<Rightarrow> u64 \<Rightarrow> nat \<Rightarrow> u8 list option"
    and holds :: "'d \<Rightarrow> u64 \<Rightarrow> u8 list \<Rightarrow> bool"
  assumes prepare_good: "p_PrepareHostBuffer p src 0 n al d = (s, a, al', d') \<Longrightarrow> good d' \<Longrightarrow> good d"
    and prepare_holds: "p_PrepareHostBuffer p src 0 n al d = (0, a, al', d') \<Longrightarrow> good d' \<Longrightarrow> byte_count_ok n \<Longrightarrow>
      host d src (nat n) = Some bs \<Longrightarrow> holds d' a bs"
    and prepare_keeps: "p_PrepareHostBuffer p src 0 n al d = (s, a, al', d') \<Longrightarrow> good d' \<Longrightarrow> byte_count_ok n \<Longrightarrow>
      (holds d b cs \<longrightarrow> holds d' b cs) \<and> (host d h m = Some cs \<longrightarrow> host d' h m = Some cs)"
    and cache_good: "p_CacheHostBuffer p src 0 n d = (s, a, d') \<Longrightarrow> good d' \<Longrightarrow> good d"
    and cache_holds: "p_CacheHostBuffer p src 0 n d = (0, a, d') \<Longrightarrow> good d' \<Longrightarrow> byte_count_ok n \<Longrightarrow>
      host d src (nat n) = Some bs \<Longrightarrow> holds d' a bs"
    and cache_keeps: "p_CacheHostBuffer p src 0 n d = (s, a, d') \<Longrightarrow> good d' \<Longrightarrow> byte_count_ok n \<Longrightarrow>
      (holds d b cs \<longrightarrow> holds d' b cs) \<and> (host d h m = Some cs \<longrightarrow> host d' h m = Some cs)"
begin

lemma buffer_step:
  assumes "enable_buffer p t m b d = (st, db, d')" "good d'" "byte_count_ok (buf_size b)"
  shows "good d"
    and "status_ok st \<Longrightarrow> host d (raw_buffer b) (nat (buf_size b)) = Some bs \<Longrightarrow>
      holds d' (db_device_address db) bs"
    and "holds d x cs \<Longrightarrow> holds d' x cs"
    and "host d h k = Some cs \<Longrightarrow> host d' h k = Some cs"
proof -
  show "good d" using assms prepare_good cache_good
    by (cases t) (auto simp: enable_buffer_def PrepareHostBuffer_def CacheHostBuffer_def Let_def
        DeviceBuffer_new_def DeviceBuffer_default_def D_NULLPTR_def split: prod.splits)
  show "status_ok st \<Longrightarrow> host d (raw_buffer b) (nat (buf_size b)) = Some bs \<Longrightarrow>
      holds d' (db_device_address db) bs"
    using assms prepare_holds cache_holds
    by (cases t) (auto simp: enable_buffer_def PrepareHostBuffer_def CacheHostBuffer_def Let_def
        DeviceBuffer_new_def DeviceBuffer_default_def D_NULLPTR_def split: prod.splits)
  have keep: "(holds d x cs \<longrightarrow> holds d' x cs) \<and> (host d h k = Some cs \<longrightarrow> host d' h k = Some cs)"
    using assms prepare_keeps cache_keeps
    by (cases t) (auto simp: enable_buffer_def PrepareHostBuffer_def CacheHostBuffer_def Let_def
        DeviceBuffer_new_def DeviceBuffer_default_def D_NULLPTR_def split: prod.splits)
  then show "holds d x cs \<Longrightarrow> holds d' x cs" "host d h k = Some cs \<Longrightarrow> host d' h k = Some cs" by auto
qed

lemma enable_all_keeps:
  assumes "enable_all p qs bufs d = (st, bufs', d')" "good d'" "\<forall>(t, m, b)\<in>set qs. byte_count_ok (buf_size b)"
  shows "good d \<and> (\<forall>x cs. holds d x cs \<longrightarrow> holds d' x cs)"
  using assms
proof (induction qs arbitrary: bufs d)
  case (Cons q qs)
  obtain t m b where q: "q = (t, m, b)" by (metis prod_cases3)
  obtain st1 db d1 where e: "enable_buffer p t m b d = (st1, db, d1)" by (metis prod_cases3)
  have b: "byte_count_ok (buf_size b)" using Cons.prems q by auto
  have "good d1 \<and> (\<forall>x cs. holds d1 x cs \<longrightarrow> holds d' x cs)"
    using Cons.prems e q Cons.IH [of "bufs @ [db]" d1] by (cases "status_ok st1") (auto simp: Let_def)
  then show ?case using buffer_step(1,3) [OF e _ b] by blast
qed auto

lemma enable_all_holds:
  assumes "enable_all p qs bufs d = (st, bufs', d')" "status_ok st" "good d'"
    "\<forall>(t, m, b)\<in>set qs. byte_count_ok (buf_size b) \<and> host d (raw_buffer b) (nat (buf_size b)) = Some (content b)"
  shows "\<exists>dbs. bufs' = bufs @ dbs \<and>
    list_all2 (\<lambda>db (t, m, b). db_host_address db = raw_buffer b \<and> holds d' (db_device_address db) (content b)) dbs qs"
  using assms
proof (induction qs arbitrary: bufs d)
  case (Cons q qs)
  obtain t m b where q: "q = (t, m, b)" by (metis prod_cases3)
  obtain st1 db d1 where e: "enable_buffer p t m b d = (st1, db, d1)" by (metis prod_cases3)
  have ok: "status_ok st1" and rest: "enable_all p qs (bufs @ [db]) d1 = (st, bufs', d')"
    using Cons.prems e q by (auto simp: Let_def split: if_splits)
  have b: "byte_count_ok (buf_size b)" "\<forall>(t, m, b)\<in>set qs. byte_count_ok (buf_size b)" using Cons.prems q by auto
  have keeps: "good d1 \<and> (\<forall>x cs. holds d1 x cs \<longrightarrow> holds d' x cs)"
    by (rule enable_all_keeps [OF rest Cons.prems(3) b(2)])
  then have g1: "good d1" ..
  have "holds d1 (db_device_address db) (content b)"
    by (rule buffer_step(2) [OF e g1 b(1) ok]) (use Cons.prems(4) q in auto)
  then have h: "holds d' (db_device_address db) (content b)"
    using keeps by blast
  have "\<forall>(t, m, b)\<in>set qs. byte_count_ok (buf_size b) \<and> host d1 (raw_buffer b) (nat (buf_size b)) = Some (content b)"
    using Cons.prems(4) buffer_step(4) [OF e g1 b(1)] by fastforce
  from Cons.IH [OF rest Cons.prems(2,3) this] obtain dbs where "bufs' = (bufs @ [db]) @ dbs"
    "list_all2 (\<lambda>db (t, m, b). db_host_address db = raw_buffer b \<and> holds d' (db_device_address db) (content b)) dbs qs"
    by auto
  then show ?case using h enable_buffer_host [OF e] q by (intro exI [of _ "db # dbs"]) auto
qed auto

end

section \<open>State and functions\<close>

definition FLETCHER_PLATFORM_NAME :: string where
  "FLETCHER_PLATFORM_NAME = ''echo''"

definition FLETCHER_ECHO_ALIGNMENT :: nat where
  "FLETCHER_ECHO_ALIGNMENT = 4096"

record echo =
  e_mem :: host_memory
  e_blocks :: "(u64 \<times> nat) list"
  e_quiet :: int
  e_memalign :: "host_memory \<Rightarrow> nat \<Rightarrow> nat \<Rightarrow> (u64 \<times> u8 list) option"

text \<open>What is written to the buffer. A copy of more than \<open>sz\<close> bytes leaves the buffer.\<close>

definition echo_GetName :: "nat \<Rightarrow> (fstatus \<times> string) res" where
  "echo_GetName sz =
    (let len = length FLETCHER_PLATFORM_NAME in
     if sz < len then
       if sz = 0 then Inl Undefined
       else Inr (FLETCHER_STATUS_OK, take (sz - 1) FLETCHER_PLATFORM_NAME @ [CHR 0x00])
     else if sz < len + 1 then Inl Undefined
     else Inr (FLETCHER_STATUS_OK, FLETCHER_PLATFORM_NAME @ [CHR 0x00]))"

definition echo_Init :: "int option \<Rightarrow> echo \<Rightarrow> fstatus \<times> echo" where
  "echo_Init arg e = (FLETCHER_STATUS_OK, case arg of None \<Rightarrow> e | Some opts \<Rightarrow> e\<lparr>e_quiet := opts\<rparr>)"

definition echo_WriteMMIO :: "u64 \<Rightarrow> u32 \<Rightarrow> echo \<Rightarrow> fstatus \<times> echo" where
  "echo_WriteMMIO offset v e = (FLETCHER_STATUS_OK, e)"

definition echo_ReadMMIO :: "u64 \<Rightarrow> echo \<Rightarrow> fstatus \<times> u32 \<times> echo" where
  "echo_ReadMMIO offset e = (FLETCHER_STATUS_OK, 0xDEADBEEF, e)"

definition echo_copy :: "u64 \<Rightarrow> u64 \<Rightarrow> int \<Rightarrow> echo \<Rightarrow> echo res" where
  "echo_copy src dst n e =
    res_bind (read_host (e_mem e) src (unat (of_int n :: u64))) (\<lambda>bs.
    res_bind (write_host (e_mem e) dst bs) (\<lambda>mem. Inr (e\<lparr>e_mem := mem\<rparr>)))"

definition echo_CopyHostToDevice :: "u64 \<Rightarrow> u64 \<Rightarrow> int \<Rightarrow> echo \<Rightarrow> (fstatus \<times> echo) res" where
  "echo_CopyHostToDevice host_source device_destination n e =
    res_bind (echo_copy host_source device_destination n e) (\<lambda>e'. Inr (FLETCHER_STATUS_OK, e'))"

definition echo_CopyDeviceToHost :: "u64 \<Rightarrow> u64 \<Rightarrow> int \<Rightarrow> echo \<Rightarrow> (fstatus \<times> echo) res" where
  "echo_CopyDeviceToHost device_source host_destination n e =
    res_bind (echo_copy device_source host_destination n e) (\<lambda>e'. Inr (FLETCHER_STATUS_OK, e'))"

definition echo_Terminate :: "echo \<Rightarrow> fstatus \<times> echo" where
  "echo_Terminate e = (FLETCHER_STATUS_OK, e)"

text \<open>The result of \<^verbatim>\<open>posix_memalign\<close> is not looked at; when it fails the pointer keeps its value.\<close>

definition echo_DeviceMalloc :: "u64 \<Rightarrow> int \<Rightarrow> echo \<Rightarrow> fstatus \<times> u64 \<times> echo" where
  "echo_DeviceMalloc device_address n e =
    (case e_memalign e (e_mem e) FLETCHER_ECHO_ALIGNMENT (unat (of_int n :: u64)) of
       None \<Rightarrow> (FLETCHER_STATUS_OK, device_address, e)
     | Some (a, junk) \<Rightarrow> (FLETCHER_STATUS_OK, a,
         e\<lparr>e_mem := put_bytes (e_mem e) a junk, e_blocks := (a, unat (of_int n :: u64)) # e_blocks e\<rparr>))"

definition unmap :: "host_memory \<Rightarrow> u64 \<Rightarrow> nat \<Rightarrow> host_memory" where
  "unmap mem a n = (\<lambda>x. if unat (x - a) < n then None else mem x)"

definition echo_DeviceFree :: "u64 \<Rightarrow> echo \<Rightarrow> (fstatus \<times> echo) res" where
  "echo_DeviceFree device_address e =
    (if device_address = 0 then Inr (FLETCHER_STATUS_OK, e)
     else case map_of (e_blocks e) device_address of
       None \<Rightarrow> Inl Undefined
     | Some n \<Rightarrow> Inr (FLETCHER_STATUS_OK,
         e\<lparr>e_mem := unmap (e_mem e) device_address n,
           e_blocks := filter (\<lambda>(a, _). a \<noteq> device_address) (e_blocks e)\<rparr>))"

text \<open>\<^verbatim>\<open>CHECK_STATUS\<close> returns the status when it is not OK.\<close>

definition echo_PrepareHostBuffer :: "u64 \<Rightarrow> u64 \<Rightarrow> int \<Rightarrow> echo \<Rightarrow> (fstatus \<times> u64 \<times> int \<times> echo) res" where
  "echo_PrepareHostBuffer host_source device_destination n e =
    (let (status, a, e1) = echo_DeviceMalloc device_destination n e; alloced = 1 in
     if status \<noteq> FLETCHER_STATUS_OK then Inr (status, a, alloced, e1)
     else res_bind (echo_CopyHostToDevice host_source a n e1) (\<lambda>(status, e2).
          Inr (status, a, alloced, e2)))"

definition echo_CacheHostBuffer :: "u64 \<Rightarrow> u64 \<Rightarrow> int \<Rightarrow> echo \<Rightarrow> (fstatus \<times> u64 \<times> echo) res" where
  "echo_CacheHostBuffer host_source device_destination n e =
    (let (status, a, e1) = echo_DeviceMalloc device_destination n e in
     if status \<noteq> FLETCHER_STATUS_OK then Inr (status, a, e1)
     else res_bind (echo_CopyHostToDevice host_source a n e1) (\<lambda>(status, e2). Inr (status, a, e2)))"

section \<open>Echo as a linked platform\<close>

text \<open>
  The two register functions take one argument less than the pointers that \<^verbatim>\<open>Platform::Link\<close>
  stores them in; C gives no meaning to a call through such a pointer.
\<close>

definition on_echo :: "('x \<times> echo) res \<Rightarrow> 'x \<Rightarrow> 'x \<times> echo res" where
  "on_echo r x = (case r of Inl e \<Rightarrow> (x, Inl e) | Inr (y, e) \<Rightarrow> (y, Inr e))"

definition echo_api :: "echo res platform_api" where
  "echo_api = \<lparr>
    p_GetName = (\<lambda>n d. case d of Inl x \<Rightarrow> (0, [], Inl x)
      | Inr e \<Rightarrow> (case echo_GetName n of Inl x \<Rightarrow> (0, [], Inl x) | Inr (s, str) \<Rightarrow> (s, str, Inr e))),
    p_Init = (\<lambda>d. on_echo (res_bind d (\<lambda>e. Inr (echo_Init None e))) 0),
    p_WriteMMIO = (\<lambda>base off v d. (0, Inl Undefined)),
    p_ReadMMIO = (\<lambda>base off old d. (0, old, Inl Undefined)),
    p_DeviceMalloc = (\<lambda>old n d. case res_bind d (\<lambda>e. Inr (echo_DeviceMalloc old n e)) of
        Inl x \<Rightarrow> (0, old, Inl x) | Inr (s, a, e) \<Rightarrow> (s, a, Inr e)),
    p_DeviceFree = (\<lambda>a d. on_echo (res_bind d (echo_DeviceFree a)) 0),
    p_CopyHostToDevice = (\<lambda>src dst n d. on_echo (res_bind d (echo_CopyHostToDevice src dst n)) 0),
    p_CopyDeviceToHost = (\<lambda>src dst n d. on_echo (res_bind d (echo_CopyDeviceToHost src dst n)) 0),
    p_PrepareHostBuffer = (\<lambda>src old n al d. case res_bind d (echo_PrepareHostBuffer src old n) of
        Inl x \<Rightarrow> (0, old, al, Inl x) | Inr (s, a, al', e) \<Rightarrow> (s, a, al', Inr e)),
    p_CacheHostBuffer = (\<lambda>src old n d. case res_bind d (echo_CacheHostBuffer src old n) of
        Inl x \<Rightarrow> (0, old, Inl x) | Inr (s, a, e) \<Rightarrow> (s, a, Inr e)),
    p_Terminate = (\<lambda>d. on_echo (res_bind d (\<lambda>e. Inr (echo_Terminate e))) 0)\<rparr>"

section \<open>Echo keeps the contract\<close>

text \<open>
  What \<^verbatim>\<open>posix_memalign\<close> promises: a block of the size asked for at an aligned address, none of
  whose addresses is in use or null.
\<close>

definition memalign_ok :: "(host_memory \<Rightarrow> nat \<Rightarrow> nat \<Rightarrow> (u64 \<times> u8 list) option) \<Rightarrow> bool" where
  "memalign_ok f \<longleftrightarrow> (\<forall>mem al n a junk. f mem al n = Some (a, junk) \<longrightarrow>
     length junk = n \<and> al dvd unat a \<and> fresh_block mem a n \<and> n \<le> unat (- a))"

definition echo_good :: "echo res \<Rightarrow> bool" where
  "echo_good d \<longleftrightarrow> (\<exists>e. d = Inr e \<and> memalign_ok (e_memalign e) \<and> e_mem e 0 = None)"

definition echo_host :: "echo res \<Rightarrow> u64 \<Rightarrow> nat \<Rightarrow> u8 list option" where
  "echo_host d a n = (case d of Inl _ \<Rightarrow> None
     | Inr e \<Rightarrow> (case read_host (e_mem e) a n of Inl _ \<Rightarrow> None | Inr bs \<Rightarrow> Some bs))"

definition echo_holds :: "echo res \<Rightarrow> u64 \<Rightarrow> u8 list \<Rightarrow> bool" where
  "echo_holds d a bs \<longleftrightarrow> echo_host d a (length bs) = Some bs"

lemma echo_host_iff: "echo_host d a n = Some bs \<longleftrightarrow> (\<exists>e. d = Inr e \<and> read_host (e_mem e) a n = Inr bs)"
  by (auto simp: echo_host_def split: sum.splits)

text \<open>Allocating and copying, from a null pointer.\<close>

lemma echo_alloc_copy:
  assumes "echo_DeviceMalloc 0 n e = (s, a, e1)" "echo_CopyHostToDevice src a n e1 = Inr (s', e2)"
    "memalign_ok (e_memalign e)" "e_mem e 0 = None" "0 \<le> n"
  shows "s = 0 \<and> s' = 0 \<and> e_memalign e2 = e_memalign e \<and> e_mem e2 0 = None
    \<and> (\<forall>b m cs. read_host (e_mem e) b m = Inr cs \<longrightarrow> read_host (e_mem e2) b m = Inr cs)
    \<and> (\<forall>bs. n < 2 ^ 64 \<longrightarrow> read_host (e_mem e) src (nat n) = Inr bs \<longrightarrow> read_host (e_mem e2) a (nat n) = Inr bs)"
proof -
  let ?n = "unat (of_int n :: u64)"
  have n: "?n = nat n" if "n < 2 ^ 64"
    using unat_of_int_small [of n, where 'a = 64] that assms(5) by simp
  obtain bs mem where rd: "read_host (e_mem e1) src ?n = Inr bs" and wr: "write_host (e_mem e1) a bs = Inr mem"
    and e2: "e2 = e1\<lparr>e_mem := mem\<rparr>" and s': "s' = 0"
    using assms(2) by (auto simp: echo_CopyHostToDevice_def echo_copy_def status_codes elim!: res_bind_InrE)
  have len: "length bs = ?n" using rd by (simp add: read_host_iff)
  show ?thesis
  proof (cases "e_memalign e (e_mem e) FLETCHER_ECHO_ALIGNMENT ?n")
    case None
    then have e1: "e1 = e" "a = 0" "s = 0" using assms(1) by (simp_all add: echo_DeviceMalloc_def status_codes)
    have "bs = []"
    proof (rule ccontr)
      assume "bs \<noteq> []"
      then have "e_mem e1 (0 + of_nat 0) \<noteq> None" using wr e1 by (force simp: write_host_iff)
      then show False using assms(4) e1 by simp
    qed
    then have "?n = 0" "mem = e_mem e" using len wr e1 by (simp_all add: write_host_iff)
    then show ?thesis using e1 e2 s' assms(4) n by auto
  next
    case (Some r)
    obtain a' junk where r: "r = (a', junk)" by fastforce
    have e1: "a = a'" "s = 0" "e_mem e1 = put_bytes (e_mem e) a junk" "e_memalign e1 = e_memalign e"
      using assms(1) Some r by (auto simp: echo_DeviceMalloc_def status_codes)
    have ok: "length junk = ?n" "fresh_block (e_mem e) a ?n" "?n \<le> unat (- a)"
      using assms(3) Some r e1 unfolding memalign_ok_def by blast+
    have mem: "mem = put_bytes (e_mem e) a bs"
      using wr e1 len ok(1) by (simp add: write_host_iff put_put_same)
    have "e_mem e2 0 = None"
      using assms(4) ok(3) len by (simp add: e2 mem put_bytes_def Let_def)
    moreover have "read_host (e_mem e2) b m = Inr cs" if "read_host (e_mem e) b m = Inr cs" for b m cs
      using read_put_fresh [OF _ that, of a bs] ok(2) len by (simp add: e2 mem)
    moreover have "read_host (e_mem e2) a (nat n) = Inr bs'"
      if "n < 2 ^ 64" "read_host (e_mem e) src (nat n) = Inr bs'" for bs'
    proof -
      have "read_host (e_mem e1) src ?n = Inr bs'"
        using read_put_fresh [OF _ that(2), of a junk] ok e1 n [OF that(1)] by simp
      then have "bs' = bs" using rd by simp
      then show ?thesis
        using read_put_same [of bs "e_mem e" a] ok(2) len n [OF that(1)] by (simp add: e2 mem fresh_block_def)
    qed
    ultimately show ?thesis using e1 e2 s' by simp
  qed
qed

lemma put_bytes_None: "put_bytes mem a bs x = None \<Longrightarrow> mem x = None"
  by (auto simp: put_bytes_def Let_def split: if_splits)

lemma echo_alloc_copy_good:
  assumes "echo_DeviceMalloc 0 n e = (s, a, e1)" "echo_CopyHostToDevice src a n e1 = Inr (s', e2)"
    "echo_good (Inr e2)"
  shows "echo_good (Inr e)"
proof -
  obtain bs where "e2 = e1\<lparr>e_mem := put_bytes (e_mem e1) a bs\<rparr>"
    using assms(2) by (auto simp: echo_CopyHostToDevice_def echo_copy_def write_host_iff elim!: res_bind_InrE)
  moreover have "e_memalign e1 = e_memalign e" "e_mem e1 = e_mem e \<or> (\<exists>junk. e_mem e1 = put_bytes (e_mem e) a junk)"
    using assms(1) by (auto simp: echo_DeviceMalloc_def split: option.splits)
  moreover have "put_bytes (e_mem e1) a bs 0 = None" "memalign_ok (e_memalign e1)"
    using assms(3) calculation(1) by (simp_all add: echo_good_def)
  moreover have "e_mem e1 0 = None" using calculation(4) by (rule put_bytes_None)
  ultimately have "e_mem e 0 = None" "memalign_ok (e_memalign e)" by (auto dest: put_bytes_None)
  then show ?thesis by (simp add: echo_good_def)
qed

lemma echo_status_ok: "echo_DeviceMalloc old n e = (s, a, e1) \<Longrightarrow> s = 0"
  by (auto simp: echo_DeviceMalloc_def status_codes split: option.splits)

lemma echo_Prepare_parts:
  assumes "p_PrepareHostBuffer echo_api src 0 n al d = (s, a, al', d')" "echo_good d'"
  obtains e e1 e2 s1 where "d = Inr e" "d' = Inr e2" "echo_DeviceMalloc 0 n e = (s1, a, e1)"
    "echo_CopyHostToDevice src a n e1 = Inr (s, e2)"
proof -
  obtain e2 where d': "d' = Inr e2" using assms(2) by (auto simp: echo_good_def)
  obtain e where d: "d = Inr e" using assms(1) d' by (cases d) (auto simp: echo_api_def)
  obtain s1 a1 e1 where m: "echo_DeviceMalloc 0 n e = (s1, a1, e1)" by (metis prod_cases3)
  have "echo_PrepareHostBuffer src 0 n e = Inr (s, a, al', e2)"
    using assms(1) d d' by (auto simp: echo_api_def split: sum.splits)
  then show ?thesis
    using m echo_status_ok [OF m] d d' that
    by (auto simp: echo_PrepareHostBuffer_def status_codes elim!: res_bind_InrE)
qed

lemma echo_Cache_parts:
  assumes "p_CacheHostBuffer echo_api src 0 n d = (s, a, d')" "echo_good d'"
  obtains e e1 e2 s1 where "d = Inr e" "d' = Inr e2" "echo_DeviceMalloc 0 n e = (s1, a, e1)"
    "echo_CopyHostToDevice src a n e1 = Inr (s, e2)"
proof -
  obtain e2 where d': "d' = Inr e2" using assms(2) by (auto simp: echo_good_def)
  obtain e where d: "d = Inr e" using assms(1) d' by (cases d) (auto simp: echo_api_def)
  obtain s1 a1 e1 where m: "echo_DeviceMalloc 0 n e = (s1, a1, e1)" by (metis prod_cases3)
  have "echo_CacheHostBuffer src 0 n e = Inr (s, a, e2)"
    using assms(1) d d' by (auto simp: echo_api_def split: sum.splits)
  then show ?thesis
    using m echo_status_ok [OF m] d d' that
    by (auto simp: echo_CacheHostBuffer_def status_codes elim!: res_bind_InrE)
qed

lemma echo_transfer:
  assumes "echo_DeviceMalloc 0 n e = (s1, a, e1)" "echo_CopyHostToDevice src a n e1 = Inr (s, e2)"
    "echo_good (Inr e2)" "byte_count_ok n"
  shows "echo_host (Inr e) src (nat n) = Some bs \<Longrightarrow> echo_holds (Inr e2) a bs"
    and "(echo_holds (Inr e) b cs \<longrightarrow> echo_holds (Inr e2) b cs) \<and>
      (echo_host (Inr e) h m = Some cs \<longrightarrow> echo_host (Inr e2) h m = Some cs)"
proof -
  have g: "memalign_ok (e_memalign e)" "e_mem e 0 = None" "0 \<le> n" "n < 2 ^ 64"
    using echo_alloc_copy_good [OF assms(1-3)] assms(4) by (auto simp: echo_good_def byte_count_ok_def)
  note ac = echo_alloc_copy [OF assms(1,2) g(1-3)]
  show "echo_host (Inr e) src (nat n) = Some bs \<Longrightarrow> echo_holds (Inr e2) a bs"
    using ac g(4) by (auto simp: echo_holds_def echo_host_iff read_host_iff)
  show "(echo_holds (Inr e) b cs \<longrightarrow> echo_holds (Inr e2) b cs) \<and>
      (echo_host (Inr e) h m = Some cs \<longrightarrow> echo_host (Inr e2) h m = Some cs)"
    using ac by (auto simp: echo_holds_def echo_host_iff)
qed

interpretation echo_memory: device_memory echo_api echo_good echo_host echo_holds
proof
  fix src :: u64 and n al al' :: int and d d' :: "echo res" and s a :: u64
  assume r: "p_PrepareHostBuffer echo_api src 0 n al d = (s, a, al', d')" and g: "echo_good d'"
  show "echo_good d"
    by (rule echo_Prepare_parts [OF r g]) (use g in \<open>auto intro: echo_alloc_copy_good\<close>)
next
  fix src :: u64 and n al al' :: int and d d' :: "echo res" and a :: u64 and bs
  assume r: "p_PrepareHostBuffer echo_api src 0 n al d = (0, a, al', d')" and g: "echo_good d'"
    and n: "byte_count_ok n" and h: "echo_host d src (nat n) = Some bs"
  show "echo_holds d' a bs"
    by (rule echo_Prepare_parts [OF r g]) (use echo_transfer(1) g n h in blast)
next
  fix src :: u64 and n al al' :: int and d d' :: "echo res" and s a b h :: u64 and m cs
  assume r: "p_PrepareHostBuffer echo_api src 0 n al d = (s, a, al', d')" and g: "echo_good d'"
    and n: "byte_count_ok n"
  show "(echo_holds d b cs \<longrightarrow> echo_holds d' b cs) \<and> (echo_host d h m = Some cs \<longrightarrow> echo_host d' h m = Some cs)"
    by (rule echo_Prepare_parts [OF r g]) (use echo_transfer(2) g n in blast)
next
  fix src :: u64 and n :: int and d d' :: "echo res" and s a :: u64
  assume r: "p_CacheHostBuffer echo_api src 0 n d = (s, a, d')" and g: "echo_good d'"
  show "echo_good d"
    by (rule echo_Cache_parts [OF r g]) (use g in \<open>auto intro: echo_alloc_copy_good\<close>)
next
  fix src :: u64 and n :: int and d d' :: "echo res" and a :: u64 and bs
  assume r: "p_CacheHostBuffer echo_api src 0 n d = (0, a, d')" and g: "echo_good d'"
    and n: "byte_count_ok n" and h: "echo_host d src (nat n) = Some bs"
  show "echo_holds d' a bs"
    by (rule echo_Cache_parts [OF r g]) (use echo_transfer(1) g n h in blast)
next
  fix src :: u64 and n :: int and d d' :: "echo res" and s a b h :: u64 and m cs
  assume r: "p_CacheHostBuffer echo_api src 0 n d = (s, a, d')" and g: "echo_good d'"
    and n: "byte_count_ok n"
  show "(echo_holds d b cs \<longrightarrow> echo_holds d' b cs) \<and> (echo_host d h m = Some cs \<longrightarrow> echo_host d' h m = Some cs)"
    by (rule echo_Cache_parts [OF r g]) (use echo_transfer(2) g n in blast)
qed

section \<open>Properties\<close>

text \<open>C21: enabling a context on the echo platform makes every queued buffer available. When \<^verbatim>\<open>Enable\<close>
  reports success and nothing undefined has happened, the context has one device buffer per buffer of the
  queued batches, in their order, and the device memory at its address holds the bytes of the host buffer.\<close>

theorem enable_on_echo:
  assumes "ctx_wf c" "device_buffers c = []" "Context_Enable echo_api c d = (st, c', d')" "status_ok st"
    "echo_good d'"
    "\<forall>(t, m, b)\<in>set (queued_buffers c). byte_count_ok (buf_size b)
       \<and> echo_host d (raw_buffer b) (nat (buf_size b)) = Some (content b)"
  shows "length (device_buffers c') = num_buffers c
    \<and> (\<forall>i<num_buffers c. let (t, m, b) = queued_buffers c ! i; db = device_buffers c' ! i in
         db_host_address db = raw_buffer b \<and> echo_holds d' (db_device_address db) (content b))"
proof -
  obtain bufs where e: "enable_all echo_api (queued_buffers c) [] d = (st, bufs, d')"
    "c' = c\<lparr>device_buffers := bufs\<rparr>"
    using assms(2,3) by (auto simp: Context_Enable_all split: prod.splits)
  from echo_memory.enable_all_holds [OF e(1) assms(4-6)]
  have l: "list_all2 (\<lambda>db (t, m, b). db_host_address db = raw_buffer b
      \<and> echo_holds d' (db_device_address db) (content b)) bufs (queued_buffers c)" by auto
  then have "length bufs = num_buffers c"
    using length_queued_buffers [OF assms(1)] by (simp add: list_all2_lengthD)
  then show ?thesis
    using l by (auto simp: e(2) list_all2_conv_all_nth split: prod.splits)
qed

text \<open>An allocator that has one block, at 4096.\<close>

definition toy_memalign :: "host_memory \<Rightarrow> nat \<Rightarrow> nat \<Rightarrow> (u64 \<times> u8 list) option" where
  "toy_memalign mem al n =
    (if al = 4096 \<and> n \<le> 4096 \<and> (\<forall>i<n. mem (4096 + of_nat i) = None) then Some (4096, replicate n 0) else None)"

lemma fresh_block_iff: "n \<le> 2 ^ 64 \<Longrightarrow> fresh_block mem a n \<longleftrightarrow> (\<forall>i<n. mem (a + of_nat i) = None)"
proof
  assume "n \<le> 2 ^ 64" "fresh_block mem a n"
  then show "\<forall>i<n. mem (a + of_nat i) = None" by (auto simp: fresh_block_def)
next
  assume n: "n \<le> 2 ^ 64" and *: "\<forall>i<n. mem (a + of_nat i) = None"
  have "mem x = None" if "unat (x - a) < n" for x
    using * that by (metis diff_add_cancel add.commute of_nat_unat ucast_id)
  then show "fresh_block mem a n" using n by (simp add: fresh_block_def)
qed

lemma toy_memalign_ok: "memalign_ok toy_memalign"
  by (auto simp: memalign_ok_def toy_memalign_def fresh_block_iff split: if_splits)

definition example_echo :: echo where
  "example_echo = \<lparr>e_mem = put_bytes (\<lambda>_. None) 64 [3, 5], e_blocks = [], e_quiet = 1, e_memalign = toy_memalign\<rparr>"

definition example_queue :: ctx where
  "example_queue = \<lparr>ctx_reg_offset = 0,
     host_batches = [\<lparr>rb_schema = \<lparr>schema_fields = [], schema_metadata = None\<rparr>, rb_num_rows = 2, rb_columns = []\<rparr>],
     host_batch_desc = [\<lparr>bd_name = [], bd_rows = 2, bd_fields = [\<lparr>fm_type = FIXED INT8, fm_length = 2,
       fm_null_count = 0, fm_buffers = [mk_buffer 64 2 [''values''] 0 False]\<rparr>], bd_mode = READ, bd_virtual = False\<rparr>],
     host_batch_memtype = [MEM_CACHE], device_buffers = []\<rparr>"

lemma example_echo_run:
  "Context_Enable echo_api example_queue (Inr example_echo) =
    (Status_OK, example_queue\<lparr>device_buffers := [(DeviceBuffer_new 64 2 MEM_CACHE READ)
        \<lparr>db_device_address := 4096, db_was_alloced := True\<rparr>]\<rparr>,
     Inr (example_echo\<lparr>e_mem := put_bytes (e_mem example_echo) 4096 [3, 5], e_blocks := [(4096, 2)]\<rparr>))"
proof -
  have "toy_memalign (put_bytes (\<lambda>_. None) 64 [3, 5]) FLETCHER_ECHO_ALIGNMENT 2 = Some (4096, [0, 0])"
  proof -
    have "replicate 2 (0::u8) = [0, 0]" by (simp add: numeral_2_eq_2)
    then show ?thesis
      by (simp add: toy_memalign_def FLETCHER_ECHO_ALIGNMENT_def put_bytes_def all_less_2)
  qed
  then have m: "echo_DeviceMalloc 0 2 example_echo = (0, 4096,
      example_echo\<lparr>e_mem := put_bytes (e_mem example_echo) 4096 [0, 0], e_blocks := [(4096, 2)]\<rparr>)"
    by (simp add: echo_DeviceMalloc_def example_echo_def status_codes)
  have r: "read_host (put_bytes (put_bytes (\<lambda>_. None) 64 [3, 5]) 4096 [0, 0]) 64 2 = Inr [3, 5]"
    by (simp add: read_host_iff put_bytes_def Let_def all_less_2)
  have w: "write_host (put_bytes (put_bytes (\<lambda>_. None) 64 [3, 5]) 4096 [0, 0]) 4096 [3, 5]
      = Inr (put_bytes (put_bytes (\<lambda>_. None) 64 [3, 5]) 4096 [3, 5])"
    by (subst write_host_iff) (simp add: put_put_same, simp add: put_bytes_def Let_def all_less_2)
  have "echo_CacheHostBuffer 64 0 2 example_echo = Inr (0, 4096,
      example_echo\<lparr>e_mem := put_bytes (e_mem example_echo) 4096 [3, 5], e_blocks := [(4096, 2)]\<rparr>)"
    using m r w by (simp add: echo_CacheHostBuffer_def echo_CopyHostToDevice_def echo_copy_def status_codes
        example_echo_def)
  then show ?thesis
    by (simp add: Context_Enable_def example_queue_def mk_buffer_def enable_buffer_def CacheHostBuffer_def
        echo_api_def DeviceBuffer_new_def DeviceBuffer_default_def D_NULLPTR_def mk_status_def Status_OK_def
        status_ok_def status_codes)
qed

lemma enable_on_echo_witness:
  "\<exists>c' d'. Context_Enable echo_api example_queue (Inr example_echo) = (Status_OK, c', d')
    \<and> length (device_buffers c') = 1
    \<and> echo_holds d' (db_device_address (device_buffers c' ! 0)) [3, 5]"
proof -
  have q: "queued_buffers example_queue = [(MEM_CACHE, READ, mk_buffer 64 2 [''values''] 0 False)]"
    by (simp add: queued_buffers_def example_queue_def desc_buffers_def)
  have wf: "ctx_wf example_queue" "device_buffers example_queue = []" "num_buffers example_queue = 1"
    by (simp_all add: ctx_wf_def example_queue_def num_buffers_def)
  have good: "echo_good (Inr (example_echo\<lparr>e_mem := put_bytes (e_mem example_echo) 4096 [3, 5], e_blocks := [(4096, 2)]\<rparr>))"
    by (simp add: echo_good_def example_echo_def toy_memalign_ok put_bytes_def Let_def)
  have host: "echo_host (Inr example_echo) 64 2 = Some [3, 5]"
    by (simp add: echo_host_iff example_echo_def read_host_iff put_bytes_def Let_def all_less_2)
  show ?thesis
    using enable_on_echo [OF wf(1,2) example_echo_run _ good, of "\<lambda>_. [3, 5]"] example_echo_run
    by (simp add: q wf(3) host mk_buffer_def byte_count_ok_def)
qed

text \<open>The name buffer of the echo platform overflows when it is exactly as long as the name: the copy
  takes one byte more than the buffer has. Larger buffers get the name and its terminator, smaller ones of
  at least one byte a name cut to fit with a terminator.\<close>

theorem echo_name_buffer:
  "echo_GetName sz =
    (if sz = 0 \<or> sz = 4 then Inl Undefined
     else if sz < 4 then Inr (0, take (sz - 1) ''echo'' @ [CHR 0x00])
     else Inr (0, ''echo'' @ [CHR 0x00]))"
  by (simp add: echo_GetName_def FLETCHER_PLATFORM_NAME_def FLETCHER_STATUS_OK_def Let_def)

end
