(* ===== verification/Mmio.thy ===== *)
theory Mmio
  imports Cxx_Text Layout
begin

text \<open>
  The registers of the generated hardware, \<^verbatim>\<open>fletchgen/mmio.h\<close> and \<^verbatim>\<open>mmio.cc\<close>: their
  description, the assignment of addresses and the configuration file for the vhdmmio tool.
  The vector of pointers to register vectors is a list of lists that is returned with the
  addresses filled in; the pointers are to different vectors. The ports of the mmio component
  are in \<^theory_text>\<open>Netlist\<close>; here are their names and directions.
\<close>

section \<open>Registers\<close>

datatype mmio_function = F_DEFAULT | F_BATCH | F_BUFFER | F_KERNEL | F_PROFILE

datatype mmio_behavior = CONTROL | STATUS | STROBE

record mmio_reg =
  mr_function :: mmio_function
  mr_behavior :: mmio_behavior
  mr_name :: string
  mr_desc :: string
  mr_width :: u32
  mr_index :: u32
  mr_addr :: "u32 option"
  mr_init :: "u64 option"
  mr_meta :: "(string \<times> string) list"

definition mmio_reg_new ::
    "mmio_function \<Rightarrow> mmio_behavior \<Rightarrow> string \<Rightarrow> string \<Rightarrow> u32 \<Rightarrow> u32 \<Rightarrow> u32 option \<Rightarrow> u64 option \<Rightarrow> mmio_reg" where
  "mmio_reg_new fn bh name desc width idx addr init =
    \<lparr>mr_function = fn, mr_behavior = bh, mr_name = name, mr_desc = desc, mr_width = width,
     mr_index = idx, mr_addr = addr, mr_init = init, mr_meta = []\<rparr>"

definition mmio_reg_default :: mmio_reg where
  "mmio_reg_default = mmio_reg_new F_DEFAULT CONTROL [] [] 1 0 None None"

fun behavior_ToString :: "mmio_behavior \<Rightarrow> string" where
  "behavior_ToString STATUS = ''status''"
| "behavior_ToString STROBE = ''strobe''"
| "behavior_ToString CONTROL = ''control''"

datatype port_dir = DIR_IN | DIR_OUT

fun ToDir :: "mmio_behavior \<Rightarrow> port_dir" where
  "ToDir STATUS = DIR_IN"
| "ToDir STROBE = DIR_OUT"
| "ToDir CONTROL = DIR_OUT"

text \<open>The name of the port that the mmio component gets for a register.\<close>

definition mmio_port_name :: "mmio_reg \<Rightarrow> string" where
  "mmio_port_name reg = ''f_'' @ mr_name reg @
    ((if ToDir (mr_behavior reg) = DIR_IN then ''_write'' else '''') @ ''_data'')"

fun ExposeToKernel :: "mmio_function \<Rightarrow> bool" where
  "ExposeToKernel F_DEFAULT = True"
| "ExposeToKernel F_KERNEL = True"
| "ExposeToKernel F_BATCH = True"
| "ExposeToKernel F_BUFFER = False"
| "ExposeToKernel F_PROFILE = False"

section \<open>Addresses and the configuration file\<close>

definition AddrSpaceUsed :: "u32 \<Rightarrow> u64" where
  "AddrSpaceUsed width = ucast (4 * (width div 32 + of_bool (width mod 32 \<noteq> 0)))"

definition endl :: string where
  "endl = [newline]"

definition yaml_header :: string where
  "yaml_header =
    ''metadata:'' @ endl @
    ''  name: mmio'' @ endl @
    ''  doc: Fletchgen generated MMIO configuration.'' @ endl @
    ''  '' @ endl @
    ''entity:'' @ endl @
    ''  bus-flatten:  yes'' @ endl @
    ''  bus-prefix:   mmio_'' @ endl @
    ''  clock-name:   kcd_clk'' @ endl @
    ''  reset-name:   kcd_reset'' @ endl @
    endl @
    ''features:'' @ endl @
    ''  bus-width:    32'' @ endl @
    ''  optimize:     yes'' @ endl @
    endl @
    ''interface:'' @ endl @
    ''  flatten:      yes'' @ endl @
    endl @
    ''fields: '' @ endl"

text \<open>The lines of a register after the one with its address.\<close>

definition yaml_reg_lines :: "mmio_reg \<Rightarrow> string" where
  "yaml_reg_lines r =
    ''    name: '' @ mr_name r @ endl @
    (if mr_desc r \<noteq> [] then ''    doc: '' @ mr_desc r @ endl else []) @
    (if 1 < mr_width r
     then ''    bitrange: '' @ show_nat (unat (mr_index r + mr_width r - 1)) @ ''..'' @
          show_nat (unat (mr_index r)) @ endl
     else ''    bitrange: '' @ show_nat (unat (mr_index r)) @ endl) @
    ''    behavior: '' @ behavior_ToString (mr_behavior r) @ endl @
    endl"

text \<open>One register: the text, the register with its address, the next free address.\<close>

definition yaml_reg :: "u64 \<Rightarrow> mmio_reg \<Rightarrow> string \<times> mmio_reg \<times> u64" where
  "yaml_reg next_free_addr r =
    (case mr_addr r of
       Some addr \<Rightarrow> (''  - address: '' @ show_nat (unat addr) @ endl @ yaml_reg_lines r, r,
                     ucast addr + AddrSpaceUsed (mr_width r))
     | None \<Rightarrow> (''  - address: '' @ show_nat (unat next_free_addr) @ endl @ yaml_reg_lines r,
                r\<lparr>mr_addr := Some (ucast next_free_addr)\<rparr>,
                next_free_addr + AddrSpaceUsed (mr_width r)))"

fun yaml_sub :: "u64 \<Rightarrow> mmio_reg list \<Rightarrow> string \<times> mmio_reg list \<times> u64" where
  "yaml_sub next_free_addr [] = ([], [], next_free_addr)"
| "yaml_sub next_free_addr (r # rs) =
    (let (s, r', next1) = yaml_reg next_free_addr r; (ss, rs', next2) = yaml_sub next1 rs
     in (s @ ss, r' # rs', next2))"

fun yaml_all :: "u64 \<Rightarrow> mmio_reg list list \<Rightarrow> string \<times> mmio_reg list list \<times> u64" where
  "yaml_all next_free_addr [] = ([], [], next_free_addr)"
| "yaml_all next_free_addr (sub # subs) =
    (let (s, sub', next1) = yaml_sub next_free_addr sub; (ss, subs', next2) = yaml_all next1 subs
     in (s @ ss, sub' # subs', next2))"

text \<open>The text, the registers with their addresses, and what \<^verbatim>\<open>next_addr\<close> is set to if it is given.\<close>

definition GenerateVhdmmioYaml :: "mmio_reg list list \<Rightarrow> string \<times> mmio_reg list list \<times> u64" where
  "GenerateVhdmmioYaml regs =
    (let (s, regs', next_free_addr) = yaml_all 0 regs in (yaml_header @ s, regs', next_free_addr))"

section \<open>The addresses\<close>

definition space_used :: "mmio_reg \<Rightarrow> nat" where
  "space_used r = 4 * ((unat (mr_width r) + 31) div 32)"

lemma div_up_32: "((n :: nat) + 31) div 32 = n div 32 + of_bool (n mod 32 \<noteq> 0)"
proof -
  have "n + 31 = 32 * (n div 32) + (n mod 32 + 31)" by simp
  then have "(n + 31) div 32 = n div 32 + (n mod 32 + 31) div 32"
    by (metis div_mult_self4 zero_neq_numeral)
  moreover have "(n mod 32 + 31) div 32 = of_bool (n mod 32 \<noteq> 0)"
  proof (cases "n mod 32 = 0")
    case False
    moreover have "n mod 32 < 32" by simp
    ultimately show ?thesis by (intro div_nat_eqI) auto
  qed simp
  ultimately show ?thesis by simp
qed

lemma AddrSpaceUsed_nat: "AddrSpaceUsed w = of_nat (4 * ((unat w + 31) div 32))"
proof -
  have w: "unat w < 4294967296" by (rule unat_lt_u32)
  note div_up_32 [of "unat w"]
  moreover have "(4 * (w div 32 + of_bool (w mod 32 \<noteq> 0)) :: u32) =
      of_nat (4 * (unat w div 32 + of_bool (unat w mod 32 \<noteq> 0)))"
    by (simp add: word_arith_nat_div word_unat_eq_iff unat_mod_distrib)
  moreover have "unat (of_nat (4 * (unat w div 32 + of_bool (unat w mod 32 \<noteq> 0))) :: u32)
      = 4 * (unat w div 32 + of_bool (unat w mod 32 \<noteq> 0))"
    using w by (intro unat_of_nat_small) (auto simp: of_bool_def)
  ultimately show ?thesis
    unfolding AddrSpaceUsed_def by (metis of_nat_unat)
qed

definition fresh_reg :: "mmio_reg \<Rightarrow> bool" where
  "fresh_reg r \<longleftrightarrow> mr_addr r = None \<and> 0 < mr_width r"

definition reg_addresses :: "mmio_reg list \<Rightarrow> nat list" where
  "reg_addresses rs = map (\<lambda>r. unat (the (mr_addr r))) rs"

lemma space_used_pos: "fresh_reg r \<Longrightarrow> 0 < space_used r"
  by (simp add: fresh_reg_def space_used_def word_less_nat_alt div_greater_zero_iff)

lemma yaml_reg_fresh:
  assumes "fresh_reg r" "a < 2 ^ 32"
  shows "yaml_reg (of_nat a) r = (''  - address: '' @ show_nat a @ endl @ yaml_reg_lines r,
    r\<lparr>mr_addr := Some (of_nat a)\<rparr>, of_nat (a + space_used r))"
proof -
  have "unat (of_nat a :: u64) = a" using assms(2) by (intro unat_of_nat_small) simp
  moreover have "(ucast (of_nat a :: u64) :: u32) = of_nat a"
    by (metis calculation of_nat_unat)
  ultimately show ?thesis
    using assms(1) by (simp add: yaml_reg_def fresh_reg_def AddrSpaceUsed_nat space_used_def)
qed

interpretation mmio_layout: strict_layout space_used fresh_reg "2 ^ 32"
  "\<lambda>a rs. reg_addresses (fst (snd (yaml_sub (of_nat a) rs)))"
proof
  fix a :: nat and x xs
  assume "fresh_reg x" "a + space_used x \<le> 2 ^ 32"
  then have "a < 2 ^ 32" using space_used_pos by fastforce
  then show "reg_addresses (fst (snd (yaml_sub (of_nat a) (x # xs)))) =
      a # reg_addresses (fst (snd (yaml_sub (of_nat (a + space_used x)) xs)))"
    using yaml_reg_fresh [OF \<open>fresh_reg x\<close> \<open>a < 2 ^ 32\<close>]
    by (simp add: Let_def split_beta reg_addresses_def del: of_nat_add)
qed (simp_all add: reg_addresses_def space_used_pos)

lemma yaml_sub_next:
  assumes "\<forall>r\<in>set rs. fresh_reg r" "a + mmio_layout.total rs \<le> 2 ^ 32"
  shows "snd (snd (yaml_sub (of_nat a) rs)) = of_nat (a + mmio_layout.total rs)"
  using assms
proof (induction rs arbitrary: a)
  case (Cons r rs)
  have "a < 2 ^ 32" using Cons.prems space_used_pos [of r] by simp
  then show ?case
    using Cons.prems Cons.IH [of "a + space_used r"] yaml_reg_fresh [of r a]
    by (simp add: Let_def split_beta add.assoc del: of_nat_add)
qed simp

end
