(* ===== verification/Arrays.thy ===== *)
theory Arrays
  imports Batch_Desc Mmio
begin

text \<open>
  What fletchgen hands to Cerata for an Array(Reader/Writer): the types of
  \<^verbatim>\<open>fletchgen/src/fletchgen/basic_types.cc\<close> and the functions of \<^verbatim>\<open>array.cc\<close> that turn an Arrow
  field into a configuration string, a stream type for the kernel and the widths of the data
  port. Cerata is not part of the repository: a type is the term of the calls that build it. The
  bit width that Arrow gives to a type and the text of a Cerata node are the parameters \<open>lib\<close>.
\<close>

section \<open>Hardware types\<close>

datatype hw_width = Bits int | Text_node string | Node_times hw_width nat | Node_div hw_width nat

datatype hw_type =
    Hw_bit "string option" "(string \<times> string) list"
  | Hw_vector "string option" hw_width "(string \<times> string) list"
  | Hw_record "string option" "hw_field list"
  | Hw_stream "string list" hw_type "hw_field list"
  and hw_field = Hw_field "string option" hw_type bool

record array_lib =
  bit_width :: "arrow_type \<Rightarrow> u32 option"
  node_string :: "hw_width \<Rightarrow> string"

abbreviation named :: "string \<Rightarrow> hw_type \<Rightarrow> hw_field" where
  "named n t \<equiv> Hw_field (Some n) t False"

abbreviation unnamed :: "hw_type \<Rightarrow> hw_field" where
  "unnamed t \<equiv> Hw_field None t False"

definition meta_ARRAY_DATA :: string where "meta_ARRAY_DATA = ''fletchgen_array_data''"
definition meta_COUNT :: string where "meta_COUNT = ''fletchgen_count''"
definition meta_LAST :: string where "meta_LAST = ''fletchgen_last''"

definition validity_type :: hw_type where "validity_type = Hw_bit None []"

definition cr_type :: hw_type where
  "cr_type = Hw_record (Some ''cr'') [named ''clk'' (Hw_bit None []), named ''reset'' (Hw_bit None [])]"

definition valid_type :: "int \<Rightarrow> bool \<Rightarrow> hw_type" where
  "valid_type width on_primitive =
    (if width > 1 \<or> on_primitive then Hw_vector (Some ''valid'') (Bits width) [] else Hw_bit (Some ''valid'') [])"

definition ready_type :: "int \<Rightarrow> bool \<Rightarrow> hw_type" where
  "ready_type width on_primitive =
    (if width > 1 \<or> on_primitive then Hw_vector (Some ''ready'') (Bits width) [] else Hw_bit (Some ''ready'') [])"

definition data_type :: "int \<Rightarrow> hw_type" where
  "data_type width = Hw_vector (Some ''data'') (Bits width) [(meta_ARRAY_DATA, ''true'')]"

definition length_type :: "int \<Rightarrow> hw_type" where
  "length_type width = Hw_vector (Some ''length'') (Bits width) [(meta_ARRAY_DATA, ''true'')]"

definition count_type :: "int \<Rightarrow> hw_type" where
  "count_type width = Hw_vector None (Bits width) [(meta_ARRAY_DATA, ''true''), (meta_COUNT, show_int width)]"

definition dvalid_type :: "int \<Rightarrow> bool \<Rightarrow> hw_type" where
  "dvalid_type width on_primitive =
    (if width > 1 \<or> on_primitive then Hw_vector (Some ''dvalid'') (Bits width) [] else Hw_bit (Some ''dvalid'') [])"

definition last_type :: "int \<Rightarrow> bool \<Rightarrow> hw_type" where
  "last_type width on_primitive =
    (if width > 1 \<or> on_primitive then Hw_vector (Some ''last'') (Bits width) [(meta_LAST, ''true'')]
     else Hw_bit (Some ''last'') [(meta_LAST, ''true'')])"

text \<open>Arithmetic on \<^verbatim>\<open>int\<close>: a result that does not fit is undefined.\<close>

definition fits_int :: "int \<Rightarrow> int res" where
  "fits_int i = (if - (2 ^ 31) \<le> i \<and> i < 2 ^ 31 then Inr i else Inl Undefined)"

definition ConvertFixedWidthType :: "array_lib \<Rightarrow> arrow_type \<Rightarrow> int \<Rightarrow> hw_type res" where
  "ConvertFixedWidthType lib arrow_type epc =
    (let vec = (\<lambda>n w. Inr (Hw_vector (Some n) (Bits w) [])) in
     if epc = 1 then
       (case arrow_type of
          FIXED UINT8 \<Rightarrow> vec ''uint8'' 8
        | FIXED UINT16 \<Rightarrow> vec ''uint16'' 16
        | FIXED UINT32 \<Rightarrow> vec ''uint32'' 32
        | FIXED UINT64 \<Rightarrow> vec ''uint64'' 64
        | FIXED INT8 \<Rightarrow> vec ''int8'' 8
        | FIXED INT16 \<Rightarrow> vec ''int16'' 16
        | FIXED INT32 \<Rightarrow> vec ''int32'' 32
        | FIXED INT64 \<Rightarrow> vec ''int64'' 64
        | FIXED HALF_FLOAT \<Rightarrow> vec ''float16'' 16
        | FIXED FLOAT \<Rightarrow> vec ''float32'' 32
        | FIXED DOUBLE \<Rightarrow> vec ''float64'' 64
        | _ \<Rightarrow> Inl Runtime_error)
     else
       (case bit_width lib arrow_type of
          None \<Rightarrow> Inl Exited
        | Some w \<Rightarrow> res_bind (fits_int (epc * sint w)) (\<lambda>n. Inr (Hw_vector None (Bits n) []))))"

section \<open>Command, unlock and data ports of the component\<close>

definition GetCtrlBufferCount :: "arrow_field \<Rightarrow> nat res" where
  "GetCtrlBufferCount f = res_bind (FieldAnalyzer_Analyze [] f) (\<lambda>m. Inr (length (fm_buffers m)))"

definition GetTagWidth :: "arrow_field \<Rightarrow> u32 res" where
  "GetTagWidth f = res_bind (GetUIntMeta f meta_TAG_WIDTH 1) (\<lambda>v. Inr (ucast v))"

text \<open>\<^verbatim>\<open>stream(data)\<close> has neither a name nor a name for its element. The field with the control vector
  is inserted at position 2.\<close>

definition cmd_type :: "hw_width \<Rightarrow> hw_width \<Rightarrow> hw_width option \<Rightarrow> hw_type" where
  "cmd_type index_width tag_width ctrl_width =
    (let fields = [named ''firstIdx'' (Hw_vector None index_width []), named ''lastIdx'' (Hw_vector None index_width []),
                   named ''tag'' (Hw_vector None tag_width [])];
         fields' = (case ctrl_width of None \<Rightarrow> fields
           | Some w \<Rightarrow> take 2 fields @ [unnamed (Hw_vector (Some ''ctrl'') w [])] @ drop 2 fields)
     in Hw_stream [] (Hw_record None fields') [])"

definition unlock_type :: "hw_width \<Rightarrow> hw_type" where
  "unlock_type tag_width = Hw_stream [''tag''] (Hw_vector None tag_width []) []"

text \<open>The arguments are cut to \<^verbatim>\<open>int\<close> where the types are made.\<close>

definition array_port :: "string \<Rightarrow> u32 \<Rightarrow> u32 \<Rightarrow> hw_type" where
  "array_port nm num_streams full_width =
    Hw_stream [nm, '''']
      (Hw_record None [unnamed (data_type (sint full_width)), unnamed (dvalid_type (sint num_streams) True),
         unnamed (last_type (sint num_streams) True)])
      [named ''valid'' (Hw_vector None (Bits (uint num_streams)) []),
       Hw_field (Some ''ready'') (Hw_vector None (Bits (uint num_streams)) []) True]"

definition array_reader_out :: "u32 \<times> u32 \<Rightarrow> hw_type" where
  "array_reader_out spec = array_port ''ar_out'' (fst spec) (snd spec)"

definition array_writer_in :: "u32 \<times> u32 \<Rightarrow> hw_type" where
  "array_writer_in spec = array_port ''aw_in'' (fst spec) (snd spec)"

definition ArrayName :: "mode \<Rightarrow> string" where
  "ArrayName md = (if md = READ then ''ArrayReader'' else ''ArrayWriter'')"

definition DataName :: "mode \<Rightarrow> string" where
  "DataName md = (if md = READ then ''out'' else ''in'')"

section \<open>Configuration strings\<close>

datatype config_type = ARB | NUL | CT_PRIM | CT_LIST | LIST_PRIM | CT_STRUCT

definition GetConfigType :: "arrow_type \<Rightarrow> config_type" where
  "GetConfigType t = (case t of
      LIST _ \<Rightarrow> CT_LIST
    | BINARY \<Rightarrow> LIST_PRIM
    | STRING \<Rightarrow> LIST_PRIM
    | STRUCT _ \<Rightarrow> CT_STRUCT
    | _ \<Rightarrow> CT_PRIM)"

text \<open>A type of fixed-size binary or decimal values has a bit width.\<close>

definition GetWidth :: "array_lib \<Rightarrow> arrow_type \<Rightarrow> hw_width res" where
  "GetWidth lib t =
    (let own_width = (case bit_width lib t of Some w \<Rightarrow> Inr (Bits (sint w)) | None \<Rightarrow> Inl Undefined) in
     case t of
      BOOL \<Rightarrow> Inr (Bits 1)
    | FIXED k \<Rightarrow> (case k of
        DATE32 \<Rightarrow> Inr (Bits 32) | DATE64 \<Rightarrow> Inr (Bits 64) | DOUBLE \<Rightarrow> Inr (Bits 64) | FLOAT \<Rightarrow> Inr (Bits 32)
      | HALF_FLOAT \<Rightarrow> Inr (Bits 16) | INT8 \<Rightarrow> Inr (Bits 8) | INT16 \<Rightarrow> Inr (Bits 16) | INT32 \<Rightarrow> Inr (Bits 32)
      | INT64 \<Rightarrow> Inr (Bits 64) | TIME32 \<Rightarrow> Inr (Bits 32) | TIME64 \<Rightarrow> Inr (Bits 64) | TIMESTAMP \<Rightarrow> Inr (Bits 64)
      | UINT8 \<Rightarrow> Inr (Bits 8) | UINT16 \<Rightarrow> Inr (Bits 16) | UINT32 \<Rightarrow> Inr (Bits 32) | UINT64 \<Rightarrow> Inr (Bits 64)
      | FIXED_SIZE_BINARY _ \<Rightarrow> own_width | DECIMAL128 \<Rightarrow> own_width)
    | LIST _ \<Rightarrow> Inr (Text_node ''OFFSET_WIDTH'')
    | BINARY \<Rightarrow> Inr (Text_node ''OFFSET_WIDTH'')
    | STRING \<Rightarrow> Inr (Text_node ''OFFSET_WIDTH'')
    | STRUCT _ \<Rightarrow> Inr (Bits 0)
    | OTHER _ \<Rightarrow> Inl Domain_error)"

definition int_meta :: "arrow_field \<Rightarrow> string \<Rightarrow> int res" where
  "int_meta f key = res_bind (GetUIntMeta f key 1) (\<lambda>v. Inr (sint (ucast v :: u32)))"

text \<open>What a field opens with, by its kind.\<close>

definition config_head :: "array_lib \<Rightarrow> arrow_type \<Rightarrow> string res" where
  "config_head lib t = (case GetConfigType t of
      CT_PRIM \<Rightarrow> res_bind (GetWidth lib t) (\<lambda>w. Inr (''prim('' @ node_string lib w))
    | LIST_PRIM \<Rightarrow> Inr ''listprim(8''
    | CT_LIST \<Rightarrow> (case type_children t of
        [] \<Rightarrow> Inl Undefined
      | c # _ \<Rightarrow> Inr (if GetConfigType (field_type c) = CT_PRIM then ''list'' else ''list(''))
    | CT_STRUCT \<Rightarrow> Inr ''struct(''
    | _ \<Rightarrow> Inr [])"

definition config_params :: "int \<Rightarrow> int \<Rightarrow> string" where
  "config_params epc lepc =
    (if epc > 1 \<or> lepc > 1 then '';'' else []) @
    (if epc > 1 then ''epc='' @ show_int epc @ (if lepc > 1 then '','' else []) else []) @
    (if lepc > 1 then ''lepc='' @ show_int epc else [])"

text \<open>Every kind of field opens one level, as \<^verbatim>\<open>null(\<close> does.\<close>

fun GenerateConfigString :: "array_lib \<Rightarrow> arrow_field \<Rightarrow> nat \<Rightarrow> string res"
  and config_children :: "array_lib \<Rightarrow> arrow_field list \<Rightarrow> string res" where
  "GenerateConfigString lib (Field n t nl md) level =
    (let f = Field n t nl md; level' = (if nl then Suc level else level) in
     res_bind (int_meta f meta_VALUE_EPC) (\<lambda>epc.
     res_bind (int_meta f meta_LIST_EPC) (\<lambda>lepc.
     res_bind (config_head lib t) (\<lambda>hd.
     res_bind (case t of LIST cs \<Rightarrow> config_children lib cs | STRUCT cs \<Rightarrow> config_children lib cs | _ \<Rightarrow> Inr []) (\<lambda>ch.
     Inr ((if nl then ''null('' else []) @ hd @ config_params epc lepc @ ch @ replicate (Suc level') (CHR '')'')))))))"
| "config_children lib [] = Inr []"
| "config_children lib (c # cs) =
    res_bind (GenerateConfigString lib c 0) (\<lambda>s.
    res_bind (config_children lib cs) (\<lambda>rest.
    Inr (s @ (if cs \<noteq> [] then '','' else []) @ rest)))"

section \<open>Stream types\<close>

text \<open>\<^verbatim>\<open>ceil(log2(n))\<close>, exact for 32-bit numbers.\<close>

fun ceil_log2 :: "nat \<Rightarrow> nat" where
  "ceil_log2 n = (if n \<le> 1 then 0 else Suc (ceil_log2 ((n + 1) div 2)))"

declare ceil_log2.simps [simp del]

text \<open>The logarithm of a number that is not positive has no \<^verbatim>\<open>int\<close>, and neither has a sum that overflows.\<close>

definition count_width :: "int \<Rightarrow> int res" where
  "count_width epc = res_bind (fits_int (epc + 1)) (\<lambda>n. if n < 1 then Inl Undefined else Inr (int (ceil_log2 (nat n))))"

definition dvalid_last :: "hw_field list" where
  "dvalid_last = [named ''dvalid'' (dvalid_type 1 False), named ''last'' (last_type 1 False)]"

definition anonymous_stream :: "hw_field list \<Rightarrow> hw_type" where
  "anonymous_stream fs = Hw_stream [] (Hw_record None fs) []"

text \<open>The type of a binary or string field, whose byte stream is called \<open>bytes\<close> or \<open>chars\<close>.\<close>

definition text_type :: "string \<Rightarrow> int \<Rightarrow> int \<Rightarrow> int \<Rightarrow> int \<Rightarrow> hw_type res" where
  "text_type nm epc lepc e_count_width l_count_width =
    res_bind (fits_int (epc * 8)) (\<lambda>data_width.
    res_bind (fits_int (lepc * 32)) (\<lambda>length_width.
    Inr (Hw_record None
      [named [] (anonymous_stream (dvalid_last @
         [named ''length'' (length_type length_width), named ''count'' (count_type l_count_width)])),
       named nm (anonymous_stream (dvalid_last @
         [named [] (data_type data_width), named ''count'' (count_type e_count_width)]))])))"

text \<open>The end of the function: a field at the top becomes a stream.\<close>

definition top_stream :: "nat \<Rightarrow> bool \<Rightarrow> int \<Rightarrow> int \<Rightarrow> hw_type \<Rightarrow> hw_type" where
  "top_stream level nullable epc e_count_width t =
    (if level = 0
     then anonymous_stream (dvalid_last @ (if nullable then [named ''validity'' validity_type] else []) @ [named [] t] @
       (if epc > 1 then [named ''count'' (count_type e_count_width)] else []))
     else t)"

definition list_type :: "string \<Rightarrow> hw_type \<Rightarrow> int \<Rightarrow> hw_type" where
  "list_type child_name element_type e_count_width =
    Hw_record None [named ''length'' (length_type 32),
      named child_name (anonymous_stream (dvalid_last @
        [named ''data'' element_type, named ''count'' (count_type e_count_width)]))]"

fun GetStreamType :: "array_lib \<Rightarrow> arrow_field \<Rightarrow> mode \<Rightarrow> nat \<Rightarrow> hw_type res"
  and stream_children :: "array_lib \<Rightarrow> arrow_field list \<Rightarrow> mode \<Rightarrow> nat \<Rightarrow> hw_field list res" where
  "GetStreamType lib (Field n t nl md) mo level =
    (let f = Field n t nl md in
     res_bind (int_meta f meta_VALUE_EPC) (\<lambda>epc.
     res_bind (int_meta f meta_LIST_EPC) (\<lambda>lepc.
     res_bind (count_width epc) (\<lambda>e_count_width.
     res_bind (count_width lepc) (\<lambda>l_count_width.
     case t of
       BINARY \<Rightarrow> text_type ''bytes'' epc lepc e_count_width l_count_width
     | STRING \<Rightarrow> text_type ''chars'' epc lepc e_count_width l_count_width
     | LIST cs \<Rightarrow> (case cs of
         [c] \<Rightarrow> if epc > 1 then Inl Exited
                else res_bind (GetStreamType lib c mo (Suc level)) (\<lambda>element_type.
                  Inr (top_stream level nl epc l_count_width (list_type (field_name c) element_type e_count_width)))
       | _ \<Rightarrow> Inl Exited)
     | STRUCT cs \<Rightarrow> if cs = [] then Inl Exited
         else res_bind (stream_children lib cs mo (Suc level)) (\<lambda>children.
           Inr (top_stream level nl epc e_count_width (Hw_record (Some (n @ ''_rec'')) children)))
     | _ \<Rightarrow> res_bind (ConvertFixedWidthType lib t epc) (\<lambda>ty. Inr (top_stream level nl epc e_count_width ty)))))))"
| "stream_children lib [] mo level = Inr []"
| "stream_children lib (c # cs) mo level =
    res_bind (GetStreamType lib c mo level) (\<lambda>ty.
    res_bind (stream_children lib cs mo level) (\<lambda>rest. Inr (named (field_name c) ty # rest)))"

section \<open>The data port\<close>

text \<open>Here the numbers of elements are unsigned. The sums over the members of a struct are kept in \<^verbatim>\<open>int\<close>, which has
  the same bits.\<close>

definition uint_meta :: "arrow_field \<Rightarrow> string \<Rightarrow> u32 res" where
  "uint_meta f key = res_bind (GetUIntMeta f key 1) (\<lambda>v. Inr (ucast v))"

definition count_width_u :: "u32 \<Rightarrow> u32 res" where
  "count_width_u epc = (let n = unat (epc + 1) in if n = 0 then Inl Undefined else Inr (of_nat (ceil_log2 n)))"

fun GetArrayDataSpec :: "array_lib \<Rightarrow> arrow_field \<Rightarrow> (u32 \<times> u32) res"
  and sum_specs :: "array_lib \<Rightarrow> arrow_field list \<Rightarrow> u32 \<times> u32 \<Rightarrow> (u32 \<times> u32) res" where
  "GetArrayDataSpec lib (Field n t nl md) =
    (let f = Field n t nl md; validity_bit = of_bool nl in
     res_bind (uint_meta f meta_VALUE_EPC) (\<lambda>epc.
     res_bind (uint_meta f meta_LIST_EPC) (\<lambda>lepc.
     res_bind (count_width_u epc) (\<lambda>e_count_width.
     res_bind (count_width_u lepc) (\<lambda>l_count_width.
     case t of
       BINARY \<Rightarrow> Inr (2, e_count_width + l_count_width + epc * 8 + lepc * 32 + validity_bit)
     | STRING \<Rightarrow> Inr (2, e_count_width + l_count_width + epc * 8 + lepc * 32 + validity_bit)
     | LIST cs \<Rightarrow> (case cs of
         [c] \<Rightarrow> if epc > 1 \<or> lepc > 1 then Inl Exited
                else res_bind (GetArrayDataSpec lib c) (\<lambda>elem_spec.
                  Inr (fst elem_spec + 1, snd elem_spec + 32 + validity_bit))
       | _ \<Rightarrow> Inl Exited)
     | STRUCT cs \<Rightarrow> if epc > 1 \<or> lepc > 1 \<or> cs = [] then Inl Exited else sum_specs lib cs (0, 0)
     | _ \<Rightarrow> (case bit_width lib t of
         None \<Rightarrow> Inl Exited
       | Some w \<Rightarrow> Inr (1, (if epc > 1 then e_count_width else 0) + epc * (w + validity_bit))))))))"
| "sum_specs lib [] spec = Inr spec"
| "sum_specs lib (c # cs) spec =
    res_bind (GetArrayDataSpec lib c) (\<lambda>child_spec.
    sum_specs lib cs (fst spec + fst child_spec, snd spec + snd child_spec))"

section \<open>Mapping the streams\<close>

text \<open>A type of the flattened stream: the valid and ready types of Cerata are known by their address, every other by its name.\<close>

datatype flat_type = Flat_record | Flat_valid | Flat_ready | Flat_other string

text \<open>The positions at which the flattened stream is connected to the other type.\<close>

definition mapper_target :: "flat_type \<Rightarrow> nat option" where
  "mapper_target t = (case t of
      Flat_record \<Rightarrow> None
    | Flat_valid \<Rightarrow> Some 1
    | Flat_ready \<Rightarrow> Some 2
    | Flat_other n \<Rightarrow> Some (if n = ''dvalid'' then 5 else if n = ''last'' then 6 else 4))"

definition GetStreamTypeMapper :: "flat_type list \<Rightarrow> (nat \<times> nat) list" where
  "GetStreamTypeMapper flat_stream =
    concat (map (\<lambda>i. case mapper_target (flat_stream ! i) of None \<Rightarrow> [] | Some j \<Rightarrow> [(i, j)]) [0..<length flat_stream])"

section \<open>The component\<close>

text \<open>A generic of a component with its default.\<close>

datatype hw_default = Int_default u64 | String_default string | Bool_default bool

definition param_factory :: "string \<Rightarrow> u64 \<Rightarrow> string \<Rightarrow> string \<times> hw_default" where
  "param_factory upper_name v prefix =
    ((if prefix \<noteq> [] then prefix @ ''_'' @ upper_name else upper_name), Int_default v)"

definition index_width :: "u64 \<Rightarrow> string \<Rightarrow> string \<times> hw_default" where
  "index_width = param_factory ''INDEX_WIDTH''"

definition tag_width :: "u64 \<Rightarrow> string \<Rightarrow> string \<times> hw_default" where
  "tag_width = param_factory ''TAG_WIDTH''"

datatype clock_domain = KCD | BCD

record hw_port =
  port_name :: string
  port_type :: hw_type
  port_direction :: port_dir
  port_domain :: clock_domain

text \<open>The ports of an Array(Reader/Writer) but the bus port, the first two being those of clock and reset.\<close>

definition array_ports :: "mode \<Rightarrow> hw_port list" where
  "array_ports md =
    (let iw = Text_node (fst (index_width 32 '''')); tw = Text_node ''CMD_TAG_WIDTH'' in
     [\<lparr>port_name = ''bcd'', port_type = cr_type, port_direction = DIR_IN, port_domain = BCD\<rparr>,
      \<lparr>port_name = ''kcd'', port_type = cr_type, port_direction = DIR_IN, port_domain = KCD\<rparr>,
      \<lparr>port_name = ''cmd'', port_type = cmd_type iw tw (Some (Text_node ''arcfg_ctrlWidth(CFG, BUS_ADDR_WIDTH)'')),
        port_direction = DIR_IN, port_domain = KCD\<rparr>,
      \<lparr>port_name = ''unl'', port_type = unlock_type tw, port_direction = DIR_OUT, port_domain = KCD\<rparr>,
      \<lparr>port_name = DataName md,
        port_type = (if md = READ then array_reader_out (0, 0) else array_writer_in (0, 0)),
        port_direction = (if md = READ then DIR_OUT else DIR_IN), port_domain = KCD\<rparr>])"

definition array_generics :: "(string \<times> hw_default) list" where
  "array_generics = [index_width 32 '''', (''CFG'', String_default ''''), (''CMD_TAG_ENABLE'', Bool_default True),
     (''CMD_TAG_WIDTH'', snd (tag_width 1 ''''))]"

end
