(* ===== verification/Array_Config.thy ===== *)
theory Array_Config
  imports Arrays
begin

text \<open>
  How the hardware reads the configuration strings that \<^verbatim>\<open>array.cc\<close> writes:
  \<^verbatim>\<open>fletcher/hardware/arrays/ArrayConfigParse_pkg.vhd\<close> and \<^verbatim>\<open>ArrayConfig_pkg.vhd\<close>, whose
  functions give the widths of the ports of an Array(Reader/Writer). Positions in a string start at 1, a
  report of severity FAILURE is None, and \<^verbatim>\<open>log2ceil\<close>, which is not part of the repository, is a
  parameter. The two sides are compared on the configurations that a field can be given.
\<close>

section \<open>Parsing\<close>

definition isAlphaNumeric :: "char \<Rightarrow> bool" where
  "isAlphaNumeric c = (c \<in> set ''abcdefghijklmnopqrstuvwxyzABCDEFGHIJKLMNOPQRSTUVWXYZ0123456789'')"

definition digit_of :: "char \<Rightarrow> nat option" where
  "digit_of c = (if c \<in> set ''0123456789'' then Some (of_char c - 48) else None)"

fun strtoi_acc :: "string \<Rightarrow> nat \<Rightarrow> nat option" where
  "strtoi_acc [] res = Some res"
| "strtoi_acc (c # cs) res = (case digit_of c of None \<Rightarrow> None | Some d \<Rightarrow> strtoi_acc cs (res * 10 + d))"

definition strtoi :: "string \<Rightarrow> nat option" where
  "strtoi str = strtoi_acc str 0"

fun name_rest :: "string \<Rightarrow> string option" where
  "name_rest [] = None"
| "name_rest (c # cs) =
    (if c = CHR ''('' then Some [] else if \<not> isAlphaNumeric c then None else map_option (Cons c) (name_rest cs))"

fun parse_command :: "string \<Rightarrow> string option" where
  "parse_command [] = None"
| "parse_command (c # cs) = (if \<not> isAlphaNumeric c then None else map_option (Cons c) (name_rest cs))"

text \<open>The loop over the characters from position \<open>i\<close> on; the result is \<open>curarg\<close>, \<open>start\<close> and \<open>stop\<close>.\<close>

fun arg_loop :: "nat \<Rightarrow> string \<Rightarrow> nat \<Rightarrow> nat \<Rightarrow> nat \<Rightarrow> nat \<Rightarrow> nat \<Rightarrow> (nat \<times> nat \<times> nat) option" where
  "arg_loop idx [] i curarg depth start stop = Some (curarg, start, stop)"
| "arg_loop idx (c # cs) i curarg depth start stop =
    (if c = CHR ''('' then arg_loop idx cs (i + 1) curarg (depth + 1) (if depth + 1 = 1 then i else start) stop
     else if c = CHR '')'' then
       (if depth = 0 then None
        else if depth = 1 then Some (curarg, start, i)
        else arg_loop idx cs (i + 1) curarg (depth - 1) start stop)
     else if depth = 1 \<and> c = CHR '';'' then Some (curarg, start, i)
     else if depth = 1 \<and> c = CHR '','' then
       (if curarg = idx then Some (curarg, start, i)
        else arg_loop idx cs (i + 1) (curarg + 1) depth i i)
     else arg_loop idx cs (i + 1) curarg depth start stop)"

definition slice :: "string \<Rightarrow> nat \<Rightarrow> nat \<Rightarrow> string" where
  "slice s lo hi = take (hi + 1 - lo) (drop (lo - 1) s)"

definition parse_arg :: "string \<Rightarrow> nat \<Rightarrow> string option" where
  "parse_arg cfg idx =
    (case arg_loop idx cfg 1 0 0 1 1 of
       None \<Rightarrow> None
     | Some (curarg, start, stop) \<Rightarrow>
         Some (if curarg \<noteq> idx \<or> start + 1 > stop - 1 then '' '' else slice cfg (start + 1) (stop - 1)))"

fun param_loop :: "string \<Rightarrow> string \<Rightarrow> string \<Rightarrow> string \<Rightarrow> nat \<Rightarrow> nat \<Rightarrow> bool \<Rightarrow> nat \<Rightarrow> string option" where
  "param_loop cfg param default_val [] i depth in_params start = (if depth \<noteq> 0 then None else Some default_val)"
| "param_loop cfg param default_val (c # cs) i depth in_params start =
    (if c = CHR ''('' then param_loop cfg param default_val cs (i + 1) (depth + 1) in_params start
     else if c = CHR '')'' then
       (if depth = 0 then None
        else if depth = 1 \<and> 0 < start then Some (slice cfg start (i - 1))
        else param_loop cfg param default_val cs (i + 1) (depth - 1) in_params start)
     else if depth = 1 \<and> c = CHR '','' \<and> 0 < start then Some (slice cfg start (i - 1))
     else if depth = 1 \<and> (c = CHR '';'' \<or> c = CHR '','' \<and> in_params) then
       param_loop cfg param default_val cs (i + 1) depth True
         (if i + length param + 1 \<le> length cfg \<and> slice cfg (i + 1) (i + length param + 1) = param @ ''=''
          then i + 1 + length param + 1 else start)
     else param_loop cfg param default_val cs (i + 1) depth in_params start)"

definition parse_param :: "string \<Rightarrow> string \<Rightarrow> nat \<Rightarrow> nat option" where
  "parse_param cfg param default_val =
    Option.bind (param_loop cfg param (show_nat default_val) cfg 1 0 False 0) strtoi"

section \<open>Port widths\<close>

lemma name_rest_shorter: "name_rest cs = Some n \<Longrightarrow> length n < length cs"
  by (induction cs arbitrary: n) (auto split: if_splits)

lemma parse_command_length: "parse_command cfg = Some cmd \<Longrightarrow> length cmd < length cfg \<and> 2 \<le> length cfg"
  by (cases cfg) (fastforce dest: name_rest_shorter split: if_splits)+

lemma arg_loop_start:
  "arg_loop idx cs i cur depth start stop = Some (c, st, sp) \<Longrightarrow> 0 < i \<Longrightarrow> 0 < start \<Longrightarrow> 0 < st"
  by (induction idx cs i cur depth start stop rule: arg_loop.induct) (auto split: if_splits)

lemma parse_arg_shorter:
  assumes "parse_command cfg = Some cmd" "parse_arg cfg idx = Some a"
  shows "length a < length cfg"
proof -
  have "2 \<le> length cfg" using parse_command_length [OF assms(1)] by simp
  moreover obtain c st sp where l: "arg_loop idx cfg 1 0 0 1 1 = Some (c, st, sp)" using assms(2)
    by (auto simp: parse_arg_def split: option.splits)
  moreover have "0 < st" using arg_loop_start [OF l] by simp
  ultimately show ?thesis using assms(2) by (auto simp: parse_arg_def slice_def split: if_splits)
qed

definition opt_plus :: "nat option \<Rightarrow> nat option \<Rightarrow> nat option" where
  "opt_plus a b = Option.bind a (\<lambda>x. Option.bind b (\<lambda>y. Some (x + y)))"

function arcfg_ctrlWidth :: "string \<Rightarrow> nat \<Rightarrow> nat option" where
  "arcfg_ctrlWidth cfg BUS_ADDR_WIDTH = (case parse_command cfg of None \<Rightarrow> None | Some cmd \<Rightarrow>
    (if cmd = ''prim'' then Some BUS_ADDR_WIDTH
     else if cmd = ''arb'' then Option.bind (parse_arg cfg 0) (\<lambda>a. arcfg_ctrlWidth a BUS_ADDR_WIDTH)
     else if cmd = ''null'' then
       opt_plus (Some (1 + BUS_ADDR_WIDTH)) (Option.bind (parse_arg cfg 0) (\<lambda>a. arcfg_ctrlWidth a BUS_ADDR_WIDTH))
     else if cmd = ''list'' then
       opt_plus (Some BUS_ADDR_WIDTH) (Option.bind (parse_arg cfg 0) (\<lambda>a. arcfg_ctrlWidth a BUS_ADDR_WIDTH))
     else if cmd = ''listprim'' then Some (BUS_ADDR_WIDTH + BUS_ADDR_WIDTH)
     else if cmd = ''struct'' then
       opt_plus (Option.bind (parse_arg cfg 0) (\<lambda>a. arcfg_ctrlWidth a BUS_ADDR_WIDTH))
         (Option.bind (parse_arg cfg 1) (\<lambda>a. arcfg_ctrlWidth a BUS_ADDR_WIDTH))
     else None))"
  by auto
termination
  by (relation "measure (\<lambda>(cfg, _). length cfg)") (auto dest: parse_arg_shorter)

function arcfg_busCount :: "string \<Rightarrow> nat option" where
  "arcfg_busCount cfg = (case parse_command cfg of None \<Rightarrow> None | Some cmd \<Rightarrow>
    (if cmd = ''prim'' then Some 1
     else if cmd = ''arb'' then Some 1
     else if cmd = ''null'' then opt_plus (Some 1) (Option.bind (parse_arg cfg 0) arcfg_busCount)
     else if cmd = ''list'' then opt_plus (Some 1) (Option.bind (parse_arg cfg 0) arcfg_busCount)
     else if cmd = ''listprim'' then Some 2
     else if cmd = ''struct'' then
       opt_plus (Option.bind (parse_arg cfg 0) arcfg_busCount) (Option.bind (parse_arg cfg 1) arcfg_busCount)
     else None))"
  by auto
termination
  by (relation "measure length") (auto dest: parse_arg_shorter)

function arcfg_userCount :: "string \<Rightarrow> nat option" where
  "arcfg_userCount cfg = (case parse_command cfg of None \<Rightarrow> None | Some cmd \<Rightarrow>
    (if cmd = ''prim'' then Some 1
     else if cmd = ''arb'' then Option.bind (parse_arg cfg 0) arcfg_userCount
     else if cmd = ''null'' then Option.bind (parse_arg cfg 0) arcfg_userCount
     else if cmd = ''list'' then opt_plus (Some 1) (Option.bind (parse_arg cfg 0) arcfg_userCount)
     else if cmd = ''listprim'' then Some 2
     else if cmd = ''struct'' then
       Option.bind (parse_arg cfg 0) (\<lambda>a. Option.bind (arcfg_userCount a) (\<lambda>m.
       Option.bind (parse_arg cfg 1) (\<lambda>b. Option.bind (arcfg_userCount b) (\<lambda>n. Some (1 + m - 1 + n - 1)))))
     else None))"
  by auto
termination
  by (relation "measure length") (auto dest: parse_arg_shorter)

definition prim_width :: "(nat \<Rightarrow> nat) \<Rightarrow> string \<Rightarrow> nat option" where
  "prim_width log2ceil cfg =
    Option.bind (parse_arg cfg 0) (\<lambda>a. Option.bind (strtoi a) (\<lambda>width.
    Option.bind (parse_param cfg ''epc'' 1) (\<lambda>epc.
    Some (if epc > 1 then log2ceil (epc + 1) + width * epc else width))))"

definition lengths_width :: "(nat \<Rightarrow> nat) \<Rightarrow> string \<Rightarrow> nat \<Rightarrow> nat option" where
  "lengths_width log2ceil cfg INDEX_WIDTH =
    Option.bind (parse_param cfg ''lepc'' 1) (\<lambda>lepc. Some (log2ceil (lepc + 1) + INDEX_WIDTH * lepc))"

definition elements_width :: "(nat \<Rightarrow> nat) \<Rightarrow> string \<Rightarrow> nat option" where
  "elements_width log2ceil cfg =
    Option.bind (parse_arg cfg 0) (\<lambda>a. Option.bind (strtoi a) (\<lambda>width.
    Option.bind (parse_param cfg ''epc'' 1) (\<lambda>epc. Some (log2ceil (epc + 1) + width * epc))))"

function arcfg_userWidthInt :: "(nat \<Rightarrow> nat) \<Rightarrow> string \<Rightarrow> nat \<Rightarrow> bool \<Rightarrow> bool \<Rightarrow> nat option" where
  "arcfg_userWidthInt log2ceil cfg INDEX_WIDTH main secondary = (case parse_command cfg of None \<Rightarrow> None | Some cmd \<Rightarrow>
    (if cmd = ''prim'' then (if main then prim_width log2ceil cfg else Some 0)
     else if cmd = ''arb'' then
       Option.bind (parse_arg cfg 0) (\<lambda>a. arcfg_userWidthInt log2ceil a INDEX_WIDTH main secondary)
     else if cmd = ''null'' then
       opt_plus (Some (if main then 1 else 0))
         (Option.bind (parse_arg cfg 0) (\<lambda>a. arcfg_userWidthInt log2ceil a INDEX_WIDTH main secondary))
     else if cmd = ''list'' then
       opt_plus (Some (if main then INDEX_WIDTH else 0))
         (Option.bind (parse_arg cfg 0) (\<lambda>a. arcfg_userWidthInt log2ceil a INDEX_WIDTH secondary secondary))
     else if cmd = ''listprim'' then
       opt_plus (if main then lengths_width log2ceil cfg INDEX_WIDTH else Some 0)
         (if secondary then elements_width log2ceil cfg else Some 0)
     else if cmd = ''struct'' then
       opt_plus (Option.bind (parse_arg cfg 0) (\<lambda>a. arcfg_userWidthInt log2ceil a INDEX_WIDTH main secondary))
         (Option.bind (parse_arg cfg 1) (\<lambda>a. arcfg_userWidthInt log2ceil a INDEX_WIDTH main secondary))
     else None))"
  by auto
termination
  by (relation "measure (\<lambda>(_, cfg, _). length cfg)") (auto dest: parse_arg_shorter)

declare arcfg_ctrlWidth.simps [simp del] arcfg_busCount.simps [simp del]
  arcfg_userCount.simps [simp del] arcfg_userWidthInt.simps [simp del]

definition arcfg_userWidth :: "(nat \<Rightarrow> nat) \<Rightarrow> string \<Rightarrow> nat \<Rightarrow> nat option" where
  "arcfg_userWidth log2ceil cfg INDEX_WIDTH = arcfg_userWidthInt log2ceil cfg INDEX_WIDTH True True"

section \<open>The documented configurations\<close>

text \<open>
  The configurations of \<^verbatim>\<open>hardware/README.md\<close> with the text they are written with: a fixed width and elements
  per cycle, a list of bytes with elements and lengths per cycle, and the nested ones.
\<close>

datatype array_cfg = Prim nat nat | Bytes nat nat | List_of array_cfg | Null_of array_cfg | Struct_of array_cfg array_cfg

definition params_text :: "nat \<Rightarrow> nat \<Rightarrow> string" where
  "params_text epc lepc =
    (if 1 < epc then '';epc='' @ show_nat epc @ (if 1 < lepc then '',lepc='' @ show_nat lepc else [])
     else if 1 < lepc then '';lepc='' @ show_nat lepc else [])"

fun text_of :: "array_cfg \<Rightarrow> string" where
  "text_of (Prim w epc) = ''prim('' @ show_nat w @ params_text epc 1 @ '')''"
| "text_of (Bytes epc lepc) = ''listprim(8'' @ params_text epc lepc @ '')''"
| "text_of (List_of c) = ''list('' @ text_of c @ '')''"
| "text_of (Null_of c) = ''null('' @ text_of c @ '')''"
| "text_of (Struct_of a b) = ''struct('' @ text_of a @ '','' @ text_of b @ '')''"

subsection \<open>Parsing them\<close>

lemma show_nat_digits: "c \<in> set (show_nat n) \<Longrightarrow> c \<in> set ''0123456789''"
proof -
  have "\<forall>d\<in>set [0..<10]. digit_char False d \<in> set ''0123456789''" by code_simp
  then show "c \<in> set (show_nat n) \<Longrightarrow> c \<in> set ''0123456789''" using set_show_nat by fastforce
qed

lemma show_nat_plain [simp]:
  "CHR ''('' \<notin> set (show_nat n)" "CHR '')'' \<notin> set (show_nat n)" "CHR '','' \<notin> set (show_nat n)" "CHR '';'' \<notin> set (show_nat n)"
  using show_nat_digits [of _ n] by fastforce+

lemma arg_loop_skip:
  assumes "set s \<inter> set ''()'' = {}" "depth \<noteq> 1 \<or> set s \<inter> set '';,'' = {}"
  shows "arg_loop idx (s @ rest) i cur depth start stop = arg_loop idx rest (i + length s) cur depth start stop"
  using assms by (induction s arbitrary: i) auto

text \<open>A string that the search for an argument passes over.\<close>

definition closed_text :: "string \<Rightarrow> bool" where
  "closed_text s = (\<forall>idx rest i cur depth start stop. 0 < depth \<longrightarrow>
     arg_loop idx (s @ rest) i cur depth start stop = arg_loop idx rest (i + length s) cur depth start stop)"

lemma closed_show_nat: "closed_text (show_nat n)"
  unfolding closed_text_def by (simp add: arg_loop_skip)

lemma closed_digit: "closed_text ''8''"
  unfolding closed_text_def by simp

lemma closed_parens:
  assumes "set nm \<inter> set ''();,'' = {}" "set s \<inter> set ''()'' = {}"
  shows "closed_text (nm @ ''('' @ s @ '')'')"
proof -
  have "set nm \<inter> set ''()'' = {}" "set nm \<inter> set '';,'' = {}" using assms(1) by auto
  then show ?thesis
    using assms(2) unfolding closed_text_def by (simp add: arg_loop_skip ac_simps)
qed

lemma closed_nested:
  assumes "set nm \<inter> set ''();,'' = {}" "closed_text s"
  shows "closed_text (nm @ ''('' @ s @ '')'')"
proof -
  have "set nm \<inter> set ''()'' = {}" "set nm \<inter> set '';,'' = {}" using assms(1) by auto
  then show ?thesis
    using assms(2) by (simp add: closed_text_def arg_loop_skip ac_simps)
qed

lemma closed_pair:
  assumes "set nm \<inter> set ''();,'' = {}" "closed_text s" "closed_text t"
  shows "closed_text (nm @ ''('' @ s @ '','' @ t @ '')'')"
proof -
  have "set nm \<inter> set ''()'' = {}" "set nm \<inter> set '';,'' = {}" using assms(1) by auto
  then show ?thesis
    using assms(2,3) by (simp add: closed_text_def arg_loop_skip ac_simps)
qed

lemma params_no_parens: "set (params_text e l) \<inter> set ''()'' = {}"
  by (simp add: params_text_def)

lemma closed_text_of: "closed_text (text_of c)"
proof (induction c)
  case (Prim w e)
  have "set (show_nat w @ params_text e 1) \<inter> set ''()'' = {}"
    using params_no_parens [of e 1] by simp
  then show ?case using closed_parens [of "''prim''" "show_nat w @ params_text e 1"] by simp
next
  case (Bytes e l)
  have "set (''8'' @ params_text e l) \<inter> set ''()'' = {}" using params_no_parens [of e l] by auto
  then show ?case using closed_parens [of "''listprim''" "''8'' @ params_text e l"] by simp
next
  case (List_of c)
  then show ?case using closed_nested [of "''list''" "text_of c"] by simp
next
  case (Null_of c)
  then show ?case using closed_nested [of "''null''" "text_of c"] by simp
next
  case (Struct_of a b)
  then show ?case using closed_pair [of "''struct''" "text_of a" "text_of b"] by simp
qed

lemma parse_arg_first:
  assumes "set nm \<inter> set ''()'' = {}" "closed_text s" "s \<noteq> []" "c \<in> set '');,''"
  shows "parse_arg (nm @ ''('' @ s @ c # rest) 0 = Some s"
proof -
  have "arg_loop 0 (nm @ ''('' @ s @ c # rest) 1 0 0 1 1 = Some (0, length nm + 1, length nm + length s + 2)"
    using assms by (auto simp: arg_loop_skip closed_text_def)
  then show ?thesis using assms(3) by (simp add: parse_arg_def slice_def Suc_le_eq)
qed

lemma parse_arg_second:
  assumes "set nm \<inter> set ''()'' = {}" "closed_text s" "closed_text t" "t \<noteq> []"
  shows "parse_arg (nm @ ''('' @ s @ '','' @ t @ '')'') 1 = Some t"
proof -
  have "arg_loop 1 (nm @ ''('' @ s @ '','' @ t @ '')'') 1 0 0 1 1 =
      Some (1, length nm + length s + 2, length nm + length s + length t + 3)"
    using assms by (simp add: arg_loop_skip closed_text_def numeral_eq_Suc)
  then show ?thesis using assms(4) by (simp add: parse_arg_def slice_def Suc_le_eq)
qed

lemma strtoi_acc_digits: "\<forall>d\<in>set ds. d < 10 \<Longrightarrow>
  strtoi_acc (map (digit_char False) ds) r = Some (foldl (\<lambda>a d. a * 10 + d) r ds)"
proof (induction ds arbitrary: r)
  case (Cons d ds)
  have "\<forall>d\<in>set [0..<10]. digit_of (digit_char False d) = Some d" by code_simp
  then have "digit_of (digit_char False d) = Some d" using Cons.prems by simp
  then show ?case using Cons by simp
qed simp

lemma strtoi_show_nat [simp]: "strtoi (show_nat n) = Some n"
  using strtoi_acc_digits [of "digits 10 n" 0] digits_bound [of 10 _ n]
  by (simp add: strtoi_def show_nat_def foldl_digits)

lemma param_skip:
  assumes "set s \<inter> set ''()'' = {}" "depth \<noteq> 1 \<or> set s \<inter> set '';,'' = {}"
  shows "param_loop cfg p v (s @ rest) i depth inp start = param_loop cfg p v rest (i + length s) depth inp start"
  using assms by (induction s arbitrary: i) auto

lemma slice_after: "length pre = n \<Longrightarrow> slice (pre @ post) (n + 1) (n + k) = take k post"
  by (simp add: slice_def)

text \<open>A separator starts a parameter.\<close>

lemma param_sep:
  assumes "cfg = pre @ c # post" "i = length pre + 1" "c = CHR '';'' \<or> c = CHR '','' \<and> inp"
  shows "param_loop cfg p v (c # post) i 1 inp 0 = param_loop cfg p v post (i + 1) 1 True
    (if take (length p + 1) post = p @ ''='' then i + length p + 2 else 0)"
proof -
  have "slice cfg (i + 1) (i + length p + 1) = take (length p + 1) post"
    using slice_after [of "pre @ [c]" i post "length p + 1"] assms(1,2) by (simp add: ac_simps)
  moreover have "i + length p + 1 \<le> length cfg" if "take (length p + 1) post = p @ ''=''"
  proof -
    have "length p + 1 \<le> length post" using arg_cong [OF that, of length] by simp
    then show ?thesis using assms(1,2) by simp
  qed
  ultimately show ?thesis using assms(3) by (auto simp: ac_simps)
qed

lemma param_value:
  assumes "cfg = pre @ val @ c # post" "start = length pre + 1" "c \<in> set '',)''" "set val \<inter> set ''();,'' = {}"
  shows "param_loop cfg p v (val @ c # post) start 1 True start = Some val"
proof -
  have "slice cfg start (start + length val - 1) = val"
    using slice_after [of pre "length pre" "val @ c # post" "length val"] assms(1,2) by simp
  moreover have "set val \<inter> set ''()'' = {}" "set val \<inter> set '';,'' = {}" using assms(4) by auto
  ultimately show ?thesis using assms(2,3) by (auto simp: param_skip)
qed

text \<open>The configuration up to the parameters, and a parameter found after them.\<close>

definition plain_text :: "string \<Rightarrow> bool" where
  "plain_text s = (set s \<inter> set ''();,'' = {})"

lemma plain_texts [simp]: "plain_text (show_nat n)" "plain_text ''epc''" "plain_text ''lepc''" "plain_text ''8''"
  "plain_text ''prim''" "plain_text ''listprim''"
  by (simp_all add: plain_text_def)

lemma param_plain: "plain_text s \<Longrightarrow>
  param_loop cfg p v (s @ rest) i depth inp start = param_loop cfg p v rest (i + length s) depth inp start"
  by (rule param_skip) (auto simp: plain_text_def)

lemma param_find:
  assumes "cfg = pre @ c # p @ ''='' @ val @ c' # post" "i = length pre + 1" "c = CHR '';'' \<or> c = CHR '','' \<and> inp"
    "plain_text p" "plain_text val" "c' \<in> set '',)''"
  shows "param_loop cfg p v (c # p @ ''='' @ val @ c' # post) i 1 inp 0 = Some val"
proof -
  let ?st = "i + length p + 2"
  have eq: "plain_text (p @ ''='')" using assms(4) by (simp add: plain_text_def)
  have "param_loop cfg p v (c # p @ ''='' @ val @ c' # post) i 1 inp 0
      = param_loop cfg p v (p @ ''='' @ val @ c' # post) (i + 1) 1 True ?st"
    by (subst param_sep [OF assms(1-3)]) simp
  also have "\<dots> = param_loop cfg p v (val @ c' # post) ?st 1 True ?st"
    using param_plain [OF eq, of cfg p v "val @ c' # post" "i + 1" 1 True ?st] by (simp add: ac_simps)
  also have "\<dots> = Some val"
    using assms by (intro param_value [where pre = "pre @ c # p @ ''=''" and c = c' and post = post]) (simp_all add: plain_text_def)
  finally show ?thesis .
qed

lemma param_miss:
  assumes "cfg = pre @ c # q @ ''='' @ val @ c' # post" "i = length pre + 1" "c = CHR '';'' \<or> c = CHR '','' \<and> inp"
    "plain_text q" "plain_text val" "take (length p + 1) (q @ ''='' @ val @ c' # post) \<noteq> p @ ''=''"
  shows "param_loop cfg p v (c # q @ ''='' @ val @ c' # post) i 1 inp 0
    = param_loop cfg p v (c' # post) (i + length q + length val + 2) 1 True 0"
proof -
  have t: "plain_text (q @ ''='' @ val)" using assms(4,5) by (simp add: plain_text_def)
  have "param_loop cfg p v (c # q @ ''='' @ val @ c' # post) i 1 inp 0
      = param_loop cfg p v (q @ ''='' @ val @ c' # post) (i + 1) 1 True 0"
    by (subst param_sep [OF assms(1-3)], subst if_not_P [OF assms(6)]) simp
  also have "\<dots> = param_loop cfg p v (c' # post) (i + 1 + length (q @ ''='' @ val)) 1 True 0"
    using param_plain [OF t, of cfg p v "c' # post" "i + 1" 1 True 0] by simp
  finally show ?thesis by (simp add: ac_simps)
qed

lemma param_start:
  assumes "plain_text nm" "plain_text w"
  shows "param_loop cfg p v (nm @ ''('' @ w @ rest) 1 0 False 0 = param_loop cfg p v rest (length (nm @ ''('' @ w) + 1) 1 False 0"
  using assms by (simp add: param_plain)

text \<open>The parameters of a configuration.\<close>

lemma parse_param_none:
  assumes "plain_text nm" "plain_text w"
  shows "parse_param (nm @ ''('' @ w @ '')'') p v = Some v"
  by (simp add: parse_param_def param_start [OF assms, simplified])

lemma parse_param_epc:
  assumes "plain_text nm" "plain_text w" "c \<in> set '',)''"
  shows "parse_param (nm @ ''('' @ w @ '';epc='' @ show_nat e @ c # post) ''epc'' v = Some e"
proof -
  let ?cfg = "nm @ ''('' @ w @ '';epc='' @ show_nat e @ c # post"
  have "param_loop ?cfg ''epc'' d ?cfg 1 0 False 0 = Some (show_nat e)" for d
    using param_find [of ?cfg "nm @ ''('' @ w" "CHR '';''" "''epc''" "show_nat e" c post "length (nm @ ''('' @ w) + 1" False d]
      assms by (subst param_start [OF assms(1,2)]) simp
  then show ?thesis by (simp add: parse_param_def)
qed

lemma parse_param_lepc:
  assumes "plain_text nm" "plain_text w"
  shows "parse_param (nm @ ''('' @ w @ '';lepc='' @ show_nat l @ '')'') ''lepc'' v = Some l"
    "parse_param (nm @ ''('' @ w @ '';lepc='' @ show_nat l @ '')'') ''epc'' v = Some v"
    "parse_param (nm @ ''('' @ w @ '';epc='' @ show_nat e @ '')'') ''lepc'' v = Some v"
    "parse_param (nm @ ''('' @ w @ '';epc='' @ show_nat e @ '',lepc='' @ show_nat l @ '')'') ''lepc'' v = Some l"
proof -
  let ?pre = "nm @ ''('' @ w" and ?i = "length (nm @ ''('' @ w) + 1"
  let ?A = "nm @ ''('' @ w @ '';lepc='' @ show_nat l @ '')''"
  have "param_loop ?A ''lepc'' d ?A 1 0 False 0 = Some (show_nat l)" for d
    using param_find [of ?A ?pre "CHR '';''" "''lepc''" "show_nat l" "CHR '')''" "[]" ?i False d]
    by (subst param_start [OF assms]) simp
  then show "parse_param ?A ''lepc'' v = Some l" by (simp add: parse_param_def)
  have "param_loop ?A ''epc'' d ?A 1 0 False 0 = Some d" for d
    using param_miss [of ?A ?pre "CHR '';''" "''lepc''" "show_nat l" "CHR '')''" "[]" ?i False "''epc''" d]
    by (subst param_start [OF assms]) simp
  then show "parse_param ?A ''epc'' v = Some v" by (simp add: parse_param_def)
  let ?B = "nm @ ''('' @ w @ '';epc='' @ show_nat e @ '')''"
  have "param_loop ?B ''lepc'' d ?B 1 0 False 0 = Some d" for d
    using param_miss [of ?B ?pre "CHR '';''" "''epc''" "show_nat e" "CHR '')''" "[]" ?i False "''lepc''" d]
    by (subst param_start [OF assms]) simp
  then show "parse_param ?B ''lepc'' v = Some v" by (simp add: parse_param_def)
  let ?C = "nm @ ''('' @ w @ '';epc='' @ show_nat e @ '',lepc='' @ show_nat l @ '')''"
  let ?pre' = "?pre @ '';epc='' @ show_nat e"
  have "param_loop ?C ''lepc'' d ?C 1 0 False 0 = param_loop ?C ''lepc'' d ('',lepc='' @ show_nat l @ '')'') (length ?pre' + 1) 1 True 0" for d
    using param_miss [of ?C ?pre "CHR '';''" "''epc''" "show_nat e" "CHR '',''" "''lepc='' @ show_nat l @ '')''" ?i False "''lepc''" d]
    by (subst param_start [OF assms]) (simp add: ac_simps)
  also have "\<dots> d = Some (show_nat l)" for d
    using param_find [of ?C ?pre' "CHR '',''" "''lepc''" "show_nat l" "CHR '')''" "[]" "length ?pre' + 1" True d] by simp
  finally show "parse_param ?C ''lepc'' v = Some l" by (simp add: parse_param_def)
qed

subsection \<open>The widths of a documented configuration\<close>

fun cfg_streams :: "array_cfg \<Rightarrow> nat" where
  "cfg_streams (Prim w e) = 1"
| "cfg_streams (Bytes e l) = 2"
| "cfg_streams (List_of c) = 1 + cfg_streams c"
| "cfg_streams (Null_of c) = cfg_streams c"
| "cfg_streams (Struct_of a b) = cfg_streams a + cfg_streams b - 1"

fun cfg_masters :: "array_cfg \<Rightarrow> nat" where
  "cfg_masters (Prim w e) = 1"
| "cfg_masters (Bytes e l) = 2"
| "cfg_masters (List_of c) = 1 + cfg_masters c"
| "cfg_masters (Null_of c) = 1 + cfg_masters c"
| "cfg_masters (Struct_of a b) = cfg_masters a + cfg_masters b"

fun cfg_nulls :: "array_cfg \<Rightarrow> nat" where
  "cfg_nulls (Prim w e) = 0"
| "cfg_nulls (Bytes e l) = 0"
| "cfg_nulls (List_of c) = cfg_nulls c"
| "cfg_nulls (Null_of c) = 1 + cfg_nulls c"
| "cfg_nulls (Struct_of a b) = cfg_nulls a + cfg_nulls b"

fun cfg_width :: "array_cfg \<Rightarrow> nat" where
  "cfg_width (Prim w e) = (if 1 < e then ceil_log2 (e + 1) + w * e else w)"
| "cfg_width (Bytes e l) = ceil_log2 (l + 1) + 32 * l + ceil_log2 (e + 1) + 8 * e"
| "cfg_width (List_of c) = 32 + cfg_width c"
| "cfg_width (Null_of c) = 1 + cfg_width c"
| "cfg_width (Struct_of a b) = cfg_width a + cfg_width b"

text \<open>The numbers of elements are positive.\<close>

fun cfg_ok :: "array_cfg \<Rightarrow> bool" where
  "cfg_ok (Prim w e) = (0 < e)"
| "cfg_ok (Bytes e l) = (0 < e \<and> 0 < l)"
| "cfg_ok (List_of c) = cfg_ok c"
| "cfg_ok (Null_of c) = cfg_ok c"
| "cfg_ok (Struct_of a b) = (cfg_ok a \<and> cfg_ok b)"

lemma parse_command_text:
  "parse_command (text_of (Prim w e)) = Some ''prim''"
  "parse_command (text_of (Bytes e l)) = Some ''listprim''"
  "parse_command (text_of (List_of c)) = Some ''list''"
  "parse_command (text_of (Null_of c)) = Some ''null''"
  "parse_command (text_of (Struct_of a b)) = Some ''struct''"
  by (simp_all add: isAlphaNumeric_def)

lemma text_of_nonempty [simp]: "text_of c \<noteq> []"
  by (cases c) simp_all

lemma parse_arg_text:
  "parse_arg (text_of (Prim w e)) 0 = Some (show_nat w)"
  "parse_arg (text_of (Bytes e l)) 0 = Some ''8''"
  "parse_arg (text_of (List_of c)) 0 = Some (text_of c)"
  "parse_arg (text_of (Null_of c)) 0 = Some (text_of c)"
  "parse_arg (text_of (Struct_of a b)) 0 = Some (text_of a)"
  "parse_arg (text_of (Struct_of a b)) 1 = Some (text_of b)"
proof -
  have tail: "\<exists>c rest. params_text e l @ '')'' = c # rest \<and> c \<in> set '');,''" for e l
    by (auto simp: params_text_def)
  obtain x rest where t: "params_text e 1 @ '')'' = x # rest" "x \<in> set '');,''" using tail by blast
  have "text_of (Prim w e) = ''prim'' @ ''('' @ show_nat w @ x # rest" using t(1) by simp
  then show "parse_arg (text_of (Prim w e)) 0 = Some (show_nat w)"
    using parse_arg_first [OF _ closed_show_nat show_nat_nonempty t(2), of "''prim''"] by simp
  obtain x rest where t: "params_text e l @ '')'' = x # rest" "x \<in> set '');,''" using tail by blast
  have "text_of (Bytes e l) = ''listprim'' @ ''('' @ ''8'' @ x # rest" using t(1) by simp
  then show "parse_arg (text_of (Bytes e l)) 0 = Some ''8''"
    using parse_arg_first [OF _ closed_digit _ t(2), of "''listprim''"] by simp
  show "parse_arg (text_of (List_of c)) 0 = Some (text_of c)"
    using parse_arg_first [of "''list''" "text_of c" "CHR '')''" "[]"] closed_text_of by simp
  show "parse_arg (text_of (Null_of c)) 0 = Some (text_of c)"
    using parse_arg_first [of "''null''" "text_of c" "CHR '')''" "[]"] closed_text_of by simp
  show "parse_arg (text_of (Struct_of a b)) 0 = Some (text_of a)"
    using parse_arg_first [of "''struct''" "text_of a" "CHR '',''" "text_of b @ '')''"] closed_text_of by simp
  show "parse_arg (text_of (Struct_of a b)) 1 = Some (text_of b)"
    using parse_arg_second [of "''struct''" "text_of a" "text_of b"] closed_text_of by simp
qed

lemma parse_param_text:
  "0 < e \<Longrightarrow> parse_param (text_of (Prim w e)) ''epc'' 1 = Some e"
  "0 < e \<Longrightarrow> parse_param (text_of (Bytes e l)) ''epc'' 1 = Some e"
  "0 < l \<Longrightarrow> parse_param (text_of (Bytes e l)) ''lepc'' 1 = Some l"
proof -
  show "0 < e \<Longrightarrow> parse_param (text_of (Prim w e)) ''epc'' 1 = Some e"
    using parse_param_none [of "''prim''" "show_nat w" "''epc''" 1] parse_param_epc [of "''prim''" "show_nat w" "CHR '')''" e "[]" 1]
    by (cases "1 < e") (simp_all add: params_text_def)
  show "0 < e \<Longrightarrow> parse_param (text_of (Bytes e l)) ''epc'' 1 = Some e"
    using parse_param_none [of "''listprim''" "''8''" "''epc''" 1] parse_param_epc [of "''listprim''" "''8''" "CHR '')''" e "[]" 1]
      parse_param_epc [of "''listprim''" "''8''" "CHR '',''" e "''lepc='' @ show_nat l @ '')''" 1] parse_param_lepc(2) [of "''listprim''" "''8''" l 1]
    by (cases "1 < e"; cases "1 < l") (simp_all add: params_text_def)
  show "0 < l \<Longrightarrow> parse_param (text_of (Bytes e l)) ''lepc'' 1 = Some l"
    using parse_param_none [of "''listprim''" "''8''" "''lepc''" 1] parse_param_lepc [of "''listprim''" "''8''"]
    by (cases "1 < e"; cases "1 < l") (simp_all add: params_text_def)
qed

lemmas parse_text = parse_command_text parse_arg_text

text \<open>What the functions of the hardware return for it.\<close>

lemma arcfg_ctrlWidth_text: "arcfg_ctrlWidth (text_of c) aw = Some (cfg_masters c * aw + cfg_nulls c)"
  by (induction c; subst arcfg_ctrlWidth.simps; simp only: parse_text)
    (simp_all add: opt_plus_def algebra_simps)

lemma arcfg_busCount_text: "arcfg_busCount (text_of c) = Some (cfg_masters c)"
  by (induction c; subst arcfg_busCount.simps; simp only: parse_text) (simp_all add: opt_plus_def)

lemma arcfg_userCount_text: "arcfg_userCount (text_of c) = Some (cfg_streams c)"
  by (induction c; subst arcfg_userCount.simps; simp only: parse_text) (simp_all add: opt_plus_def)

fun cfg_width_of :: "array_cfg \<Rightarrow> bool \<Rightarrow> bool \<Rightarrow> nat" where
  "cfg_width_of (Prim w e) m s = (if m then cfg_width (Prim w e) else 0)"
| "cfg_width_of (Bytes e l) m s = (if m then ceil_log2 (l + 1) + 32 * l else 0) + (if s then ceil_log2 (e + 1) + 8 * e else 0)"
| "cfg_width_of (List_of c) m s = (if m then 32 else 0) + cfg_width_of c s s"
| "cfg_width_of (Null_of c) m s = (if m then 1 else 0) + cfg_width_of c m s"
| "cfg_width_of (Struct_of a b) m s = cfg_width_of a m s + cfg_width_of b m s"

lemma cfg_width_of_all: "cfg_width_of c True True = cfg_width c"
  by (induction c) simp_all

lemma arcfg_userWidthInt_text:
  assumes "\<forall>n>0. log2ceil n = ceil_log2 n"
  shows "cfg_ok c \<Longrightarrow> arcfg_userWidthInt log2ceil (text_of c) 32 m s = Some (cfg_width_of c m s)"
proof (induction c arbitrary: m s)
  case (Prim w e)
  have "prim_width log2ceil (text_of (Prim w e)) = Some (cfg_width (Prim w e))"
    unfolding prim_width_def parse_text using Prim assms parse_param_text(1) [of e w] by simp
  then show ?case by (subst arcfg_userWidthInt.simps; simp only: parse_text) simp
next
  case (Bytes e l)
  have "lengths_width log2ceil (text_of (Bytes e l)) 32 = Some (ceil_log2 (l + 1) + 32 * l)"
    unfolding lengths_width_def using Bytes assms parse_param_text(3) [of l e] by simp
  moreover have "elements_width log2ceil (text_of (Bytes e l)) = Some (ceil_log2 (e + 1) + 8 * e)"
    unfolding elements_width_def parse_text using Bytes assms parse_param_text(2) [of e l] by (simp add: strtoi_def digit_of_def)
  ultimately show ?case by (subst arcfg_userWidthInt.simps; simp only: parse_text) (simp add: opt_plus_def)
qed (subst arcfg_userWidthInt.simps; simp only: parse_text; simp add: opt_plus_def)+

lemma arcfg_userWidth_text:
  "\<forall>n>0. log2ceil n = ceil_log2 n \<Longrightarrow> cfg_ok c \<Longrightarrow> arcfg_userWidth log2ceil (text_of c) 32 = Some (cfg_width c)"
  by (simp add: arcfg_userWidth_def arcfg_userWidthInt_text cfg_width_of_all)

section \<open>The configuration of a field\<close>

text \<open>
  The widths that Arrow documents for its types, and the text of a literal node. A field has a documented configuration when its lists
  have elements that are not of a fixed width, its structs have two members and are not nullable, and its
  numbers of elements per cycle are given where the hardware takes them.
\<close>

fun fixed_bits :: "fixed_kind \<Rightarrow> nat" where
  "fixed_bits INT8 = 8" | "fixed_bits INT16 = 16" | "fixed_bits INT32 = 32" | "fixed_bits INT64 = 64"
| "fixed_bits UINT8 = 8" | "fixed_bits UINT16 = 16" | "fixed_bits UINT32 = 32" | "fixed_bits UINT64 = 64"
| "fixed_bits HALF_FLOAT = 16" | "fixed_bits FLOAT = 32" | "fixed_bits DOUBLE = 64" | "fixed_bits DATE32 = 32"
| "fixed_bits DATE64 = 64" | "fixed_bits TIMESTAMP = 64" | "fixed_bits TIME32 = 32" | "fixed_bits TIME64 = 64"
| "fixed_bits (FIXED_SIZE_BINARY n) = 8 * n" | "fixed_bits DECIMAL128 = 128"

definition documented_lib :: "array_lib \<Rightarrow> bool" where
  "documented_lib lib = ((\<forall>k. fixed_bits k < 2 ^ 31 \<longrightarrow> bit_width lib (FIXED k) = Some (of_nat (fixed_bits k)))
    \<and> bit_width lib BOOL = Some 1 \<and> (\<forall>n. node_string lib (Bits n) = show_int n))"

definition per_cycle :: "arrow_field \<Rightarrow> (nat \<Rightarrow> nat \<Rightarrow> array_cfg option) \<Rightarrow> array_cfg option" where
  "per_cycle f g = (case (int_meta f meta_VALUE_EPC, int_meta f meta_LIST_EPC) of
      (Inr e, Inr l) \<Rightarrow> if 1 \<le> e \<and> 1 \<le> l then map_option (if field_nullable f then Null_of else id) (g (nat e) (nat l)) else None
    | _ \<Rightarrow> None)"

fun config_of :: "arrow_field \<Rightarrow> array_cfg option" where
  "config_of (Field n (FIXED k) nl md) = per_cycle (Field n (FIXED k) nl md)
     (\<lambda>e l. if l = 1 \<and> (nl \<longrightarrow> e = 1) \<and> fixed_bits k < 2 ^ 31 then Some (Prim (fixed_bits k) e) else None)"
| "config_of (Field n BOOL nl md) = per_cycle (Field n BOOL nl md)
     (\<lambda>e l. if l = 1 \<and> (nl \<longrightarrow> e = 1) then Some (Prim 1 e) else None)"
| "config_of (Field n STRING nl md) = per_cycle (Field n STRING nl md) (\<lambda>e l. if l = 1 \<or> l = e then Some (Bytes e l) else None)"
| "config_of (Field n BINARY nl md) = per_cycle (Field n BINARY nl md) (\<lambda>e l. if l = 1 \<or> l = e then Some (Bytes e l) else None)"
| "config_of (Field n (LIST [c]) nl md) = per_cycle (Field n (LIST [c]) nl md)
     (\<lambda>e l. if e = 1 \<and> l = 1 \<and> GetConfigType (field_type c) \<noteq> CT_PRIM then map_option List_of (config_of c) else None)"
| "config_of (Field n (STRUCT [a, b]) nl md) = per_cycle (Field n (STRUCT [a, b]) nl md)
     (\<lambda>e l. if e = 1 \<and> l = 1 \<and> \<not> nl
       then Option.bind (config_of a) (\<lambda>x. map_option (Struct_of x) (config_of b)) else None)"
| "config_of _ = None"

fun cfg_structs :: "array_cfg \<Rightarrow> nat" where
  "cfg_structs (Prim w e) = 0"
| "cfg_structs (Bytes e l) = 0"
| "cfg_structs (List_of c) = cfg_structs c"
| "cfg_structs (Null_of c) = cfg_structs c"
| "cfg_structs (Struct_of a b) = 1 + cfg_structs a + cfg_structs b"

lemma per_cycle_SomeD:
  assumes "per_cycle f g = Some c"
  obtains e l x where "int_meta f meta_VALUE_EPC = Inr (int e)" "int_meta f meta_LIST_EPC = Inr (int l)" "0 < e" "0 < l"
    "e < 2 ^ 31" "l < 2 ^ 31" "uint_meta f meta_VALUE_EPC = Inr (of_nat e)" "uint_meta f meta_LIST_EPC = Inr (of_nat l)"
    "g e l = Some x" "c = (if field_nullable f then Null_of x else x)"
proof -
  obtain e l x where m: "int_meta f meta_VALUE_EPC = Inr e" "int_meta f meta_LIST_EPC = Inr l" "1 \<le> e" "1 \<le> l"
    "g (nat e) (nat l) = Some x" "c = (if field_nullable f then Null_of x else x)"
    using assms by (auto simp: per_cycle_def split: sum.splits if_splits)
  have key: "uint_meta f key = Inr (of_nat (nat i)) \<and> nat i < 2 ^ 31" if i: "int_meta f key = Inr i" "1 \<le> i" for key i
  proof -
    obtain v where v: "GetUIntMeta f key 1 = Inr v" "i = sint (ucast v :: u32)"
      using i(1) by (auto simp: int_meta_def res_bind_def split: sum.splits)
    have "i < 2 ^ 31" using v(2) sint_lt [of "ucast v :: u32"] by simp
    moreover have "(ucast v :: u32) = of_int i" using v(2) by simp
    ultimately show ?thesis using v(1) i(2) by (simp add: uint_meta_def res_bind_def)
  qed
  show ?thesis
    using that [of "nat e" "nat l" x] m key [OF m(1,3)] key [OF m(2,4)] by auto
qed

lemma count_width_nat [simp]: "e < 2 ^ 31 \<Longrightarrow> count_width_u (of_nat e) = Inr (of_nat (ceil_log2 (e + 1)))"
proof -
  assume "e < 2 ^ 31"
  then have "unat (of_nat (e + 1) :: u32) = e + 1" by (simp only: unat_of_nat) simp
  moreover have "(of_nat e + 1 :: u32) = of_nat (e + 1)" by simp
  ultimately show ?thesis unfolding count_width_u_def by (simp only:) simp
qed

lemma config_params_text: "l = 1 \<or> l = e \<Longrightarrow> 0 < e \<Longrightarrow> config_params (int e) (int l) = params_text e l"
  by (auto simp: config_params_def params_text_def show_int_def)

lemma show_int_nat: "show_int (int n) = show_nat n"
  by (simp add: show_int_def)

lemma sint_small_nat: "n < 2 ^ 31 \<Longrightarrow> sint (of_nat n :: u32) = int n"
  by (simp add: signed_of_nat signed_take_bit_int_eq_self_iff)

lemma GetWidth_fixed:
  assumes "documented_lib lib" "fixed_bits k < 2 ^ 31"
  shows "GetWidth lib (FIXED k) = Inr (Bits (int (fixed_bits k)))"
proof -
  have "bit_width lib (FIXED k) = Some (of_nat (fixed_bits k))" using assms by (simp add: documented_lib_def)
  then show ?thesis using sint_small_nat [OF assms(2)] by (cases k) (simp_all add: GetWidth_def)
qed

lemma cfg_streams_pos: "0 < cfg_streams c"
  by (induction c) simp_all

text \<open>What is proved of a field and its configuration.\<close>

definition config_agrees :: "array_lib \<Rightarrow> arrow_field \<Rightarrow> array_cfg \<Rightarrow> bool" where
  "config_agrees lib f c = (GenerateConfigString lib f 0 = Inr (text_of c)
    \<and> GetArrayDataSpec lib f = Inr (of_nat (cfg_streams c + cfg_structs c), of_nat (cfg_width c)) \<and> cfg_ok c)"

lemma count_width_one [simp]: "count_width_u 1 = Inr 1"
proof -
  have "ceil_log2 2 = 1" by (simp add: ceil_log2.simps)
  then show ?thesis by (simp add: count_width_u_def)
qed

text \<open>Values of a fixed width, and texts.\<close>

lemma agrees_prim:
  assumes "documented_lib lib" "t = BOOL \<and> w = 1 \<or> t = FIXED k \<and> w = fixed_bits k" "w < 2 ^ 31"
    and "per_cycle (Field n t nl md) (\<lambda>e l. if l = 1 \<and> (nl \<longrightarrow> e = 1) then Some (Prim w e) else None) = Some c"
  shows "config_agrees lib (Field n t nl md) c"
proof -
  obtain e l x where m: "int_meta (Field n t nl md) meta_VALUE_EPC = Inr (int e)"
    "int_meta (Field n t nl md) meta_LIST_EPC = Inr (int l)" "0 < e" "e < 2 ^ 31" "l < 2 ^ 31"
    "uint_meta (Field n t nl md) meta_VALUE_EPC = Inr (of_nat e)"
    "uint_meta (Field n t nl md) meta_LIST_EPC = Inr (of_nat l)"
    "(if l = 1 \<and> (nl \<longrightarrow> e = 1) then Some (Prim w e) else None) = Some x"
    "c = (if nl then Null_of x else x)"
    using assms(4) by (rule per_cycle_SomeD) simp
  have k: "l = 1" "nl \<longrightarrow> e = 1" "x = Prim w e" using m(8) by (simp_all split: if_splits)
  have w: "bit_width lib t = Some (of_nat w)" "node_string lib (Bits (int w)) = show_nat w"
    using assms(1-3) by (auto simp: documented_lib_def show_int_nat)
  have "GetWidth lib t = Inr (Bits (int w))"
    using GetWidth_fixed [OF assms(1)] assms(2,3) by (auto simp: GetWidth_def)
  then have hd: "config_head lib t = Inr (''prim('' @ show_nat w)"
    using assms(2) w(2) by (auto simp: config_head_def GetConfigType_def)
  have par: "config_params (int e) 1 = params_text e 1" using config_params_text [of 1 e] m(3) by simp
  have "GenerateConfigString lib (Field n t nl md) 0 = Inr (text_of c)"
    using m(1-3,9) k hd par assms(2) by (auto simp: numeral_2_eq_2)
  moreover have e: "(1 :: u32) < of_nat e \<longleftrightarrow> 1 < e"
    using m(4) by (simp add: word_less_nat_alt unat_of_nat)
  have "GetArrayDataSpec lib (Field n t nl md) = Inr (of_nat (cfg_streams c + cfg_structs c), of_nat (cfg_width c))"
  proof (cases "1 < e")
    case True
    then show ?thesis using m k w e assms(2) by (auto simp: ac_simps)
  next
    case False
    then have "e = 1" using m(3) by simp
    then show ?thesis using m k w assms(2) by (auto simp: ac_simps)
  qed
  ultimately show ?thesis using m(3,9) k by (simp add: config_agrees_def)
qed

lemma agrees_text:
  assumes "t = STRING \<or> t = BINARY"
    and "per_cycle (Field n t nl md) (\<lambda>e l. if l = 1 \<or> l = e then Some (Bytes e l) else None) = Some c"
  shows "config_agrees lib (Field n t nl md) c"
proof -
  obtain e l x where m: "int_meta (Field n t nl md) meta_VALUE_EPC = Inr (int e)"
    "int_meta (Field n t nl md) meta_LIST_EPC = Inr (int l)" "0 < e" "0 < l" "e < 2 ^ 31" "l < 2 ^ 31"
    "uint_meta (Field n t nl md) meta_VALUE_EPC = Inr (of_nat e)"
    "uint_meta (Field n t nl md) meta_LIST_EPC = Inr (of_nat l)"
    "(if l = 1 \<or> l = e then Some (Bytes e l) else None) = Some x"
    "c = (if nl then Null_of x else x)"
    using assms(2) by (rule per_cycle_SomeD) simp
  have k: "l = 1 \<or> l = e" "x = Bytes e l" using m(9) by (simp_all split: if_splits)
  have hd: "config_head lib t = Inr ''listprim(8''" using assms(1) by (auto simp: config_head_def GetConfigType_def)
  have "GenerateConfigString lib (Field n t nl md) 0 = Inr (text_of c)"
    using m(1-4,10) k(2) hd config_params_text [OF k(1) m(3)] assms(1) by (auto simp: numeral_2_eq_2)
  moreover have "GetArrayDataSpec lib (Field n t nl md) = Inr (of_nat (cfg_streams c + cfg_structs c), of_nat (cfg_width c))"
    using m k(2) assms(1) by (auto simp: algebra_simps)
  ultimately show ?thesis using m(3,4,10) k(2) by (simp add: config_agrees_def)
qed

lemma agrees_list:
  assumes "\<And>x. config_of c = Some x \<Longrightarrow> config_agrees lib c x"
    and "config_of (Field n (LIST [c]) nl md) = Some y"
  shows "config_agrees lib (Field n (LIST [c]) nl md) y"
proof -
  let ?f = "Field n (LIST [c]) nl md"
  obtain e l x where m: "int_meta ?f meta_VALUE_EPC = Inr (int e)" "int_meta ?f meta_LIST_EPC = Inr (int l)"
    "uint_meta ?f meta_VALUE_EPC = Inr (of_nat e)" "uint_meta ?f meta_LIST_EPC = Inr (of_nat l)"
    "(if e = 1 \<and> l = 1 \<and> GetConfigType (field_type c) \<noteq> CT_PRIM then map_option List_of (config_of c) else None) = Some x"
    "y = (if nl then Null_of x else x)"
    using assms(2) unfolding config_of.simps by (rule per_cycle_SomeD) simp
  obtain z where k: "e = 1" "l = 1" "GetConfigType (field_type c) \<noteq> CT_PRIM" "config_of c = Some z" "x = List_of z"
    using m(5) by (auto split: if_splits)
  have z: "GenerateConfigString lib c 0 = Inr (text_of z)"
    "GetArrayDataSpec lib c = Inr (of_nat (cfg_streams z + cfg_structs z), of_nat (cfg_width z))" "cfg_ok z"
    using assms(1) [OF k(4)] by (simp_all add: config_agrees_def)
  have hd: "config_head lib (LIST [c]) = Inr ''list(''" using k(3) by (simp add: config_head_def GetConfigType_def)
  have "GenerateConfigString lib ?f 0 = Inr (text_of y)"
    using m(1,2,6) k(1,2,5) hd z(1) by (auto simp: config_params_def numeral_2_eq_2)
  moreover have "GetArrayDataSpec lib ?f = Inr (of_nat (cfg_streams y + cfg_structs y), of_nat (cfg_width y))"
    using m(3,4,6) k(1,2,5) z(2) by (auto simp: algebra_simps)
  ultimately show ?thesis using z(3) m(6) k(5) by (simp add: config_agrees_def)
qed

lemma agrees_struct:
  assumes "\<And>x. config_of a = Some x \<Longrightarrow> config_agrees lib a x" "\<And>x. config_of b = Some x \<Longrightarrow> config_agrees lib b x"
    and "config_of (Field n (STRUCT [a, b]) nl md) = Some y"
  shows "config_agrees lib (Field n (STRUCT [a, b]) nl md) y"
proof -
  let ?f = "Field n (STRUCT [a, b]) nl md"
  obtain e l x where m: "int_meta ?f meta_VALUE_EPC = Inr (int e)" "int_meta ?f meta_LIST_EPC = Inr (int l)"
    "uint_meta ?f meta_VALUE_EPC = Inr (of_nat e)" "uint_meta ?f meta_LIST_EPC = Inr (of_nat l)"
    "(if e = 1 \<and> l = 1 \<and> \<not> nl
       then Option.bind (config_of a) (\<lambda>x. map_option (Struct_of x) (config_of b)) else None) = Some x"
    "y = (if nl then Null_of x else x)"
    using assms(3) unfolding config_of.simps by (rule per_cycle_SomeD) simp
  obtain za zb where k: "e = 1" "l = 1" "\<not> nl" "config_of a = Some za" "config_of b = Some zb" "x = Struct_of za zb"
    using m(5) by (auto split: if_splits bind_splits)
  have z: "GenerateConfigString lib a 0 = Inr (text_of za)" "GenerateConfigString lib b 0 = Inr (text_of zb)"
    "GetArrayDataSpec lib a = Inr (of_nat (cfg_streams za + cfg_structs za), of_nat (cfg_width za))"
    "GetArrayDataSpec lib b = Inr (of_nat (cfg_streams zb + cfg_structs zb), of_nat (cfg_width zb))" "cfg_ok za" "cfg_ok zb"
    using assms(1) [OF k(4)] assms(2) [OF k(5)] by (simp_all add: config_agrees_def)
  have "config_head lib (STRUCT [a, b]) = Inr ''struct(''" by (simp add: config_head_def GetConfigType_def)
  then have "GenerateConfigString lib ?f 0 = Inr (text_of y)"
    using m(1,2,6) k z(1,2) by (simp add: config_params_def)
  moreover have "cfg_streams za + cfg_structs za + (cfg_streams zb + cfg_structs zb) = cfg_streams y + cfg_structs y"
    using m(6) k cfg_streams_pos [of za] by simp
  then have "(of_nat (cfg_streams za + cfg_structs za) + of_nat (cfg_streams zb + cfg_structs zb) :: u32)
      = of_nat (cfg_streams y + cfg_structs y)" by (metis of_nat_add)
  then have "GetArrayDataSpec lib ?f = Inr (of_nat (cfg_streams y + cfg_structs y), of_nat (cfg_width y))"
    using m(3,4,6) k z(3,4) by simp
  ultimately show ?thesis using z(5,6) m(6) k(3,6) by (simp add: config_agrees_def)
qed

lemma config_agrees_all: "documented_lib lib \<Longrightarrow> config_of f = Some c \<Longrightarrow> config_agrees lib f c"
proof (induction "size f" arbitrary: f c rule: less_induct)
  case less
  have IH: "config_agrees lib g x" if "size g < size f" "config_of g = Some x" for g x
    using less(1) [OF that(1) less(2) that(2)] .
  obtain n t nl md where f: "f = Field n t nl md" by (cases f)
  consider k where "t = FIXED k" | "t = BOOL" | "t = STRING \<or> t = BINARY" | c where "t = LIST [c]" | a b where "t = STRUCT [a, b]"
    using less(3) unfolding f by (cases "Field n t nl md" rule: config_of.cases) auto
  then show ?case
  proof cases
    case (1 k)
    have "fixed_bits k < 2 ^ 31"
      using less(3) unfolding f 1 config_of.simps by (rule per_cycle_SomeD) (simp split: if_splits)
    then show ?thesis using agrees_prim [OF less(2), of t "fixed_bits k" k n nl md c] less(3) f 1 by simp
  next
    case 2
    then show ?thesis using agrees_prim [OF less(2), of t 1] less(3) f by simp
  next
    case 3
    then show ?thesis using agrees_text [OF 3, of n nl md c lib] less(3) f by auto
  next
    case (4 c')
    show ?thesis using agrees_list [of c' lib n nl md c] IH [of c'] less(3) unfolding f 4 by simp
  next
    case (5 a b)
    show ?thesis using agrees_struct [of a lib b n nl md c] IH [of a] IH [of b] less(3) unfolding f 5 by simp
  qed
qed

text \<open>The buffers of the field are the masters of its array, and each nullable field has a bit that says whether the bitmap is there.\<close>

lemma config_of_shape:
  assumes "config_of f = Some c"
  obtains x where "c = (if field_nullable f then Null_of x else x)"
    and "(\<exists>w e. (field_type f = BOOL \<or> (\<exists>k. field_type f = FIXED k)) \<and> x = Prim w e)
      \<or> (\<exists>e l. (field_type f = STRING \<or> field_type f = BINARY) \<and> x = Bytes e l)
      \<or> (\<exists>g z. field_type f = LIST [g] \<and> config_of g = Some z \<and> x = List_of z)
      \<or> (\<exists>a b y z. field_type f = STRUCT [a, b] \<and> config_of a = Some y \<and> config_of b = Some z \<and> x = Struct_of y z)"
proof -
  obtain n t nl md where f: "f = Field n t nl md" by (cases f)
  consider k where "t = FIXED k" | "t = BOOL" | "t = STRING \<or> t = BINARY" | g where "t = LIST [g]" | a b where "t = STRUCT [a, b]"
    using assms unfolding f by (cases "Field n t nl md" rule: config_of.cases) auto
  then show ?thesis
  proof cases
    case (1 k)
    show ?thesis using assms unfolding f 1 config_of.simps
      by (rule per_cycle_SomeD) (rule that, auto simp: f 1 split: if_splits)
  next
    case 2
    show ?thesis using assms unfolding f 2 config_of.simps
      by (rule per_cycle_SomeD) (rule that, auto simp: f 2 split: if_splits)
  next
    case 3
    then have "per_cycle (Field n t nl md) (\<lambda>e l. if l = 1 \<or> l = e then Some (Bytes e l) else None) = Some c"
      using assms f by auto
    then show ?thesis by (rule per_cycle_SomeD) (rule that, use 3 in \<open>auto simp: f split: if_splits\<close>)
  next
    case (4 g)
    show ?thesis using assms unfolding f 4 config_of.simps
      by (rule per_cycle_SomeD) (rule that, auto simp: f 4 split: if_splits)
  next
    case (5 a b)
    show ?thesis using assms unfolding f 5 config_of.simps
      by (rule per_cycle_SomeD) (rule that, auto simp: f 5 split: if_splits bind_splits)
  qed
qed

lemma buffers_of_config:
  "config_of f = Some c \<Longrightarrow> supported (field_type f) \<Longrightarrow>
    length (type_buffers True p (field_type f)) + of_bool (field_nullable f) = cfg_masters c
    \<and> nested_nullables (field_type f) + of_bool (field_nullable f) = cfg_nulls c"
proof (induction "size f" arbitrary: f c p rule: less_induct)
  case less
  have IH: "length (type_buffers True q t) + of_bool nl = cfg_masters x \<and> nested_nullables t + of_bool nl = cfg_nulls x"
    if "size (Field n t nl md) < size f" "config_of (Field n t nl md) = Some x" "supported t" for n t nl md x q
    using less(1) [of "Field n t nl md" x q] that by simp
  obtain x where c: "c = (if field_nullable f then Null_of x else x)"
    and x: "(\<exists>w e. (field_type f = BOOL \<or> (\<exists>k. field_type f = FIXED k)) \<and> x = Prim w e)
      \<or> (\<exists>e l. (field_type f = STRING \<or> field_type f = BINARY) \<and> x = Bytes e l)
      \<or> (\<exists>g z. field_type f = LIST [g] \<and> config_of g = Some z \<and> x = List_of z)
      \<or> (\<exists>a b y z. field_type f = STRUCT [a, b] \<and> config_of a = Some y \<and> config_of b = Some z \<and> x = Struct_of y z)"
    using config_of_shape [OF less(2)] .
  have "length (type_buffers True p (field_type f)) = cfg_masters x \<and> nested_nullables (field_type f) = cfg_nulls x"
    using x
  proof (elim disjE exE conjE)
    fix g z assume g: "field_type f = LIST [g]" "config_of g = Some z" "x = List_of z"
    obtain n t nl md where gf: "g = Field n t nl md" by (cases g)
    have "size g < size f" using g(1) by (cases f) simp
    then show ?thesis using IH [of n t nl md z p] g less(3) gf by (auto simp: validity_name_def)
  next
    fix a b y z assume s: "field_type f = STRUCT [a, b]" "config_of a = Some y" "config_of b = Some z" "x = Struct_of y z"
    obtain n t nl md where af: "a = Field n t nl md" by (cases a)
    obtain n' t' nl' md' where bf: "b = Field n' t' nl' md'" by (cases b)
    have "size a < size f" "size b < size f" using s(1) by (cases f; simp)+
    then show ?thesis using IH [of n t nl md y "p @ [n]"] IH [of n' t' nl' md' z "p @ [n']"] s less(3) af bf
      by (auto simp: validity_name_def)
  qed (use less(3) in auto)
  then show ?case using c by auto
qed

lemma ctrl_buffers:
  assumes "config_of f = Some c" "supported (field_type f)" "nested_nullables (field_type f) = 0"
  shows "GetCtrlBufferCount f = Inr (cfg_masters c)" "cfg_nulls c = of_bool (field_nullable f)"
proof -
  obtain fm where fm: "FieldAnalyzer_Analyze [] f = Inr fm" using FieldAnalyzer_ok_iff assms(2) by blast
  have "length (fm_buffers fm) = length (field_buffers False [] f)"
    using FieldAnalyzer_result [OF fm] by (metis length_map)
  also have "\<dots> = length (type_buffers False [] (field_type f)) + of_bool (field_nullable f)"
    by (simp add: field_buffers_def validity_name_def)
  also have "\<dots> = cfg_masters c"
    using buffers_of_config [OF assms(1,2), of "[]"] type_buffers_no_nested(1) [OF assms(3), of "[]"] by simp
  finally show "GetCtrlBufferCount f = Inr (cfg_masters c)" using fm by (simp add: GetCtrlBufferCount_def)
  show "cfg_nulls c = of_bool (field_nullable f)" using buffers_of_config [OF assms(1,2)] assms(3) by simp
qed

section \<open>Lists of fixed-width elements\<close>

text \<open>Their configuration has a closing parenthesis too many.\<close>

lemma lepc_unbalanced:
  assumes "plain_text w"
  shows "parse_param (''listprim('' @ w @ ''))'') ''lepc'' v = None"
    "parse_param (''listprim('' @ w @ '';epc='' @ show_nat e @ ''))'') ''lepc'' v = None"
proof -
  let ?A = "''listprim'' @ ''('' @ w @ ''))''"
  have "param_loop ?A ''lepc'' d ?A 1 0 False 0 = None" for d
    by (subst param_start [OF _ assms]) simp_all
  then show "parse_param (''listprim('' @ w @ ''))'') ''lepc'' v = None" by (simp add: parse_param_def)
  let ?B = "''listprim'' @ ''('' @ w @ '';epc='' @ show_nat e @ ''))''"
  have "param_loop ?B ''lepc'' d ?B 1 0 False 0 = None" for d
    using param_miss [of ?B "''listprim'' @ ''('' @ w" "CHR '';''" "''epc''" "show_nat e" "CHR '')''" "'')''"
        "length (''listprim'' @ ''('' @ w) + 1" False "''lepc''" d]
    by (subst param_start [OF _ assms]) simp_all
  then show "parse_param (''listprim('' @ w @ '';epc='' @ show_nat e @ ''))'') ''lepc'' v = None" by (simp add: parse_param_def)
qed

lemma list_of_prim_unreadable:
  "arcfg_userWidth log2ceil (''list'' @ text_of (Prim w e) @ '')'') 32 = None"
  "arcfg_userWidth log2ceil (''list'' @ text_of (Null_of (Prim w e)) @ '')'') 32 = None"
proof -
  let ?cfg = "''list'' @ text_of (Prim w e) @ '')''"
  have "parse_command ?cfg = Some ''listprim''" by (simp add: isAlphaNumeric_def)
  moreover have "lengths_width log2ceil ?cfg 32 = None"
    using lepc_unbalanced(1) [of "show_nat w" 1] lepc_unbalanced(2) [of "show_nat w" e 1] by (cases "1 < e") (simp_all add: lengths_width_def params_text_def)
  ultimately show "arcfg_userWidth log2ceil ?cfg 32 = None"
    unfolding arcfg_userWidth_def by (subst arcfg_userWidthInt.simps) (simp add: opt_plus_def)
  have "parse_command (''list'' @ text_of (Null_of (Prim w e)) @ '')'') = Some ''listnull''" by (simp add: isAlphaNumeric_def)
  then show "arcfg_userWidth log2ceil (''list'' @ text_of (Null_of (Prim w e)) @ '')'') 32 = None"
    unfolding arcfg_userWidth_def by (subst arcfg_userWidthInt.simps) simp
qed

lemma fixed_config:
  assumes "config_of g = Some c" "GetConfigType (field_type g) = CT_PRIM"
  shows "\<exists>w e. c = Prim w e \<or> c = Null_of (Prim w e)"
  using assms(1)
proof (rule config_of_shape)
  fix x
  assume "c = (if field_nullable g then Null_of x else x)"
    "(\<exists>w e. (field_type g = BOOL \<or> (\<exists>k. field_type g = FIXED k)) \<and> x = Prim w e)
      \<or> (\<exists>e l. (field_type g = STRING \<or> field_type g = BINARY) \<and> x = Bytes e l)
      \<or> (\<exists>h z. field_type g = LIST [h] \<and> config_of h = Some z \<and> x = List_of z)
      \<or> (\<exists>a b y z. field_type g = STRUCT [a, b] \<and> config_of a = Some y \<and> config_of b = Some z \<and> x = Struct_of y z)"
  then show ?thesis using assms(2) by (auto simp: GetConfigType_def)
qed

section \<open>The properties\<close>

text \<open>C7: a field with a documented configuration gets a configuration string that the hardware parses, and the data port
  that fletchgen makes for it has the width the hardware computes. Fletchgen counts one stream more than the
  hardware for each struct.\<close>

theorem array_config_matches_hardware:
  assumes "documented_lib lib" "\<forall>n>0. log2ceil n = ceil_log2 n" "config_of f = Some c"
  shows "\<exists>cfg w n. GenerateConfigString lib f 0 = Inr cfg
    \<and> arcfg_userWidth log2ceil cfg 32 = Some w \<and> arcfg_userCount cfg = Some n
    \<and> GetArrayDataSpec lib f = Inr (of_nat (n + cfg_structs c), of_nat w)"
  using config_agrees_all [OF assms(1,3)] arcfg_userWidth_text [OF assms(2)] arcfg_userCount_text [of c]
  unfolding config_agrees_def by blast

definition example_lib :: array_lib where
  "example_lib = \<lparr>bit_width = (\<lambda>t. case t of FIXED k \<Rightarrow> Some (of_nat (fixed_bits k)) | BOOL \<Rightarrow> Some 1 | _ \<Rightarrow> None),
     node_string = (\<lambda>n. case n of Bits i \<Rightarrow> show_int i | _ \<Rightarrow> [])\<rparr>"

lemma example_lib_documented: "documented_lib example_lib"
  by (simp add: documented_lib_def example_lib_def)

text \<open>A list of pairs of a number and a nullable string.\<close>

definition example_nested :: arrow_field where
  "example_nested = Field ''l'' (LIST [Field ''s'' (STRUCT
     [Field ''a'' (FIXED INT32) False None, Field ''b'' STRING True None]) False None]) True None"

lemma no_meta [simp]: "int_meta (Field n t nl None) key = Inr 1" "uint_meta (Field n t nl None) key = Inr 1"
  by (simp_all add: int_meta_def uint_meta_def GetUIntMeta_def GetMeta_def lookup_meta_def)

lemma example_nested_config:
  "config_of example_nested = Some (Null_of (List_of (Struct_of (Prim 32 1) (Null_of (Bytes 1 1)))))"
  by (simp add: example_nested_def per_cycle_def GetConfigType_def)

lemma array_config_matches_hardware_witness:
  "\<exists>cfg w n. GenerateConfigString example_lib example_nested 0 = Inr cfg
    \<and> arcfg_userWidth ceil_log2 cfg 32 = Some w \<and> arcfg_userCount cfg = Some n
    \<and> GetArrayDataSpec example_lib example_nested = Inr (of_nat (n + 1), of_nat w)"
  using array_config_matches_hardware [OF example_lib_documented _ example_nested_config, of ceil_log2] by simp

text \<open>The number of bus masters of the array is the number of buffers that fletchgen counts for the control vector, but the
  hardware expects one bit more in the vector of a nullable field than fletchgen gives it, which says whether the
  bitmap is there.\<close>

theorem control_vector_null_bit:
  assumes "documented_lib lib" "config_of f = Some c" "supported (field_type f)" "nested_nullables (field_type f) = 0"
  shows "\<exists>cfg b. GenerateConfigString lib f 0 = Inr cfg \<and> GetCtrlBufferCount f = Inr b \<and> arcfg_busCount cfg = Some b
    \<and> arcfg_ctrlWidth cfg BUS_ADDR_WIDTH = Some (b * BUS_ADDR_WIDTH + of_bool (field_nullable f))"
  using config_agrees_all [OF assms(1,2)] ctrl_buffers [OF assms(2-4)]
  unfolding config_agrees_def by (simp add: arcfg_busCount_text arcfg_ctrlWidth_text)

lemma control_vector_null_bit_witness:
  "\<exists>cfg b. GenerateConfigString example_lib (Field ''a'' STRING True None) 0 = Inr cfg
    \<and> GetCtrlBufferCount (Field ''a'' STRING True None) = Inr b \<and> arcfg_ctrlWidth cfg 64 = Some (b * 64 + 1)"
  using control_vector_null_bit [OF example_lib_documented, of "Field ''a'' STRING True None" "Null_of (Bytes 1 1)" 64]
  by (auto simp: per_cycle_def)

text \<open>For a list of fixed-width elements that is not nullable fletchgen computes a data port, but the configuration string
  it writes stops the elaboration of the hardware.\<close>

theorem list_of_fixed_width_unreadable:
  assumes "documented_lib lib" "config_of g = Some c" "GetConfigType (field_type g) = CT_PRIM" "f = Field n (LIST [g]) False md"
    and "int_meta f meta_VALUE_EPC = Inr 1" "int_meta f meta_LIST_EPC = Inr 1"
    and "uint_meta f meta_VALUE_EPC = Inr 1" "uint_meta f meta_LIST_EPC = Inr 1"
  shows "\<exists>cfg spec. GenerateConfigString lib f 0 = Inr cfg \<and> GetArrayDataSpec lib f = Inr spec
    \<and> arcfg_userWidth log2ceil cfg 32 = None"
proof -
  have g: "GenerateConfigString lib g 0 = Inr (text_of c)" "\<exists>spec. GetArrayDataSpec lib g = Inr spec"
    using config_agrees_all [OF assms(1,2)] by (simp_all add: config_agrees_def)
  have hd: "config_head lib (LIST [g]) = Inr ''list''" using assms(3) by (simp add: config_head_def GetConfigType_def)
  have "GenerateConfigString lib f 0 = Inr (''list'' @ text_of c @ '')'')"
    using assms(4-6) g(1) hd by (simp add: config_params_def)
  moreover have "\<exists>spec. GetArrayDataSpec lib f = Inr spec" using assms(4,7,8) g(2) by auto
  moreover obtain w e where "c = Prim w e \<or> c = Null_of (Prim w e)"
    using fixed_config [OF assms(2,3)] by blast
  ultimately show ?thesis using list_of_prim_unreadable by blast
qed

lemma list_of_fixed_width_unreadable_witness:
  "\<exists>cfg. GenerateConfigString example_lib (Field ''l'' (LIST [Field ''a'' (FIXED INT32) False None]) False None) 0 = Inr cfg
    \<and> arcfg_userWidth ceil_log2 cfg 32 = None"
  using list_of_fixed_width_unreadable [OF example_lib_documented, of "Field ''a'' (FIXED INT32) False None" "Prim 32 1"
      "Field ''l'' (LIST [Field ''a'' (FIXED INT32) False None]) False None" "''l''" None ceil_log2]
  by (auto simp: per_cycle_def GetConfigType_def)

end
