(* ===== verification/Array_Types.thy ===== *)
theory Array_Types
  imports Array_Config
begin

text \<open>
  The type of the stream that the kernel sees, against the data port of the Array(Reader/Writer) that it is
  mapped onto: \<^verbatim>\<open>GetStreamType\<close>, \<^verbatim>\<open>GetArrayDataSpec\<close> and \<^verbatim>\<open>GetStreamTypeMapper\<close> of
  \<^verbatim>\<open>fletchgen/src/fletchgen/array.cc\<close>.
\<close>

section \<open>The bits that are mapped onto the data port\<close>

text \<open>The mapper connects everything to the data but the handshakes, \<open>dvalid\<close> and \<open>last\<close>.\<close>

definition is_data :: "string option \<Rightarrow> bool" where
  "is_data nm = (nm \<noteq> Some ''dvalid'' \<and> nm \<noteq> Some ''last'')"

lemma is_data_mapper: "is_data nm \<longleftrightarrow> mapper_target (Flat_other (case nm of Some n \<Rightarrow> n | None \<Rightarrow> [])) = Some 4"
  by (auto simp: is_data_def mapper_target_def split: option.splits)

fun data_bits :: "hw_type \<Rightarrow> int" and data_bits_fields :: "hw_field list \<Rightarrow> int" where
  "data_bits (Hw_bit nm md) = of_bool (is_data nm)"
| "data_bits (Hw_vector nm (Bits w) md) = (if is_data nm then w else 0)"
| "data_bits (Hw_vector nm _ md) = 0"
| "data_bits (Hw_record nm fs) = data_bits_fields fs"
| "data_bits (Hw_stream nms t hs) = data_bits t"
| "data_bits_fields [] = 0"
| "data_bits_fields (Hw_field nm t r # fs) = data_bits t + data_bits_fields fs"

lemma data_bits_append [simp]: "data_bits_fields (fs @ gs) = data_bits_fields fs + data_bits_fields gs"
proof (induction fs)
  case (Cons f fs)
  then show ?case by (cases f) simp
qed simp

lemma data_bits_types [simp]:
  "data_bits (data_type w) = w" "data_bits (length_type w) = w" "data_bits (count_type w) = w" "data_bits validity_type = 1"
  "data_bits_fields dvalid_last = 0" "data_bits (anonymous_stream fs) = data_bits_fields fs"
  by (simp_all add: data_type_def length_type_def count_type_def validity_type_def dvalid_last_def dvalid_type_def
    last_type_def anonymous_stream_def is_data_def)

lemma data_bits_top:
  "data_bits (top_stream 0 nl epc w t) = data_bits t + of_bool nl + (if epc > 1 then w else 0)"
  "data_bits (top_stream (Suc l) nl epc w t) = data_bits t"
  by (simp_all add: top_stream_def)

section \<open>Fields whose stream carries the data port\<close>

text \<open>
  Below the top no validity bits and no counts are made, and a string never has a validity bit. Some types of fixed width have no
  counterpart at one element per cycle.
\<close>

fun plain_cfg :: "bool \<Rightarrow> array_cfg \<Rightarrow> bool" where
  "plain_cfg nested (Prim w e) = (e \<le> 2 ^ 20 \<and> (nested \<longrightarrow> e = 1))"
| "plain_cfg nested (Bytes e l) = (e \<le> 2 ^ 20 \<and> l \<le> 2 ^ 20)"
| "plain_cfg nested (List_of c) = plain_cfg True c"
| "plain_cfg nested (Struct_of a b) = (plain_cfg True a \<and> plain_cfg True b)"
| "plain_cfg nested (Null_of (Prim w e)) = (\<not> nested \<and> e = 1)"
| "plain_cfg nested (Null_of (List_of c)) = (\<not> nested \<and> plain_cfg True c)"
| "plain_cfg nested (Null_of _) = False"

definition kernel_kind :: "fixed_kind \<Rightarrow> bool" where
  "kernel_kind k = (k \<in> {INT8, INT16, INT32, INT64, UINT8, UINT16, UINT32, UINT64, HALF_FLOAT, FLOAT, DOUBLE})"

fun kernel_types :: "arrow_type \<Rightarrow> bool" and kernel_children :: "arrow_field list \<Rightarrow> bool" where
  "kernel_types (FIXED k) = kernel_kind k"
| "kernel_types STRING = True"
| "kernel_types BINARY = True"
| "kernel_types (LIST cs) = kernel_children cs"
| "kernel_types (STRUCT cs) = kernel_children cs"
| "kernel_types _ = False"
| "kernel_children [] = True"
| "kernel_children (Field n t nl md # cs) = (kernel_types t \<and> kernel_children cs)"

fun cfg_lists :: "array_cfg \<Rightarrow> nat" where
  "cfg_lists (Prim w e) = 0"
| "cfg_lists (Bytes e l) = 0"
| "cfg_lists (List_of c) = 1 + cfg_lists c"
| "cfg_lists (Null_of c) = cfg_lists c"
| "cfg_lists (Struct_of a b) = cfg_lists a + cfg_lists b"

lemma kernel_children_iff: "kernel_children cs \<longleftrightarrow> (\<forall>c\<in>set cs. kernel_types (field_type c))"
proof (induction cs)
  case (Cons c cs)
  then show ?case by (cases c) simp
qed simp

lemma count_width_int [simp]: "e \<le> 2 ^ 20 \<Longrightarrow> count_width (int e) = Inr (int (ceil_log2 (e + 1)))"
proof -
  assume "e \<le> 2 ^ 20"
  then show ?thesis
    using fits_int_def [of "int e + 1"] by (simp add: count_width_def nat_add_distrib)
qed

lemma count_width_1 [simp]: "count_width 1 = Inr 1"
  using count_width_int [of 1] by (simp add: ceil_log2.simps)

lemma convert_fixed:
  assumes "documented_lib lib" "kernel_kind k" "0 < e" "e \<le> 2 ^ 20"
  shows "\<exists>ty. ConvertFixedWidthType lib (FIXED k) (int e) = Inr ty \<and> data_bits ty = int (fixed_bits k * e)"
proof (cases "e = 1")
  case True
  then show ?thesis using assms(2) by (auto simp: kernel_kind_def ConvertFixedWidthType_def is_data_def)
next
  case False
  have w: "fixed_bits k \<le> 64" using assms(2) by (auto simp: kernel_kind_def)
  then have "bit_width lib (FIXED k) = Some (of_nat (fixed_bits k))" using assms(1) by (simp add: documented_lib_def)
  moreover have "sint (of_nat (fixed_bits k) :: u32) = int (fixed_bits k)" using w by (simp add: sint_small_nat)
  moreover have "e * fixed_bits k \<le> 2 ^ 20 * 64" using assms(4) w by (intro mult_le_mono)
  then have "fits_int (int e * int (fixed_bits k)) = Inr (int (e * fixed_bits k))"
    by (simp add: fits_int_def flip: of_nat_mult)
  ultimately show ?thesis using False by (simp add: ConvertFixedWidthType_def is_data_def mult.commute)
qed

text \<open>What is proved of a field, its configuration and its nesting level.\<close>

definition stream_agrees :: "array_lib \<Rightarrow> mode \<Rightarrow> nat \<Rightarrow> arrow_field \<Rightarrow> array_cfg \<Rightarrow> bool" where
  "stream_agrees lib mo level f c =
    (\<exists>ty. GetStreamType lib f mo level = Inr ty \<and> data_bits ty = int (cfg_width c + cfg_lists c))"

lemma stream_prim:
  assumes "documented_lib lib" "kernel_kind k" "config_of (Field n (FIXED k) nl md) = Some c" "plain_cfg (0 < level) c"
  shows "stream_agrees lib mo level (Field n (FIXED k) nl md) c"
proof -
  let ?f = "Field n (FIXED k) nl md"
  obtain e l x where m: "int_meta ?f meta_VALUE_EPC = Inr (int e)" "int_meta ?f meta_LIST_EPC = Inr (int l)" "0 < e"
    "(if l = 1 \<and> (nl \<longrightarrow> e = 1) \<and> fixed_bits k < 2 ^ 31 then Some (Prim (fixed_bits k) e) else None) = Some x"
    "c = (if nl then Null_of x else x)"
    using assms(3) unfolding config_of.simps by (rule per_cycle_SomeD) simp
  have k: "l = 1" "nl \<longrightarrow> e = 1" "x = Prim (fixed_bits k) e" using m(4) by (simp_all split: if_splits)
  have e: "e \<le> 2 ^ 20" "0 < level \<longrightarrow> e = 1 \<and> \<not> nl" using assms(4) m(5) k by (auto split: if_splits)
  obtain ty where ty: "ConvertFixedWidthType lib (FIXED k) (int e) = Inr ty" "data_bits ty = int (fixed_bits k * e)"
    using convert_fixed [OF assms(1,2) m(3) e(1)] by blast
  have "GetStreamType lib ?f mo level = Inr (top_stream level nl (int e) (int (ceil_log2 (e + 1))) ty)"
    using m(1,2) k(1) e(1) ty(1) by simp
  moreover have "data_bits (top_stream level nl (int e) (int (ceil_log2 (e + 1))) ty) = int (cfg_width c + cfg_lists c)"
    using m(3,5) k e ty(2) by (cases level; cases "1 < e") (auto simp: data_bits_top)
  ultimately show ?thesis by (auto simp: stream_agrees_def)
qed

lemma stream_text:
  assumes "t = STRING \<or> t = BINARY" "config_of (Field n t nl md) = Some c" "plain_cfg (0 < level) c"
  shows "stream_agrees lib mo level (Field n t nl md) c"
proof -
  let ?f = "Field n t nl md"
  have "per_cycle ?f (\<lambda>e l. if l = 1 \<or> l = e then Some (Bytes e l) else None) = Some c" using assms(1,2) by auto
  then obtain e l x where m: "int_meta ?f meta_VALUE_EPC = Inr (int e)" "int_meta ?f meta_LIST_EPC = Inr (int l)"
    "(if l = 1 \<or> l = e then Some (Bytes e l) else None) = Some x" "c = (if nl then Null_of x else x)"
    by (rule per_cycle_SomeD) simp
  have k: "x = Bytes e l" using m(3) by (simp split: if_splits)
  have e: "e \<le> 2 ^ 20" "l \<le> 2 ^ 20" "\<not> nl" using assms(3) m(4) k by (auto split: if_splits)
  have "fits_int (int e * 8) = Inr (int e * 8)" "fits_int (int l * 32) = Inr (int l * 32)"
    using e by (simp_all add: fits_int_def)
  then show ?thesis
    using assms(1) m(1,2,4) k e by (auto simp: stream_agrees_def text_type_def is_data_def)
qed

lemma stream_list:
  assumes "\<And>z. config_of g = Some z \<Longrightarrow> plain_cfg True z \<Longrightarrow> stream_agrees lib mo (Suc level) g z"
    and "config_of (Field n (LIST [g]) nl md) = Some c" "plain_cfg (0 < level) c"
  shows "stream_agrees lib mo level (Field n (LIST [g]) nl md) c"
proof -
  let ?f = "Field n (LIST [g]) nl md"
  obtain e l x where m: "int_meta ?f meta_VALUE_EPC = Inr (int e)" "int_meta ?f meta_LIST_EPC = Inr (int l)"
    "(if e = 1 \<and> l = 1 \<and> GetConfigType (field_type g) \<noteq> CT_PRIM then map_option List_of (config_of g) else None) = Some x"
    "c = (if nl then Null_of x else x)"
    using assms(2) unfolding config_of.simps by (rule per_cycle_SomeD) simp
  obtain z where k: "e = 1" "l = 1" "config_of g = Some z" "x = List_of z" using m(3) by (auto split: if_splits)
  have p: "plain_cfg True z" "0 < level \<longrightarrow> \<not> nl" using assms(3) m(4) k(4) by (auto split: if_splits)
  obtain ty where "GetStreamType lib g mo (Suc level) = Inr ty" "data_bits ty = int (cfg_width z + cfg_lists z)"
    using assms(1) [OF k(3) p(1)] by (auto simp: stream_agrees_def)
  then show ?thesis
    using m(1,2,4) k p(2) by (cases level) (auto simp: stream_agrees_def data_bits_top list_type_def)
qed

lemma stream_struct:
  assumes "\<And>z. config_of a = Some z \<Longrightarrow> plain_cfg True z \<Longrightarrow> stream_agrees lib mo (Suc level) a z"
    "\<And>z. config_of b = Some z \<Longrightarrow> plain_cfg True z \<Longrightarrow> stream_agrees lib mo (Suc level) b z"
    and "config_of (Field n (STRUCT [a, b]) nl md) = Some c" "plain_cfg (0 < level) c"
  shows "stream_agrees lib mo level (Field n (STRUCT [a, b]) nl md) c"
proof -
  let ?f = "Field n (STRUCT [a, b]) nl md"
  obtain e l x where m: "int_meta ?f meta_VALUE_EPC = Inr (int e)" "int_meta ?f meta_LIST_EPC = Inr (int l)"
    "(if e = 1 \<and> l = 1 \<and> \<not> nl
       then Option.bind (config_of a) (\<lambda>x. map_option (Struct_of x) (config_of b)) else None) = Some x"
    "c = (if nl then Null_of x else x)"
    using assms(3) unfolding config_of.simps by (rule per_cycle_SomeD) simp
  obtain y z where k: "e = 1" "l = 1" "\<not> nl" "config_of a = Some y" "config_of b = Some z" "x = Struct_of y z"
    using m(3) by (auto split: if_splits bind_splits)
  have p: "plain_cfg True y" "plain_cfg True z" using assms(4) m(4) k(3,6) by auto
  obtain ta tb where "GetStreamType lib a mo (Suc level) = Inr ta" "data_bits ta = int (cfg_width y + cfg_lists y)"
    "GetStreamType lib b mo (Suc level) = Inr tb" "data_bits tb = int (cfg_width z + cfg_lists z)"
    using assms(1) [OF k(4) p(1)] assms(2) [OF k(5) p(2)] by (auto simp: stream_agrees_def)
  then show ?thesis
    using m(1,2,4) k by (cases level) (auto simp: stream_agrees_def data_bits_top)
qed

lemma stream_agrees_all:
  assumes "documented_lib lib"
  shows "config_of f = Some c \<Longrightarrow> kernel_types (field_type f) \<Longrightarrow> plain_cfg (0 < level) c \<Longrightarrow> stream_agrees lib mo level f c"
proof (induction "size f" arbitrary: f c level rule: less_induct)
  case less
  have IH: "stream_agrees lib mo (Suc level) g x"
    if "size g < size f" "config_of g = Some x" "kernel_types (field_type g)" "plain_cfg True x" for g x
    using less(1) [of g x "Suc level"] that by simp
  obtain n t nl md where f: "f = Field n t nl md" by (cases f)
  consider k where "t = FIXED k" | "t = STRING \<or> t = BINARY" | g where "t = LIST [g]" | a b where "t = STRUCT [a, b]"
    using less(2,3) unfolding f by (cases "Field n t nl md" rule: config_of.cases) auto
  then show ?case
  proof cases
    case (1 k)
    then show ?thesis using stream_prim [OF assms, of k n nl md c level mo] less(2-4) f by simp
  next
    case 2
    then show ?thesis using stream_text [OF 2, of n nl md c level lib mo] less(2-4) f by simp
  next
    case (3 g)
    have g: "kernel_types (field_type g)" "size g < size f" using less(3) f 3 by (simp_all add: kernel_children_iff)
    have "stream_agrees lib mo (Suc level) g z" if "config_of g = Some z" "plain_cfg True z" for z
      by (rule IH [OF g(2) that(1) g(1) that(2)])
    then show ?thesis using stream_list [of g lib mo level n nl md c] less(2,4) unfolding f 3 by blast
  next
    case (4 a b)
    have a: "kernel_types (field_type a)" "size a < size f" using less(3) unfolding f 4 by (simp_all add: kernel_children_iff)
    have b: "kernel_types (field_type b)" "size b < size f" using less(3) unfolding f 4 by (simp_all add: kernel_children_iff)
    have "stream_agrees lib mo (Suc level) a z" if "config_of a = Some z" "plain_cfg True z" for z
      by (rule IH [OF a(2) that(1) a(1) that(2)])
    moreover have "stream_agrees lib mo (Suc level) b z" if "config_of b = Some z" "plain_cfg True z" for z
      by (rule IH [OF b(2) that(1) b(1) that(2)])
    ultimately show ?thesis using stream_struct [of a lib mo level b n nl md c] less(2,4) unfolding f 4 by blast
  qed
qed

text \<open>C8: the stream type that the kernel sees for a field has exactly the bits of the data port of its array and one more for each
  list of streams, whose count field has no counterpart in the port, when only the field itself is nullable or has
  several elements per cycle.\<close>

theorem stream_type_fills_data_port:
  assumes "documented_lib lib" "config_of f = Some c" "kernel_types (field_type f)" "plain_cfg False c"
  shows "\<exists>ty streams w. GetStreamType lib f mo 0 = Inr ty \<and> GetArrayDataSpec lib f = Inr (streams, of_nat w)
    \<and> data_bits ty = int (w + cfg_lists c)"
  using stream_agrees_all [OF assms(1-3), of 0 mo] assms(4) config_agrees_all [OF assms(1,2)]
  unfolding stream_agrees_def config_agrees_def by auto

text \<open>A list of strings with three characters per cycle.\<close>

definition example_list_field :: arrow_field where
  "example_list_field = Field ''l'' (LIST [Field ''s'' STRING False (Some [(meta_VALUE_EPC, ''3'')])]) True None"

lemma stream_type_fills_data_port_witness:
  "\<exists>ty streams w. GetStreamType example_lib example_list_field READ 0 = Inr ty
    \<and> GetArrayDataSpec example_lib example_list_field = Inr (streams, of_nat w) \<and> data_bits ty = int (w + 1)"
proof -
  have "show_nat 3 = ''3''" by code_simp
  then have "stoul ''3'' 10 = Inr 3" using stoul_show_nat [of 3] by simp
  then have "config_of example_list_field = Some (Null_of (List_of (Bytes 3 1)))"
    by (simp add: example_list_field_def per_cycle_def GetConfigType_def int_meta_def GetUIntMeta_def GetMeta_def
        lookup_meta_def meta_keys)
  then show ?thesis
    using stream_type_fills_data_port [OF example_lib_documented, of example_list_field "Null_of (List_of (Bytes 3 1))" READ]
    by (simp add: example_list_field_def)
qed

end
