(* ===== verification/Bus.thy ===== *)
theory Bus
  imports Meta
begin

text \<open>
  Bus dimensions and specifications, the part of \<^verbatim>\<open>fletchgen/bus.h\<close> and \<^verbatim>\<open>bus.cc\<close> that does
  not build Cerata components (that part is in \<^theory_text>\<open>Bus_Ports\<close>): defaults, parsing, printing, names and equality.
\<close>

datatype bus_function = BUS_READ | BUS_WRITE

record bus_dim =
  bd_aw :: u32
  bd_dw :: u32
  bd_lw :: u32
  bd_bs :: u32
  bd_bm :: u32

definition BusDim_default :: bus_dim where
  "BusDim_default = \<lparr>bd_aw = 64, bd_dw = 512, bd_lw = 8, bd_bs = 1, bd_bm = 16\<rparr>"

record bus_spec =
  bs_dim :: bus_dim
  bs_func :: bus_function

definition bus_dim_eq :: "bus_dim \<Rightarrow> bus_dim \<Rightarrow> bool" where
  "bus_dim_eq lhs rhs = (bd_aw lhs = bd_aw rhs \<and> bd_dw lhs = bd_dw rhs \<and> bd_lw lhs = bd_lw rhs
     \<and> bd_bs lhs = bd_bs rhs \<and> bd_bm lhs = bd_bm rhs)"

definition bus_spec_eq :: "bus_spec \<Rightarrow> bus_spec \<Rightarrow> bool" where
  "bus_spec_eq lhs rhs = (bus_dim_eq (bs_dim lhs) (bs_dim rhs) \<and> bs_func lhs = bs_func rhs)"

definition GetBusArbiterName :: "bus_function \<Rightarrow> string" where
  "GetBusArbiterName f = ''Bus'' @ (if f = BUS_READ then ''Read'' else ''Write'') @ ''ArbiterVec''"

definition BusDim_ToName :: "bus_dim \<Rightarrow> string" where
  "BusDim_ToName d = ''AW'' @ show_nat (unat (bd_aw d)) @ ''DW'' @ show_nat (unat (bd_dw d)) @
     ''LW'' @ show_nat (unat (bd_lw d)) @ ''BS'' @ show_nat (unat (bd_bs d)) @
     ''BM'' @ show_nat (unat (bd_bm d))"

definition BusDim_ToString :: "bus_dim \<Rightarrow> string" where
  "BusDim_ToString d = ''address width: '' @ show_nat (unat (bd_aw d)) @
     '', data width: '' @ show_nat (unat (bd_dw d)) @
     '', burst length width: '' @ show_nat (unat (bd_lw d)) @
     '', minimum burst size: '' @ show_nat (unat (bd_bs d)) @
     '', maximum burst size: '' @ show_nat (unat (bd_bm d))"

definition BusSpec_ToName :: "bus_spec \<Rightarrow> string" where
  "BusSpec_ToName s = (if bs_func s = BUS_READ then ''RD'' else ''WR'') @ BusDim_ToName (bs_dim s)"

text \<open>The hash of a specification is that of its name; the hash of strings is a parameter.\<close>

definition BusSpec_hash :: "(string \<Rightarrow> u64) \<Rightarrow> bus_spec \<Rightarrow> u64" where
  "BusSpec_hash string_hash s = string_hash (BusSpec_ToName s)"

text \<open>The loop of \<^verbatim>\<open>ParseCSV\<close>: the piece before the first comma is read and erased with the comma.\<close>

function csv_loop :: "string \<Rightarrow> u64 list" where
  "csv_loop str = (if CHR '','' \<in> set str
     then strtoul (takeWhile (\<lambda>c. c \<noteq> CHR '','') str) 10 # csv_loop (tl (dropWhile (\<lambda>c. c \<noteq> CHR '','') str))
     else [])"
  by auto
termination
proof (relation "measure length")
  fix str :: string
  assume "CHR '','' \<in> set str"
  then have "dropWhile (\<lambda>c. c \<noteq> CHR '','') str \<noteq> []" by (auto simp: dropWhile_eq_Nil_conv)
  then show "(tl (dropWhile (\<lambda>c. c \<noteq> CHR '','') str), str) \<in> measure length"
    using length_dropWhile_le [of "\<lambda>c. c \<noteq> CHR '',''" str]
    by (cases "dropWhile (\<lambda>c. c \<noteq> CHR '','') str") auto
qed auto

declare csv_loop.simps [simp del]

definition ParseCSV :: "string \<Rightarrow> u64 list" where
  "ParseCSV str = csv_loop (str @ '','')"

definition BusDim_FromString :: "string \<Rightarrow> bus_dim \<Rightarrow> bus_dim res" where
  "BusDim_FromString str default_to =
    (if str \<noteq> [] then
       let vs = ParseCSV str in
       if length vs \<noteq> 5 then Inl Exited
       else Inr (default_to\<lparr>bd_aw := ucast (vs ! 0), bd_dw := ucast (vs ! 1), bd_lw := ucast (vs ! 2),
                            bd_bs := ucast (vs ! 3), bd_bm := ucast (vs ! 4)\<rparr>)
     else Inr default_to)"

section \<open>Lemmas\<close>

lemma csv_loop_piece: "CHR '','' \<notin> set p \<Longrightarrow> csv_loop (p @ CHR '','' # rest) = strtoul p 10 # csv_loop rest"
proof -
  assume "CHR '','' \<notin> set p"
  then have "takeWhile (\<lambda>c. c \<noteq> CHR '','') (p @ CHR '','' # rest) = p \<and>
    dropWhile (\<lambda>c. c \<noteq> CHR '','') (p @ CHR '','' # rest) = CHR '','' # rest"
    by (induction p) auto
  then show ?thesis by (subst csv_loop.simps) simp
qed

lemma csv_loop_Nil [simp]: "csv_loop [] = []"
  by (subst csv_loop.simps) simp

lemma ParseCSV_join:
  "ps \<noteq> [] \<Longrightarrow> \<forall>p\<in>set ps. CHR '','' \<notin> set p \<Longrightarrow> ParseCSV (join '','' ps) = map (\<lambda>p. strtoul p 10) ps"
  unfolding ParseCSV_def
proof (induction ps rule: induct_list012)
  case (3 p q ps)
  have "csv_loop (p @ CHR '','' # (join '','' (q # ps) @ '','')) = strtoul p 10 # csv_loop (join '','' (q # ps) @ '','')"
    by (rule csv_loop_piece) (use 3 in simp)
  then show ?case using 3 by simp
qed (simp_all add: csv_loop_piece)

lemma comma_not_in_show_nat: "CHR '','' \<notin> set (show_nat n)"
proof
  assume "CHR '','' \<in> set (show_nat n)"
  then obtain d where "d < 10" "CHR '','' = digit_char False d" using set_show_nat by blast
  then show False using digit_char_neq(3) [of d False] by simp
qed

lemma comma_not_in_show_int: "CHR '','' \<notin> set (show_int i)"
  by (simp add: show_int_def comma_not_in_show_nat)

definition csv_of_dim :: "bus_dim \<Rightarrow> string" where
  "csv_of_dim d = join '','' [show_nat (unat (bd_aw d)), show_nat (unat (bd_dw d)), show_nat (unat (bd_lw d)),
     show_nat (unat (bd_bs d)), show_nat (unat (bd_bm d))]"

lemma ucast_strtoul_show: "(ucast (strtoul (show_nat (unat (w :: u32))) 10) :: u32) = w"
proof -
  have "unat w < 2 ^ 64" using unat_lt_u32 [of w] by simp
  moreover have "(ucast (ucast w :: u64) :: u32) = w" by (rule bit_word_eqI) (simp add: bit_simps)
  ultimately show ?thesis by (simp add: strtoul_show_nat)
qed

definition dec_char :: "char \<Rightarrow> bool" where
  "dec_char c = (case digit_val c of Some d \<Rightarrow> d < 10 | None \<Rightarrow> False)"

lemma dec_letters: "\<not> dec_char CHR ''D''" "\<not> dec_char CHR ''L''" "\<not> dec_char CHR ''B''"
  by (simp_all add: dec_char_def digit_val_def)

lemma show_nat_split:
  assumes "show_nat m @ c # r = show_nat n @ c' # r'" "\<not> dec_char c" "\<not> dec_char c'"
  shows "m = n \<and> c = c' \<and> r = r'"
proof -
  have dig: "dec_char x" if "x \<in> set (show_nat k)" for x k
    using set_show_nat [OF that] by (auto simp: dec_char_def)
  have "takeWhile dec_char (show_nat k @ x # y) = show_nat k" if "\<not> dec_char x" for k x y
    using that dig by (subst takeWhile_append2) auto
  then have "show_nat m = show_nat n" using assms by metis
  then show ?thesis using assms(1) by (simp add: show_nat_inj)
qed

section \<open>Properties\<close>

text \<open>The five bus dimensions written in decimal and separated by commas are read back as they are,
  whatever the default.\<close>

theorem bus_dim_roundtrip: "BusDim_FromString (csv_of_dim d) d0 = Inr d"
proof -
  let ?ps = "[show_nat (unat (bd_aw d)), show_nat (unat (bd_dw d)), show_nat (unat (bd_lw d)),
     show_nat (unat (bd_bs d)), show_nat (unat (bd_bm d))]"
  have "ParseCSV (csv_of_dim d) = map (\<lambda>p. strtoul p 10) ?ps"
    unfolding csv_of_dim_def by (rule ParseCSV_join) (simp_all add: comma_not_in_show_nat)
  moreover have "csv_of_dim d \<noteq> []" by (simp add: csv_of_dim_def)
  ultimately show ?thesis by (simp add: BusDim_FromString_def Let_def ucast_strtoul_show)
qed

text \<open>The metadata that \<^verbatim>\<open>WithMetaBusSpec\<close> attaches is never accepted: it has seven numbers where
  the parser of bus dimensions, which ends the program otherwise, asks for five.\<close>

theorem bus_spec_metadata_rejected:
  "BusDim_FromString (GetMeta_schema (WithMetaBusSpec s aw dw sw lw bs bm) meta_BUS_SPEC) d0 = Inl Exited"
proof -
  let ?ps = "[show_int aw, show_int aw, show_int dw, show_int sw, show_int lw, show_int bs, show_int bm]"
  have v: "GetMeta_schema (WithMetaBusSpec s aw dw sw lw bs bm) meta_BUS_SPEC = join '','' ?ps"
    by (simp add: GetMeta_schema_def WithMetaBusSpec_def WithMetadata_schema_def lookup_meta_def)
  have "ParseCSV (join '','' ?ps) = map (\<lambda>p. strtoul p 10) ?ps"
    by (rule ParseCSV_join) (simp_all add: comma_not_in_show_int)
  moreover have "join '','' ?ps \<noteq> []" by simp
  ultimately show ?thesis by (simp add: v BusDim_FromString_def Let_def del: join.simps)
qed

text \<open>The name of a bus specification determines it, so two specifications compare equal exactly when
  their names do, which is what the hash and the grouping of ports by name rely on.\<close>

theorem bus_spec_name_injective: "BusSpec_ToName s = BusSpec_ToName t \<longleftrightarrow> bus_spec_eq s t"
proof
  assume n: "BusSpec_ToName s = BusSpec_ToName t"
  have f: "bs_func s = bs_func t" and d: "BusDim_ToName (bs_dim s) = BusDim_ToName (bs_dim t)"
    using n by (cases "bs_func s"; cases "bs_func t"; simp add: BusSpec_ToName_def)+
  let ?s = "bs_dim s" and ?t = "bs_dim t"
  have aw: "unat (bd_aw ?s) = unat (bd_aw ?t)"
    and "show_nat (unat (bd_dw ?s)) @ CHR ''L'' # ''W'' @ show_nat (unat (bd_lw ?s)) @ CHR ''B'' # ''S'' @
      show_nat (unat (bd_bs ?s)) @ CHR ''B'' # ''M'' @ show_nat (unat (bd_bm ?s)) =
     show_nat (unat (bd_dw ?t)) @ CHR ''L'' # ''W'' @ show_nat (unat (bd_lw ?t)) @ CHR ''B'' # ''S'' @
      show_nat (unat (bd_bs ?t)) @ CHR ''B'' # ''M'' @ show_nat (unat (bd_bm ?t))"
    using d by (auto simp: BusDim_ToName_def dest!: show_nat_split simp: dec_letters)
  then have dw: "unat (bd_dw ?s) = unat (bd_dw ?t)"
    and "show_nat (unat (bd_lw ?s)) @ CHR ''B'' # ''S'' @ show_nat (unat (bd_bs ?s)) @ CHR ''B'' # ''M'' @
      show_nat (unat (bd_bm ?s)) =
     show_nat (unat (bd_lw ?t)) @ CHR ''B'' # ''S'' @ show_nat (unat (bd_bs ?t)) @ CHR ''B'' # ''M'' @
      show_nat (unat (bd_bm ?t))"
    by (auto dest!: show_nat_split simp: dec_letters)
  then have lw: "unat (bd_lw ?s) = unat (bd_lw ?t)"
    and "show_nat (unat (bd_bs ?s)) @ CHR ''B'' # ''M'' @ show_nat (unat (bd_bm ?s)) =
     show_nat (unat (bd_bs ?t)) @ CHR ''B'' # ''M'' @ show_nat (unat (bd_bm ?t))"
    by (auto dest!: show_nat_split simp: dec_letters)
  then have "unat (bd_bs ?s) = unat (bd_bs ?t)" "unat (bd_bm ?s) = unat (bd_bm ?t)"
    by (auto dest!: show_nat_split simp: dec_letters show_nat_inj)
  with aw dw lw f show "bus_spec_eq s t"
    by (simp add: bus_spec_eq_def bus_dim_eq_def word_unat_eq_iff)
qed (simp add: bus_spec_eq_def bus_dim_eq_def BusSpec_ToName_def BusDim_ToName_def)

end
