(* ===== verification/Schema_Set.thy ===== *)
theory Schema_Set
  imports Bus "HOL-Library.Multiset" "HOL-Library.List_Lexorder" "HOL-Library.Char_ord"
begin

text \<open>
  Schemas with a name and a mode and the sorted set of them, \<^verbatim>\<open>fletchgen/schema.h\<close> and
  \<^verbatim>\<open>schema.cc\<close>. Strings are compared as \<^verbatim>\<open>std::string\<close> does, byte by byte; the names in a set
  differ, so \<^verbatim>\<open>std::sort\<close> by name has one possible result. Log lines of the levels INFO and
  WARNING are left out.
\<close>

section \<open>Schemas\<close>

record fletcher_schema =
  fs_arrow_schema :: arrow_schema
  fs_mode :: mode
  fs_name :: string
  fs_bus_dims :: bus_dim

text \<open>The argument \<open>schema_name\<close> is not used by the source.\<close>

definition FletcherSchema_new :: "arrow_schema \<Rightarrow> string \<Rightarrow> fletcher_schema res" where
  "FletcherSchema_new arrow_schema schema_name =
    (let name = GetMeta_schema arrow_schema meta_NAME in
     if name = [] then Inl Exited
     else res_bind (BusDim_FromString (GetMeta_schema arrow_schema meta_BUS_SPEC) BusDim_default) (\<lambda>dims.
       Inr \<lparr>fs_arrow_schema = arrow_schema, fs_mode = GetMode arrow_schema, fs_name = name,
            fs_bus_dims = dims\<rparr>))"

definition FletcherSchema_Make :: "arrow_schema \<Rightarrow> string \<Rightarrow> fletcher_schema res" where
  "FletcherSchema_Make arrow_schema schema_name = FletcherSchema_new arrow_schema schema_name"

section \<open>Schema sets\<close>

record schema_set =
  ss_name :: string
  ss_schemas :: "fletcher_schema list"

definition SchemaSet_Make :: "string \<Rightarrow> schema_set" where
  "SchemaSet_Make name = \<lparr>ss_name = name, ss_schemas = []\<rparr>"

definition RequiresReading :: "schema_set \<Rightarrow> bool" where
  "RequiresReading s = (\<exists>fs\<in>set (ss_schemas s). fs_mode fs = READ)"

definition RequiresWriting :: "schema_set \<Rightarrow> bool" where
  "RequiresWriting s = (\<exists>fs\<in>set (ss_schemas s). fs_mode fs = WRITE)"

definition HasSchemaWithName :: "schema_set \<Rightarrow> string \<Rightarrow> bool" where
  "HasSchemaWithName s name = (\<exists>fs\<in>set (ss_schemas s). fs_name fs = name)"

definition GetSchema :: "schema_set \<Rightarrow> string \<Rightarrow> fletcher_schema option" where
  "GetSchema s name = find (\<lambda>fs. fs_name fs = name) (ss_schemas s)"

definition AppendSchema :: "schema_set \<Rightarrow> arrow_schema \<Rightarrow> schema_set res" where
  "AppendSchema s arrow_schema =
    (let name = GetMeta_schema arrow_schema meta_NAME in
     if name = [] then Inr s
     else if \<not> HasSchemaWithName s name then
       res_bind (FletcherSchema_new arrow_schema []) (\<lambda>fs. Inr (s\<lparr>ss_schemas := ss_schemas s @ [fs]\<rparr>))
     else Inr s)"

definition read_schemas :: "schema_set \<Rightarrow> fletcher_schema list" where
  "read_schemas s = filter (\<lambda>fs. fs_mode fs = READ) (ss_schemas s)"

definition write_schemas :: "schema_set \<Rightarrow> fletcher_schema list" where
  "write_schemas s = filter (\<lambda>fs. fs_mode fs = WRITE) (ss_schemas s)"

fun mode_rank :: "mode \<Rightarrow> nat" where
  "mode_rank READ = 0"
| "mode_rank WRITE = 1"

text \<open>The comparison of the second sort is true exactly when the first mode is READ and the second WRITE.\<close>

definition SchemaSet_Sort :: "schema_set \<Rightarrow> schema_set" where
  "SchemaSet_Sort s = s\<lparr>ss_schemas :=
     sort_key (\<lambda>fs. mode_rank (fs_mode fs)) (sort_key fs_name (ss_schemas s))\<rparr>"

section \<open>Lemmas\<close>

definition names_ok :: "schema_set \<Rightarrow> bool" where
  "names_ok s \<longleftrightarrow> distinct (map fs_name (ss_schemas s)) \<and> (\<forall>fs\<in>set (ss_schemas s). fs_name fs \<noteq> [])"

lemma FletcherSchema_new_fields:
  assumes "FletcherSchema_new a n = Inr fs"
  shows "fs_name fs = GetMeta_schema a meta_NAME" "fs_name fs \<noteq> []" "fs_mode fs = GetMode a" "fs_arrow_schema fs = a"
  using assms by (auto simp: FletcherSchema_new_def Let_def res_bind_Inr_iff split: if_splits)

lemma names_ok_Append: "names_ok s \<Longrightarrow> AppendSchema s a = Inr s' \<Longrightarrow> names_ok s'"
  by (auto simp: names_ok_def AppendSchema_def Let_def HasSchemaWithName_def res_bind_Inr_iff
      FletcherSchema_new_fields split: if_splits) blast+

lemma insort_mode:
  "insort_key (\<lambda>fs. mode_rank (fs_mode fs)) x
     (filter (\<lambda>fs. fs_mode fs = READ) xs @ filter (\<lambda>fs. fs_mode fs = WRITE) ys) =
   filter (\<lambda>fs. fs_mode fs = READ) (if fs_mode x = READ then x # xs else xs) @
   filter (\<lambda>fs. fs_mode fs = WRITE) (if fs_mode x = READ then ys else x # ys)"
proof (cases "fs_mode x")
  case READ
  then show ?thesis
    by (cases "filter (\<lambda>fs. fs_mode fs = READ) xs @ filter (\<lambda>fs. fs_mode fs = WRITE) ys") auto
next
  case WRITE
  have "insort_key (\<lambda>fs. mode_rank (fs_mode fs)) x (filter (\<lambda>fs. fs_mode fs = WRITE) ys)
      = x # filter (\<lambda>fs. fs_mode fs = WRITE) ys"
    using WRITE by (cases "filter (\<lambda>fs. fs_mode fs = WRITE) ys") (auto dest!: filter_eq_ConsD)
  then show ?thesis using WRITE by (induction xs) auto
qed

lemma sort_key_mode:
  "sort_key (\<lambda>fs. mode_rank (fs_mode fs)) xs = filter (\<lambda>fs. fs_mode fs = READ) xs @ filter (\<lambda>fs. fs_mode fs = WRITE) xs"
proof (induction xs)
  case (Cons x xs)
  then show ?case by (cases "fs_mode x") (simp_all add: insort_mode)
qed simp

lemma mset_modes: "mset (filter (\<lambda>fs. fs_mode fs = READ) xs @ filter (\<lambda>fs. fs_mode fs = WRITE) xs) = mset xs"
proof (induction xs)
  case (Cons x xs)
  then show ?case by (cases "fs_mode x") auto
qed simp

lemma filter_sort_names: "filter P (sort_key fs_name xs) = sort_key fs_name (filter P xs)"
  by (rule filter_sort)

section \<open>Properties\<close>

text \<open>Sorting a schema set puts all schemas that are read before all that are written, each group
  ordered by name, and keeps the schemas. The registers and the buffer addresses follow this order.\<close>

theorem schema_sort_order:
  "ss_schemas (SchemaSet_Sort s) = sort_key fs_name (read_schemas s) @ sort_key fs_name (write_schemas s)
   \<and> mset (ss_schemas (SchemaSet_Sort s)) = mset (ss_schemas s)
   \<and> sorted (map fs_name (read_schemas (SchemaSet_Sort s))) \<and> sorted (map fs_name (write_schemas (SchemaSet_Sort s)))"
proof -
  let ?xs = "sort_key fs_name (ss_schemas s)"
  have sorted: "ss_schemas (SchemaSet_Sort s) = sort_key fs_name (read_schemas s) @ sort_key fs_name (write_schemas s)"
    by (simp add: SchemaSet_Sort_def sort_key_mode filter_sort_names read_schemas_def write_schemas_def)
  have "mset (ss_schemas (SchemaSet_Sort s)) = mset (ss_schemas s)"
    using mset_modes [of ?xs] by (simp add: SchemaSet_Sort_def sort_key_mode)
  moreover have "read_schemas (SchemaSet_Sort s) = sort_key fs_name (read_schemas s)"
    "write_schemas (SchemaSet_Sort s) = sort_key fs_name (write_schemas s)"
    unfolding read_schemas_def [of "SchemaSet_Sort s"] write_schemas_def [of "SchemaSet_Sort s"] sorted
    by (auto simp: read_schemas_def write_schemas_def filter_sort_names)
  ultimately show ?thesis using sorted by simp
qed

text \<open>The names in a schema set stay distinct and nonempty whatever schemas are appended: an anonymous
  schema and one whose name is taken leave the set unchanged, even when the schema differs from the one
  of that name.\<close>

theorem schema_names_invariant:
  assumes "names_ok s"
  shows "case AppendSchema s a of Inl e \<Rightarrow> e = Exited
    | Inr s' \<Rightarrow> names_ok s' \<and>
        (if GetMeta_schema a meta_NAME = [] \<or> HasSchemaWithName s (GetMeta_schema a meta_NAME) then s' = s
         else \<exists>fs. ss_schemas s' = ss_schemas s @ [fs] \<and> fs_arrow_schema fs = a)"
proof (cases "AppendSchema s a")
  case (Inl e)
  then have "e = Exited"
    by (auto simp: AppendSchema_def FletcherSchema_new_def BusDim_FromString_def Let_def split: if_splits)
  then show ?thesis using Inl by simp
next
  case (Inr s')
  have "if GetMeta_schema a meta_NAME = [] \<or> HasSchemaWithName s (GetMeta_schema a meta_NAME) then s' = s
    else \<exists>fs. ss_schemas s' = ss_schemas s @ [fs] \<and> fs_arrow_schema fs = a"
    using Inr by (auto simp: AppendSchema_def Let_def res_bind_Inr_iff dest: FletcherSchema_new_fields
        split: if_splits)
  then show ?thesis using Inr names_ok_Append [OF assms Inr] by simp
qed

lemma schema_names_invariant_witness:
  "\<exists>s'. AppendSchema (SchemaSet_Make ''K'') (WithMetaRequired \<lparr>schema_fields = [], schema_metadata = None\<rparr> ''In'' READ) = Inr s'
    \<and> names_ok s'"
proof -
  let ?a = "WithMetaRequired \<lparr>schema_fields = [], schema_metadata = None\<rparr> ''In'' READ"
  have ok: "names_ok (SchemaSet_Make ''K'')" by (simp add: names_ok_def SchemaSet_Make_def)
  have "GetMeta_schema ?a meta_BUS_SPEC = []" "GetMeta_schema ?a meta_NAME = ''In''"
    by (simp_all add: WithMetaRequired_def WithMetadata_schema_def GetMeta_schema_def lookup_meta_def meta_keys)
  then obtain s' where "AppendSchema (SchemaSet_Make ''K'') ?a = Inr s'"
    by (simp add: AppendSchema_def HasSchemaWithName_def SchemaSet_Make_def FletcherSchema_new_def
        BusDim_FromString_def Let_def)
  then show ?thesis using schema_names_invariant [OF ok, of ?a] by simp
qed

end
