(* ===== verification/Options.thy ===== *)
theory Options
  imports Batch_Desc
begin

text \<open>
  The program options of fletchgen, \<^verbatim>\<open>fletchgen/options.h\<close> and \<^verbatim>\<open>options.cc\<close>, without the
  command line parser, which is a library; what is done with its result is in \<^theory_text>\<open>Fletchgen\<close>. Warnings have no effect on the results.
\<close>

record options =
  schema_paths :: "string list"
  opt_schemas :: "arrow_schema list"
  recordbatch_paths :: "string list"
  opt_recordbatches :: "record_batch list"
  output_dir :: string
  languages :: "string list"
  srec_out_path :: string
  srec_sim_dump :: string
  kernel_name :: string
  opt_regs :: "string list"
  opt_bus_dims :: "string list"
  axi_top :: bool
  sim_top :: bool
  backup :: bool
  vivado_hls :: bool
  opt_quit :: bool
  quiet :: bool
  verbose :: bool
  show_version :: bool

definition Options_default :: options where
  "Options_default = \<lparr>schema_paths = [], opt_schemas = [], recordbatch_paths = [], opt_recordbatches = [],
     output_dir = ''.'', languages = [''vhdl'', ''dot''], srec_out_path = [], srec_sim_dump = [],
     kernel_name = ''Kernel'', opt_regs = [], opt_bus_dims = [''64,512,8,1,16''], axi_top = False,
     sim_top = False, backup = False, vivado_hls = False, opt_quit = False, quiet = False,
     verbose = False, show_version = False\<rparr>"

definition HasLanguage :: "string list \<Rightarrow> string \<Rightarrow> bool" where
  "HasLanguage langs lang = (\<exists>l\<in>set langs. l = lang)"

definition MustGenerateDesign :: "options \<Rightarrow> bool" where
  "MustGenerateDesign o' = (schema_paths o' \<noteq> [] \<or> recordbatch_paths o' \<noteq> [])"

definition MustGenerateSREC :: "options \<Rightarrow> bool" where
  "MustGenerateSREC o' =
    (if srec_out_path o' \<noteq> [] then (if opt_recordbatches o' = [] then False else True) else False)"

definition MustGenerateVHDL :: "options \<Rightarrow> bool" where
  "MustGenerateVHDL o' = (HasLanguage (languages o') ''vhdl'' \<and> MustGenerateDesign o')"

definition MustGenerateDOT :: "options \<Rightarrow> bool" where
  "MustGenerateDOT o' = (HasLanguage (languages o') ''dot'' \<and> MustGenerateDesign o')"

fun load_batches :: "('f, 'r, record_batch) arrow_io \<Rightarrow> string list \<Rightarrow> record_batch list \<Rightarrow> record_batch list res" where
  "load_batches io [] acc = Inr acc"
| "load_batches io (path # paths) acc =
    res_bind (ReadRecordBatchesFromFile io path []) (\<lambda>rbs. load_batches io paths (acc @ rbs))"

definition LoadRecordBatches :: "('f, 'r, record_batch) arrow_io \<Rightarrow> options \<Rightarrow> options res" where
  "LoadRecordBatches io o' =
    res_bind (load_batches io (recordbatch_paths o') (opt_recordbatches o')) (\<lambda>rbs.
    Inr (o'\<lparr>opt_recordbatches := rbs\<rparr>))"

fun load_schemas :: "('f, 'r, record_batch) arrow_io \<Rightarrow> string list \<Rightarrow> arrow_schema list \<Rightarrow> arrow_schema list res" where
  "load_schemas io [] acc = Inr acc"
| "load_schemas io (path # paths) acc =
    res_bind (ReadSchemaFromFile io path) (\<lambda>s. load_schemas io paths (acc @ [s]))"

definition LoadSchemas :: "('f, 'r, record_batch) arrow_io \<Rightarrow> options \<Rightarrow> options res" where
  "LoadSchemas io o' =
    res_bind (load_schemas io (schema_paths o') (opt_schemas o')) (\<lambda>ss. Inr (o'\<lparr>opt_schemas := ss\<rparr>))"

definition path_line :: "string \<Rightarrow> string" where
  "path_line p = ''  '' @ p @ [newline]"

text \<open>Both loops of the source go over the schema paths.\<close>

definition Options_ToString :: "options \<Rightarrow> string" where
  "Options_ToString o' = ''Schema paths:'' @ [newline] @ concat (map path_line (schema_paths o')) @
     ''RecordBatch paths:'' @ [newline] @ concat (map path_line (schema_paths o'))"

end
