(* ===== verification/Design.thy ===== *)
theory Design
  imports Mmio Schema_Set Options
begin

text \<open>
  The part of a Fletcher design that decides on schemas, record batches and registers,
  \<^verbatim>\<open>fletchgen/design.h\<close> and \<^verbatim>\<open>design.cc\<close>. The profiling registers, which are read off the Cerata components of
  a design, are a parameter here, given in \<^theory_text>\<open>Profiler\<close> (\<open>design_profiling\<close>); the components are in \<^theory_text>\<open>Netlist\<close> and \<^theory_text>\<open>Mantle\<close>. \<^verbatim>\<open>std::regex_search\<close> is written out for the one
  pattern of the source, which never needs to backtrack.
\<close>

section \<open>Schemas and record batches\<close>

definition GetRecordBatchWithName :: "record_batch list \<Rightarrow> string \<Rightarrow> record_batch option" where
  "GetRecordBatchWithName batches name = find (\<lambda>b. GetMeta_schema (rb_schema b) meta_NAME = name) batches"

fun append_all :: "schema_set \<Rightarrow> arrow_schema list \<Rightarrow> schema_set res" where
  "append_all s [] = Inr s"
| "append_all s (a # as) = res_bind (AppendSchema s a) (\<lambda>s'. append_all s' as)"

definition AnalyzeSchemas :: "options \<Rightarrow> schema_set res" where
  "AnalyzeSchemas opts =
    res_bind (append_all (SchemaSet_Make (kernel_name opts)) (opt_schemas opts)) (\<lambda>s1.
    res_bind (append_all s1 (map rb_schema (opt_recordbatches opts))) (\<lambda>s2.
    Inr (SchemaSet_Sort s2)))"

definition analyze_one :: "record_batch list \<Rightarrow> fletcher_schema \<Rightarrow> batch_description res" where
  "analyze_one batches fs =
    (case GetRecordBatchWithName batches (fs_name fs) of
       Some rb \<Rightarrow> res_bind (RecordBatchAnalyzer_Analyze empty_description rb) (\<lambda>(d, _). Inr d)
     | None \<Rightarrow> SchemaAnalyzer_Analyze empty_description (fs_arrow_schema fs))"

definition AnalyzeRecordBatches :: "options \<Rightarrow> schema_set \<Rightarrow> batch_description list res" where
  "AnalyzeRecordBatches opts s = res_mapM (analyze_one (opt_recordbatches opts)) (ss_schemas s)"

section \<open>Registers\<close>

definition GetDefaultRegs :: "mmio_reg list" where
  "GetDefaultRegs =
    [mmio_reg_new F_DEFAULT STROBE ''start'' ''Start the kernel.'' 1 0 (Some 0) None,
     mmio_reg_new F_DEFAULT STROBE ''stop'' ''Stop the kernel.'' 1 1 (Some 0) None,
     mmio_reg_new F_DEFAULT STROBE ''reset'' ''Reset the kernel.'' 1 2 (Some 0) None,
     mmio_reg_new F_DEFAULT STATUS ''idle'' ''Kernel idle status.'' 1 0 (Some 4) None,
     mmio_reg_new F_DEFAULT STATUS ''busy'' ''Kernel busy status.'' 1 1 (Some 4) None,
     mmio_reg_new F_DEFAULT STATUS ''done'' ''Kernel done status.'' 1 2 (Some 4) None,
     mmio_reg_new F_DEFAULT STATUS ''result'' ''Result.'' 64 0 (Some 8) None]"

definition batch_index_regs :: "batch_description \<Rightarrow> mmio_reg list" where
  "batch_index_regs r =
    [mmio_reg_new F_BATCH CONTROL (bd_name r @ ''_firstidx'') (bd_name r @ '' first index.'') 32 0 None None,
     mmio_reg_new F_BATCH CONTROL (bd_name r @ ''_lastidx'') (bd_name r @ '' last index (exclusive).'') 32 0 None None]"

definition buffer_reg :: "batch_description \<Rightarrow> buffer_metadata \<Rightarrow> mmio_reg" where
  "buffer_reg r b = mmio_reg_new F_BUFFER CONTROL (bd_name r @ ''_'' @ strvec_ToString (buf_desc b) ''_'')
     (''Buffer address for '' @ bd_name r @ '' '' @ strvec_ToString (buf_desc b) ''_'') 64 0 None None"

definition GetRecordBatchRegs :: "batch_description list \<Rightarrow> mmio_reg list" where
  "GetRecordBatchRegs batch_desc =
    concat (map batch_index_regs batch_desc) @
    concat (map (\<lambda>r. concat (map (\<lambda>f. map (buffer_reg r) (fm_buffers f)) (bd_fields r))) batch_desc)"

subsection \<open>Custom registers\<close>

definition is_word_char :: "char \<Rightarrow> bool" where
  "is_word_char c = (c = CHR ''_'' \<or> (case digit_val c of Some d \<Rightarrow> True | None \<Rightarrow> False))"

definition is_digit :: "char \<Rightarrow> bool" where
  "is_digit c = (case digit_val c of Some d \<Rightarrow> d < 10 | None \<Rightarrow> False)"

definition is_hex :: "char \<Rightarrow> bool" where
  "is_hex c = (case digit_val c of Some d \<Rightarrow> d < 16 | None \<Rightarrow> False)"

text \<open>The last group: \<^verbatim>\<open>0x\<close> and at least one hexadecimal digit, or nothing.\<close>

definition match_init :: "string \<Rightarrow> string" where
  "match_init s = (case s of
      z # x # h # t \<Rightarrow> if z = CHR ''0'' \<and> x = CHR ''x'' \<and> is_hex h
        then z # x # takeWhile is_hex (h # t) else []
    | _ \<Rightarrow> [])"

text \<open>A match at the start of the string: the four groups.\<close>

definition match_reg :: "string \<Rightarrow> (string \<times> string \<times> string \<times> string) option" where
  "match_reg s = (case s of
      b # c # rest \<Rightarrow>
        if (b = CHR ''c'' \<or> b = CHR ''s'') \<and> c = CHR '':'' then
          let width = takeWhile is_digit rest; rest1 = dropWhile is_digit rest in
          if width = [] then None
          else (case rest1 of
              c' # rest2 \<Rightarrow>
                if c' = CHR '':'' then
                  let name = takeWhile is_word_char rest2; rest3 = dropWhile is_word_char rest2 in
                  if name = [] then None
                  else Some ([b], width, name,
                         match_init (case rest3 of c'' # r \<Rightarrow> if c'' = CHR '':'' then r else rest3 | [] \<Rightarrow> []))
                else None
            | [] \<Rightarrow> None)
        else None
    | _ \<Rightarrow> None)"

text \<open>\<^verbatim>\<open>regex_search\<close>: the first position with a match.\<close>

fun search_reg :: "string \<Rightarrow> (string \<times> string \<times> string \<times> string) option" where
  "search_reg [] = None"
| "search_reg (c # cs) = (case match_reg (c # cs) of Some m \<Rightarrow> Some m | None \<Rightarrow> search_reg cs)"

text \<open>The number of groups is that of the pattern, so the test of \<^verbatim>\<open>sub_match.size()\<close> always holds.\<close>

definition sub_match_size :: nat where
  "sub_match_size = 5"

definition parse_custom_reg :: "string \<Rightarrow> mmio_reg res" where
  "parse_custom_reg str = (case search_reg str of
      Some (m1, m2, m3, m4) \<Rightarrow>
        Inr (mmio_reg_default\<lparr>
          mr_function := F_KERNEL,
          mr_behavior := (if m1 = ''c'' then CONTROL else STATUS),
          mr_name := m3,
          mr_desc := ''Custom register '' @ m3,
          mr_width := ucast (strtoul m2 10),
          mr_index := 0,
          mr_init := (if 4 < sub_match_size then Some (strtoul m4 10) else None),
          mr_meta := [(''kernel'', ''true'')]\<rparr>)
    | None \<Rightarrow> Inl Exited)"

definition ParseCustomRegs :: "string list \<Rightarrow> mmio_reg list res" where
  "ParseCustomRegs regs = res_mapM parse_custom_reg regs"

section \<open>The design\<close>

record design =
  d_schema_set :: schema_set
  d_batch_desc :: "batch_description list"
  d_default_regs :: "mmio_reg list"
  d_recordbatch_regs :: "mmio_reg list"
  d_kernel_regs :: "mmio_reg list"
  d_profiling_regs :: "mmio_reg list"
  d_bus_spec :: bus_dim

definition all_regs :: "design \<Rightarrow> mmio_reg list list" where
  "all_regs d = [d_default_regs d, d_recordbatch_regs d, d_kernel_regs d, d_profiling_regs d]"

text \<open>\<open>profiling\<close> are the profiling registers of the components made for the schemas and batches.\<close>

definition Design_new ::
    "(fletcher_schema list \<Rightarrow> batch_description list \<Rightarrow> mmio_reg list) \<Rightarrow> options \<Rightarrow> design res" where
  "Design_new profiling opts =
    res_bind (AnalyzeSchemas opts) (\<lambda>s.
    res_bind (AnalyzeRecordBatches opts s) (\<lambda>ds.
    if length (ss_schemas s) \<noteq> length ds then Inl Exited
    else res_bind (ParseCustomRegs (opt_regs opts)) (\<lambda>ks.
    case opt_bus_dims opts of
      [] \<Rightarrow> Inl Undefined
    | dim # _ \<Rightarrow> res_bind (BusDim_FromString dim BusDim_default) (\<lambda>bus.
        Inr \<lparr>d_schema_set = s, d_batch_desc = ds, d_default_regs = GetDefaultRegs,
             d_recordbatch_regs = GetRecordBatchRegs ds, d_kernel_regs = ks,
             d_profiling_regs = profiling (ss_schemas s) ds, d_bus_spec = bus\<rparr>))))"

text \<open>The configuration file and the run of the tool, whose exit status is a parameter.\<close>

definition RunVhdmmio :: "(string \<Rightarrow> int) \<Rightarrow> mmio_reg list list \<Rightarrow> (string \<times> mmio_reg list list) res" where
  "RunVhdmmio vhdmmio regs =
    (let (yaml, regs', _) = GenerateVhdmmioYaml regs in
     if vhdmmio yaml \<noteq> 0 then Inl Exited else Inr (yaml, regs'))"

text \<open>The components to write, of any type \<open>'c\<close>, each with its metadata; \<open>key\<close> is Cerata's key for backups.\<close>

definition GetOutputSpec ::
    "string \<Rightarrow> options \<Rightarrow> 'c \<Rightarrow> 'c \<Rightarrow> 'c \<Rightarrow> 'c list \<Rightarrow> ('c \<times> (string \<times> string)) list" where
  "GetOutputSpec key opts mantle nucleus knl recordbatches =
    (let outputs = [mantle, nucleus, knl] @ recordbatches;
         bak = (if backup opts then ''true'' else ''false'')
     in map (\<lambda>c. (c, (key, bak))) outputs)"

section \<open>Schemas and their batch descriptions\<close>

lemma GetRecordBatchWithName_name:
  "GetRecordBatchWithName bs n = Some rb \<Longrightarrow> rb \<in> set bs \<and> GetMeta_schema (rb_schema rb) meta_NAME = n"
  by (auto simp: GetRecordBatchWithName_def find_Some_iff)

lemma analyze_one_name:
  assumes "analyze_one bs fs = Inr d" "fs_name fs = GetMeta_schema (fs_arrow_schema fs) meta_NAME"
  shows "bd_name d = fs_name fs"
  using assms
  by (auto simp: analyze_one_def RecordBatchAnalyzer_Analyze_def SchemaAnalyzer_Analyze_def res_bind_Inr_iff
      dest!: GetRecordBatchWithName_name split: option.splits)

definition schema_names_ok :: "schema_set \<Rightarrow> bool" where
  "schema_names_ok s \<longleftrightarrow> names_ok s \<and> (\<forall>fs\<in>set (ss_schemas s). fs_name fs = GetMeta_schema (fs_arrow_schema fs) meta_NAME)"

lemma schema_names_ok_Append: "schema_names_ok s \<Longrightarrow> AppendSchema s a = Inr s' \<Longrightarrow> schema_names_ok s'"
  using names_ok_Append [of s a s']
  by (auto simp: schema_names_ok_def AppendSchema_def Let_def res_bind_Inr_iff FletcherSchema_new_fields
      split: if_splits)

lemma schema_names_ok_all: "schema_names_ok s \<Longrightarrow> append_all s as = Inr s' \<Longrightarrow> schema_names_ok s'"
  by (induction s as rule: append_all.induct) (auto simp: res_bind_Inr_iff dest: schema_names_ok_Append)

lemma schema_names_ok_Sort: "schema_names_ok s \<Longrightarrow> schema_names_ok (SchemaSet_Sort s)"
proof -
  assume ok: "schema_names_ok s"
  have m: "mset (ss_schemas (SchemaSet_Sort s)) = mset (ss_schemas s)"
    using mset_modes [of "sort_key fs_name (ss_schemas s)"] by (simp add: SchemaSet_Sort_def sort_key_mode)
  have "set (ss_schemas (SchemaSet_Sort s)) = set (ss_schemas s)" by (rule mset_eq_setD [OF m])
  moreover have "distinct (map fs_name (ss_schemas (SchemaSet_Sort s))) = distinct (map fs_name (ss_schemas s))"
    by (rule mset_eq_imp_distinct_iff) (simp add: m mset_map)
  ultimately show ?thesis using ok unfolding schema_names_ok_def names_ok_def by (simp only:) blast
qed

lemma AnalyzeSchemas_names: "AnalyzeSchemas opts = Inr s \<Longrightarrow> schema_names_ok s"
proof -
  assume "AnalyzeSchemas opts = Inr s"
  then obtain s1 s2 where "append_all (SchemaSet_Make (kernel_name opts)) (opt_schemas opts) = Inr s1"
    "append_all s1 (map rb_schema (opt_recordbatches opts)) = Inr s2" "s = SchemaSet_Sort s2"
    by (auto simp: AnalyzeSchemas_def res_bind_Inr_iff)
  moreover have "schema_names_ok (SchemaSet_Make (kernel_name opts))"
    by (simp add: schema_names_ok_def names_ok_def SchemaSet_Make_def)
  ultimately show ?thesis by (blast intro: schema_names_ok_all schema_names_ok_Sort)
qed

lemma AnalyzeRecordBatches_names:
  assumes "AnalyzeRecordBatches opts s = Inr ds" "schema_names_ok s"
  shows "map bd_name ds = map fs_name (ss_schemas s)"
proof (rule nth_equalityI)
  show "length (map bd_name ds) = length (map fs_name (ss_schemas s))"
    using assms(1) by (simp add: AnalyzeRecordBatches_def res_mapM_length)
  fix i assume "i < length (map bd_name ds)"
  then have i: "i < length ds" "i < length (ss_schemas s)"
    using assms(1) by (simp_all add: AnalyzeRecordBatches_def res_mapM_length)
  then have "analyze_one (opt_recordbatches opts) (ss_schemas s ! i) = Inr (ds ! i)"
    using assms(1) by (simp add: AnalyzeRecordBatches_def res_mapM_Inr_iff)
  then show "map bd_name ds ! i = map fs_name (ss_schemas s) ! i"
    using analyze_one_name assms(2) i by (simp add: schema_names_ok_def)
qed

section \<open>The register layout\<close>

definition all_desc_buffers :: "batch_description list \<Rightarrow> (batch_description \<times> buffer_metadata) list" where
  "all_desc_buffers ds = concat (map (\<lambda>d. map (Pair d) (concat (map fm_buffers (bd_fields d)))) ds)"

lemma GetRecordBatchRegs_flat:
  "GetRecordBatchRegs ds = concat (map batch_index_regs ds) @ map (\<lambda>(d, b). buffer_reg d b) (all_desc_buffers ds)"
proof -
  have inner: "concat (map (\<lambda>f. map (buffer_reg r) (fm_buffers f)) fs) = map (buffer_reg r) (concat (map fm_buffers fs))" for r fs
    by (induction fs) auto
  have "concat (map (\<lambda>r. concat (map (\<lambda>f. map (buffer_reg r) (fm_buffers f)) (bd_fields r))) ds)
      = map (\<lambda>(d, b). buffer_reg d b) (all_desc_buffers ds)"
    by (induction ds) (simp_all add: all_desc_buffers_def inner comp_def)
  then show ?thesis by (simp add: GetRecordBatchRegs_def)
qed

lemma length_index_regs: "length (concat (map batch_index_regs ds)) = 2 * length ds"
  by (induction ds) (simp_all add: batch_index_regs_def)

lemma index_regs_nth:
  "i < length ds \<Longrightarrow> concat (map batch_index_regs ds) ! (2 * i) = batch_index_regs (ds ! i) ! 0"
  "i < length ds \<Longrightarrow> concat (map batch_index_regs ds) ! (2 * i + 1) = batch_index_regs (ds ! i) ! 1"
proof -
  show "i < length ds \<Longrightarrow> concat (map batch_index_regs ds) ! (2 * i) = batch_index_regs (ds ! i) ! 0"
    by (induction ds arbitrary: i) (auto simp: batch_index_regs_def nth_Cons split: nat.split)
  show "i < length ds \<Longrightarrow> concat (map batch_index_regs ds) ! (2 * i + 1) = batch_index_regs (ds ! i) ! 1"
    by (induction ds arbitrary: i) (auto simp: batch_index_regs_def nth_Cons split: nat.split)
qed

lemma space_batch_regs:
  "space_used (mmio_reg_new f b n d 32 i a v) = 4" "space_used (mmio_reg_new f b n d 64 i a v) = 8"
  by (simp_all add: space_used_def mmio_reg_new_def)

lemma fresh_batch_regs: "r \<in> set (GetRecordBatchRegs ds) \<Longrightarrow> fresh_reg r"
  by (auto simp: GetRecordBatchRegs_def batch_index_regs_def buffer_reg_def mmio_reg_new_def fresh_reg_def)

lemma total_index_regs: "mmio_layout.total (concat (map batch_index_regs ds)) = 8 * length ds"
  by (induction ds) (simp_all add: batch_index_regs_def space_batch_regs mmio_layout.total_append)

lemma total_buffer_regs: "mmio_layout.total (map (\<lambda>(d, b). buffer_reg d b) bs) = 8 * length bs"
  by (induction bs) (auto simp: buffer_reg_def space_batch_regs)

lemma total_RecordBatchRegs:
  "mmio_layout.total (GetRecordBatchRegs ds) = 8 * length ds + 8 * length (all_desc_buffers ds)"
  by (simp add: GetRecordBatchRegs_flat mmio_layout.total_append total_index_regs total_buffer_regs)

lemma take_index_regs: "i \<le> length ds \<Longrightarrow> take (2 * i) (concat (map batch_index_regs ds)) = concat (map batch_index_regs (take i ds))"
proof (induction ds arbitrary: i)
  case (Cons d ds)
  then show ?case by (cases i) (simp_all add: batch_index_regs_def)
qed simp

lemma total_take_batch_regs:
  "i < length ds \<Longrightarrow> mmio_layout.total (take (2 * i) (GetRecordBatchRegs ds)) = 8 * i"
  "i < length ds \<Longrightarrow> mmio_layout.total (take (2 * i + 1) (GetRecordBatchRegs ds)) = 8 * i + 4"
  "b < length (all_desc_buffers ds) \<Longrightarrow>
     mmio_layout.total (take (2 * length ds + b) (GetRecordBatchRegs ds)) = 8 * length ds + 8 * b"
proof -
  show a: "mmio_layout.total (take (2 * i) (GetRecordBatchRegs ds)) = 8 * i" if "i < length ds"
    using that total_index_regs [of "take i ds"]
    by (simp add: GetRecordBatchRegs_flat length_index_regs take_index_regs)
  show "mmio_layout.total (take (2 * i + 1) (GetRecordBatchRegs ds)) = 8 * i + 4" if i: "i < length ds"
  proof -
    have l: "2 * i < length (GetRecordBatchRegs ds)"
      using i by (simp add: GetRecordBatchRegs_flat length_index_regs)
    have n: "GetRecordBatchRegs ds ! (2 * i) = batch_index_regs (ds ! i) ! 0"
      using i index_regs_nth(1) [OF i] by (simp add: GetRecordBatchRegs_flat nth_append length_index_regs)
    show ?thesis
      using a [OF i] l n by (simp add: take_Suc_conv_app_nth mmio_layout.total_append batch_index_regs_def space_batch_regs)
  qed
  show "mmio_layout.total (take (2 * length ds + b) (GetRecordBatchRegs ds)) = 8 * length ds + 8 * b"
    if "b < length (all_desc_buffers ds)"
    using that total_buffer_regs [of "take b (all_desc_buffers ds)"]
    by (simp add: GetRecordBatchRegs_flat length_index_regs mmio_layout.total_append total_index_regs take_map)
qed

lemma default_regs_yaml: "snd (yaml_sub 0 GetDefaultRegs) = (GetDefaultRegs, 16)"
  by (simp add: GetDefaultRegs_def mmio_reg_new_def yaml_reg_def AddrSpaceUsed_nat)


text \<open>What the rest of the layout needs from the registers that are not derived from the batches.\<close>

definition extra_regs_fit :: "design \<Rightarrow> bool" where
  "extra_regs_fit d \<longleftrightarrow> (\<forall>r\<in>set (d_kernel_regs d @ d_profiling_regs d). fresh_reg r)
     \<and> 16 + mmio_layout.total (d_recordbatch_regs d @ d_kernel_regs d @ d_profiling_regs d) \<le> 2 ^ 32"

lemma Design_new_parts:
  assumes "Design_new profiling opts = Inr d"
  shows "AnalyzeSchemas opts = Inr (d_schema_set d)" "AnalyzeRecordBatches opts (d_schema_set d) = Inr (d_batch_desc d)"
    "d_default_regs d = GetDefaultRegs" "d_recordbatch_regs d = GetRecordBatchRegs (d_batch_desc d)"
    "ParseCustomRegs (opt_regs opts) = Inr (d_kernel_regs d)"
proof -
  obtain dim dims where dims: "opt_bus_dims opts = dim # dims"
    using assms by (cases "opt_bus_dims opts") (auto simp: Design_new_def res_bind_Inr_iff split: if_splits)
  show "AnalyzeSchemas opts = Inr (d_schema_set d)" "AnalyzeRecordBatches opts (d_schema_set d) = Inr (d_batch_desc d)"
    "d_default_regs d = GetDefaultRegs" "d_recordbatch_regs d = GetRecordBatchRegs (d_batch_desc d)"
    "ParseCustomRegs (opt_regs opts) = Inr (d_kernel_regs d)"
    using assms by (auto simp: Design_new_def dims res_bind_Inr_iff split: if_splits)
qed

text \<open>The second and the third vector of registers after the assignment of addresses.\<close>

lemma yaml_design:
  assumes "Design_new profiling opts = Inr d" "extra_regs_fit d"
    "GenerateVhdmmioYaml (all_regs d) = (yaml, regs', next_addr)"
  shows "regs' ! 0 = GetDefaultRegs"
    and "regs' ! 1 = fst (snd (yaml_sub (of_nat 16) (d_recordbatch_regs d)))"
    and "regs' ! 2 = fst (snd (yaml_sub (of_nat (16 + mmio_layout.total (d_recordbatch_regs d))) (d_kernel_regs d)))"
    and "length regs' = 4"
proof -
  let ?R = "d_recordbatch_regs d"
  have R: "\<forall>r\<in>set ?R. fresh_reg r" using Design_new_parts(4) [OF assms(1)] fresh_batch_regs by simp
  have "16 + mmio_layout.total ?R \<le> 2 ^ 32"
    using assms(2) by (simp add: extra_regs_fit_def mmio_layout.total_append)
  then have n: "snd (snd (yaml_sub (of_nat 16) ?R)) = of_nat (16 + mmio_layout.total ?R)"
    by (rule yaml_sub_next [OF R])
  have r: "regs' = fst (snd (yaml_all 0 [GetDefaultRegs, ?R, d_kernel_regs d, d_profiling_regs d]))"
    using assms(3) Design_new_parts(3) [OF assms(1)]
    by (simp add: GenerateVhdmmioYaml_def all_regs_def Let_def split_beta del: yaml_all.simps)
  have "yaml_sub 0 GetDefaultRegs = (fst (yaml_sub 0 GetDefaultRegs), GetDefaultRegs, of_nat 16)"
    using default_regs_yaml by (metis of_nat_numeral prod.collapse)
  then obtain s where s: "yaml_sub 0 GetDefaultRegs = (s, GetDefaultRegs, of_nat 16)" by blast
  note eq = r [unfolded yaml_all.simps s] n
  show "regs' ! 0 = GetDefaultRegs" "regs' ! 1 = fst (snd (yaml_sub (of_nat 16) ?R))" "length regs' = 4"
    "regs' ! 2 = fst (snd (yaml_sub (of_nat (16 + mmio_layout.total ?R)) (d_kernel_regs d)))"
    using eq by (simp_all add: Let_def split_beta del: of_nat_add of_nat_numeral)
qed

lemma yaml_sub_names: "map mr_name (fst (snd (yaml_sub a rs))) = map mr_name rs"
  by (induction rs arbitrary: a) (simp_all add: Let_def split_beta yaml_reg_def split: option.splits)

lemma yaml_sub_address:
  assumes "\<forall>r\<in>set rs. fresh_reg r" "a + mmio_layout.total rs \<le> 2 ^ 32" "i < length rs"
  defines "r \<equiv> fst (snd (yaml_sub (of_nat a) rs)) ! i"
  shows "unat (the (mr_addr r)) = a + mmio_layout.total (take i rs)" "mr_name r = mr_name (rs ! i)"
proof -
  have l: "length (fst (snd (yaml_sub (of_nat a) rs))) = length rs"
    using arg_cong [OF yaml_sub_names, of length] by simp
  show "unat (the (mr_addr r)) = a + mmio_layout.total (take i rs)"
    using mmio_layout.place_nth(2) [OF assms(1,2,3)] l assms(3) by (simp add: reg_addresses_def r_def)
  show "mr_name r = mr_name (rs ! i)"
    using arg_cong [OF yaml_sub_names [of "of_nat a" rs], of "\<lambda>xs. xs ! i"] l assms(3) by (simp add: r_def)
qed

lemma RecordBatchRegs_nth:
  "i < length ds \<Longrightarrow> GetRecordBatchRegs ds ! (2 * i) = batch_index_regs (ds ! i) ! 0"
  "i < length ds \<Longrightarrow> GetRecordBatchRegs ds ! (2 * i + 1) = batch_index_regs (ds ! i) ! 1"
  "b < length (all_desc_buffers ds) \<Longrightarrow>
     GetRecordBatchRegs ds ! (2 * length ds + b) = (\<lambda>(d, b). buffer_reg d b) (all_desc_buffers ds ! b)"
  "length (GetRecordBatchRegs ds) = 2 * length ds + length (all_desc_buffers ds)"
  using index_regs_nth [of i ds] by (simp_all add: GetRecordBatchRegs_flat nth_append length_index_regs)

lemma bus_dim_example: "BusDim_FromString ''64,512,8,1,16'' BusDim_default = Inr BusDim_default"
proof -
  have "''64,512,8,1,16'' = join '','' [''64'', ''512'', ''8'', ''1'', ''16'']" by simp
  then have "ParseCSV ''64,512,8,1,16'' = map (\<lambda>p. strtoul p 10) [''64'', ''512'', ''8'', ''1'', ''16'']"
    using ParseCSV_join [of "[''64'', ''512'', ''8'', ''1'', ''16'']"] by simp
  also have "\<dots> = [64, 512, 8, 1, 16]"
    by (simp add: strtoul_def strto_def strto_unsigned_def is_space_def starts_digit_def digit_val_def)
  finally show ?thesis by (simp add: BusDim_FromString_def BusDim_default_def)
qed

lemma register_addresses:
  assumes "Design_new profiling opts = Inr d" "extra_regs_fit d"
    "GenerateVhdmmioYaml (all_regs d) = (yaml, regs', next_addr)"
  defines "n \<equiv> length (d_batch_desc d)" and "m \<equiv> length (all_desc_buffers (d_batch_desc d))"
  shows "i < n \<Longrightarrow> mr_name (regs' ! 1 ! (2 * i)) = bd_name (d_batch_desc d ! i) @ ''_firstidx''
      \<and> unat (the (mr_addr (regs' ! 1 ! (2 * i)))) = 16 + 8 * i
      \<and> mr_name (regs' ! 1 ! (2 * i + 1)) = bd_name (d_batch_desc d ! i) @ ''_lastidx''
      \<and> unat (the (mr_addr (regs' ! 1 ! (2 * i + 1)))) = 20 + 8 * i"
    and "b < m \<Longrightarrow>
      mr_name (regs' ! 1 ! (2 * n + b)) = mr_name ((\<lambda>(d, b). buffer_reg d b) (all_desc_buffers (d_batch_desc d) ! b))
      \<and> unat (the (mr_addr (regs' ! 1 ! (2 * n + b)))) = 16 + 8 * n + 8 * b"
    and "j < length (d_kernel_regs d) \<Longrightarrow> mr_name (regs' ! 2 ! j) = mr_name (d_kernel_regs d ! j)
      \<and> unat (the (mr_addr (regs' ! 2 ! j))) = 16 + 8 * n + 8 * m + mmio_layout.total (take j (d_kernel_regs d))"
proof -
  let ?ds = "d_batch_desc d" and ?R = "GetRecordBatchRegs (d_batch_desc d)"
  note y = yaml_design [OF assms(1-3), unfolded Design_new_parts(4) [OF assms(1)]]
  have fit: "16 + mmio_layout.total ?R \<le> 2 ^ 32"
    "16 + mmio_layout.total ?R + mmio_layout.total (d_kernel_regs d) \<le> 2 ^ 32"
    "\<forall>r\<in>set (d_kernel_regs d). fresh_reg r" "\<forall>r\<in>set ?R. fresh_reg r"
    using assms(2) Design_new_parts(4) [OF assms(1)] fresh_batch_regs
    by (auto simp: extra_regs_fit_def mmio_layout.total_append)
  note R = yaml_sub_address [OF fit(4,1), folded y(2)]
  note K = yaml_sub_address [OF fit(3,2), folded y(3)]
  show "i < n \<Longrightarrow> mr_name (regs' ! 1 ! (2 * i)) = bd_name (?ds ! i) @ ''_firstidx''
      \<and> unat (the (mr_addr (regs' ! 1 ! (2 * i)))) = 16 + 8 * i
      \<and> mr_name (regs' ! 1 ! (2 * i + 1)) = bd_name (?ds ! i) @ ''_lastidx''
      \<and> unat (the (mr_addr (regs' ! 1 ! (2 * i + 1)))) = 20 + 8 * i"
    using R [of "2 * i"] R [of "2 * i + 1"] RecordBatchRegs_nth(1,2) [of i ?ds] RecordBatchRegs_nth(4) [of ?ds]
      total_take_batch_regs(1,2) [of i ?ds]
    unfolding n_def by (simp add: batch_index_regs_def mmio_reg_new_def)
  show "b < m \<Longrightarrow>
      mr_name (regs' ! 1 ! (2 * n + b)) = mr_name ((\<lambda>(d, b). buffer_reg d b) (all_desc_buffers ?ds ! b))
      \<and> unat (the (mr_addr (regs' ! 1 ! (2 * n + b)))) = 16 + 8 * n + 8 * b"
    using R [of "2 * n + b"] RecordBatchRegs_nth(3) [of b ?ds] RecordBatchRegs_nth(4) [of ?ds]
      total_take_batch_regs(3) [of b ?ds]
    unfolding n_def m_def by simp
  show "j < length (d_kernel_regs d) \<Longrightarrow> mr_name (regs' ! 2 ! j) = mr_name (d_kernel_regs d ! j)
      \<and> unat (the (mr_addr (regs' ! 2 ! j))) = 16 + 8 * n + 8 * m + mmio_layout.total (take j (d_kernel_regs d))"
    using K [of j] unfolding n_def m_def by (simp add: total_RecordBatchRegs)
qed

section \<open>Custom registers\<close>

lemma match_init_form: "match_init s = [] \<or> (\<exists>t. match_init s = CHR ''0'' # CHR ''x'' # t)"
  by (auto simp: match_init_def split: list.splits)

lemma strtoul_match_init: "strtoul (match_init s) 10 = 0"
  using match_init_form [of s]
  by (auto simp: strtoul_def strto_def strto_unsigned_def is_space_def starts_digit_def digit_val_def)

lemma match_reg_groups: "match_reg s = Some (m1, m2, m3, m4) \<Longrightarrow> m3 \<noteq> [] \<and> (\<exists>t. m4 = match_init t)"
  by (auto simp: match_reg_def Let_def split: list.splits if_splits)

lemma search_reg_groups: "search_reg s = Some (m1, m2, m3, m4) \<Longrightarrow> m3 \<noteq> [] \<and> (\<exists>t. m4 = match_init t)"
  by (induction s rule: search_reg.induct) (auto split: option.splits dest: match_reg_groups)

lemma match_init_example: "match_init ''0x10'' = ''0x10''"
  by (simp add: match_init_def is_hex_def digit_val_def)

lemma match_reg_example: "match_reg ''c:32:limit:0x10'' = Some (''c'', ''32'', ''limit'', ''0x10'')"
  using match_init_example by (simp add: match_reg_def is_digit_def is_word_char_def digit_val_def)

section \<open>Properties\<close>

text \<open>A design that is made has one batch description per schema, of the same name and in the same order,
  so the check of their numbers, which ends the program, never does; the names are distinct and nonempty.\<close>

theorem design_batches_follow_schemas:
  "(Design_new profiling opts = Inr d \<longrightarrow>
     map bd_name (d_batch_desc d) = map fs_name (ss_schemas (d_schema_set d)) \<and> names_ok (d_schema_set d))
   \<and> (AnalyzeSchemas opts = Inr s \<and> AnalyzeRecordBatches opts s = Inr ds \<longrightarrow> length (ss_schemas s) = length ds)"
proof (intro conjI impI)
  assume "Design_new profiling opts = Inr d"
  note s = Design_new_parts(1) [OF this] and ds = Design_new_parts(2) [OF this]
  show "map bd_name (d_batch_desc d) = map fs_name (ss_schemas (d_schema_set d))"
    using AnalyzeRecordBatches_names [OF ds] AnalyzeSchemas_names [OF s] by simp
  show "names_ok (d_schema_set d)" using AnalyzeSchemas_names [OF s] by (simp add: schema_names_ok_def)
next
  assume "AnalyzeSchemas opts = Inr s \<and> AnalyzeRecordBatches opts s = Inr ds"
  then have "AnalyzeRecordBatches opts s = Inr ds" by (rule conjunct2)
  then show "length (ss_schemas s) = length ds" by (simp add: AnalyzeRecordBatches_def res_mapM_length)
qed

text \<open>C16: where the registers of a design are. The range of batch \<open>i\<close> is at the byte addresses
  \<open>16 + 8 * i\<close> and \<open>20 + 8 * i\<close>, the address of buffer \<open>b\<close>, counted over all batches in their
  order, at \<open>16 + 8 * batches + 8 * b\<close>, and the custom registers follow, each after the words of the previous ones.
  The control and the status register and the result stay at 0, 4 and 8.\<close>

theorem design_register_addresses:
  assumes "Design_new profiling opts = Inr d" "extra_regs_fit d"
    "GenerateVhdmmioYaml (all_regs d) = (yaml, regs', next_addr)"
  defines "addr \<equiv> \<lambda>r. unat (the (mr_addr r))"
    and "n \<equiv> length (d_batch_desc d)" and "m \<equiv> length (all_desc_buffers (d_batch_desc d))"
  shows "regs' ! 0 = GetDefaultRegs
    \<and> (\<forall>i<n. mr_name (regs' ! 1 ! (2 * i)) = bd_name (d_batch_desc d ! i) @ ''_firstidx''
        \<and> addr (regs' ! 1 ! (2 * i)) = 16 + 8 * i
        \<and> mr_name (regs' ! 1 ! (2 * i + 1)) = bd_name (d_batch_desc d ! i) @ ''_lastidx''
        \<and> addr (regs' ! 1 ! (2 * i + 1)) = 20 + 8 * i)
    \<and> (\<forall>b<m. mr_name (regs' ! 1 ! (2 * n + b)) = mr_name ((\<lambda>(d, b). buffer_reg d b) (all_desc_buffers (d_batch_desc d) ! b))
        \<and> addr (regs' ! 1 ! (2 * n + b)) = 16 + 8 * n + 8 * b)
    \<and> (\<forall>j<length (d_kernel_regs d). mr_name (regs' ! 2 ! j) = mr_name (d_kernel_regs d ! j)
        \<and> addr (regs' ! 2 ! j) = 16 + 8 * n + 8 * m + mmio_layout.total (take j (d_kernel_regs d)))"
  unfolding addr_def n_def m_def
  using yaml_design(1) [OF assms(1-3)] register_addresses [OF assms(1-3)] by blast

definition example_options :: options where
  "example_options = Options_default\<lparr>
     opt_schemas := [WithMetaRequired \<lparr>schema_fields = [Field ''x'' (FIXED INT32) False None], schema_metadata = None\<rparr> ''In'' READ],
     opt_regs := [''c:32:limit'']\<rparr>"

lemma example_schemas: "AnalyzeSchemas example_options = Inr \<lparr>ss_name = ''Kernel'', ss_schemas = [
    \<lparr>fs_arrow_schema = hd (opt_schemas example_options), fs_mode = READ, fs_name = ''In'', fs_bus_dims = BusDim_default\<rparr>]\<rparr>"
  by (simp add: AnalyzeSchemas_def example_options_def Options_default_def AppendSchema_def SchemaSet_Make_def
      HasSchemaWithName_def FletcherSchema_new_def BusDim_FromString_def SchemaSet_Sort_def WithMetaRequired_def
      WithMetadata_schema_def GetMeta_schema_def lookup_meta_def meta_keys GetMode_def Let_def)

lemma example_batches: "\<exists>d. AnalyzeRecordBatches example_options \<lparr>ss_name = ''Kernel'', ss_schemas = [
    \<lparr>fs_arrow_schema = hd (opt_schemas example_options), fs_mode = READ, fs_name = ''In'', fs_bus_dims = BusDim_default\<rparr>]\<rparr>
    = Inr [d] \<and> length (all_desc_buffers [d]) = 1"
  by (simp add: AnalyzeRecordBatches_def analyze_one_def example_options_def Options_default_def GetRecordBatchWithName_def
      SchemaAnalyzer_Analyze_def FieldAnalyzer_unfold FA_VisitFixedWidth_def an_emplace_def WithMetaRequired_def
      WithMetadata_schema_def empty_description_def all_desc_buffers_def)

lemma example_regs: "ParseCustomRegs (opt_regs example_options) = Inr [mmio_reg_default\<lparr>mr_function := F_KERNEL,
    mr_name := ''limit'', mr_desc := ''Custom register limit'', mr_width := 32, mr_init := Some 0, mr_meta := [(''kernel'', ''true'')]\<rparr>]"
proof -
  have "match_reg ''c:32:limit'' = Some (''c'', ''32'', ''limit'', [])"
    by (simp add: match_reg_def is_digit_def is_word_char_def digit_val_def match_init_def)
  then show ?thesis
    by (simp add: example_options_def Options_default_def ParseCustomRegs_def parse_custom_reg_def sub_match_size_def
        strtoul_def strto_def strto_unsigned_def is_space_def starts_digit_def digit_val_def mmio_reg_default_def mmio_reg_new_def)
qed

text \<open>One schema with one column and one custom register, without profiling.\<close>

lemma example_design: "\<exists>d. Design_new (\<lambda>_ _. []) example_options = Inr d \<and> extra_regs_fit d
    \<and> length (d_batch_desc d) = 1 \<and> length (all_desc_buffers (d_batch_desc d)) = 1 \<and> length (d_kernel_regs d) = 1
    \<and> d_kernel_regs d = [mmio_reg_default\<lparr>mr_function := F_KERNEL, mr_name := ''limit'',
        mr_desc := ''Custom register limit'', mr_width := 32, mr_init := Some 0, mr_meta := [(''kernel'', ''true'')]\<rparr>]"
proof -
  obtain b where b: "AnalyzeRecordBatches example_options \<lparr>ss_name = ''Kernel'', ss_schemas = [
    \<lparr>fs_arrow_schema = hd (opt_schemas example_options), fs_mode = READ, fs_name = ''In'', fs_bus_dims = BusDim_default\<rparr>]\<rparr>
    = Inr [b]" "length (all_desc_buffers [b]) = 1"
    using example_batches by blast
  have "opt_bus_dims example_options = [''64,512,8,1,16'']"
    by (simp add: example_options_def Options_default_def)
  moreover have "BusDim_FromString ''64,512,8,1,16'' BusDim_default = Inr BusDim_default"
    using bus_dim_example .
  moreover have "mmio_layout.total (GetRecordBatchRegs [b]) = 16"
    using total_RecordBatchRegs [of "[b]"] b(2) by simp
  ultimately show ?thesis
    using b by (auto simp: Design_new_def example_schemas example_regs extra_regs_fit_def fresh_reg_def
        mmio_layout.total_append space_used_def mmio_reg_default_def mmio_reg_new_def)
qed

lemma design_batches_follow_schemas_witness:
  "\<exists>d. Design_new (\<lambda>_ _. []) example_options = Inr d
    \<and> map bd_name (d_batch_desc d) = map fs_name (ss_schemas (d_schema_set d))"
  using example_design design_batches_follow_schemas [of "\<lambda>_ _. []" example_options] by blast

lemma design_register_addresses_witness:
  "\<exists>d yaml regs' n. Design_new (\<lambda>_ _. []) example_options = Inr d \<and> GenerateVhdmmioYaml (all_regs d) = (yaml, regs', n)
    \<and> unat (the (mr_addr (regs' ! 2 ! 0))) = 32"
proof -
  obtain d where d: "Design_new (\<lambda>_ _. []) example_options = Inr d" "extra_regs_fit d"
    "length (d_batch_desc d) = 1" "length (all_desc_buffers (d_batch_desc d)) = 1" "length (d_kernel_regs d) = 1"
    using example_design by blast
  obtain yaml regs' n where y: "GenerateVhdmmioYaml (all_regs d) = (yaml, regs', n)"
    by (cases "GenerateVhdmmioYaml (all_regs d)")
  show ?thesis using design_register_addresses [OF d(1,2) y] d y by auto
qed

text \<open>A custom register never gets the initial value that its argument gives: the value has the prefix
  \<^verbatim>\<open>0x\<close> and is read with base 10, so it is always zero, also when it is absent. The other fields are
  those of the argument.\<close>

theorem custom_reg_init_lost:
  "(case parse_custom_reg str of
      Inr r \<Rightarrow> mr_init r = Some 0 \<and> mr_function r = F_KERNEL \<and> mr_addr r = None \<and> mr_name r \<noteq> []
    | Inl e \<Rightarrow> e = Exited)
   \<and> parse_custom_reg ''c:32:limit:0x10'' = Inr (mmio_reg_default\<lparr>mr_function := F_KERNEL, mr_name := ''limit'',
        mr_desc := ''Custom register limit'', mr_width := 32, mr_init := Some 0, mr_meta := [(''kernel'', ''true'')]\<rparr>)"
proof (intro conjI)
  show "case parse_custom_reg str of
      Inr r \<Rightarrow> mr_init r = Some 0 \<and> mr_function r = F_KERNEL \<and> mr_addr r = None \<and> mr_name r \<noteq> []
    | Inl e \<Rightarrow> e = Exited"
    using search_reg_groups [of str] strtoul_match_init
    by (auto simp: parse_custom_reg_def sub_match_size_def mmio_reg_default_def mmio_reg_new_def
        split: option.splits)
  show "parse_custom_reg ''c:32:limit:0x10'' = Inr (mmio_reg_default\<lparr>mr_function := F_KERNEL, mr_name := ''limit'',
        mr_desc := ''Custom register limit'', mr_width := 32, mr_init := Some 0, mr_meta := [(''kernel'', ''true'')]\<rparr>)"
    using strtoul_match_init [of "''0x10''"]
    by (simp add: parse_custom_reg_def sub_match_size_def match_reg_example strtoul_def strto_def
        strto_unsigned_def is_space_def starts_digit_def digit_val_def match_init_example
        mmio_reg_default_def mmio_reg_new_def)
qed

end
