(* ===== verification/Netlist.thy ===== *)
theory Netlist
  imports Array_Types Design
begin

text \<open>
  The components that fletchgen generates around the arrays and how they are wired:
  \<^verbatim>\<open>fletchgen/recordbatch.cc\<close>, \<^verbatim>\<open>kernel.cc\<close> and \<^verbatim>\<open>nucleus.cc\<close>. Cerata, which holds the graph, is not
  part of the repository: a component is the list of the ports that are added to it, in that order, and the
  connections that are made, destination first. Clocks, resets and generics
  are left out; the ports of the memory buses are in \<^theory_text>\<open>Bus_Ports\<close> and the profilers in \<^theory_text>\<open>Profiler\<close>.
\<close>

section \<open>Ports derived from fields\<close>

datatype port_function = FP_ARROW | FP_COMMAND | FP_UNLOCK

record field_port =
  fp_name :: string
  fp_function :: port_function
  fp_field :: arrow_field
  fp_schema :: fletcher_schema
  fp_type :: hw_type
  fp_dir :: port_dir
  fp_domain :: clock_domain
  fp_profile :: bool

definition mode2dir :: "mode \<Rightarrow> port_dir" where
  "mode2dir mo = (if mo = READ then DIR_IN else DIR_OUT)"

fun reverse_dir :: "port_dir \<Rightarrow> port_dir" where
  "reverse_dir DIR_IN = DIR_OUT"
| "reverse_dir DIR_OUT = DIR_IN"

definition arrow_port :: "array_lib \<Rightarrow> fletcher_schema \<Rightarrow> arrow_field \<Rightarrow> bool \<Rightarrow> field_port res" where
  "arrow_port lib schema f reversed =
    res_bind (GetStreamType lib f (fs_mode schema) 0) (\<lambda>ty.
    Inr \<lparr>fp_name = fs_name schema @ ''_'' @ field_name f, fp_function = FP_ARROW, fp_field = f, fp_schema = schema,
         fp_type = ty, fp_dir = (if reversed then reverse_dir (mode2dir (fs_mode schema)) else mode2dir (fs_mode schema)),
         fp_domain = KCD, fp_profile = GetBoolMeta f meta_PROFILE False\<rparr>)"

definition command_port ::
    "fletcher_schema \<Rightarrow> arrow_field \<Rightarrow> hw_width \<Rightarrow> hw_width \<Rightarrow> hw_width option \<Rightarrow> field_port res" where
  "command_port schema f iw tw addr_width =
    res_bind (case addr_width of
        Some aw \<Rightarrow> res_bind (GetCtrlBufferCount f) (\<lambda>n. Inr (cmd_type iw tw (Some (Node_times aw n))))
      | None \<Rightarrow> Inr (cmd_type iw tw None)) (\<lambda>ty.
    Inr \<lparr>fp_name = fs_name schema @ ''_'' @ field_name f @ ''_cmd'', fp_function = FP_COMMAND, fp_field = f,
         fp_schema = schema, fp_type = ty, fp_dir = DIR_IN, fp_domain = KCD, fp_profile = False\<rparr>)"

definition unlock_port :: "fletcher_schema \<Rightarrow> arrow_field \<Rightarrow> hw_width \<Rightarrow> field_port" where
  "unlock_port schema f tw =
    \<lparr>fp_name = fs_name schema @ ''_'' @ field_name f @ ''_unl'', fp_function = FP_UNLOCK, fp_field = f,
     fp_schema = schema, fp_type = unlock_type tw, fp_dir = DIR_OUT, fp_domain = KCD, fp_profile = False\<rparr>"

section \<open>Record batch components\<close>

text \<open>An Array(Reader/Writer) instance with what is connected to its generics and the types its ports are set to.\<close>

record array_instance =
  ai_name :: string
  ai_component :: string
  ai_config :: string
  ai_data :: hw_type
  ai_cmd :: hw_type
  ai_unlock :: hw_type

record batch_component =
  bc_name :: string
  bc_schema :: fletcher_schema
  bc_desc :: batch_description
  bc_ports :: "field_port list"
  bc_arrays :: "array_instance list"

abbreviation INDEX_WIDTH_node :: hw_width where "INDEX_WIDTH_node \<equiv> Text_node ''INDEX_WIDTH''"
abbreviation TAG_WIDTH_node :: hw_width where "TAG_WIDTH_node \<equiv> Text_node ''TAG_WIDTH''"

definition add_field :: "array_lib \<Rightarrow> fletcher_schema \<Rightarrow> arrow_field \<Rightarrow> (field_port list \<times> array_instance list) res" where
  "add_field lib schema f =
    (if GetBoolMeta f meta_IGNORE False then Inr ([], [])
     else
       res_bind (arrow_port lib schema f True) (\<lambda>arrow.
       res_bind (GenerateConfigString lib f 0) (\<lambda>cfg.
       res_bind (GetArrayDataSpec lib f) (\<lambda>spec.
       res_bind (GetCtrlBufferCount f) (\<lambda>n.
       res_bind (command_port schema f INDEX_WIDTH_node TAG_WIDTH_node
         (Some (Text_node (fs_name schema @ ''_'' @ field_name f @ ''_BUS_ADDR_WIDTH'')))) (\<lambda>cmd.
       Inr ([arrow, cmd, unlock_port schema f TAG_WIDTH_node],
            [\<lparr>ai_name = field_name f @ ''_inst'', ai_component = ArrayName (fs_mode schema), ai_config = cfg,
              ai_data = (if fs_mode schema = READ then array_reader_out spec else array_writer_in spec),
              ai_cmd = cmd_type INDEX_WIDTH_node TAG_WIDTH_node (Some (Node_times (Text_node ''BUS_ADDR_WIDTH'') n)),
              ai_unlock = unlock_type (Text_node ''CMD_TAG_WIDTH'')\<rparr>])))))))"

fun AddArrays :: "array_lib \<Rightarrow> fletcher_schema \<Rightarrow> arrow_field list \<Rightarrow> (field_port list \<times> array_instance list) res" where
  "AddArrays lib schema [] = Inr ([], [])"
| "AddArrays lib schema (f # fs) =
    res_bind (add_field lib schema f) (\<lambda>(ps, arrs).
    res_bind (AddArrays lib schema fs) (\<lambda>(qs, bs). Inr (ps @ qs, arrs @ bs)))"

definition RecordBatch_new :: "array_lib \<Rightarrow> string \<Rightarrow> fletcher_schema \<Rightarrow> batch_description \<Rightarrow> batch_component res" where
  "RecordBatch_new lib nm schema desc =
    res_bind (AddArrays lib schema (schema_fields (fs_arrow_schema schema))) (\<lambda>(ps, arrs).
    Inr \<lparr>bc_name = nm, bc_schema = schema, bc_desc = desc, bc_ports = ps, bc_arrays = arrs\<rparr>)"

text \<open>Without a function, all ports.\<close>

definition GetFieldPorts :: "port_function option \<Rightarrow> batch_component \<Rightarrow> field_port list" where
  "GetFieldPorts fn rb = filter (\<lambda>p. case fn of Some f \<Rightarrow> fp_function p = f | None \<Rightarrow> True) (bc_ports rb)"

section \<open>The kernel\<close>

datatype component_port = Field_port field_port | Reg_port string port_dir mmio_reg

definition CopyFieldPorts :: "batch_component \<Rightarrow> port_function \<Rightarrow> field_port list" where
  "CopyFieldPorts rb fn = map (\<lambda>p. p\<lparr>fp_dir := reverse_dir (fp_dir p)\<rparr>) (GetFieldPorts (Some fn) rb)"

definition reversed_command :: "hw_width option \<Rightarrow> field_port \<Rightarrow> field_port res" where
  "reversed_command aw p = res_bind (command_port (fp_schema p) (fp_field p) INDEX_WIDTH_node TAG_WIDTH_node aw) (\<lambda>c.
     Inr (c\<lparr>fp_dir := reverse_dir (fp_dir c)\<rparr>))"

definition kernel_batch_ports :: "batch_component \<Rightarrow> component_port list res" where
  "kernel_batch_ports rb =
    res_bind (res_mapM (reversed_command None) (GetFieldPorts (Some FP_COMMAND) rb)) (\<lambda>cmds.
    Inr (map Field_port (CopyFieldPorts rb FP_ARROW @ CopyFieldPorts rb FP_UNLOCK @ cmds)))"

text \<open>The ports for the registers, of the mmio component and of the kernel.\<close>

definition mmio_ports :: "mmio_reg list \<Rightarrow> component_port list" where
  "mmio_ports regs = map (\<lambda>r. Reg_port (mmio_port_name r) (ToDir (mr_behavior r)) r) regs"

definition kernel_reg_ports :: "mmio_reg list \<Rightarrow> component_port list" where
  "kernel_reg_ports regs = map (\<lambda>r. Reg_port (mr_name r) (reverse_dir (ToDir (mr_behavior r))) r)
     (filter (\<lambda>r. ExposeToKernel (mr_function r)) regs)"

definition kernel_component :: "batch_component list \<Rightarrow> mmio_reg list \<Rightarrow> component_port list res" where
  "kernel_component rbs regs =
    res_bind (res_mapM kernel_batch_ports rbs) (\<lambda>ps. Inr (concat ps @ kernel_reg_ports regs))"

section \<open>The nucleus\<close>

text \<open>
  The ends of connections in the nucleus: its own ports and those of the kernel by name, the ports of the
  command mergers (one for each command stream), the lanes of their port arrays for the buffer addresses, and the
  ports of the mmio component by their position among the registers.
\<close>

datatype endpoint =
    Nucleus_port string
  | Kernel_port string
  | Accm_port nat string
  | Accm_ctrl nat nat
  | Mmio_port nat

type_synonym edge = "endpoint \<times> endpoint"

record nucleus =
  nu_ports :: "field_port list"
  nu_accms :: "string list"
  nu_edges :: "edge list"

definition nucleus_batch_ports :: "batch_component \<Rightarrow> field_port list res" where
  "nucleus_batch_ports rb =
    res_bind (res_mapM (\<lambda>p. reversed_command
        (Some (Text_node (fs_name (bc_schema rb) @ ''_'' @ field_name (fp_field p) @ ''_BUS_ADDR_WIDTH''))) p)
      (GetFieldPorts (Some FP_COMMAND) rb)) (\<lambda>cmds.
    Inr (CopyFieldPorts rb FP_ARROW @ CopyFieldPorts rb FP_UNLOCK @ cmds))"

definition batch_accms :: "batch_component \<Rightarrow> string list" where
  "batch_accms rb = map (\<lambda>p. fp_name p @ ''_accm_inst'') (GetFieldPorts (Some FP_COMMAND) rb)"

definition connect_arrow :: "field_port \<Rightarrow> edge" where
  "connect_arrow ap = (if fp_dir ap = DIR_OUT then (Kernel_port (fp_name ap), Nucleus_port (fp_name ap))
     else (Nucleus_port (fp_name ap), Kernel_port (fp_name ap)))"

definition connect_unlock :: "field_port \<Rightarrow> edge" where
  "connect_unlock up = (Kernel_port (fp_name up), Nucleus_port (fp_name up))"

text \<open>The lanes of merger \<open>accm\<close> from lane \<open>lane\<close> on, one for each of \<open>n\<close> buffers; \<open>mmio_buffer_ports\<close> are the positions of the
  registers for buffer addresses.\<close>

fun connect_lanes :: "nat list \<Rightarrow> nat \<Rightarrow> nat \<Rightarrow> nat \<Rightarrow> nat \<Rightarrow> edge list res" where
  "connect_lanes mmio_buffer_ports accm lane 0 buf_idx = Inr []"
| "connect_lanes mmio_buffer_ports accm lane (Suc n) buf_idx =
    (if buf_idx < length mmio_buffer_ports
     then res_bind (connect_lanes mmio_buffer_ports accm (Suc lane) n (Suc buf_idx)) (\<lambda>es.
       Inr ((Accm_ctrl accm lane, Mmio_port (mmio_buffer_ports ! buf_idx)) # es))
     else Inl Undefined)"

fun connect_commands ::
    "nat list \<Rightarrow> batch_description \<Rightarrow> field_port list \<Rightarrow> nat \<Rightarrow> nat \<Rightarrow> nat \<Rightarrow> (edge list \<times> nat \<times> nat) res" where
  "connect_commands bps desc [] field_idx accm_idx buf_idx = Inr ([], accm_idx, buf_idx)"
| "connect_commands bps desc (cmd # cmds) field_idx accm_idx buf_idx =
    (if field_idx < length (bd_fields desc) then
       let n = length (fm_buffers (bd_fields desc ! field_idx)) in
       res_bind (connect_lanes bps accm_idx 0 n buf_idx) (\<lambda>lanes.
       res_bind (connect_commands bps desc cmds (Suc field_idx) (Suc accm_idx) (buf_idx + n)) (\<lambda>(es, a, b).
       Inr ([(Nucleus_port (fp_name cmd), Accm_port accm_idx ''nucleus_cmd''),
             (Accm_port accm_idx ''kernel_cmd'', Kernel_port (fp_name cmd))] @ lanes @ es, a, b)))
     else Inl Undefined)"

fun connect_batches :: "nat list \<Rightarrow> batch_component list \<Rightarrow> nat \<Rightarrow> nat \<Rightarrow> edge list res" where
  "connect_batches bps [] accm_idx buf_idx = Inr []"
| "connect_batches bps (r # rs) accm_idx buf_idx =
    res_bind (connect_commands bps (bc_desc r) (GetFieldPorts (Some FP_COMMAND) r) 0 accm_idx buf_idx) (\<lambda>(es, a, b).
    res_bind (connect_batches bps rs a b) (\<lambda>rest.
    Inr (map connect_arrow (GetFieldPorts (Some FP_ARROW) r) @ map connect_unlock (GetFieldPorts (Some FP_UNLOCK) r) @ es @ rest)))"

definition buffer_ports :: "mmio_reg list \<Rightarrow> nat list" where
  "buffer_ports regs = filter (\<lambda>i. mr_function (regs ! i) = F_BUFFER) [0..<length regs]"

definition connect_regs :: "mmio_reg list \<Rightarrow> edge list" where
  "connect_regs regs = concat (map (\<lambda>i. let r = regs ! i in
     if ExposeToKernel (mr_function r)
     then [if ToDir (mr_behavior r) = DIR_OUT then (Kernel_port (mr_name r), Mmio_port i) else (Mmio_port i, Kernel_port (mr_name r))]
     else []) [0..<length regs])"

definition Nucleus_new :: "batch_component list \<Rightarrow> mmio_reg list \<Rightarrow> nucleus res" where
  "Nucleus_new rbs regs =
    res_bind (res_mapM nucleus_batch_ports rbs) (\<lambda>ports.
    res_bind (connect_batches (buffer_ports regs) rbs 0 0) (\<lambda>es.
    Inr \<lparr>nu_ports = concat ports, nu_accms = concat (map batch_accms rbs), nu_edges = es @ connect_regs regs\<rparr>))"

text \<open>The part of the constructor of Design that makes these components.\<close>

definition design_components :: "array_lib \<Rightarrow> string \<Rightarrow> design \<Rightarrow> batch_component list res" where
  "design_components lib kernel_nm d =
    res_mapM (\<lambda>(schema, desc). RecordBatch_new lib (kernel_nm @ ''_'' @ fs_name schema) schema desc)
      (zip (ss_schemas (d_schema_set d)) (d_batch_desc d))"

definition design_nucleus :: "array_lib \<Rightarrow> string \<Rightarrow> design \<Rightarrow> nucleus res" where
  "design_nucleus lib kernel_nm d =
    res_bind (design_components lib kernel_nm d) (\<lambda>rbs. Nucleus_new rbs (concat (all_regs d)))"

section \<open>Where the lanes lead\<close>

definition is_lane :: "edge \<Rightarrow> bool" where
  "is_lane e = (case fst e of Accm_ctrl _ _ \<Rightarrow> True | _ \<Rightarrow> False)"

text \<open>The lanes of the mergers from \<open>a\<close> on, with the buffer registers from \<open>b\<close> on in order.\<close>

fun lanes_in_order :: "nat list \<Rightarrow> nat \<Rightarrow> nat \<Rightarrow> nat list \<Rightarrow> edge list" where
  "lanes_in_order bps a b [] = []"
| "lanes_in_order bps a b (n # ns) =
    map (\<lambda>l. (Accm_ctrl a l, Mmio_port (bps ! (b + l)))) [0..<n] @ lanes_in_order bps (Suc a) (b + n) ns"

lemma lanes_in_order_append:
  "lanes_in_order bps a b (ms @ ns) = lanes_in_order bps a b ms @ lanes_in_order bps (a + length ms) (b + sum_list ms) ns"
  by (induction ms arbitrary: a b) (simp_all add: add.assoc)

lemma lanes_in_order_member:
  "k < length ns \<Longrightarrow> l < ns ! k \<Longrightarrow>
    (Accm_ctrl (a + k) l, Mmio_port (bps ! (b + sum_list (take k ns) + l))) \<in> set (lanes_in_order bps a b ns)"
proof (induction ns arbitrary: a b k)
  case (Cons n ns)
  show ?case
  proof (cases k)
    case 0
    then show ?thesis using Cons.prems by auto
  next
    case (Suc k')
    then show ?thesis using Cons.IH [of k' "Suc a" "b + n"] Cons.prems by (simp add: add.assoc)
  qed
qed simp

lemma lanes_in_order_lower: "(Accm_ctrl k l, e) \<in> set (lanes_in_order bps a b ns) \<Longrightarrow> a \<le> k"
  by (induction ns arbitrary: a b) fastforce+

lemma lanes_in_order_unique:
  "(Accm_ctrl (a + k) l, e) \<in> set (lanes_in_order bps a b ns) \<Longrightarrow>
    k < length ns \<and> l < ns ! k \<and> e = Mmio_port (bps ! (b + sum_list (take k ns) + l))"
proof (induction ns arbitrary: a b k)
  case (Cons n ns)
  show ?case
  proof (cases k)
    case 0
    then show ?thesis using Cons.prems lanes_in_order_lower [of a l e bps "Suc a" "b + n" ns] by auto
  next
    case (Suc k')
    then show ?thesis using Cons.IH [of "Suc a" k' "b + n"] Cons.prems by (auto simp: add.assoc)
  qed
qed simp

lemma connect_lanes_ok:
  "b + n \<le> length bps \<Longrightarrow> connect_lanes bps a lane n b =
    Inr (map (\<lambda>l. (Accm_ctrl a (lane + l), Mmio_port (bps ! (b + l)))) [0..<n])"
proof (induction n arbitrary: lane b)
  case (Suc n)
  have "[0..<Suc n] = 0 # map Suc [0..<n]" by (simp add: upt_conv_Cons map_Suc_upt)
  then show ?case using Suc.IH [of "Suc b" "Suc lane"] Suc.prems by (simp add: comp_def)
qed simp

definition buffer_counts :: "batch_description \<Rightarrow> nat list" where
  "buffer_counts desc = map (\<lambda>f. length (fm_buffers f)) (bd_fields desc)"

lemma filter_lanes [simp]:
  "filter is_lane (map (\<lambda>l. (Accm_ctrl a (f l), g l)) xs) = map (\<lambda>l. (Accm_ctrl a (f l), g l)) xs"
  "filter is_lane (map connect_arrow ps) = []" "filter is_lane (map connect_unlock ps) = []"
  by (induction xs; simp add: is_lane_def) (induction ps; simp add: is_lane_def connect_arrow_def connect_unlock_def)+

lemma connect_commands_ok:
  "k + length cmds \<le> length (bd_fields desc) \<Longrightarrow>
   b + sum_list (take (length cmds) (drop k (buffer_counts desc))) \<le> length bps \<Longrightarrow>
   \<exists>es. connect_commands bps desc cmds k a b =
      Inr (es, a + length cmds, b + sum_list (take (length cmds) (drop k (buffer_counts desc))))
    \<and> filter is_lane es = lanes_in_order bps a b (take (length cmds) (drop k (buffer_counts desc)))
    \<and> (\<forall>j<length cmds. (Accm_port (a + j) ''kernel_cmd'', Kernel_port (fp_name (cmds ! j))) \<in> set es
        \<and> (Nucleus_port (fp_name (cmds ! j)), Accm_port (a + j) ''nucleus_cmd'') \<in> set es)"
proof (induction cmds arbitrary: k a b)
  case (Cons cmd cmds)
  let ?n = "length (fm_buffers (bd_fields desc ! k))"
  have k: "k < length (bd_fields desc)" using Cons.prems(1) by simp
  have d: "drop k (buffer_counts desc) = ?n # drop (Suc k) (buffer_counts desc)"
    using k by (simp add: buffer_counts_def drop_map Cons_nth_drop_Suc [symmetric])
  obtain es where es: "connect_commands bps desc cmds (Suc k) (Suc a) (b + ?n) =
      Inr (es, Suc a + length cmds, b + ?n + sum_list (take (length cmds) (drop (Suc k) (buffer_counts desc))))"
    "filter is_lane es = lanes_in_order bps (Suc a) (b + ?n) (take (length cmds) (drop (Suc k) (buffer_counts desc)))"
    "\<forall>j<length cmds. (Accm_port (Suc a + j) ''kernel_cmd'', Kernel_port (fp_name (cmds ! j))) \<in> set es
        \<and> (Nucleus_port (fp_name (cmds ! j)), Accm_port (Suc a + j) ''nucleus_cmd'') \<in> set es"
    using Cons.IH [of "Suc k" "b + ?n" "Suc a"] Cons.prems d by (auto simp: add.assoc)
  have lanes: "connect_lanes bps a 0 ?n b = Inr (map (\<lambda>l. (Accm_ctrl a l, Mmio_port (bps ! (b + l)))) [0..<?n])"
    using connect_lanes_ok [of b ?n bps a 0] Cons.prems(2) d by simp
  let ?es = "[(Nucleus_port (fp_name cmd), Accm_port a ''nucleus_cmd''), (Accm_port a ''kernel_cmd'', Kernel_port (fp_name cmd))]
    @ map (\<lambda>l. (Accm_ctrl a l, Mmio_port (bps ! (b + l)))) [0..<?n] @ es"
  have "connect_commands bps desc (cmd # cmds) k a b = Inr (?es, a + length (cmd # cmds),
      b + sum_list (take (length (cmd # cmds)) (drop k (buffer_counts desc))))"
    using k es(1) lanes d by (simp add: Let_def add.assoc)
  moreover have "filter is_lane ?es = lanes_in_order bps a b (take (length (cmd # cmds)) (drop k (buffer_counts desc)))"
    using es(2) d by (simp add: is_lane_def)
  moreover have "(Accm_port (a + j) ''kernel_cmd'', Kernel_port (fp_name ((cmd # cmds) ! j))) \<in> set ?es
        \<and> (Nucleus_port (fp_name ((cmd # cmds) ! j)), Accm_port (a + j) ''nucleus_cmd'') \<in> set ?es"
    if "j < length (cmd # cmds)" for j
    using that es(3) by (cases j) auto
  ultimately show ?case by blast
qed simp

text \<open>The buffers that the loop counts for a component: those of as many described fields as it has command ports.\<close>

definition commands :: "batch_component \<Rightarrow> field_port list" where
  "commands rb = GetFieldPorts (Some FP_COMMAND) rb"

definition counted_buffers :: "batch_component \<Rightarrow> nat list" where
  "counted_buffers rb = take (length (commands rb)) (buffer_counts (bc_desc rb))"

lemma connect_batches_ok:
  "\<forall>rb\<in>set rbs. length (commands rb) \<le> length (bd_fields (bc_desc rb)) \<Longrightarrow>
   b + sum_list (concat (map counted_buffers rbs)) \<le> length bps \<Longrightarrow>
   \<exists>es. connect_batches bps rbs a b = Inr es \<and> filter is_lane es = lanes_in_order bps a b (concat (map counted_buffers rbs))
    \<and> (\<forall>k<length (concat (map commands rbs)).
        (Accm_port (a + k) ''kernel_cmd'', Kernel_port (fp_name (concat (map commands rbs) ! k))) \<in> set es
      \<and> (Nucleus_port (fp_name (concat (map commands rbs) ! k)), Accm_port (a + k) ''nucleus_cmd'') \<in> set es)"
proof (induction rbs arbitrary: a b)
  case (Cons rb rbs)
  let ?n = "sum_list (counted_buffers rb)"
  have len: "length (counted_buffers rb) = length (commands rb)"
    using Cons.prems(1) by (simp add: counted_buffers_def buffer_counts_def)
  obtain es where es: "connect_commands bps (bc_desc rb) (commands rb) 0 a b = Inr (es, a + length (commands rb), b + ?n)"
    "filter is_lane es = lanes_in_order bps a b (counted_buffers rb)"
    "\<forall>j<length (commands rb). (Accm_port (a + j) ''kernel_cmd'', Kernel_port (fp_name (commands rb ! j))) \<in> set es
        \<and> (Nucleus_port (fp_name (commands rb ! j)), Accm_port (a + j) ''nucleus_cmd'') \<in> set es"
    using connect_commands_ok [of 0 "commands rb" "bc_desc rb" b bps a] Cons.prems
    by (auto simp: counted_buffers_def)
  obtain rest where rest: "connect_batches bps rbs (a + length (commands rb)) (b + ?n) = Inr rest"
    "filter is_lane rest = lanes_in_order bps (a + length (commands rb)) (b + ?n) (concat (map counted_buffers rbs))"
    "\<forall>k<length (concat (map commands rbs)).
      (Accm_port (a + length (commands rb) + k) ''kernel_cmd'', Kernel_port (fp_name (concat (map commands rbs) ! k))) \<in> set rest
      \<and> (Nucleus_port (fp_name (concat (map commands rbs) ! k)), Accm_port (a + length (commands rb) + k) ''nucleus_cmd'') \<in> set rest"
    using Cons.IH [of "b + ?n" "a + length (commands rb)"] Cons.prems by (auto simp: add.assoc)
  let ?all = "map connect_arrow (GetFieldPorts (Some FP_ARROW) rb) @ map connect_unlock (GetFieldPorts (Some FP_UNLOCK) rb) @ es @ rest"
  have "connect_batches bps (rb # rbs) a b = Inr ?all"
    using es(1) rest(1) by (simp add: commands_def)
  moreover have "filter is_lane ?all = lanes_in_order bps a b (concat (map counted_buffers (rb # rbs)))"
    using es(2) rest(2) len by (simp add: lanes_in_order_append)
  moreover have "(Accm_port (a + k) ''kernel_cmd'', Kernel_port (fp_name (concat (map commands (rb # rbs)) ! k))) \<in> set ?all
      \<and> (Nucleus_port (fp_name (concat (map commands (rb # rbs)) ! k)), Accm_port (a + k) ''nucleus_cmd'') \<in> set ?all"
    if k: "k < length (concat (map commands (rb # rbs)))" for k
  proof (cases "k < length (commands rb)")
    case True
    then show ?thesis using es(3) by (simp add: nth_append)
  next
    case False
    then have "k - length (commands rb) < length (concat (map commands rbs))"
      "a + length (commands rb) + (k - length (commands rb)) = a + k" using k by auto
    then show ?thesis using rest(3) False by (fastforce simp: nth_append)
  qed
  ultimately show ?case by blast
qed simp

section \<open>Designs whose fields can be generated\<close>

definition generable :: "arrow_field \<Rightarrow> bool" where
  "generable f = (supported (field_type f) \<and> kernel_types (field_type f)
     \<and> (case config_of f of Some c \<Rightarrow> plain_cfg False c | None \<Rightarrow> False))"

definition ignored :: "arrow_field \<Rightarrow> bool" where
  "ignored f = GetBoolMeta f meta_IGNORE False"

definition cmd_name :: "fletcher_schema \<Rightarrow> arrow_field \<Rightarrow> string" where
  "cmd_name schema f = fs_name schema @ ''_'' @ field_name f @ ''_cmd''"

lemma ctrl_count_ok: "supported (field_type f) \<Longrightarrow> \<exists>n. GetCtrlBufferCount f = Inr n"
  using FieldAnalyzer_ok_iff [of "[]" f] by (auto simp: GetCtrlBufferCount_def)

lemma command_port_ok:
  assumes "supported (field_type f)"
  shows "\<exists>c. command_port schema f iw tw aw = Inr c \<and> fp_name c = cmd_name schema f \<and> fp_function c = FP_COMMAND \<and> fp_field c = f
    \<and> fp_schema c = schema"
  using ctrl_count_ok [OF assms] by (auto simp: command_port_def cmd_name_def split: option.splits)

lemma add_field_ok:
  assumes "documented_lib lib" "generable f"
  shows "\<exists>ps arrs. add_field lib schema f = Inr (ps, arrs)
    \<and> map (\<lambda>p. (fp_name p, fp_field p, fp_schema p)) (filter (\<lambda>p. fp_function p = FP_COMMAND) ps) =
      (if ignored f then [] else [(cmd_name schema f, f, schema)])"
proof -
  obtain c where c: "config_of f = Some c" "plain_cfg False c" and s: "supported (field_type f)" "kernel_types (field_type f)"
    using assms(2) by (auto simp: generable_def split: option.splits)
  obtain ty where ty: "GetStreamType lib f (fs_mode schema) 0 = Inr ty"
    using stream_agrees_all [OF assms(1) c(1) s(2), of 0] c(2) by (auto simp: stream_agrees_def)
  obtain cfg spec where cfg: "GenerateConfigString lib f 0 = Inr cfg" "GetArrayDataSpec lib f = Inr spec"
    using config_agrees_all [OF assms(1) c(1)] by (auto simp: config_agrees_def)
  obtain n where n: "GetCtrlBufferCount f = Inr n" using ctrl_count_ok [OF s(1)] by blast
  obtain cmd where cmd: "command_port schema f INDEX_WIDTH_node TAG_WIDTH_node
      (Some (Text_node (fs_name schema @ ''_'' @ field_name f @ ''_BUS_ADDR_WIDTH''))) = Inr cmd"
    "fp_name cmd = cmd_name schema f" "fp_function cmd = FP_COMMAND" "fp_field cmd = f" "fp_schema cmd = schema"
    using command_port_ok [OF s(1)] by blast
  show ?thesis
    using ty cfg n cmd by (auto simp: add_field_def ignored_def arrow_port_def unlock_port_def)
qed

lemma AddArrays_ok:
  assumes "documented_lib lib"
  shows "\<forall>f\<in>set fs. generable f \<Longrightarrow> \<exists>ps arrs. AddArrays lib schema fs = Inr (ps, arrs)
    \<and> map (\<lambda>p. (fp_name p, fp_field p, fp_schema p)) (filter (\<lambda>p. fp_function p = FP_COMMAND) ps) =
      map (\<lambda>f. (cmd_name schema f, f, schema)) (filter (\<lambda>f. \<not> ignored f) fs)"
proof (induction fs)
  case (Cons f fs)
  have "generable f" using Cons.prems by simp
  from add_field_ok [OF assms this, of schema] obtain ps arrs where f: "add_field lib schema f = Inr (ps, arrs)"
    "map (\<lambda>p. (fp_name p, fp_field p, fp_schema p)) (filter (\<lambda>p. fp_function p = FP_COMMAND) ps) =
      (if ignored f then [] else [(cmd_name schema f, f, schema)])" by blast
  have "\<forall>f\<in>set fs. generable f" using Cons.prems by simp
  from Cons.IH [OF this] obtain qs brrs where r: "AddArrays lib schema fs = Inr (qs, brrs)"
    "map (\<lambda>p. (fp_name p, fp_field p, fp_schema p)) (filter (\<lambda>p. fp_function p = FP_COMMAND) qs) =
      map (\<lambda>f. (cmd_name schema f, f, schema)) (filter (\<lambda>f. \<not> ignored f) fs)" by blast
  show ?case using f r by simp
qed simp

text \<open>The component of a schema: its command ports are those of the fields that are not ignored, in order.\<close>

lemma RecordBatch_new_ok:
  assumes "documented_lib lib" "\<forall>f\<in>set (schema_fields (fs_arrow_schema schema)). generable f"
  shows "\<exists>rb. RecordBatch_new lib nm schema desc = Inr rb \<and> bc_desc rb = desc
    \<and> map (\<lambda>p. (fp_name p, fp_field p, fp_schema p)) (commands rb) =
      map (\<lambda>f. (cmd_name schema f, f, schema)) (filter (\<lambda>f. \<not> ignored f) (schema_fields (fs_arrow_schema schema)))"
  using AddArrays_ok [OF assms, of schema] by (auto simp: RecordBatch_new_def commands_def GetFieldPorts_def)

lemma nucleus_batch_ports_ok:
  assumes "\<forall>p\<in>set (commands rb). supported (field_type (fp_field p))"
  shows "\<exists>ps. nucleus_batch_ports rb = Inr ps"
proof -
  have "\<exists>c. reversed_command aw p = Inr c" if "p \<in> set (commands rb)" for aw p
  proof -
    have "supported (field_type (fp_field p))" using assms that by blast
    then show ?thesis using command_port_ok [of "fp_field p" "fp_schema p" INDEX_WIDTH_node TAG_WIDTH_node aw]
      by (auto simp: reversed_command_def)
  qed
  then have "\<exists>cs. res_mapM (\<lambda>p. reversed_command (g p) p) (commands rb) = Inr cs" for g
    by (intro res_mapM_total) blast
  from this [of "\<lambda>p. Some (Text_node (fs_name (bc_schema rb) @ ''_'' @ field_name (fp_field p) @ ''_BUS_ADDR_WIDTH''))"]
  show ?thesis by (auto simp: nucleus_batch_ports_def commands_def)
qed

text \<open>The registers of a design that hold buffer addresses follow the default registers and two registers for each batch.\<close>

lemma filter_upt_shift: "filter P [i..<i + n] = map ((+) i) (filter (\<lambda>j. P (i + j)) [0..<n])"
  by (induction n) simp_all

lemma buffer_ports_append:
  "buffer_ports (xs @ ys) = buffer_ports xs @ map ((+) (length xs)) (buffer_ports ys)"
proof -
  let ?P = "\<lambda>i. mr_function ((xs @ ys) ! i) = F_BUFFER"
  have "filter ?P [0..<length xs] = buffer_ports xs"
    unfolding buffer_ports_def by (rule filter_cong) (auto simp: nth_append)
  moreover have "filter ?P [length xs..<length xs + length ys] = map ((+) (length xs)) (buffer_ports ys)"
    unfolding filter_upt_shift [of ?P] buffer_ports_def by simp
  moreover have "buffer_ports (xs @ ys) = filter ?P ([0..<length xs] @ [length xs..<length xs + length ys])"
    unfolding buffer_ports_def by (simp only: length_append upt_add_eq_append [OF le0] add_0)
  ultimately show ?thesis by simp
qed

lemma buffer_ports_none: "\<forall>r\<in>set xs. mr_function r \<noteq> F_BUFFER \<Longrightarrow> buffer_ports xs = []"
  by (simp add: buffer_ports_def)

lemma buffer_ports_all: "\<forall>r\<in>set xs. mr_function r = F_BUFFER \<Longrightarrow> buffer_ports xs = [0..<length xs]"
  by (simp add: buffer_ports_def)

lemma custom_reg_function: "parse_custom_reg str = Inr r \<Longrightarrow> mr_function r = F_KERNEL"
  by (auto simp: parse_custom_reg_def split: option.splits)

lemma buffer_ports_design:
  assumes "Design_new profiling opts = Inr d" "\<forall>r\<in>set (d_profiling_regs d). mr_function r \<noteq> F_BUFFER"
  shows "buffer_ports (concat (all_regs d)) =
    map ((+) (7 + 2 * length (d_batch_desc d))) [0..<length (all_desc_buffers (d_batch_desc d))]"
proof -
  let ?ds = "d_batch_desc d"
  have def: "buffer_ports GetDefaultRegs = []" "length GetDefaultRegs = 7"
    by (rule buffer_ports_none) (simp_all add: GetDefaultRegs_def mmio_reg_new_def)
  have idx: "buffer_ports (concat (map batch_index_regs ds)) = []" "length (concat (map batch_index_regs ds)) = 2 * length ds" for ds
    by (rule buffer_ports_none, auto simp: batch_index_regs_def mmio_reg_new_def) (induction ds; simp add: batch_index_regs_def)
  have buf: "buffer_ports (map (\<lambda>(x, b). buffer_reg x b) bs) = [0..<length bs]" for bs
    using buffer_ports_all [of "map (\<lambda>(x, b). buffer_reg x b) bs"] by (auto simp: buffer_reg_def mmio_reg_new_def split: prod.splits)
  have "mr_function (d_kernel_regs d ! i) = F_KERNEL" if "i < length (d_kernel_regs d)" for i
    using Design_new_parts(5) [OF assms(1)] that custom_reg_function [of "opt_regs opts ! i"]
    by (simp add: ParseCustomRegs_def res_mapM_Inr_iff)
  then have ker: "buffer_ports (d_kernel_regs d) = []"
    by (intro buffer_ports_none) (auto simp: in_set_conv_nth)
  have prof: "buffer_ports (d_profiling_regs d) = []" using buffer_ports_none assms(2) by blast
  show ?thesis
    using Design_new_parts [OF assms(1)] def idx buf ker prof
    by (simp add: all_regs_def buffer_ports_append GetRecordBatchRegs_flat comp_def)
qed

section \<open>The nucleus of a design\<close>

text \<open>
  A design is regular when its fields can be generated, the batch of each schema describes as many fields as the schema has,
  and profiling adds no registers for buffers.
\<close>

definition schema_fields_of :: "fletcher_schema \<Rightarrow> arrow_field list" where
  "schema_fields_of schema = schema_fields (fs_arrow_schema schema)"

definition regular_design :: "design \<Rightarrow> bool" where
  "regular_design d = ((\<forall>s\<in>set (ss_schemas (d_schema_set d)). \<forall>f\<in>set (schema_fields_of s). generable f)
     \<and> map (\<lambda>desc. length (bd_fields desc)) (d_batch_desc d) = map (\<lambda>s. length (schema_fields_of s)) (ss_schemas (d_schema_set d))
     \<and> (\<forall>r\<in>set (d_profiling_regs d). mr_function r \<noteq> F_BUFFER))"

text \<open>The fields that get an array, with their schemas, and the numbers of buffers that the nucleus takes for them.\<close>

definition array_fields :: "design \<Rightarrow> (fletcher_schema \<times> arrow_field) list" where
  "array_fields d = concat (map (\<lambda>s. map (Pair s) (filter (\<lambda>f. \<not> ignored f) (schema_fields_of s))) (ss_schemas (d_schema_set d)))"

definition lane_counts :: "design \<Rightarrow> nat list" where
  "lane_counts d = concat (map (\<lambda>(s, desc). take (length (filter (\<lambda>f. \<not> ignored f) (schema_fields_of s))) (buffer_counts desc))
     (zip (ss_schemas (d_schema_set d)) (d_batch_desc d)))"

lemma components_ok:
  assumes "documented_lib lib" "\<forall>(s, desc)\<in>set pairs. \<forall>f\<in>set (schema_fields_of s). generable f"
  shows "\<exists>rbs. res_mapM (\<lambda>(schema, desc). RecordBatch_new lib (nm @ ''_'' @ fs_name schema) schema desc) pairs = Inr rbs
    \<and> map bc_desc rbs = map snd pairs
    \<and> map (\<lambda>rb. map (\<lambda>p. (fp_name p, fp_field p, fp_schema p)) (commands rb)) rbs =
      map (\<lambda>(s, _). map (\<lambda>f. (cmd_name s f, f, s)) (filter (\<lambda>f. \<not> ignored f) (schema_fields_of s))) pairs"
  using assms(2)
proof (induction pairs)
  case (Cons x xs)
  obtain s desc where x: "x = (s, desc)" by (cases x)
  have "\<forall>f\<in>set (schema_fields (fs_arrow_schema s)). generable f" using Cons.prems x by (simp add: schema_fields_of_def)
  from RecordBatch_new_ok [OF assms(1) this, of "nm @ ''_'' @ fs_name s" desc] obtain rb where
    "RecordBatch_new lib (nm @ ''_'' @ fs_name s) s desc = Inr rb" "bc_desc rb = desc"
    "map (\<lambda>p. (fp_name p, fp_field p, fp_schema p)) (commands rb) =
      map (\<lambda>f. (cmd_name s f, f, s)) (filter (\<lambda>f. \<not> ignored f) (schema_fields_of s))"
    unfolding schema_fields_of_def by blast
  moreover obtain rbs where "res_mapM (\<lambda>(schema, desc). RecordBatch_new lib (nm @ ''_'' @ fs_name schema) schema desc) xs = Inr rbs"
    "map bc_desc rbs = map snd xs"
    "map (\<lambda>rb. map (\<lambda>p. (fp_name p, fp_field p, fp_schema p)) (commands rb)) rbs =
      map (\<lambda>(s, _). map (\<lambda>f. (cmd_name s f, f, s)) (filter (\<lambda>f. \<not> ignored f) (schema_fields_of s))) xs"
    using Cons by auto
  ultimately show ?case using x by simp
qed simp

lemma lane_counts_sum:
  assumes "length ss = length ds"
  shows "sum_list (concat (map (\<lambda>(s, desc). take (k s) (buffer_counts desc)) (zip ss ds))) \<le> length (all_desc_buffers ds)"
  using assms
proof (induction ss ds rule: list_induct2)
  case (Cons s ss d ds)
  have "sum_list (take n ns) \<le> sum_list ns" for n and ns :: "nat list"
    using sum_list_append [of "take n ns" "drop n ns"] by simp
  moreover have "sum_list (buffer_counts d) = length (concat (map fm_buffers (bd_fields d)))"
    by (simp add: buffer_counts_def length_concat comp_def)
  ultimately have "sum_list (take (k s) (buffer_counts d)) \<le> length (concat (map fm_buffers (bd_fields d)))" by metis
  then show ?case using Cons by (simp add: all_desc_buffers_def)
qed simp

lemma design_nucleus_lanes:
  assumes "documented_lib lib" "Design_new profiling opts = Inr d" "regular_design d"
  shows "\<exists>nu. design_nucleus lib nm d = Inr nu
    \<and> filter is_lane (nu_edges nu) = lanes_in_order (buffer_ports (concat (all_regs d))) 0 0 (lane_counts d)
    \<and> length (lane_counts d) = length (array_fields d)
    \<and> (\<forall>k<length (array_fields d). (Accm_port k ''kernel_cmd'', Kernel_port (case_prod cmd_name (array_fields d ! k))) \<in> set (nu_edges nu)
        \<and> (Nucleus_port (case_prod cmd_name (array_fields d ! k)), Accm_port k ''nucleus_cmd'') \<in> set (nu_edges nu))"
proof -
  let ?ss = "ss_schemas (d_schema_set d)" and ?ds = "d_batch_desc d"
  let ?bps = "buffer_ports (concat (all_regs d))"
  have reg: "\<forall>s\<in>set ?ss. \<forall>f\<in>set (schema_fields_of s). generable f"
    "map (\<lambda>desc. length (bd_fields desc)) ?ds = map (\<lambda>s. length (schema_fields_of s)) ?ss"
    "\<forall>r\<in>set (d_profiling_regs d). mr_function r \<noteq> F_BUFFER" using assms(3) by (simp_all add: regular_design_def)
  have len: "length ?ss = length ?ds" using arg_cong [OF reg(2), of length] by simp
  have "\<forall>(s, desc)\<in>set (zip ?ss ?ds). \<forall>f\<in>set (schema_fields_of s). generable f"
    using reg(1) by (auto dest: set_zip_leftD)
  from components_ok [OF assms(1) this, of nm] obtain rbs where rbs: "design_components lib nm d = Inr rbs"
    "map bc_desc rbs = ?ds"
    "map (\<lambda>rb. map (\<lambda>p. (fp_name p, fp_field p, fp_schema p)) (commands rb)) rbs =
      map (\<lambda>(s, _). map (\<lambda>f. (cmd_name s f, f, s)) (filter (\<lambda>f. \<not> ignored f) (schema_fields_of s))) (zip ?ss ?ds)"
    using len by (auto simp: design_components_def)
  let ?T = "\<lambda>rb. map (\<lambda>p. (fp_name p, fp_field p, fp_schema p)) (commands rb)"
  let ?G = "\<lambda>s. map (\<lambda>f. (cmd_name s f, f, s)) (filter (\<lambda>f. \<not> ignored f) (schema_fields_of s))"
  have n: "length rbs = length ?ds" using arg_cong [OF rbs(2), of length] by simp
  have T: "?T (rbs ! i) = ?G (?ss ! i)" and desc: "bc_desc (rbs ! i) = ?ds ! i" if "i < length ?ds" for i
    using arg_cong [OF rbs(3), of "\<lambda>xs. xs ! i"] arg_cong [OF rbs(2), of "\<lambda>xs. xs ! i"] that n len by simp_all
  have num: "length (commands (rbs ! i)) = length (filter (\<lambda>f. \<not> ignored f) (schema_fields_of (?ss ! i)))" if "i < length ?ds" for i
    using arg_cong [OF T [OF that], of length] by simp
  have "length (bd_fields (?ds ! i)) = length (schema_fields_of (?ss ! i))" if "i < length ?ds" for i
    using arg_cong [OF reg(2), of "\<lambda>xs. xs ! i"] that len by simp
  then have few: "\<forall>rb\<in>set rbs. length (commands rb) \<le> length (bd_fields (bc_desc rb))"
    using n num desc by (auto simp: in_set_conv_nth intro: order_trans [OF length_filter_le])
  have counts: "map counted_buffers rbs = map (\<lambda>(s, desc). take (length (filter (\<lambda>f. \<not> ignored f) (schema_fields_of s)))
      (buffer_counts desc)) (zip ?ss ?ds)"
    using n num desc len by (intro nth_equalityI) (auto simp: counted_buffers_def)
  then have lc: "lane_counts d = concat (map counted_buffers rbs)" by (simp add: lane_counts_def)
  have "?T (rbs ! i) = ?G (?ss ! i)" if "i < length rbs" for i using T that n by simp
  then have "map ?T rbs = map ?G ?ss" using n len by (intro nth_equalityI) auto
  then have "map (\<lambda>p. (fp_name p, fp_field p, fp_schema p)) (concat (map commands rbs)) =
      map (\<lambda>(s, f). (cmd_name s f, f, s)) (array_fields d)"
    by (simp add: map_concat array_fields_def comp_def)
  then have names: "map fp_name (concat (map commands rbs)) = map (case_prod cmd_name) (array_fields d)"
    and fields: "map fp_field (concat (map commands rbs)) = map snd (array_fields d)"
    using map_map [of fst "\<lambda>p. (fp_name p, fp_field p, fp_schema p)"] map_map [of "\<lambda>x. fst (snd x)" "\<lambda>p. (fp_name p, fp_field p, fp_schema p)"]
    by (auto simp: comp_def split_def dest: arg_cong [of _ _ "map fst"] arg_cong [of _ _ "map (\<lambda>x. fst (snd x))"])
  have fit: "sum_list (concat (map counted_buffers rbs)) \<le> length ?bps"
    using lane_counts_sum [OF len, of "\<lambda>s. length (filter (\<lambda>f. \<not> ignored f) (schema_fields_of s))"]
      buffer_ports_design [OF assms(2) reg(3)] counts by simp
  obtain es where es: "connect_batches ?bps rbs 0 0 = Inr es"
    "filter is_lane es = lanes_in_order ?bps 0 0 (concat (map counted_buffers rbs))"
    "\<forall>k<length (concat (map commands rbs)).
        (Accm_port k ''kernel_cmd'', Kernel_port (fp_name (concat (map commands rbs) ! k))) \<in> set es
      \<and> (Nucleus_port (fp_name (concat (map commands rbs) ! k)), Accm_port k ''nucleus_cmd'') \<in> set es"
    using connect_batches_ok [OF few, of 0 ?bps 0] fit by auto
  have "supported (field_type (fp_field p))" if "rb \<in> set rbs" "p \<in> set (commands rb)" for rb p
  proof -
    have "fp_field p \<in> set (map fp_field (concat (map commands rbs)))" using that by auto
    then have "fp_field p \<in> snd ` set (array_fields d)" unfolding fields by simp
    then have "generable (fp_field p)" using reg(1) by (auto simp: array_fields_def)
    then show ?thesis by (simp add: generable_def)
  qed
  then have "\<exists>ps. res_mapM nucleus_batch_ports rbs = Inr ps"
    using nucleus_batch_ports_ok by (intro res_mapM_total) blast
  then obtain nu where nu: "Nucleus_new rbs (concat (all_regs d)) = Inr nu" "nu_edges nu = es @ connect_regs (concat (all_regs d))"
    using es(1) by (auto simp: Nucleus_new_def)
  have "filter is_lane (connect_regs regs) = []" for regs
    by (auto simp: filter_empty_conv connect_regs_def is_lane_def Let_def split: if_splits)
  moreover have "length (concat (map commands rbs)) = length (array_fields d)" using arg_cong [OF names, of length] by simp
  moreover have "fp_name (concat (map commands rbs) ! k) = case_prod cmd_name (array_fields d ! k)" if "k < length (array_fields d)" for k
    using arg_cong [OF names, of "\<lambda>xs. xs ! k"] that calculation(2) by simp
  moreover have "length (concat (map counted_buffers rbs)) = length (concat (map commands rbs))"
    using few by (induction rbs) (auto simp: counted_buffers_def buffer_counts_def)
  ultimately show ?thesis
    using nu es(2,3) rbs(1) lc by (auto simp: design_nucleus_def)
qed

lemma sum_take_less: "k < length ns \<Longrightarrow> l < ns ! k \<Longrightarrow> sum_list (take k ns) + l < sum_list (ns :: nat list)"
proof -
  assume k: "k < length ns" "l < ns ! k"
  have "sum_list ns = sum_list (take k ns) + (ns ! k + sum_list (drop (Suc k) ns))"
    using k(1) by (metis id_take_nth_drop sum_list.Cons sum_list_append)
  then show ?thesis using k(2) by simp
qed

text \<open>The edge of a lane, by the position of the register in the mmio component.\<close>

lemma design_lane:
  assumes "Design_new profiling opts = Inr d" "regular_design d"
    "filter is_lane (nu_edges nu) = lanes_in_order (buffer_ports (concat (all_regs d))) 0 0 (lane_counts d)"
    and "k < length (lane_counts d)" "l < lane_counts d ! k"
  defines "t \<equiv> sum_list (take k (lane_counts d)) + l"
  shows "(Accm_ctrl k l, e) \<in> set (nu_edges nu) \<longleftrightarrow> e = Mmio_port (7 + 2 * length (d_batch_desc d) + t)"
    "t < length (all_desc_buffers (d_batch_desc d))"
proof -
  have reg: "\<forall>r\<in>set (d_profiling_regs d). mr_function r \<noteq> F_BUFFER"
    "map (\<lambda>desc. length (bd_fields desc)) (d_batch_desc d) = map (\<lambda>s. length (schema_fields_of s)) (ss_schemas (d_schema_set d))"
    using assms(2) by (simp_all add: regular_design_def)
  have len: "length (ss_schemas (d_schema_set d)) = length (d_batch_desc d)" using arg_cong [OF reg(2), of length] by simp
  have "sum_list (lane_counts d) \<le> length (all_desc_buffers (d_batch_desc d))"
    using lane_counts_sum [OF len] unfolding lane_counts_def .
  then show t: "t < length (all_desc_buffers (d_batch_desc d))" using sum_take_less [OF assms(4,5)] by (simp add: t_def)
  then have "buffer_ports (concat (all_regs d)) ! t = 7 + 2 * length (d_batch_desc d) + t"
    by (simp add: buffer_ports_design [OF assms(1) reg(1)])
  moreover have "(Accm_ctrl k l, e) \<in> set (nu_edges nu) \<longleftrightarrow> (Accm_ctrl k l, e) \<in> set (filter is_lane (nu_edges nu))"
    by (simp add: is_lane_def)
  ultimately show "(Accm_ctrl k l, e) \<in> set (nu_edges nu) \<longleftrightarrow> e = Mmio_port (7 + 2 * length (d_batch_desc d) + t)"
    using lanes_in_order_member [OF assms(4,5), of 0 "buffer_ports (concat (all_regs d))" 0]
      lanes_in_order_unique [of 0 k l e "buffer_ports (concat (all_regs d))" 0 "lane_counts d"]
    unfolding assms(3) t_def by auto
qed

lemma lane_register:
  assumes "Design_new profiling opts = Inr d" "t < length (all_desc_buffers (d_batch_desc d))"
  shows "concat (all_regs d) ! (7 + 2 * length (d_batch_desc d) + t) = case_prod buffer_reg (all_desc_buffers (d_batch_desc d) ! t)"
proof -
  let ?R = "GetRecordBatchRegs (d_batch_desc d)"
  have "concat (all_regs d) = GetDefaultRegs @ ?R @ d_kernel_regs d @ d_profiling_regs d" "length GetDefaultRegs = 7"
    using Design_new_parts [OF assms(1)] by (simp_all add: all_regs_def GetDefaultRegs_def)
  then have "concat (all_regs d) ! (7 + 2 * length (d_batch_desc d) + t) = ?R ! (2 * length (d_batch_desc d) + t)"
    using assms(2) RecordBatchRegs_nth(4) [of "d_batch_desc d"] by (simp add: nth_append)
  then show ?thesis using RecordBatchRegs_nth(3) [OF assms(2)] by simp
qed

lemma no_ignored_counts:
  assumes "regular_design ds" "\<forall>s\<in>set (ss_schemas (d_schema_set ds)). \<forall>f\<in>set (schema_fields_of s). \<not> ignored f"
  shows "lane_counts ds = concat (map buffer_counts (d_batch_desc ds))"
proof -
  let ?ss = "ss_schemas (d_schema_set ds)" and ?k = "\<lambda>s. length (filter (\<lambda>f. \<not> ignored f) (schema_fields_of s))"
  have reg: "map (\<lambda>desc. length (bd_fields desc)) (d_batch_desc ds) = map (\<lambda>s. length (schema_fields_of s)) ?ss"
    using assms(1) by (simp add: regular_design_def)
  have len: "length ?ss = length (d_batch_desc ds)" using arg_cong [OF reg, of length] by simp
  have "take (?k (?ss ! i)) (buffer_counts (d_batch_desc ds ! i)) = buffer_counts (d_batch_desc ds ! i)" if "i < length (d_batch_desc ds)" for i
  proof -
    have "?ss ! i \<in> set ?ss" using that len by simp
    then have "?k (?ss ! i) = length (schema_fields_of (?ss ! i))" using assms(2) by simp
    also have "\<dots> = length (bd_fields (d_batch_desc ds ! i))"
      using arg_cong [OF reg, of "\<lambda>xs. xs ! i"] that len by simp
    finally show ?thesis by (simp add: buffer_counts_def)
  qed
  then have "map (\<lambda>(s, desc). take (?k s) (buffer_counts desc)) (zip ?ss (d_batch_desc ds)) = map buffer_counts (d_batch_desc ds)"
    using len by (intro nth_equalityI) auto
  then show ?thesis by (simp add: lane_counts_def)
qed

text \<open>C39: an ignored field shifts the buffer addresses: the nucleus pairs the command streams of the fields that are not
  ignored with the described fields from the first on. When the first field of the first schema is ignored and the
  second is not, the first array reads the second field, but its control vector gets the registers of the buffers of
  the first.\<close>

theorem ignored_field_misroutes:
  assumes "documented_lib lib" "Design_new profiling opts = Inr d" "regular_design d"
    and "ss_schemas (d_schema_set d) = s # ss" "d_batch_desc d = desc # more_descs"
    and "schema_fields_of s = f # g # fs" "ignored f" "\<not> ignored g"
  shows "\<exists>nu. design_nucleus lib nm d = Inr nu
    \<and> (Accm_port 0 ''kernel_cmd'', Kernel_port (cmd_name s g)) \<in> set (nu_edges nu)
    \<and> (\<forall>l<length (fm_buffers (bd_fields desc ! 0)). \<exists>p. (Accm_ctrl 0 l, Mmio_port p) \<in> set (nu_edges nu)
        \<and> concat (all_regs d) ! p = buffer_reg desc (fm_buffers (bd_fields desc ! 0) ! l))"
proof -
  obtain nu where nu: "design_nucleus lib nm d = Inr nu"
    "filter is_lane (nu_edges nu) = lanes_in_order (buffer_ports (concat (all_regs d))) 0 0 (lane_counts d)"
    "length (lane_counts d) = length (array_fields d)"
    "\<forall>k<length (array_fields d). (Accm_port k ''kernel_cmd'', Kernel_port (case_prod cmd_name (array_fields d ! k))) \<in> set (nu_edges nu)"
    using design_nucleus_lanes [OF assms(1-3), of nm] by blast
  have a: "array_fields d ! 0 = (s, g)" "0 < length (array_fields d)" using assms(4,6-8) by (simp_all add: array_fields_def)
  have "length (bd_fields desc) = length (schema_fields_of s)" using assms(3-5) by (simp add: regular_design_def)
  then obtain x xs where x: "bd_fields desc = x # xs" using assms(6) by (cases "bd_fields desc") auto
  have c: "lane_counts d ! 0 = length (fm_buffers x)"
    using assms(4-8) x by (simp add: lane_counts_def buffer_counts_def)
  have buf: "all_desc_buffers (d_batch_desc d) ! l = (desc, fm_buffers x ! l)" if "l < length (fm_buffers x)" for l
    using that assms(5) x by (simp add: all_desc_buffers_def nth_append)
  have "\<exists>p. (Accm_ctrl 0 l, Mmio_port p) \<in> set (nu_edges nu) \<and> concat (all_regs d) ! p = buffer_reg desc (fm_buffers x ! l)"
    if l: "l < length (fm_buffers x)" for l
  proof -
    have lk: "0 < length (lane_counts d)" "l < lane_counts d ! 0" using a(2) nu(3) c l by simp_all
    have t: "l < length (all_desc_buffers (d_batch_desc d))" using design_lane(2) [OF assms(2,3) nu(2) lk] by simp
    have "(Accm_ctrl 0 l, Mmio_port (7 + 2 * length (d_batch_desc d) + l)) \<in> set (nu_edges nu)"
      using design_lane(1) [OF assms(2,3) nu(2) lk] by simp
    then show ?thesis using lane_register [OF assms(2) t] buf [OF l] by auto
  qed
  then show ?thesis using nu(1,4) a x by auto
qed

text \<open>A schema whose first column is ignored.\<close>

definition ignoring_schema :: arrow_schema where
  "ignoring_schema = WithMetaRequired \<lparr>schema_fields = [Field ''a'' (FIXED INT32) False (Some [(meta_IGNORE, ''true'')]),
     Field ''b'' STRING False None], schema_metadata = None\<rparr> ''In'' READ"

definition ignoring_options :: options where
  "ignoring_options = example_options\<lparr>opt_schemas := [ignoring_schema]\<rparr>"

lemma ignoring_fields: "generable (Field ''a'' (FIXED INT32) False (Some [(meta_IGNORE, ''true'')]))"
  "generable (Field ''b'' STRING False None)" "ignored (Field ''a'' (FIXED INT32) False (Some [(meta_IGNORE, ''true'')]))"
  "\<not> ignored (Field ''b'' STRING False None)"
  by (simp_all add: generable_def ignored_def per_cycle_def kernel_kind_def GetBoolMeta_def GetMeta_def lookup_meta_def
      meta_keys int_meta_def GetUIntMeta_def)

lemma ignoring_design:
  "\<exists>d s desc. Design_new (\<lambda>_ _. []) ignoring_options = Inr d \<and> ss_schemas (d_schema_set d) = [s] \<and> d_batch_desc d = [desc]
    \<and> fs_arrow_schema s = ignoring_schema \<and> fs_name s = ''In'' \<and> length (bd_fields desc) = 2 \<and> d_profiling_regs d = [] \<and> fs_mode s = READ"
proof -
  let ?s = "\<lparr>fs_arrow_schema = ignoring_schema, fs_mode = READ, fs_name = ''In'', fs_bus_dims = BusDim_default\<rparr>"
  have a: "AnalyzeSchemas ignoring_options = Inr \<lparr>ss_name = ''Kernel'', ss_schemas = [?s]\<rparr>"
    by (simp add: AnalyzeSchemas_def ignoring_options_def example_options_def Options_default_def AppendSchema_def SchemaSet_Make_def
        HasSchemaWithName_def FletcherSchema_new_def BusDim_FromString_def SchemaSet_Sort_def ignoring_schema_def WithMetaRequired_def
        WithMetadata_schema_def GetMeta_schema_def lookup_meta_def meta_keys GetMode_def Let_def)
  have b: "\<exists>desc. AnalyzeRecordBatches ignoring_options \<lparr>ss_name = ''Kernel'', ss_schemas = [?s]\<rparr> = Inr [desc] \<and> length (bd_fields desc) = 2"
    by (simp add: AnalyzeRecordBatches_def analyze_one_def ignoring_options_def example_options_def Options_default_def
        GetRecordBatchWithName_def SchemaAnalyzer_Analyze_def FieldAnalyzer_unfold ignoring_schema_def WithMetaRequired_def
        WithMetadata_schema_def empty_description_def)
  have "opt_bus_dims ignoring_options = [''64,512,8,1,16'']" "opt_regs ignoring_options = opt_regs example_options"
    by (simp_all add: ignoring_options_def example_options_def Options_default_def)
  then show ?thesis using b by (auto simp: Design_new_def a example_regs bus_dim_example)
qed

lemma ignored_field_misroutes_witness:
  "\<exists>d nu desc. Design_new (\<lambda>_ _. []) ignoring_options = Inr d \<and> d_batch_desc d = [desc] \<and> design_nucleus example_lib ''Kernel'' d = Inr nu
    \<and> (Accm_port 0 ''kernel_cmd'', Kernel_port ''In_b_cmd'') \<in> set (nu_edges nu)
    \<and> (\<forall>l<length (fm_buffers (bd_fields desc ! 0)). \<exists>p. (Accm_ctrl 0 l, Mmio_port p) \<in> set (nu_edges nu)
        \<and> concat (all_regs d) ! p = buffer_reg desc (fm_buffers (bd_fields desc ! 0) ! l))"
proof -
  obtain d s desc where d: "Design_new (\<lambda>_ _. []) ignoring_options = Inr d" "ss_schemas (d_schema_set d) = [s]" "d_batch_desc d = [desc]"
    "fs_arrow_schema s = ignoring_schema" "fs_name s = ''In''" "length (bd_fields desc) = 2" "d_profiling_regs d = []"
    using ignoring_design by blast
  have fs: "schema_fields_of s = [Field ''a'' (FIXED INT32) False (Some [(meta_IGNORE, ''true'')]), Field ''b'' STRING False None]"
    using d(4) by (simp add: schema_fields_of_def ignoring_schema_def WithMetaRequired_def WithMetadata_schema_def)
  have reg: "regular_design d" using d fs ignoring_fields by (simp add: regular_design_def)
  have "cmd_name s (Field ''b'' STRING False None) = ''In_b_cmd''" by (simp add: cmd_name_def d(5))
  then show ?thesis
    using ignored_field_misroutes [OF example_lib_documented d(1) reg d(2,3) fs ignoring_fields(3,4), of "''Kernel''"] d(1,3) by auto
qed

section \<open>A design without ignored fields\<close>

lemma example_regular: "\<exists>ds. Design_new (\<lambda>_ _. []) example_options = Inr ds \<and> extra_regs_fit ds \<and> length (d_batch_desc ds) = 1
    \<and> concat (map buffer_counts (d_batch_desc ds)) = [1] \<and> regular_design ds
    \<and> (\<forall>s\<in>set (ss_schemas (d_schema_set ds)). \<forall>f\<in>set (schema_fields_of s). \<not> ignored f)"
proof -
  obtain ds where ds: "Design_new (\<lambda>_ _. []) example_options = Inr ds" "extra_regs_fit ds" "length (d_batch_desc ds) = 1"
    "length (all_desc_buffers (d_batch_desc ds)) = 1"
    using example_design by blast
  let ?s = "\<lparr>fs_arrow_schema = hd (opt_schemas example_options), fs_mode = READ, fs_name = ''In'', fs_bus_dims = BusDim_default\<rparr>"
  note parts = Design_new_parts [OF ds(1)]
  have "d_schema_set ds = \<lparr>ss_name = ''Kernel'', ss_schemas = [?s]\<rparr>"
    using trans [OF parts(1) [symmetric] example_schemas] by simp
  then have ss: "ss_schemas (d_schema_set ds) = [?s]" by simp
  have fs: "schema_fields_of ?s = [Field ''x'' (FIXED INT32) False None]"
    by (simp add: schema_fields_of_def example_options_def WithMetaRequired_def WithMetadata_schema_def)
  have one: "generable (Field ''x'' (FIXED INT32) False None)" "\<not> ignored (Field ''x'' (FIXED INT32) False None)"
    by (simp_all add: generable_def ignored_def per_cycle_def kernel_kind_def GetBoolMeta_def GetMeta_def lookup_meta_def)
  have fields: "\<forall>desc\<in>set (d_batch_desc ds). length (bd_fields desc) = 1"
    using parts(2) unfolding AnalyzeRecordBatches_def ss
    by (auto simp: analyze_one_def example_options_def Options_default_def GetRecordBatchWithName_def SchemaAnalyzer_Analyze_def
        FieldAnalyzer_unfold WithMetaRequired_def WithMetadata_schema_def empty_description_def dest: sym)
  then have counts: "concat (map buffer_counts (d_batch_desc ds)) = [1]"
    using ds(3,4) by (auto simp: length_Suc_conv buffer_counts_def all_desc_buffers_def)
  have "opt_bus_dims example_options = [''64,512,8,1,16'']" by (simp add: example_options_def Options_default_def)
  then have "d_profiling_regs ds = []" using ds(1) by (auto simp: Design_new_def res_bind_Inr_iff split: if_splits)
  then have "regular_design ds"
    using ds(3) fields ss fs one(1) by (auto simp: regular_design_def length_Suc_conv)
  then show ?thesis using ds counts ss fs one(2) by auto
qed

end
