(* ===== verification/Bus_Ports.thy ===== *)
theory Bus_Ports
  imports Netlist
begin

text \<open>
  The part of \<^verbatim>\<open>fletchgen/bus.cc\<close> that makes Cerata components, \<^verbatim>\<open>axi4_lite.cc\<close>, and the bus ports of
  the arrays and of the record batches (\<^verbatim>\<open>array.cc\<close>, \<^verbatim>\<open>recordbatch.cc\<close>). A component is
  given by its generics and its ports. The generics a port is bound to are named in the widths of its type.
\<close>

section \<open>Bus types and generics\<close>

definition bus_addr_width :: "u64 \<Rightarrow> string \<Rightarrow> string \<times> hw_default" where
  "bus_addr_width = param_factory ''BUS_ADDR_WIDTH''"
definition bus_data_width :: "u64 \<Rightarrow> string \<Rightarrow> string \<times> hw_default" where
  "bus_data_width = param_factory ''BUS_DATA_WIDTH''"
definition bus_len_width :: "u64 \<Rightarrow> string \<Rightarrow> string \<times> hw_default" where
  "bus_len_width = param_factory ''BUS_LEN_WIDTH''"
definition bus_burst_step_len :: "u64 \<Rightarrow> string \<Rightarrow> string \<times> hw_default" where
  "bus_burst_step_len = param_factory ''BUS_BURST_STEP_LEN''"
definition bus_burst_max_len :: "u64 \<Rightarrow> string \<Rightarrow> string \<times> hw_default" where
  "bus_burst_max_len = param_factory ''BUS_BURST_MAX_LEN''"

definition vec :: "hw_width \<Rightarrow> hw_type" where
  "vec w = Hw_vector None w []"

definition bus_read :: "hw_width \<Rightarrow> hw_width \<Rightarrow> hw_width \<Rightarrow> hw_type" where
  "bus_read addr_width data_width len_width =
    Hw_record (Some []) [
      named ''rreq'' (Hw_stream [] (Hw_record (Some []) [named ''addr'' (vec addr_width), named ''len'' (vec len_width)]) []),
      Hw_field (Some ''rdat'') (Hw_stream [] (Hw_record (Some [])
        [named ''data'' (vec data_width), named ''last'' (last_type 1 False)]) []) True]"

definition bus_write :: "hw_width \<Rightarrow> hw_width \<Rightarrow> hw_width \<Rightarrow> hw_type" where
  "bus_write addr_width data_width len_width =
    Hw_record (Some []) [
      named ''wreq'' (Hw_stream [] (Hw_record (Some []) [named ''addr'' (vec addr_width), named ''len'' (vec len_width)]) []),
      named ''wdat'' (Hw_stream [] (Hw_record (Some [])
        [named ''data'' (vec data_width), named ''strobe'' (vec (Node_div data_width 8)), named ''last'' (last_type 1 False)]) [])]"

text \<open>The generics of a bus, with the plain dimensions they were made from.\<close>

record bus_dim_params =
  bp_plain :: bus_dim
  bp_aw :: "string \<times> hw_default"
  bp_dw :: "string \<times> hw_default"
  bp_lw :: "string \<times> hw_default"
  bp_bs :: "string \<times> hw_default"
  bp_bm :: "string \<times> hw_default"

definition BusDimParams :: "bus_dim \<Rightarrow> string \<Rightarrow> bus_dim_params" where
  "BusDimParams dim prefix =
    \<lparr>bp_plain = dim, bp_aw = bus_addr_width (ucast (bd_aw dim)) prefix, bp_dw = bus_data_width (ucast (bd_dw dim)) prefix,
     bp_lw = bus_len_width (ucast (bd_lw dim)) prefix, bp_bs = bus_burst_step_len (ucast (bd_bs dim)) prefix,
     bp_bm = bus_burst_max_len (ucast (bd_bm dim)) prefix\<rparr>"

definition BusDimParams_all :: "bus_dim_params \<Rightarrow> (string \<times> hw_default) list" where
  "BusDimParams_all p = [bp_aw p, bp_dw p, bp_lw p, bp_bs p, bp_bm p]"

record bus_spec_params =
  bsp_dim :: bus_dim_params
  bsp_func :: bus_function

definition BusSpec_of_params :: "bus_spec_params \<Rightarrow> bus_spec" where
  "BusSpec_of_params p = \<lparr>bs_dim = bp_plain (bsp_dim p), bs_func = bsp_func p\<rparr>"

definition BusSpecParams_ToName :: "bus_spec_params \<Rightarrow> string" where
  "BusSpecParams_ToName p = BusSpec_ToName (BusSpec_of_params p)"

definition bus_type :: "bus_spec_params \<Rightarrow> hw_type" where
  "bus_type spec =
    (let node = (\<lambda>p. Text_node (fst p)); d = bsp_dim spec in
     if bsp_func spec = BUS_READ then bus_read (node (bp_aw d)) (node (bp_dw d)) (node (bp_lw d))
     else bus_write (node (bp_aw d)) (node (bp_dw d)) (node (bp_lw d)))"

record bus_port =
  bport_name :: string
  bport_dir :: port_dir
  bport_spec :: bus_spec_params
  bport_type :: hw_type

definition bus_port_new :: "string \<Rightarrow> port_dir \<Rightarrow> bus_spec_params \<Rightarrow> bus_port" where
  "bus_port_new nm dir params = \<lparr>bport_name = nm, bport_dir = dir, bport_spec = params, bport_type = bus_type params\<rparr>"

text \<open>The variant that takes its name from the parameters.\<close>

definition bus_port_unnamed :: "port_dir \<Rightarrow> bus_spec_params \<Rightarrow> bus_port" where
  "bus_port_unnamed dir params = bus_port_new (BusSpecParams_ToName params) dir params"

definition BusPort_Copy :: "bus_port \<Rightarrow> bus_port" where
  "BusPort_Copy p = (bus_port_new (bport_name p) (bport_dir p) (bport_spec p))\<lparr>bport_type := bport_type p\<rparr>"

text \<open>The generics of \<open>dst\<close> that are bound, each with the generic it is bound to.\<close>

definition ConnectBusParam :: "string list \<Rightarrow> string \<Rightarrow> bus_dim_params \<Rightarrow> (string \<times> string) list" where
  "ConnectBusParam dst prefix src =
    concat (map (\<lambda>(nm, p). if prefix @ nm \<in> set dst then [(prefix @ nm, fst p)] else [])
      [(fst (bus_addr_width 64 []), bp_aw src), (fst (bus_data_width 512 []), bp_dw src), (fst (bus_len_width 8 []), bp_lw src),
       (fst (bus_burst_step_len 4 []), bp_bs src), (fst (bus_burst_max_len 16 []), bp_bm src)])"

section \<open>Arbiters and serializers\<close>

record bus_component =
  bcomp_name :: string
  bcomp_generics :: "(string \<times> hw_default) list"
  bcomp_ports :: "bus_port list"

text \<open>The last port is the base of the array of slave ports, whose size is the generic \<^verbatim>\<open>NUM_SLAVE_PORTS\<close>. The clock and
  reset port is left out.\<close>

definition bus_arbiter :: "bus_function \<Rightarrow> bus_component" where
  "bus_arbiter func =
    (let params = BusDimParams BusDim_default []; spec = \<lparr>bsp_dim = params, bsp_func = func\<rparr>;
         slv_base = bus_port_new ''slv'' DIR_OUT spec
     in \<lparr>bcomp_name = GetBusArbiterName func,
         bcomp_generics = filter (\<lambda>p. p \<noteq> bp_bs params \<and> p \<noteq> bp_bm params) (BusDimParams_all params) @
           [(''NUM_SLAVE_PORTS'', Int_default 0), (''ARB_METHOD'', String_default ''RR-STICKY''), (''MAX_OUTSTANDING'', Int_default 4),
            (''RAM_CONFIG'', String_default []), (''SLV_REQ_SLICES'', Bool_default True), (''MST_REQ_SLICE'', Bool_default True),
            (''MST_DAT_SLICE'', Bool_default True), (''SLV_DAT_SLICES'', Bool_default True)],
         bcomp_ports = [bus_port_new ''mst'' DIR_OUT spec,
           slv_base\<lparr>bport_name := ''bsv'', bport_dir := reverse_dir (bport_dir slv_base)\<rparr>]\<rparr>)"

text \<open>The types of the two ports of the serializer: the call passes the length width in the place of the data width.\<close>

definition BusReadSerializer_ports :: "(string \<times> hw_type \<times> port_dir) list" where
  "BusReadSerializer_ports =
    (let aw = Text_node ''ADDR_WIDTH''; mdw = Text_node ''MASTER_DATA_WIDTH''; mlw = Text_node ''MASTER_LEN_WIDTH'';
         sdw = Text_node ''SLAVE_DATA_WIDTH''; slw = Text_node ''SLAVE_LEN_WIDTH''
     in [(''mst'', bus_read aw mlw mdw, DIR_OUT), (''slv'', bus_read aw slw sdw, DIR_OUT)])"

section \<open>AXI4-lite\<close>

record axi4_lite_spec =
  axi_data_width :: u64
  axi_addr_width :: u64

definition Axi4LiteSpec_default :: axi4_lite_spec where
  "Axi4LiteSpec_default = \<lparr>axi_data_width = 32, axi_addr_width = 32\<rparr>"

definition Axi4LiteSpec_ToString :: "axi4_lite_spec \<Rightarrow> string" where
  "Axi4LiteSpec_ToString s = ''MmioSpec['' @ ''addr:'' @ show_nat (unat (axi_addr_width s)) @
     '', dat:'' @ show_nat (unat (axi_data_width s)) @ '']''"

definition ToAxiTypeName :: "axi4_lite_spec \<Rightarrow> string" where
  "ToAxiTypeName s = ''MMIO'' @ ''_A'' @ show_nat (unat (axi_addr_width s)) @ ''_D'' @ show_nat (unat (axi_data_width s))"

definition axi4_lite_type :: "axi4_lite_spec \<Rightarrow> hw_type" where
  "axi4_lite_type spec =
    (let bits = (\<lambda>w. vec (Bits (uint w))) in
     Hw_record (Some (ToAxiTypeName spec)) [
       named ''aw'' (Hw_stream [''addr''] (bits (axi_addr_width spec)) []),
       named ''w'' (Hw_stream [] (Hw_record None [named ''data'' (bits (axi_data_width spec)),
         named ''strb'' (bits (axi_data_width spec div 8))]) []),
       Hw_field (Some ''b'') (Hw_stream [''resp''] (vec (Bits 2)) []) True,
       named ''ar'' (Hw_stream [''addr''] (bits (axi_addr_width spec)) []),
       Hw_field (Some ''r'') (Hw_stream [] (Hw_record None [named ''data'' (bits (axi_data_width spec)),
         named ''resp'' (vec (Bits 2))]) []) True])"

section \<open>Bus ports of arrays and record batches\<close>

definition array_bus :: "mode \<Rightarrow> bus_port" where
  "array_bus md = bus_port_new ''bus'' DIR_OUT
     \<lparr>bsp_dim = BusDimParams BusDim_default [], bsp_func = (if md = READ then BUS_READ else BUS_WRITE)\<rparr>"

definition ConnectBusPorts :: "bus_port \<Rightarrow> string \<Rightarrow> bus_port" where
  "ConnectBusPorts a_bus_port prefix =
    bus_port_new (prefix @ ''_bus'') (bport_dir a_bus_port)
      \<lparr>bsp_dim = BusDimParams (bp_plain (bsp_dim (bport_spec a_bus_port))) prefix, bsp_func = bsp_func (bport_spec a_bus_port)\<rparr>"

text \<open>The bus ports of a record batch component: one for the array of each field that is not ignored.\<close>

definition batch_bus_ports :: "batch_component \<Rightarrow> bus_port list" where
  "batch_bus_ports rb =
    (let schema = bc_schema rb in
     map (\<lambda>f. ConnectBusPorts (array_bus (fs_mode schema)) (fs_name schema @ ''_'' @ field_name f))
       (filter (\<lambda>f. \<not> GetBoolMeta f meta_IGNORE False) (schema_fields (fs_arrow_schema schema))))"

lemma batch_bus_spec:
  "p \<in> set (batch_bus_ports rb) \<Longrightarrow> BusSpec_of_params (bport_spec p)
    = \<lparr>bs_dim = BusDim_default, bs_func = (if fs_mode (bc_schema rb) = READ then BUS_READ else BUS_WRITE)\<rparr>"
  by (auto simp: batch_bus_ports_def Let_def ConnectBusPorts_def array_bus_def bus_port_new_def BusSpec_of_params_def BusDimParams_def)

lemma bus_spec_eq_iff: "bus_spec_eq s t \<longleftrightarrow> s = t"
  by (cases s; cases t) (auto simp: bus_spec_eq_def bus_dim_eq_def)

end
