(* ===== verification/Mantle.thy ===== *)
theory Mantle
  imports Bus_Ports
begin

text \<open>
  \<^verbatim>\<open>fletchgen/mantle.cc\<close>: the outermost component, with the record batches around the nucleus and an
  arbiter for each kind of memory bus. As in the nucleus a connection is a pair with the destination first. Clocks and
  resets are left out. \<^verbatim>\<open>cerata::FilterDuplicates\<close>, which removes the duplicates of a vector, is the parameter
  \<open>filter_dup\<close>.
\<close>

section \<open>The mantle\<close>

text \<open>The ends of connections: ports of the nucleus by name, ports of the record batches by their position and name, the master and
  the slave lanes of the arbiters by the position of the arbiter, and the top-level bus ports.\<close>

datatype mantle_end =
    Nucleus_side string
  | Batch_side nat string
  | Batch_bus nat string
  | Arbiter_mst nat
  | Arbiter_bsv nat nat
  | Top_bus bus_function

type_synonym mantle_edge = "mantle_end \<times> mantle_end"

record mantle =
  ma_arbiters :: "(string \<times> bus_component) list"
  ma_specs :: "bus_spec list"
  ma_field_edges :: "mantle_edge list"
  ma_master_edges :: "mantle_edge list"
  ma_slave_edges :: "mantle_edge list"
  ma_generics :: "(string \<times> string) list"

definition connect_field_port :: "nat \<Rightarrow> field_port \<Rightarrow> mantle_edge" where
  "connect_field_port r fp =
    (case fp_function fp of
       FP_ARROW \<Rightarrow> if fp_dir fp = DIR_OUT then (Nucleus_side (fp_name fp), Batch_side r (fp_name fp))
                   else (Batch_side r (fp_name fp), Nucleus_side (fp_name fp))
     | FP_COMMAND \<Rightarrow> (Batch_side r (fp_name fp), Nucleus_side (fp_name fp))
     | FP_UNLOCK \<Rightarrow> (Nucleus_side (fp_name fp), Batch_side r (fp_name fp)))"

text \<open>For each data port the address width of the nucleus and the bus generics of the batch are bound to the generics
  of the mantle.\<close>

definition field_generics :: "bus_dim_params \<Rightarrow> batch_component \<Rightarrow> (string \<times> string) list" where
  "field_generics bus_params rb =
    concat (map (\<lambda>fp. if fp_function fp = FP_ARROW then
        let prefix = fs_name (bc_schema rb) @ ''_'' @ field_name (fp_field fp) in
        (fst (bus_addr_width 0 prefix), fst (bus_addr_width 64 [])) #
        ConnectBusParam (map fst (concat (map (\<lambda>p. BusDimParams_all (bsp_dim (bport_spec p))) (batch_bus_ports rb))))
          (prefix @ ''_'') bus_params
      else []) (GetFieldPorts None rb))"

definition make_arbiter :: "bus_spec \<Rightarrow> string \<times> bus_component" where
  "make_arbiter b = (BusSpec_ToName b @ ''_inst'', bus_arbiter (bs_func b))"

text \<open>The entry of \<^verbatim>\<open>arb_map\<close> for a specification: the arbiter that was made for an equal one.\<close>

definition arb_map :: "bus_spec list \<Rightarrow> bus_spec \<Rightarrow> nat" where
  "arb_map specs s = length (takeWhile (\<lambda>b. \<not> bus_spec_eq b s) specs)"

text \<open>The second loop over the bus ports; \<open>lanes\<close> is the number of lanes each arbiter has so far.\<close>

fun connect_slaves :: "bus_spec list \<Rightarrow> (nat \<Rightarrow> nat) \<Rightarrow> (nat \<times> bus_port) list \<Rightarrow> mantle_edge list" where
  "connect_slaves specs lanes [] = []"
| "connect_slaves specs lanes ((r, bp) # bps) =
    (let arb = arb_map specs (BusSpec_of_params (bport_spec bp))
     in (Arbiter_bsv arb (lanes arb), Batch_bus r (bport_name bp)) #
        connect_slaves specs (lanes(arb := Suc (lanes arb))) bps)"

definition rb_bus_ports :: "batch_component list \<Rightarrow> (nat \<times> bus_port) list" where
  "rb_bus_ports rbs = concat (map (\<lambda>r. map (Pair r) (batch_bus_ports (rbs ! r))) [0..<length rbs])"

definition Mantle_new :: "(bus_spec list \<Rightarrow> bus_spec list) \<Rightarrow> batch_component list \<Rightarrow> bus_dim \<Rightarrow> mantle" where
  "Mantle_new filter_dup rbs bus_dim =
    (let bus_params = BusDimParams bus_dim [];
         ports = rb_bus_ports rbs;
         specs = filter_dup (map (\<lambda>(r, bp). BusSpec_of_params (bport_spec bp)) ports);
         arbs = map make_arbiter specs
     in \<lparr>ma_arbiters = arbs,
         ma_specs = specs,
         ma_field_edges = concat (map (\<lambda>r. map (connect_field_port r) (GetFieldPorts None (rbs ! r))) [0..<length rbs]),
         ma_master_edges = map (\<lambda>k. (Top_bus (bs_func (specs ! k)), Arbiter_mst k)) [0..<length specs],
         ma_slave_edges = connect_slaves specs (\<lambda>_. 0) ports,
         ma_generics = concat (map (field_generics bus_params) rbs) @
           concat (map (\<lambda>(_, a). ConnectBusParam (map fst (bcomp_generics a)) [] bus_params) arbs)\<rparr>)"

text \<open>The constructor of Design makes the mantle from the record batches and the bus dimensions of the options.\<close>

definition design_mantle :: "(bus_spec list \<Rightarrow> bus_spec list) \<Rightarrow> array_lib \<Rightarrow> string \<Rightarrow> design \<Rightarrow> mantle res" where
  "design_mantle filter_dup lib kernel_nm d =
    res_bind (design_components lib kernel_nm d) (\<lambda>rbs. Inr (Mantle_new filter_dup rbs (d_bus_spec d)))"

section \<open>Arbiters\<close>

text \<open>What \<^verbatim>\<open>FilterDuplicates\<close> promises.\<close>

definition removes_duplicates :: "('a list \<Rightarrow> 'a list) \<Rightarrow> bool" where
  "removes_duplicates f = (\<forall>xs. distinct (f xs) \<and> set (f xs) = set xs)"

lemma removes_duplicates_remdups: "removes_duplicates remdups"
  by (simp add: removes_duplicates_def)

lemma length_takeWhile_ex: "\<exists>x\<in>set xs. \<not> P x \<Longrightarrow> length (takeWhile P xs) < length xs"
  by (induction xs) auto

lemma arb_map_nth:
  assumes "s \<in> set specs"
  shows "arb_map specs s < length specs" "specs ! arb_map specs s = s"
proof -
  have "\<exists>x\<in>set specs. \<not> \<not> bus_spec_eq x s" using assms by (auto simp: bus_spec_eq_iff)
  then show "arb_map specs s < length specs" unfolding arb_map_def by (rule length_takeWhile_ex)
  then show "specs ! arb_map specs s = s"
    using nth_length_takeWhile [of "\<lambda>b. \<not> bus_spec_eq b s" specs] by (simp add: arb_map_def bus_spec_eq_iff)
qed

lemma arb_map_iff:
  assumes "s \<in> set specs" "distinct specs" "k < length specs"
  shows "arb_map specs s = k \<longleftrightarrow> s = specs ! k"
  using arb_map_nth [OF assms(1)] assms(2,3) by (metis nth_eq_iff_index_eq)

definition port_spec :: "nat \<times> bus_port \<Rightarrow> bus_spec" where
  "port_spec p = BusSpec_of_params (bport_spec (snd p))"

definition port_end :: "nat \<times> bus_port \<Rightarrow> mantle_end" where
  "port_end p = Batch_bus (fst p) (bport_name (snd p))"

lemma connect_slaves_Cons:
  "connect_slaves specs lanes (p # ps) = (let arb = arb_map specs (port_spec p)
     in (Arbiter_bsv arb (lanes arb), port_end p) # connect_slaves specs (lanes(arb := Suc (lanes arb))) ps)"
  by (cases p) (simp add: port_spec_def port_end_def Let_def del: fun_upd_apply)

lemma connect_slaves_ends: "map snd (connect_slaves specs lanes ps) = map port_end ps"
  by (induction ps arbitrary: lanes) (simp_all add: Let_def connect_slaves_Cons del: fun_upd_apply connect_slaves.simps(2))

lemma connect_slaves_arbiter:
  "i < length ps \<Longrightarrow> \<exists>j. fst (connect_slaves specs lanes ps ! i) = Arbiter_bsv (arb_map specs (port_spec (ps ! i))) j"
proof (induction ps arbitrary: i lanes)
  case (Cons p ps)
  then show ?case
    by (cases i) (simp_all add: Let_def connect_slaves_Cons del: fun_upd_apply connect_slaves.simps(2))
qed simp

text \<open>The lanes of one arbiter.\<close>

fun lane_of :: "nat \<Rightarrow> mantle_edge \<Rightarrow> bool" where
  "lane_of k (Arbiter_bsv a j, e) = (a = k)"
| "lane_of k (d, e) = False"

lemma connect_slaves_lanes:
  "map fst (filter (lane_of k) (connect_slaves specs lanes ps)) =
   map (Arbiter_bsv k) [lanes k..<lanes k + length (filter (\<lambda>p. arb_map specs (port_spec p) = k) ps)]"
proof (induction ps arbitrary: lanes)
  case (Cons p ps)
  show ?case
    by (simp add: connect_slaves_Cons Let_def Cons.IH upt_conv_Cons del: connect_slaves.simps(2) upt_Suc)
qed simp

lemma mantle_specs:
  assumes "removes_duplicates filter_dup"
  shows "distinct (ma_specs (Mantle_new filter_dup rbs dim))"
    and "set (ma_specs (Mantle_new filter_dup rbs dim)) = port_spec ` set (rb_bus_ports rbs)"
  using assms by (simp_all add: Mantle_new_def Let_def removes_duplicates_def port_spec_def split_def)

lemma rb_bus_port_spec:
  "p \<in> set (rb_bus_ports rbs) \<Longrightarrow> bs_dim (port_spec p) = BusDim_default"
  by (auto simp: rb_bus_ports_def port_spec_def batch_bus_spec)

text \<open>All specifications have the default dimensions, so they differ in their functions.\<close>

lemma distinct_functions:
  assumes "distinct (specs :: bus_spec list)" "\<forall>s\<in>set specs. bs_dim s = BusDim_default"
  shows "distinct (map bs_func specs)"
  unfolding distinct_map
proof (intro conjI inj_onI)
  fix s t assume "s \<in> set specs" "t \<in> set specs" "bs_func s = bs_func t"
  then show "s = t" using assms(2) by (intro bus_spec.equality) simp_all
qed (rule assms(1))

lemma distinct_two: "distinct (fs :: bus_function list) \<Longrightarrow> length fs \<le> 2"
proof -
  assume d: "distinct fs"
  have "set fs \<subseteq> {BUS_READ, BUS_WRITE}" by (auto intro: bus_function.exhaust)
  then have "card (set fs) \<le> card {BUS_READ, BUS_WRITE}" by (intro card_mono) auto
  then show ?thesis using d by (simp add: distinct_card)
qed

text \<open>C9: Every memory-bus port of every record batch is connected exactly once, to a lane of the arbiter made for its
  specification; the lanes of each arbiter are numbered from 0 without gaps, one for each of its ports; and there are at
  most two arbiters, one for each direction, so that no top-level bus has two drivers.\<close>

theorem mantle_lanes:
  assumes "removes_duplicates filter_dup"
  shows "map snd (ma_slave_edges (Mantle_new filter_dup rbs dim)) = map port_end (rb_bus_ports rbs) \<and>
    (\<forall>i < length (rb_bus_ports rbs). \<exists>k j. k < length (ma_specs (Mantle_new filter_dup rbs dim)) \<and>
       fst (ma_slave_edges (Mantle_new filter_dup rbs dim) ! i) = Arbiter_bsv k j \<and>
       ma_specs (Mantle_new filter_dup rbs dim) ! k = port_spec (rb_bus_ports rbs ! i)) \<and>
    (\<forall>k < length (ma_specs (Mantle_new filter_dup rbs dim)).
       map fst (filter (lane_of k) (ma_slave_edges (Mantle_new filter_dup rbs dim))) =
       map (Arbiter_bsv k) [0..<length (filter (\<lambda>p. port_spec p = ma_specs (Mantle_new filter_dup rbs dim) ! k) (rb_bus_ports rbs))]) \<and>
    distinct (map fst (ma_master_edges (Mantle_new filter_dup rbs dim))) \<and>
    length (ma_arbiters (Mantle_new filter_dup rbs dim)) \<le> 2"
    (is "?ends \<and> ?specs \<and> ?lanes \<and> ?masters \<and> ?two")
proof -
  let ?m = "Mantle_new filter_dup rbs dim"
  note specs = mantle_specs [OF assms, of rbs dim]
  have slaves: "ma_slave_edges ?m = connect_slaves (ma_specs ?m) (\<lambda>_. 0) (rb_bus_ports rbs)"
    by (simp add: Mantle_new_def Let_def)
  have masters: "map fst (ma_master_edges ?m) = map Top_bus (map bs_func (ma_specs ?m))"
    by (simp add: Mantle_new_def Let_def comp_def) (rule nth_equalityI; simp)
  have arbs: "length (ma_arbiters ?m) = length (map bs_func (ma_specs ?m))"
    by (simp add: Mantle_new_def Let_def)
  have funcs: "distinct (map bs_func (ma_specs ?m))"
    by (rule distinct_functions) (auto simp: specs rb_bus_port_spec)
  have port: "port_spec (rb_bus_ports rbs ! i) \<in> set (ma_specs ?m)" if "i < length (rb_bus_ports rbs)" for i
    using that by (simp add: specs)
  have ?specs
    using arb_map_nth [OF port] connect_slaves_arbiter slaves by metis
  moreover have "filter (\<lambda>p. arb_map (ma_specs ?m) (port_spec p) = k) (rb_bus_ports rbs)
      = filter (\<lambda>p. port_spec p = ma_specs ?m ! k) (rb_bus_ports rbs)" if "k < length (ma_specs ?m)" for k
    using that specs by (intro filter_cong refl arb_map_iff) auto
  then have ?lanes by (simp add: slaves connect_slaves_lanes)
  moreover have ?masters
    using funcs unfolding masters by (simp add: distinct_map inj_on_def)
  moreover have ?two unfolding arbs by (rule distinct_two [OF funcs])
  ultimately show ?thesis by (simp add: slaves connect_slaves_ends)
qed

definition two_columns :: batch_component where
  "two_columns = \<lparr>bc_name = ''Kernel_In'', bc_schema = \<lparr>fs_arrow_schema = WithMetaRequired \<lparr>schema_fields = [Field ''a'' STRING False None,
       Field ''b'' (FIXED INT32) False None], schema_metadata = None\<rparr> ''In'' READ, fs_mode = READ, fs_name = ''In'', fs_bus_dims = BusDim_default\<rparr>,
     bc_desc = empty_description, bc_ports = [], bc_arrays = []\<rparr>"

definition one_result :: batch_component where
  "one_result = \<lparr>bc_name = ''Kernel_Out'', bc_schema = \<lparr>fs_arrow_schema = WithMetaRequired \<lparr>schema_fields = [Field ''sum'' (FIXED INT64) False None], schema_metadata = None\<rparr>
       ''Out'' WRITE, fs_mode = WRITE, fs_name = ''Out'', fs_bus_dims = BusDim_default\<rparr>,
     bc_desc = empty_description, bc_ports = [], bc_arrays = []\<rparr>"

lemma example_bus_ports: "map port_end (rb_bus_ports [two_columns, one_result]) =
    [Batch_bus 0 ''In_a_bus'', Batch_bus 0 ''In_b_bus'', Batch_bus 1 ''Out_sum_bus'']"
  by code_simp

lemma mantle_lanes_witness:
  "length (ma_arbiters (Mantle_new remdups [two_columns, one_result] BusDim_default)) \<le> 2
    \<and> map snd (ma_slave_edges (Mantle_new remdups [two_columns, one_result] BusDim_default)) =
      [Batch_bus 0 ''In_a_bus'', Batch_bus 0 ''In_b_bus'', Batch_bus 1 ''Out_sum_bus'']"
  using mantle_lanes [OF removes_duplicates_remdups, of "[two_columns, one_result]" BusDim_default]
  by (simp only: example_bus_ports)

section \<open>From the record batches to the kernel\<close>

lemma add_field_ports:
  assumes "add_field lib schema f = Inr (ps, arrs)" "\<not> GetBoolMeta f meta_IGNORE False"
  shows "\<exists>arrow cmd. arrow_port lib schema f True = Inr arrow \<and> fp_name cmd = cmd_name schema f \<and> fp_function cmd = FP_COMMAND
    \<and> ps = [arrow, cmd, unlock_port schema f TAG_WIDTH_node]"
  using assms by (auto simp: add_field_def command_port_def cmd_name_def res_bind_Inr_iff)

lemma AddArrays_ports:
  assumes "AddArrays lib schema fs = Inr (ps, arrs)" "f \<in> set fs" "\<not> GetBoolMeta f meta_IGNORE False"
  shows "\<exists>qs brrs. add_field lib schema f = Inr (qs, brrs) \<and> set qs \<subseteq> set ps"
  using assms(1,2)
proof (induction fs arbitrary: ps arrs)
  case (Cons g fs)
  from Cons.prems(1) obtain qs bs rs cs where parts: "add_field lib schema g = Inr (qs, bs)" "AddArrays lib schema fs = Inr (rs, cs)"
    "ps = qs @ rs" by (auto simp: res_bind_Inr_iff)
  show ?case
  proof (cases "f = g")
    case True
    then show ?thesis using parts by auto
  next
    case False
    then show ?thesis using Cons.IH [OF parts(2)] Cons.prems(2) parts(3) by fastforce
  qed
qed simp

lemma connect_commands_member:
  "connect_commands bps desc cmds fi a b = Inr (es, a', b') \<Longrightarrow> c \<in> set cmds \<Longrightarrow>
   \<exists>k. (Nucleus_port (fp_name c), Accm_port k ''nucleus_cmd'') \<in> set es \<and> (Accm_port k ''kernel_cmd'', Kernel_port (fp_name c)) \<in> set es"
proof (induction cmds arbitrary: fi a b es a' b')
  case (Cons d cmds)
  from Cons.prems(1) obtain lanes es' where parts:
    "connect_commands bps desc cmds (Suc fi) (Suc a) (b + length (fm_buffers (bd_fields desc ! fi))) = Inr (es', a', b')"
    "es = [(Nucleus_port (fp_name d), Accm_port a ''nucleus_cmd''), (Accm_port a ''kernel_cmd'', Kernel_port (fp_name d))] @ lanes @ es'"
    by (auto simp: Let_def res_bind_Inr_iff split: if_splits)
  show ?case
  proof (cases "c = d")
    case True
    then show ?thesis using parts(2) by auto
  next
    case False
    then show ?thesis using Cons.IH [OF parts(1)] Cons.prems(2) parts(2) by auto
  qed
qed simp

lemmas connect_commands_pair = connect_commands_member [of _ _ _ _ _ _ _ "fst n" "snd n" for n, unfolded prod.collapse]

lemma connect_batches_member:
  "connect_batches bps rbs a b = Inr es \<Longrightarrow> rb \<in> set rbs \<Longrightarrow>
   \<exists>cmds a1 b1 a2 b2. connect_commands bps (bc_desc rb) (GetFieldPorts (Some FP_COMMAND) rb) a1 b1 a2 = Inr (cmds, b2)
     \<and> set cmds \<subseteq> set es \<and> connect_arrow ` set (GetFieldPorts (Some FP_ARROW) rb) \<subseteq> set es
     \<and> connect_unlock ` set (GetFieldPorts (Some FP_UNLOCK) rb) \<subseteq> set es"
proof (induction rbs arbitrary: a b es)
  case (Cons r rbs)
  from Cons.prems(1) obtain cs a' b' rest where parts:
    "connect_commands bps (bc_desc r) (GetFieldPorts (Some FP_COMMAND) r) 0 a b = Inr (cs, a', b')"
    "connect_batches bps rbs a' b' = Inr rest"
    "es = map connect_arrow (GetFieldPorts (Some FP_ARROW) r) @ map connect_unlock (GetFieldPorts (Some FP_UNLOCK) r) @ cs @ rest"
    by (auto simp: res_bind_Inr_iff)
  show ?case
  proof (cases "rb = r")
    case True
    then show ?thesis using parts by (intro exI) auto
  next
    case False
    then obtain cmds a1 b1 a2 b2 where "connect_commands bps (bc_desc rb) (GetFieldPorts (Some FP_COMMAND) rb) a1 b1 a2 = Inr (cmds, b2)"
      "set cmds \<subseteq> set rest" "connect_arrow ` set (GetFieldPorts (Some FP_ARROW) rb) \<subseteq> set rest"
      "connect_unlock ` set (GetFieldPorts (Some FP_UNLOCK) rb) \<subseteq> set rest"
      using Cons.IH [OF parts(2)] Cons.prems(2) by auto
    then show ?thesis using parts(3) by (intro exI) auto
  qed
qed simp

lemma component_of_schema:
  assumes "design_components lib nm d = Inr rbs" "i < length (ss_schemas (d_schema_set d))" "i < length (d_batch_desc d)"
    "s = ss_schemas (d_schema_set d) ! i" "f \<in> set (schema_fields (fs_arrow_schema s))" "\<not> GetBoolMeta f meta_IGNORE False"
  shows "i < length rbs \<and> (\<exists>arrow cmd. arrow_port lib s f True = Inr arrow \<and> fp_name cmd = cmd_name s f \<and> fp_function cmd = FP_COMMAND
    \<and> {arrow, cmd, unlock_port s f TAG_WIDTH_node} \<subseteq> set (bc_ports (rbs ! i)))"
proof -
  have rb: "i < length rbs" "RecordBatch_new lib (nm @ ''_'' @ fs_name s) s (d_batch_desc d ! i) = Inr (rbs ! i)"
    using assms(1-4) by (auto simp: design_components_def res_mapM_Inr_iff)
  from rb(2) obtain ps arrs where ps: "AddArrays lib s (schema_fields (fs_arrow_schema s)) = Inr (ps, arrs)" "bc_ports (rbs ! i) = ps"
    by (auto simp: RecordBatch_new_def res_bind_Inr_iff dest: arg_cong [of _ _ bc_ports])
  from AddArrays_ports [OF ps(1) assms(5,6)] obtain qs brrs where "add_field lib s f = Inr (qs, brrs)" "set qs \<subseteq> set ps" by blast
  with add_field_ports [OF this(1) assms(6)] rb(1) ps(2) show ?thesis by force
qed

lemma mantle_field_edge:
  "r < length rbs \<Longrightarrow> p \<in> set (bc_ports (rbs ! r)) \<Longrightarrow>
   connect_field_port r p \<in> set (ma_field_edges (Mantle_new filter_dup rbs dim))"
  by (auto simp: Mantle_new_def Let_def GetFieldPorts_def)

text \<open>C3: For every field that is not ignored the data stream of a read schema leads from the record batch through
  the nucleus to the kernel, and that of a write schema the other way; the commands lead from the kernel through a command merger
  and the nucleus to the record batch, and the unlocks back: mantle and nucleus agree on the direction and the names.\<close>

theorem streams_reach_kernel:
  assumes "design_nucleus lib nm d = Inr nu" "design_mantle filter_dup lib nm d = Inr ma"
    "i < length (ss_schemas (d_schema_set d))" "i < length (d_batch_desc d)" "s = ss_schemas (d_schema_set d) ! i"
    "f \<in> set (schema_fields (fs_arrow_schema s))" "\<not> GetBoolMeta f meta_IGNORE False"
  shows "let data = fs_name s @ ''_'' @ field_name f; cmd = data @ ''_cmd''; unl = data @ ''_unl'' in
     (if fs_mode s = READ
      then (Nucleus_side data, Batch_side i data) \<in> set (ma_field_edges ma) \<and> (Kernel_port data, Nucleus_port data) \<in> set (nu_edges nu)
      else (Nucleus_port data, Kernel_port data) \<in> set (nu_edges nu) \<and> (Batch_side i data, Nucleus_side data) \<in> set (ma_field_edges ma))
     \<and> (\<exists>k. (Accm_port k ''kernel_cmd'', Kernel_port cmd) \<in> set (nu_edges nu)
         \<and> (Nucleus_port cmd, Accm_port k ''nucleus_cmd'') \<in> set (nu_edges nu))
     \<and> (Batch_side i cmd, Nucleus_side cmd) \<in> set (ma_field_edges ma)
     \<and> (Nucleus_side unl, Batch_side i unl) \<in> set (ma_field_edges ma) \<and> (Kernel_port unl, Nucleus_port unl) \<in> set (nu_edges nu)"
proof -
  obtain rbs where rbs: "design_components lib nm d = Inr rbs" "Nucleus_new rbs (concat (all_regs d)) = Inr nu"
    using assms(1) by (auto simp: design_nucleus_def res_bind_Inr_iff)
  have ma: "ma = Mantle_new filter_dup rbs (d_bus_spec d)" using assms(2) rbs(1) by (simp add: design_mantle_def)
  obtain arrow cmd where p: "i < length rbs" "arrow_port lib s f True = Inr arrow" "fp_name cmd = cmd_name s f" "fp_function cmd = FP_COMMAND"
    and mem: "arrow \<in> set (bc_ports (rbs ! i))" "cmd \<in> set (bc_ports (rbs ! i))"
      "unlock_port s f TAG_WIDTH_node \<in> set (bc_ports (rbs ! i))"
    using component_of_schema [OF rbs(1) assms(3-7)] by blast
  have arrow: "fp_name arrow = fs_name s @ ''_'' @ field_name f" "fp_function arrow = FP_ARROW"
    "fp_dir arrow = (if fs_mode s = READ then DIR_OUT else DIR_IN)"
    using p(2) by (auto simp: arrow_port_def res_bind_Inr_iff mode2dir_def)
  have unl: "fp_function (unlock_port s f TAG_WIDTH_node) = FP_UNLOCK" "fp_name (unlock_port s f TAG_WIDTH_node) = fs_name s @ ''_'' @ field_name f @ ''_unl''"
    by (simp_all add: unlock_port_def)
  obtain es where es: "connect_batches (buffer_ports (concat (all_regs d))) rbs 0 0 = Inr es" "set es \<subseteq> set (nu_edges nu)"
    using rbs(2) by (auto simp: Nucleus_new_def res_bind_Inr_iff)
  obtain cmds a1 b1 a2 b2 where c: "connect_commands (buffer_ports (concat (all_regs d))) (bc_desc (rbs ! i)) (GetFieldPorts (Some FP_COMMAND) (rbs ! i)) a1 b1 a2 = Inr (cmds, b2)"
      "set cmds \<subseteq> set es" "connect_arrow ` set (GetFieldPorts (Some FP_ARROW) (rbs ! i)) \<subseteq> set es"
      "connect_unlock ` set (GetFieldPorts (Some FP_UNLOCK) (rbs ! i)) \<subseteq> set es"
    using connect_batches_member [OF es(1) nth_mem [OF p(1)]] by (elim exE conjE) (rule that)
  have "cmd \<in> set (GetFieldPorts (Some FP_COMMAND) (rbs ! i))" using mem(2) p(4) by (simp add: GetFieldPorts_def)
  from connect_commands_pair [OF c(1) this]
  obtain k where k: "(Nucleus_port (fp_name cmd), Accm_port k ''nucleus_cmd'') \<in> set (nu_edges nu)"
    "(Accm_port k ''kernel_cmd'', Kernel_port (fp_name cmd)) \<in> set (nu_edges nu)"
    using c(2) es(2) by (elim exE conjE) (rule that, auto)
  then have accm: "\<exists>k. (Accm_port k ''kernel_cmd'', Kernel_port (fp_name cmd)) \<in> set (nu_edges nu)
      \<and> (Nucleus_port (fp_name cmd), Accm_port k ''nucleus_cmd'') \<in> set (nu_edges nu)" by blast
  have "connect_arrow arrow \<in> set (nu_edges nu)" "connect_unlock (unlock_port s f TAG_WIDTH_node) \<in> set (nu_edges nu)"
    using c(3,4) es(2) mem(1,3) arrow(2) unl(1) by (auto simp: GetFieldPorts_def)
  note nucleus = this [unfolded connect_arrow_def connect_unlock_def]
  note mantle = mantle_field_edge [OF p(1) mem(1), of filter_dup "d_bus_spec d", folded ma, unfolded connect_field_port_def]
    mantle_field_edge [OF p(1) mem(2), of filter_dup "d_bus_spec d", folded ma, unfolded connect_field_port_def]
    mantle_field_edge [OF p(1) mem(3), of filter_dup "d_bus_spec d", folded ma, unfolded connect_field_port_def]
  show ?thesis
    using nucleus mantle accm by (simp add: Let_def arrow unl p(3,4) cmd_name_def split: if_splits)
qed

lemma streams_reach_kernel_witness:
  "\<exists>d nu ma. Design_new (\<lambda>_ _. []) ignoring_options = Inr d \<and> design_nucleus example_lib ''Kernel'' d = Inr nu
    \<and> design_mantle remdups example_lib ''Kernel'' d = Inr ma
    \<and> (Nucleus_side ''In_b'', Batch_side 0 ''In_b'') \<in> set (ma_field_edges ma) \<and> (Kernel_port ''In_b'', Nucleus_port ''In_b'') \<in> set (nu_edges nu)"
proof -
  let ?b = "Field ''b'' STRING False None"
  obtain d s desc where d: "Design_new (\<lambda>_ _. []) ignoring_options = Inr d" "ss_schemas (d_schema_set d) = [s]" "d_batch_desc d = [desc]"
    "fs_arrow_schema s = ignoring_schema" "fs_name s = ''In''" "length (bd_fields desc) = 2" "d_profiling_regs d = []" "fs_mode s = READ"
    using ignoring_design by blast
  have fs: "schema_fields_of s = [Field ''a'' (FIXED INT32) False (Some [(meta_IGNORE, ''true'')]), ?b]"
    using d(4) by (simp add: schema_fields_of_def ignoring_schema_def WithMetaRequired_def WithMetadata_schema_def)
  have reg: "regular_design d" using d fs ignoring_fields by (simp add: regular_design_def)
  obtain nu where nu: "design_nucleus example_lib ''Kernel'' d = Inr nu"
    using design_nucleus_lanes [OF example_lib_documented d(1) reg] by blast
  then obtain ma where ma: "design_mantle remdups example_lib ''Kernel'' d = Inr ma"
    by (auto simp: design_nucleus_def design_mantle_def res_bind_Inr_iff)
  have "?b \<in> set (schema_fields (fs_arrow_schema s))" "\<not> GetBoolMeta ?b meta_IGNORE False"
    using fs ignoring_fields(4) by (simp_all add: schema_fields_of_def ignored_def)
  note field = this
  have at: "0 < length (ss_schemas (d_schema_set d))" "0 < length (d_batch_desc d)" "s = ss_schemas (d_schema_set d) ! 0"
    by (simp_all add: d(2,3))
  have "(Nucleus_side ''In_b'', Batch_side 0 ''In_b'') \<in> set (ma_field_edges ma)" "(Kernel_port ''In_b'', Nucleus_port ''In_b'') \<in> set (nu_edges nu)"
    using streams_reach_kernel [OF nu ma at field] by (simp_all add: Let_def d(5,8))
  then show ?thesis using d(1) nu ma by blast
qed

end
