(* ===== verification/Top_Text.thy ===== *)
theory Top_Text
  imports Mmio
begin

text \<open>
  The pieces of VHDL that \<^verbatim>\<open>fletchgen/top/sim.cc\<close> and \<^verbatim>\<open>axi.cc\<close> put into the top-level
  templates when a design reads or writes memory, as they stand in the source, and the names of the placeholders
  of both templates. The rest of the templates is fixed text and is not needed here.
\<close>

definition dquote :: string where
  "dquote = [char_of (34 :: nat)]"

section \<open>The placeholders of the templates\<close>

definition sim_placeholders :: "string list" where
  "sim_placeholders = [''BUS_ADDR_WIDTH'', ''BUS_DATA_WIDTH'', ''BUS_LEN_WIDTH'', ''BUS_BURST_MAX_LEN'', ''BUS_BURST_STEP_LEN'',
     ''FLETCHER_WRAPPER_NAME'', ''MST_RREQ_DECLARE'', ''MST_WREQ_DECLARE'', ''SREC_BUFFER_ADDRESSES'',
     ''SREC_FIRSTLAST_INDICES'', ''KERNEL_REGS_INIT'', ''PROFILE_START'', ''PROFILE_STOP'', ''PROFILE_READ'',
     ''BUS_READ_SLAVE_MOCK'', ''BUS_WRITE_SLAVE_MOCK'', ''FLETCHER_WRAPPER_INST_NAME'', ''MST_RREQ_INSTANTIATE'',
     ''MST_WREQ_INSTANTIATE'']"

definition axi_placeholders :: "string list" where
  "axi_placeholders = [''BUS_ADDR_WIDTH'', ''BUS_DATA_WIDTH'', ''BUS_LEN_WIDTH'', ''BUS_BURST_MAX_LEN'', ''BUS_BURST_STEP_LEN'',
     ''MMIO_ADDR_WIDTH'', ''MMIO_DATA_WIDTH'', ''FLETCHER_WRAPPER_NAME'', ''MST_RREQ_DECLARE'', ''MST_WREQ_DECLARE'',
     ''FLETCHER_WRAPPER_INST_NAME'', ''MST_RREQ_INSTANTIATE'', ''MST_WREQ_INSTANTIATE'', ''AXI_READ_CONVERTER'',
     ''AXI_WRITE_CONVERTER'']"

section \<open>Pieces of text\<close>

definition sim_read_mock :: "string \<Rightarrow> string" where
  "sim_read_mock path =
    ''  rmem_inst: BusReadSlaveMock'' @ endl @
    ''  generic map ('' @ endl @
    ''    BUS_ADDR_WIDTH              => BUS_ADDR_WIDTH,'' @ endl @
    ''    BUS_LEN_WIDTH               => BUS_LEN_WIDTH,'' @ endl @
    ''    BUS_DATA_WIDTH              => BUS_DATA_WIDTH,'' @ endl @
    ''    SEED                        => 1337,'' @ endl @
    ''    RANDOM_REQUEST_TIMING       => false,'' @ endl @
    ''    RANDOM_RESPONSE_TIMING      => false,'' @ endl @
    ''    SREC_FILE                   => '' @ dquote @
    path @
    dquote @ endl @
    ''  )'' @ endl @
    ''  port map ('' @ endl @
    ''    clk                         => bcd_clk,'' @ endl @
    ''    reset                       => bcd_reset,'' @ endl @
    ''    rreq_valid                  => bus_rreq_valid,'' @ endl @
    ''    rreq_ready                  => bus_rreq_ready,'' @ endl @
    ''    rreq_addr                   => bus_rreq_addr,'' @ endl @
    ''    rreq_len                    => bus_rreq_len,'' @ endl @
    ''    rdat_valid                  => bus_rdat_valid,'' @ endl @
    ''    rdat_ready                  => bus_rdat_ready,'' @ endl @
    ''    rdat_data                   => bus_rdat_data,'' @ endl @
    ''    rdat_last                   => bus_rdat_last'' @ endl @
    ''  );'' @ endl @
    endl"

definition sim_rreq_declare :: string where
  "sim_rreq_declare =
    ''      rd_mst_rreq_valid         : out std_logic;'' @ endl @
    ''      rd_mst_rreq_ready         : in  std_logic;'' @ endl @
    ''      rd_mst_rreq_addr          : out std_logic_vector(BUS_ADDR_WIDTH-1 downto 0);'' @ endl @
    ''      rd_mst_rreq_len           : out std_logic_vector(BUS_LEN_WIDTH-1 downto 0);'' @ endl @
    ''      rd_mst_rdat_valid         : in  std_logic;'' @ endl @
    ''      rd_mst_rdat_ready         : out std_logic;'' @ endl @
    ''      rd_mst_rdat_data          : in  std_logic_vector(BUS_DATA_WIDTH-1 downto 0);'' @ endl @
    ''      rd_mst_rdat_last          : in  std_logic;'' @ endl"

definition sim_rreq_instantiate :: string where
  "sim_rreq_instantiate =
    ''      rd_mst_rreq_valid         => bus_rreq_valid,'' @ endl @
    ''      rd_mst_rreq_ready         => bus_rreq_ready,'' @ endl @
    ''      rd_mst_rreq_addr          => bus_rreq_addr,'' @ endl @
    ''      rd_mst_rreq_len           => bus_rreq_len,'' @ endl @
    ''      rd_mst_rdat_valid         => bus_rdat_valid,'' @ endl @
    ''      rd_mst_rdat_ready         => bus_rdat_ready,'' @ endl @
    ''      rd_mst_rdat_data          => bus_rdat_data,'' @ endl @
    ''      rd_mst_rdat_last          => bus_rdat_last,'' @ endl"

definition sim_write_mock :: "string \<Rightarrow> string" where
  "sim_write_mock path =
    ''  wmem_inst: BusWriteSlaveMock'' @ endl @
    ''  generic map ('' @ endl @
    ''    BUS_ADDR_WIDTH              => BUS_ADDR_WIDTH,'' @ endl @
    ''    BUS_LEN_WIDTH               => BUS_LEN_WIDTH,'' @ endl @
    ''    BUS_DATA_WIDTH              => BUS_DATA_WIDTH,'' @ endl @
    ''    SEED                        => 1337,'' @ endl @
    ''    RANDOM_REQUEST_TIMING       => false,'' @ endl @
    ''    RANDOM_RESPONSE_TIMING      => false,'' @ endl @
    ''    SREC_FILE                   => '' @ dquote @
    path @
    dquote @ endl @
    ''  )'' @ endl @
    ''  port map ('' @ endl @
    ''    clk                         => bcd_clk,'' @ endl @
    ''    reset                       => bcd_reset,'' @ endl @
    ''    wreq_valid                  => bus_wreq_valid,'' @ endl @
    ''    wreq_ready                  => bus_wreq_ready,'' @ endl @
    ''    wreq_addr                   => bus_wreq_addr,'' @ endl @
    ''    wreq_len                    => bus_wreq_len,'' @ endl @
    ''    wdat_valid                  => bus_wdat_valid,'' @ endl @
    ''    wdat_ready                  => bus_wdat_ready,'' @ endl @
    ''    wdat_data                   => bus_wdat_data,'' @ endl @
    ''    wdat_strobe                 => bus_wdat_strobe,'' @ endl @
    ''    wdat_last                   => bus_wdat_last'' @ endl @
    ''  );''"

definition sim_wreq_declare :: string where
  "sim_wreq_declare =
    ''      wr_mst_wreq_valid         : out std_logic;'' @ endl @
    ''      wr_mst_wreq_ready         : in std_logic;'' @ endl @
    ''      wr_mst_wreq_addr          : out std_logic_vector(BUS_ADDR_WIDTH-1 downto 0);'' @ endl @
    ''      wr_mst_wreq_len           : out std_logic_vector(BUS_LEN_WIDTH-1 downto 0);'' @ endl @
    ''      wr_mst_wdat_valid         : out std_logic;'' @ endl @
    ''      wr_mst_wdat_ready         : in std_logic;'' @ endl @
    ''      wr_mst_wdat_data          : out std_logic_vector(BUS_DATA_WIDTH-1 downto 0);'' @ endl @
    ''      wr_mst_wdat_strobe        : out std_logic_vector(BUS_DATA_WIDTH/8-1 downto 0);'' @ endl @
    ''      wr_mst_wdat_last          : out std_logic;''"

definition sim_wreq_instantiate :: string where
  "sim_wreq_instantiate =
    ''      wr_mst_wreq_valid         => bus_wreq_valid,'' @ endl @
    ''      wr_mst_wreq_ready         => bus_wreq_ready,'' @ endl @
    ''      wr_mst_wreq_addr          => bus_wreq_addr,'' @ endl @
    ''      wr_mst_wreq_len           => bus_wreq_len,'' @ endl @
    ''      wr_mst_wdat_valid         => bus_wdat_valid,'' @ endl @
    ''      wr_mst_wdat_ready         => bus_wdat_ready,'' @ endl @
    ''      wr_mst_wdat_data          => bus_wdat_data,'' @ endl @
    ''      wr_mst_wdat_strobe        => bus_wdat_strobe,'' @ endl @
    ''      wr_mst_wdat_last          => bus_wdat_last,''"

definition axi_rreq_declare :: string where
  "axi_rreq_declare =
    ''      rd_mst_rreq_valid         : out std_logic;'' @ endl @
    ''      rd_mst_rreq_ready         : in  std_logic;'' @ endl @
    ''      rd_mst_rreq_addr          : out std_logic_vector(BUS_ADDR_WIDTH-1 downto 0);'' @ endl @
    ''      rd_mst_rreq_len           : out std_logic_vector(BUS_LEN_WIDTH-1 downto 0);'' @ endl @
    ''      rd_mst_rdat_valid         : in  std_logic;'' @ endl @
    ''      rd_mst_rdat_ready         : out std_logic;'' @ endl @
    ''      rd_mst_rdat_data          : in  std_logic_vector(BUS_DATA_WIDTH-1 downto 0);'' @ endl @
    ''      rd_mst_rdat_last          : in  std_logic;'' @ endl"

definition axi_rreq_instantiate :: string where
  "axi_rreq_instantiate =
    ''      rd_mst_rreq_valid         => rd_mst_rreq_valid,'' @ endl @
    ''      rd_mst_rreq_ready         => rd_mst_rreq_ready,'' @ endl @
    ''      rd_mst_rreq_addr          => rd_mst_rreq_addr,'' @ endl @
    ''      rd_mst_rreq_len           => rd_mst_rreq_len,'' @ endl @
    ''      rd_mst_rdat_valid         => rd_mst_rdat_valid,'' @ endl @
    ''      rd_mst_rdat_ready         => rd_mst_rdat_ready,'' @ endl @
    ''      rd_mst_rdat_data          => rd_mst_rdat_data,'' @ endl @
    ''      rd_mst_rdat_last          => rd_mst_rdat_last,''"

definition axi_read_converter :: string where
  "axi_read_converter =
    ''  -----------------------------------------------------------------------------'' @ endl @
    ''  -- AXI read converter'' @ endl @
    ''  -----------------------------------------------------------------------------'' @ endl @
    ''  -- Buffering bursts is disabled (ENABLE_FIFO=false) because BufferReaders'' @ endl @
    ''  -- are already able to absorb full bursts.'' @ endl @
    ''  axi_read_conv_inst: AxiReadConverter'' @ endl @
    ''    generic map ('' @ endl @
    ''      ADDR_WIDTH                => BUS_ADDR_WIDTH,'' @ endl @
    ''      MASTER_DATA_WIDTH         => BUS_DATA_WIDTH,'' @ endl @
    ''      MASTER_LEN_WIDTH          => BUS_LEN_WIDTH,'' @ endl @
    ''      SLAVE_DATA_WIDTH          => BUS_DATA_WIDTH,'' @ endl @
    ''      SLAVE_LEN_WIDTH           => BUS_LEN_WIDTH,'' @ endl @
    ''      SLAVE_MAX_BURST           => BUS_BURST_MAX_LEN,'' @ endl @
    ''      ENABLE_FIFO               => false,'' @ endl @
    ''      SLV_REQ_SLICE_DEPTH       => 0,'' @ endl @
    ''      SLV_DAT_SLICE_DEPTH       => 0,'' @ endl @
    ''      MST_REQ_SLICE_DEPTH       => 0,'' @ endl @
    ''      MST_DAT_SLICE_DEPTH       => 0'' @ endl @
    ''    )'' @ endl @
    ''    port map ('' @ endl @
    ''      clk                       => bcd_clk,'' @ endl @
    ''      reset_n                   => bcd_reset_n,'' @ endl @
    ''      slv_bus_rreq_addr         => rd_mst_rreq_addr,'' @ endl @
    ''      slv_bus_rreq_len          => rd_mst_rreq_len,'' @ endl @
    ''      slv_bus_rreq_valid        => rd_mst_rreq_valid,'' @ endl @
    ''      slv_bus_rreq_ready        => rd_mst_rreq_ready,'' @ endl @
    ''      slv_bus_rdat_data         => rd_mst_rdat_data,'' @ endl @
    ''      slv_bus_rdat_last         => rd_mst_rdat_last,'' @ endl @
    ''      slv_bus_rdat_valid        => rd_mst_rdat_valid,'' @ endl @
    ''      slv_bus_rdat_ready        => rd_mst_rdat_ready,'' @ endl @
    ''      m_axi_araddr              => m_axi_araddr,'' @ endl @
    ''      m_axi_arlen               => m_axi_arlen,'' @ endl @
    ''      m_axi_arvalid             => m_axi_arvalid,'' @ endl @
    ''      m_axi_arready             => m_axi_arready,'' @ endl @
    ''      m_axi_arsize              => m_axi_arsize,'' @ endl @
    ''      m_axi_rdata               => m_axi_rdata,'' @ endl @
    ''      m_axi_rlast               => m_axi_rlast,'' @ endl @
    ''      m_axi_rvalid              => m_axi_rvalid,'' @ endl @
    ''      m_axi_rready              => m_axi_rready'' @ endl @
    ''    );''"

definition axi_wreq_declare :: string where
  "axi_wreq_declare =
    ''      wr_mst_wreq_valid        : out std_logic;'' @ endl @
    ''      wr_mst_wreq_ready        : in std_logic;'' @ endl @
    ''      wr_mst_wreq_addr         : out std_logic_vector(BUS_ADDR_WIDTH-1 downto 0);'' @ endl @
    ''      wr_mst_wreq_len          : out std_logic_vector(BUS_LEN_WIDTH-1 downto 0);'' @ endl @
    ''      wr_mst_wdat_valid        : out std_logic;'' @ endl @
    ''      wr_mst_wdat_ready        : in std_logic;'' @ endl @
    ''      wr_mst_wdat_data         : out std_logic_vector(BUS_DATA_WIDTH-1 downto 0);'' @ endl @
    ''      wr_mst_wdat_strobe       : out std_logic_vector(BUS_DATA_WIDTH/8-1 downto 0);'' @ endl @
    ''      wr_mst_wdat_last         : out std_logic;''"

definition axi_wreq_instantiate :: string where
  "axi_wreq_instantiate =
    ''      wr_mst_wreq_valid         => wr_mst_wreq_valid,'' @ endl @
    ''      wr_mst_wreq_ready         => wr_mst_wreq_ready,'' @ endl @
    ''      wr_mst_wreq_addr          => wr_mst_wreq_addr,'' @ endl @
    ''      wr_mst_wreq_len           => wr_mst_wreq_len,'' @ endl @
    ''      wr_mst_wdat_valid         => wr_mst_wdat_valid,'' @ endl @
    ''      wr_mst_wdat_ready         => wr_mst_wdat_ready,'' @ endl @
    ''      wr_mst_wdat_data          => wr_mst_wdat_data,'' @ endl @
    ''      wr_mst_wdat_strobe        => wr_mst_wdat_strobe,'' @ endl @
    ''      wr_mst_wdat_last          => wr_mst_wdat_last,''"

definition axi_write_converter :: string where
  "axi_write_converter =
    ''  -----------------------------------------------------------------------------'' @ endl @
    ''  -- AXI write converter'' @ endl @
    ''  -----------------------------------------------------------------------------'' @ endl @
    ''  -- Buffering bursts is disabled (ENABLE_FIFO=false) because BufferWriters'' @ endl @
    ''  -- are already able to absorb full bursts.'' @ endl @
    ''  axi_write_conv_inst: AxiWriteConverter'' @ endl @
    ''    generic map ('' @ endl @
    ''      ADDR_WIDTH                => BUS_ADDR_WIDTH,'' @ endl @
    ''      MASTER_DATA_WIDTH         => BUS_DATA_WIDTH,'' @ endl @
    ''      MASTER_LEN_WIDTH          => BUS_LEN_WIDTH,'' @ endl @
    ''      SLAVE_DATA_WIDTH          => BUS_DATA_WIDTH,'' @ endl @
    ''      SLAVE_LEN_WIDTH           => BUS_LEN_WIDTH,'' @ endl @
    ''      SLAVE_MAX_BURST           => BUS_BURST_MAX_LEN,'' @ endl @
    ''      ENABLE_FIFO               => false,'' @ endl @
    ''      SLV_REQ_SLICE_DEPTH       => 0,'' @ endl @
    ''      SLV_DAT_SLICE_DEPTH       => 0,'' @ endl @
    ''      MST_REQ_SLICE_DEPTH       => 0,'' @ endl @
    ''      MST_DAT_SLICE_DEPTH       => 0'' @ endl @
    ''    )'' @ endl @
    ''    port map ('' @ endl @
    ''      clk                       => bcd_clk,'' @ endl @
    ''      reset_n                   => bcd_reset_n,'' @ endl @
    ''      slv_bus_wreq_addr         => wr_mst_wreq_addr,'' @ endl @
    ''      slv_bus_wreq_len          => wr_mst_wreq_len,'' @ endl @
    ''      slv_bus_wreq_valid        => wr_mst_wreq_valid,'' @ endl @
    ''      slv_bus_wreq_ready        => wr_mst_wreq_ready,'' @ endl @
    ''      slv_bus_wdat_data         => wr_mst_wdat_data,'' @ endl @
    ''      slv_bus_wdat_strobe       => wr_mst_wdat_strobe,'' @ endl @
    ''      slv_bus_wdat_last         => wr_mst_wdat_last,'' @ endl @
    ''      slv_bus_wdat_valid        => wr_mst_wdat_valid,'' @ endl @
    ''      slv_bus_wdat_ready        => wr_mst_wdat_ready,'' @ endl @
    ''      m_axi_awaddr              => m_axi_awaddr,'' @ endl @
    ''      m_axi_awlen               => m_axi_awlen,'' @ endl @
    ''      m_axi_awvalid             => m_axi_awvalid,'' @ endl @
    ''      m_axi_awready             => m_axi_awready,'' @ endl @
    ''      m_axi_awsize              => m_axi_awsize,'' @ endl @
    ''      m_axi_wdata               => m_axi_wdata,'' @ endl @
    ''      m_axi_wstrb               => m_axi_wstrb,'' @ endl @
    ''      m_axi_wlast               => m_axi_wlast,'' @ endl @
    ''      m_axi_wvalid              => m_axi_wvalid,'' @ endl @
    ''      m_axi_wready              => m_axi_wready'' @ endl @
    ''    );''"

end
