(* ===== verification/Top_Level.thy ===== *)
theory Top_Level
  imports Srec_Batch Design Platform Top_Text
begin

text \<open>
  \<^verbatim>\<open>fletchgen/top/sim.cc\<close> and \<^verbatim>\<open>axi.cc\<close>: the simulation top level, whose test bench writes
  the registers of the design, and the AXI top level. Templates belong to Cerata: a generator is the list of its calls
  of \<^verbatim>\<open>Template::Replace\<close>, in order, each with the name of the placeholder and the text. \<open>realpath\<close> is a
  parameter. Registers have an address only after the configuration file for vhdmmio is made.
\<close>

section \<open>Register accesses of the test bench\<close>

definition GenMMIOWrite :: "u32 \<Rightarrow> u32 \<Rightarrow> string \<Rightarrow> string" where
  "GenMMIOWrite idx v comment =
    ''    mmio_write('' @ show_nat (unat idx) @ '', '' @
    ''X'' @ dquote @ setw (CHR ''0'') 8 (show_hex False (unat v)) @ dquote @ '','' @
    '' mmio_source, mmio_sink, bcd_clk, bcd_reset);'' @
    (if comment \<noteq> [] then '' -- '' @ comment else []) @ endl"

definition GenMMIORead :: "u32 \<Rightarrow> string \<Rightarrow> bool \<Rightarrow> string \<Rightarrow> string" where
  "GenMMIORead idx print_prefix hex_ndec comment =
    ''    mmio_read('' @ show_nat (unat idx) @ '', '' @ '' read_data, '' @ '' mmio_source, mmio_sink, bcd_clk, bcd_reset);'' @
    (if comment \<noteq> [] then '' -- '' @ comment else []) @ endl @
    ''    println('' @ dquote @ print_prefix @
    (if hex_ndec then '': '' @ dquote @ '' & slvToHex(read_data));'' @ endl
     else '': '' @ dquote @ '' & slvToDec(read_data));'' @ endl)"

definition CanonicalizePath :: "(string \<Rightarrow> string option) \<Rightarrow> string \<Rightarrow> string res" where
  "CanonicalizePath realpath path =
    (if path \<noteq> [] then (case realpath path of None \<Rightarrow> Inl Exited | Some p \<Rightarrow> Inr p) else Inr [])"

text \<open>The writes of the loop over all record batches: register, value and comment. \<open>k\<close> is \<^verbatim>\<open>buffer_offset\<close>
  and \<^verbatim>\<open>rb_offset\<close>.\<close>

definition buffer_write :: "nat \<Rightarrow> nat \<Rightarrow> batch_description \<Rightarrow> buffer_metadata \<Rightarrow> (u32 \<times> u32 \<times> string) list" where
  "buffer_write num_rbs k rb b =
    (let addr = raw_buffer b;
         addr_lo = (ucast (addr AND 0xFFFFFFFF) :: u32);
         addr_hi = (ucast (drop_bit 32 addr) :: u32);
         buffer_idx = (of_nat (2 * k + (FLETCHER_REG_SCHEMA + 2 * num_rbs)) :: u32)
     in [(buffer_idx, addr_lo, bd_name rb @ '' '' @ strvec_ToString (buf_desc b) ''_'' @ '' buffer address.''),
         (buffer_idx + 1, addr_hi, [])])"

fun buffer_writes :: "nat \<Rightarrow> nat \<Rightarrow> (batch_description \<times> buffer_metadata) list \<Rightarrow> (u32 \<times> u32 \<times> string) list" where
  "buffer_writes num_rbs k [] = []"
| "buffer_writes num_rbs k ((rb, b) # bs) = buffer_write num_rbs k rb b @ buffer_writes num_rbs (Suc k) bs"

fun range_writes :: "nat \<Rightarrow> batch_description list \<Rightarrow> (u32 \<times> u32 \<times> string) list" where
  "range_writes k [] = []"
| "range_writes k (rb # rbs) =
    (let rb_idx = (of_nat (2 * k + FLETCHER_REG_SCHEMA) :: u32)
     in [(rb_idx, 0, bd_name rb @ '' first index.''), (rb_idx + 1, of_int (bd_rows rb), bd_name rb @ '' last index.'')]) @
    range_writes (Suc k) rbs"

definition write_text :: "(u32 \<times> u32 \<times> string) list \<Rightarrow> string" where
  "write_text ws = concat (map (\<lambda>(i, v, c). GenMMIOWrite i v c) ws)"

text \<open>The initial values of the kernel registers. The replacement stands inside the loop.\<close>

fun kernel_init :: "string \<Rightarrow> mmio_reg list \<Rightarrow> (string \<times> string) list res" where
  "kernel_init kri [] = Inr []"
| "kernel_init kri (cr # crs) =
    (if mr_behavior cr = CONTROL then
       (case mr_addr cr of
          None \<Rightarrow> Inl Bad_optional_access
        | Some a \<Rightarrow>
            (let val = (case mr_init cr of Some i \<Rightarrow> i | None \<Rightarrow> 0);
                 kri' = kri @ GenMMIOWrite (a div 4) (ucast val)
                   (''Write register '' @ dquote @ mr_name cr @ dquote @ '' initial value.'')
             in res_bind (kernel_init kri' crs) (\<lambda>rs. Inr ((''KERNEL_REGS_INIT'', kri') # rs))))
     else kernel_init kri crs)"

text \<open>The loop over the profiling registers: the address of the enable register and the text that reads the counters.\<close>

fun profile_loop :: "u32 \<Rightarrow> string \<Rightarrow> mmio_reg list \<Rightarrow> (u32 \<times> string) res" where
  "profile_loop addr reads [] = Inr (addr, reads)"
| "profile_loop addr reads (pr # prs) =
    (if mr_name pr = ''Profile_enable'' then
       (case mr_addr pr of None \<Rightarrow> Inl Bad_optional_access | Some a \<Rightarrow> profile_loop a reads prs)
     else if mr_name pr = ''Profile_clear'' then profile_loop addr reads prs
     else if mr_function pr = F_PROFILE then
       (case mr_addr pr of
          None \<Rightarrow> Inl Bad_optional_access
        | Some a \<Rightarrow> profile_loop addr
            (reads @ GenMMIORead (a div 4) (setw (CHR '' '') 42 (''Profile '' @ mr_name pr)) False []) prs)
     else profile_loop addr reads prs)"

section \<open>The simulation top level\<close>

text \<open>\<open>kregs\<close> and \<open>pregs\<close> are the kernel and the profiling registers of the design.\<close>

definition sim_kernel_part :: "mmio_reg list \<Rightarrow> (string \<times> string) list res" where
  "sim_kernel_part kregs = (if kregs \<noteq> [] then kernel_init [] kregs else Inr [(''KERNEL_REGS_INIT'', [])])"

definition sim_profile_part :: "mmio_reg list \<Rightarrow> (string \<times> string) list res" where
  "sim_profile_part pregs =
    (if pregs \<noteq> [] then res_bind (profile_loop 0 [] pregs) (\<lambda>(addr, reads).
       Inr [(''PROFILE_START'', GenMMIOWrite (addr div 4) 1 ''Start profiling.''),
            (''PROFILE_STOP'', GenMMIOWrite (addr div 4) 0 ''Stop profiling.''),
            (''PROFILE_READ'', reads)])
     else Inr [(''PROFILE_START'', []), (''PROFILE_STOP'', []), (''PROFILE_READ'', [])])"

definition sim_read_part :: "(string \<Rightarrow> string option) \<Rightarrow> schema_set \<Rightarrow> string \<Rightarrow> (string \<times> string) list res" where
  "sim_read_part realpath schemas read_srec_path =
    (if RequiresReading schemas then res_bind (CanonicalizePath realpath read_srec_path) (\<lambda>abs_path.
       Inr [(''BUS_READ_SLAVE_MOCK'', sim_read_mock abs_path), (''MST_RREQ_DECLARE'', sim_rreq_declare),
            (''MST_RREQ_INSTANTIATE'', sim_rreq_instantiate)])
     else Inr [(''BUS_READ_SLAVE_MOCK'', []), (''MST_RREQ_DECLARE'', []), (''MST_RREQ_INSTANTIATE'', [])])"

definition sim_write_part :: "(string \<Rightarrow> string option) \<Rightarrow> schema_set \<Rightarrow> string \<Rightarrow> (string \<times> string) list res" where
  "sim_write_part realpath schemas write_srec_path =
    (if RequiresWriting schemas then res_bind (CanonicalizePath realpath write_srec_path) (\<lambda>abs_path.
       Inr [(''BUS_WRITE_SLAVE_MOCK'', sim_write_mock abs_path), (''MST_WREQ_DECLARE'', sim_wreq_declare),
            (''MST_WREQ_INSTANTIATE'', sim_wreq_instantiate)])
     else Inr [(''BUS_WRITE_SLAVE_MOCK'', []), (''MST_WREQ_DECLARE'', []), (''MST_WREQ_INSTANTIATE'', [])])"

definition GenerateSimTop ::
    "(string \<Rightarrow> string option) \<Rightarrow> string \<Rightarrow> schema_set \<Rightarrow> mmio_reg list \<Rightarrow> mmio_reg list \<Rightarrow> string \<Rightarrow> string \<Rightarrow>
     batch_description list \<Rightarrow> (string \<times> string) list res" where
  "GenerateSimTop realpath mantle_name schemas kregs pregs read_srec_path write_srec_path recordbatches =
    (let num_rbs = length (read_schemas schemas) + length (write_schemas schemas) in
     res_bind (sim_kernel_part kregs) (\<lambda>kernel_part.
     res_bind (sim_profile_part pregs) (\<lambda>profile_part.
     res_bind (sim_read_part realpath schemas read_srec_path) (\<lambda>read_part.
     res_bind (sim_write_part realpath schemas write_srec_path) (\<lambda>write_part.
     Inr ([(''BUS_ADDR_WIDTH'', show_nat 64), (''BUS_DATA_WIDTH'', show_nat 512), (''BUS_LEN_WIDTH'', show_nat 8),
           (''BUS_BURST_STEP_LEN'', show_nat 1), (''BUS_BURST_MAX_LEN'', show_nat 64),
           (''FLETCHER_WRAPPER_NAME'', mantle_name), (''FLETCHER_WRAPPER_INST_NAME'', mantle_name @ ''_inst''),
           (''READ_SREC_PATH'', read_srec_path), (''WRITE_SREC_PATH'', write_srec_path),
           (''SREC_BUFFER_ADDRESSES'', write_text (buffer_writes num_rbs 0 (all_desc_buffers recordbatches))),
           (''SREC_FIRSTLAST_INDICES'', write_text (range_writes 0 recordbatches))]
          @ kernel_part @ profile_part @ read_part @ write_part))))))"

section \<open>The AXI top level\<close>

definition GenerateAXITop :: "string \<Rightarrow> schema_set \<Rightarrow> (string \<times> string) list" where
  "GenerateAXITop mantle_name schemas =
    [(''BUS_ADDR_WIDTH'', show_nat 64), (''BUS_DATA_WIDTH'', show_nat 512), (''BUS_LEN_WIDTH'', show_nat 8),
     (''BUS_BURST_STEP_LEN'', show_nat 1), (''BUS_BURST_MAX_LEN'', show_nat 64),
     (''MMIO_ADDR_WIDTH'', show_nat 32), (''MMIO_DATA_WIDTH'', show_nat 32),
     (''FLETCHER_WRAPPER_NAME'', mantle_name), (''FLETCHER_WRAPPER_INST_NAME'', mantle_name @ ''_inst'')] @
    (if RequiresReading schemas
     then [(''MST_RREQ_DECLARE'', axi_rreq_declare), (''MST_RREQ_INSTANTIATE'', axi_rreq_instantiate),
           (''AXI_READ_CONVERTER'', axi_read_converter)]
     else [(''MST_RREQ_DECLARE'', []), (''MST_RREQ_INSTANTIATE'', []), (''AXI_READ_CONVERTER'', [])]) @
    (if RequiresWriting schemas
     then [(''MST_WREQ_DECLARE'', axi_wreq_declare), (''MST_WREQ_INSTANTIATE'', axi_wreq_instantiate),
           (''AXI_WRITE_CONVERTER'', axi_write_converter)]
     else [(''MST_WREQ_DECLARE'', []), (''MST_WREQ_INSTANTIATE'', []), (''AXI_WRITE_CONVERTER'', [])])"

section \<open>Lemmas on the writes\<close>

lemma buffer_writes_nth:
  "length (buffer_writes n k bs) = 2 * length bs
   \<and> (\<forall>i<length bs. [buffer_writes n k bs ! (2 * i), buffer_writes n k bs ! (2 * i + 1)] = case_prod (buffer_write n (k + i)) (bs ! i))"
proof (induction n k bs rule: buffer_writes.induct)
  case (2 n k rb b bs)
  have "length (buffer_write n k rb b) = 2" by (simp add: buffer_write_def Let_def)
  then obtain x y where xy: "buffer_write n k rb b = [x, y]" by (auto simp: numeral_2_eq_2 length_Suc_conv)
  show ?case
  proof (intro conjI allI impI)
    fix i
    assume "i < length ((rb, b) # bs)"
    then show "[buffer_writes n k ((rb, b) # bs) ! (2 * i), buffer_writes n k ((rb, b) # bs) ! (2 * i + 1)]
        = case_prod (buffer_write n (k + i)) (((rb, b) # bs) ! i)"
      using 2 xy by (cases i) auto
  qed (use 2 xy in simp)
qed simp

lemma range_writes_nth:
  "length (range_writes k rbs) = 2 * length rbs
   \<and> (\<forall>i<length rbs. range_writes k rbs ! (2 * i) = (of_nat (2 * (k + i) + FLETCHER_REG_SCHEMA), 0, bd_name (rbs ! i) @ '' first index.'')
        \<and> range_writes k rbs ! (2 * i + 1) = (of_nat (2 * (k + i) + FLETCHER_REG_SCHEMA) + 1, of_int (bd_rows (rbs ! i)), bd_name (rbs ! i) @ '' last index.''))"
proof (induction k rbs rule: range_writes.induct)
  case (2 k rb rbs)
  show ?case
  proof (intro conjI allI impI)
    fix i
    assume i: "i < length (rb # rbs)"
    show "range_writes k (rb # rbs) ! (2 * i) = (of_nat (2 * (k + i) + FLETCHER_REG_SCHEMA), 0, bd_name ((rb # rbs) ! i) @ '' first index.'')"
      using 2 i by (cases i) (auto simp: Let_def)
    show "range_writes k (rb # rbs) ! (2 * i + 1) = (of_nat (2 * (k + i) + FLETCHER_REG_SCHEMA) + 1, of_int (bd_rows ((rb # rbs) ! i)), bd_name ((rb # rbs) ! i) @ '' last index.'')"
      using 2 i by (cases i) (auto simp: Let_def)
  qed (use 2 in \<open>simp add: Let_def\<close>)
qed simp

lemma address_halves:
  assumes "n < 2 ^ 64"
  shows "unat (ucast ((of_nat n :: u64) AND 0xFFFFFFFF) :: u32) = n mod 2 ^ 32"
    "unat (ucast (drop_bit 32 (of_nat n :: u64)) :: u32) = n div 2 ^ 32"
proof -
  have low: "w AND 0xFFFFFFFF = take_bit 32 w" for w :: u64 by (simp add: take_bit_eq_mask mask_eq_exp_minus_1)
  have "(ucast (w AND 0xFFFFFFFF) :: u32) = ucast w" for w :: u64
    unfolding low by (rule bit_word_eqI) (simp add: bit_simps)
  then show "unat (ucast ((of_nat n :: u64) AND 0xFFFFFFFF) :: u32) = n mod 2 ^ 32"
    using assms by (simp add: unsigned_ucast_eq unsigned_of_nat take_bit_eq_mod)
  have "n div 2 ^ 32 < 2 ^ 32" using assms by (simp add: less_mult_imp_div_less)
  then show "unat (ucast (drop_bit 32 (of_nat n :: u64)) :: u32) = n div 2 ^ 32"
    using assms by (simp only: unsigned_ucast_eq unat_drop_bit_eq unsigned_of_nat) (simp add: take_bit_eq_mod drop_bit_eq_div)
qed

lemma word_index:
  assumes "4 * k < 2 ^ 32"
  shows "unat (of_nat k :: u32) = k" "unat (of_nat k + 1 :: u32) = k + 1"
proof -
  show "unat (of_nat k :: u32) = k" using assms by simp
  have "(of_nat k + 1 :: u32) = of_nat (k + 1)" by simp
  moreover have "unat (of_nat (k + 1) :: u32) = k + 1" using assms by (intro unat_of_nat_small) simp
  ultimately show "unat (of_nat k + 1 :: u32) = k + 1" by presburger
qed

lemma image_at:
  assumes "0 < a" "i < length bs"
  shows "take (size_nat (bs ! i)) (drop (total_padded a (take i bs)) (concat (map (padded_contents mem a) bs))) = contents mem (bs ! i)"
proof -
  have "concat (map (padded_contents mem a) bs) = concat (map (padded_contents mem a) (take i bs)) @ padded_contents mem a (bs ! i)
      @ concat (map (padded_contents mem a) (drop (Suc i) bs))"
    using id_take_nth_drop [OF assms(2)] by (metis concat.simps(2) concat_append list.simps(9) map_append)
  then show ?thesis using length_image [OF assms(1), of mem "take i bs"] by (simp add: padded_contents_def)
qed

lemma num_schemas: "length (read_schemas s) + length (write_schemas s) = length (ss_schemas s)"
proof -
  have "write_schemas s = filter (\<lambda>fs. \<not> fs_mode fs = READ) (ss_schemas s)"
    unfolding write_schemas_def by (intro filter_cong refl) (metis mode.exhaust mode.distinct(1))
  then show ?thesis by (simp add: read_schemas_def sum_length_filter_compl)
qed

lemma physical_buffers:
  "\<forall>d\<in>set ds. \<not> bd_virtual d \<Longrightarrow> map snd (all_desc_buffers ds) = all_buffers ds"
  by (induction ds) (simp_all add: all_desc_buffers_def all_buffers_def batch_buffers_def comp_def)

lemma sim_top_writes:
  "GenerateSimTop realpath nm s ks ps rp wp rbs = Inr reps \<Longrightarrow>
   (''SREC_BUFFER_ADDRESSES'', write_text (buffer_writes (length (ss_schemas s)) 0 (all_desc_buffers rbs))) \<in> set reps
   \<and> (''SREC_FIRSTLAST_INDICES'', write_text (range_writes 0 rbs)) \<in> set reps"
  unfolding GenerateSimTop_def Let_def num_schemas by (auto simp: res_bind_Inr_iff)

section \<open>Properties\<close>

text \<open>The words of a register: four times the index of the first write, and the value of both.\<close>

definition written_words :: "(u32 \<times> u32 \<times> string) list \<Rightarrow> nat \<Rightarrow> (nat \<times> nat) list" where
  "written_words ws i = map (\<lambda>(idx, v, _). (4 * unat idx, unat v)) [ws ! (2 * i), ws ! (2 * i + 1)]"

text \<open>C12: the simulation agrees with the design and the SREC file. For physical, readable batches the test bench writes to the
  two words of the register of each buffer the address at which the memory image of the SREC file
  holds the contents of the buffer, and to the two registers of each batch the range from 0 to its rows.\<close>

theorem simulation_registers:
  assumes "Design_new profiling opts = Inr d" "extra_regs_fit d"
    "GenerateVhdmmioYaml (all_regs d) = (yaml, regs', next_addr)"
    and "\<forall>b\<in>set (d_batch_desc d). \<not> bd_virtual b"
    "32 < total_padded 64 (all_buffers (d_batch_desc d))" "total_padded 64 (all_buffers (d_batch_desc d)) \<le> 2 ^ 32"
    "\<forall>b\<in>set (all_buffers (d_batch_desc d)). 0 \<le> buf_size b \<and> readable mem b"
  defines "n \<equiv> length (d_batch_desc d)" and "bufs \<equiv> all_buffers (d_batch_desc d)"
    and "addr \<equiv> \<lambda>r. unat (the (mr_addr r))"
  shows "\<exists>outs out img len. GenerateReadSREC mem (d_batch_desc d) [] True 64 = Inr (outs, out)
    \<and> res_bind (File_read out) File_ToBuffer = Inr (Some img, len)
    \<and> (\<forall>realpath nm rp wp reps. GenerateSimTop realpath nm (d_schema_set d) (regs' ! 2) (regs' ! 3) rp wp outs = Inr reps \<longrightarrow>
        (''SREC_BUFFER_ADDRESSES'', write_text (buffer_writes n 0 (all_desc_buffers outs))) \<in> set reps
        \<and> (''SREC_FIRSTLAST_INDICES'', write_text (range_writes 0 outs)) \<in> set reps)
    \<and> (\<forall>b<length bufs. \<exists>off. take (size_nat (bufs ! b)) (drop off img) = contents mem (bufs ! b)
        \<and> written_words (buffer_writes n 0 (all_desc_buffers outs)) b =
          [(addr (regs' ! 1 ! (2 * n + b)), off mod 2 ^ 32), (addr (regs' ! 1 ! (2 * n + b)) + 4, off div 2 ^ 32)])
    \<and> (\<forall>i<n. written_words (range_writes 0 outs) i =
          [(addr (regs' ! 1 ! (2 * i)), 0), (addr (regs' ! 1 ! (2 * i + 1)), unat (of_int (bd_rows (d_batch_desc d ! i)) :: u32))])"
proof -
  obtain outs out off where srec: "place_batches 64 0 (d_batch_desc d) = (outs, off)"
    "length (all_buffers outs) = length bufs"
    "GenerateReadSREC mem (d_batch_desc d) [] True 64 = Inr (outs, out)"
    "res_bind (File_read out) File_ToBuffer = Inr (Some (concat (map (padded_contents mem 64) bufs)), total_padded 64 bufs)"
    "\<forall>i<length bufs. raw_buffer (all_buffers outs ! i) = of_nat (total_padded 64 (take i bufs))"
    using GenerateReadSREC_image [of 64 "d_batch_desc d" mem] assms(5-7) unfolding bufs_def by auto
  have keeps: "map (\<lambda>d. (bd_name d, bd_rows d, bd_virtual d)) outs = map (\<lambda>d. (bd_name d, bd_rows d, bd_virtual d)) (d_batch_desc d)"
    by (rule place_batches_keeps [OF srec(1)])
  have len: "length outs = n" using arg_cong [OF keeps, of length] by (simp add: n_def)
  have at: "bd_rows (outs ! i) = bd_rows (d_batch_desc d ! i)" "\<not> bd_virtual (outs ! i)" if "i < n" for i
    using arg_cong [OF keeps, of "\<lambda>xs. xs ! i"] assms(4) that len by (simp_all add: n_def)
  have snd_outs: "map snd (all_desc_buffers outs) = all_buffers outs" and snd_ds: "map snd (all_desc_buffers (d_batch_desc d)) = bufs"
    using physical_buffers [of outs] physical_buffers [OF assms(4)] at(2) len by (fastforce simp: in_set_conv_nth bufs_def)+
  have lens: "length (all_desc_buffers outs) = length bufs" "length (all_desc_buffers (d_batch_desc d)) = length bufs"
    using arg_cong [OF snd_outs, of length] arg_cong [OF snd_ds, of length] srec(2) by simp_all
  have num: "length (ss_schemas (d_schema_set d)) = n"
    using Design_new_parts(2) [OF assms(1)] by (simp add: AnalyzeRecordBatches_def res_mapM_length n_def)
  note addrs = register_addresses [OF assms(1-3), folded n_def, unfolded lens(2)]
  have fits: "unat (the (mr_addr r)) < 2 ^ 32" for r using unat_lt_u32 [of "the (mr_addr r)"] by simp
  have words: "written_words (buffer_writes n 0 (all_desc_buffers outs)) b =
      [(addr (regs' ! 1 ! (2 * n + b)), total_padded 64 (take b bufs) mod 2 ^ 32),
       (addr (regs' ! 1 ! (2 * n + b)) + 4, total_padded 64 (take b bufs) div 2 ^ 32)]" if b: "b < length bufs" for b
  proof -
    obtain rb bb where nth: "all_desc_buffers outs ! b = (rb, bb)" by fastforce
    have raw: "raw_buffer bb = of_nat (total_padded 64 (take b bufs))"
      using srec(5) b arg_cong [OF snd_outs, of "\<lambda>xs. xs ! b"] nth lens(1) by simp
    have "total_padded 64 bufs = total_padded 64 (take b bufs) + total_padded 64 (drop b bufs)"
      by (metis append_take_drop_id map_append sum_list_append total_padded_def)
    then have small: "total_padded 64 (take b bufs) < 2 ^ 64" using assms(6) unfolding bufs_def by simp
    have a: "addr (regs' ! 1 ! (2 * n + b)) = 4 * (2 * b + 4 + 2 * n)" using addrs(2) [OF b] by (simp add: addr_def)
    then have "4 * (2 * b + (4 + 2 * n)) < 2 ^ 32"
      using fits [of "regs' ! 1 ! (2 * n + b)"] unfolding addr_def by (simp only: add.assoc)
    note idx = word_index [OF this]
    have pair: "[buffer_writes n 0 (all_desc_buffers outs) ! (2 * b), buffer_writes n 0 (all_desc_buffers outs) ! (2 * b + 1)]
        = buffer_write n b rb bb"
      using buffer_writes_nth [of n 0 "all_desc_buffers outs"] b lens(1) nth by simp
    show ?thesis
      unfolding written_words_def pair buffer_write_def Let_def FLETCHER_REG_SCHEMA_def raw
      by (simp only: list.map prod.case idx address_halves [OF small] a) (simp add: add.commute add.left_commute)
  qed
  have ranges: "written_words (range_writes 0 outs) i =
      [(addr (regs' ! 1 ! (2 * i)), 0), (addr (regs' ! 1 ! (2 * i + 1)), unat (of_int (bd_rows (d_batch_desc d ! i)) :: u32))]"
    if i: "i < n" for i
  proof -
    have a: "addr (regs' ! 1 ! (2 * i)) = 4 * (2 * i + 4)" "addr (regs' ! 1 ! (2 * i + 1)) = 4 * (2 * i + 4) + 4"
      using addrs(1) [OF i] by (simp_all add: addr_def)
    then have "4 * (2 * i + 4) < 2 ^ 32" using fits [of "regs' ! 1 ! (2 * i)"] unfolding addr_def by linarith
    note idx = word_index [OF this]
    have pair: "[range_writes 0 outs ! (2 * i), range_writes 0 outs ! (2 * i + 1)] =
        [(of_nat (2 * i + 4), 0, bd_name (outs ! i) @ '' first index.''),
         (of_nat (2 * i + 4) + 1, of_int (bd_rows (d_batch_desc d ! i)), bd_name (outs ! i) @ '' last index.'')]"
      using range_writes_nth [of 0 outs] i len at(1) [OF i] by (simp add: FLETCHER_REG_SCHEMA_def)
    show ?thesis unfolding written_words_def pair by (simp only: list.map prod.case idx a) simp
  qed
  have "\<exists>off. take (size_nat (bufs ! b)) (drop off (concat (map (padded_contents mem 64) bufs))) = contents mem (bufs ! b)
        \<and> written_words (buffer_writes n 0 (all_desc_buffers outs)) b =
          [(addr (regs' ! 1 ! (2 * n + b)), off mod 2 ^ 32), (addr (regs' ! 1 ! (2 * n + b)) + 4, off div 2 ^ 32)]"
    if "b < length bufs" for b
    using image_at [of 64 b bufs mem] words [OF that] that by auto
  then show ?thesis using srec(3,4) ranges sim_top_writes [of _ _ "d_schema_set d", unfolded num] by blast
qed

text \<open>The example design with a record batch: sixteen rows of one column, at address 4096.\<close>

definition physical_options :: options where
  "physical_options = example_options\<lparr>opt_recordbatches := [\<lparr>rb_schema = hd (opt_schemas example_options), rb_num_rows = 16,
     rb_columns = [Fixed_array \<lparr>arr_type = FIXED INT32, arr_length = 16, arr_null_count = 0, arr_null_bitmap = (0, 0)\<rparr> (4096, 64)]\<rparr>]\<rparr>"

lemma physical_batches: "AnalyzeRecordBatches physical_options \<lparr>ss_name = ''Kernel'', ss_schemas = [
    \<lparr>fs_arrow_schema = hd (opt_schemas example_options), fs_mode = READ, fs_name = ''In'', fs_bus_dims = BusDim_default\<rparr>]\<rparr>
    = Inr [\<lparr>bd_name = ''In'', bd_rows = 16, bd_fields = [\<lparr>fm_type = FIXED INT32, fm_length = 16, fm_null_count = 0,
        fm_buffers = [mk_buffer 4096 64 [''x'', ''values''] 0 False]\<rparr>], bd_mode = READ, bd_virtual = False\<rparr>]"
  by (simp add: AnalyzeRecordBatches_def analyze_one_def physical_options_def example_options_def Options_default_def
      GetRecordBatchWithName_def RecordBatchAnalyzer_Analyze_def RBA_VisitFixedWidth_def RBA_validity_def an_emplace_def
      WithMetaRequired_def WithMetadata_schema_def GetMeta_schema_def lookup_meta_def meta_keys empty_description_def)

lemma physical_schemas: "AnalyzeSchemas physical_options = AnalyzeSchemas example_options"
  by (simp add: AnalyzeSchemas_def physical_options_def example_options_def Options_default_def AppendSchema_def SchemaSet_Make_def
      HasSchemaWithName_def FletcherSchema_new_def BusDim_FromString_def WithMetaRequired_def
      WithMetadata_schema_def GetMeta_schema_def lookup_meta_def meta_keys GetMode_def Let_def)

lemma physical_design: "\<exists>d. Design_new (\<lambda>_ _. []) physical_options = Inr d \<and> extra_regs_fit d
    \<and> d_batch_desc d = [\<lparr>bd_name = ''In'', bd_rows = 16, bd_fields = [\<lparr>fm_type = FIXED INT32, fm_length = 16, fm_null_count = 0,
        fm_buffers = [mk_buffer 4096 64 [''x'', ''values''] 0 False]\<rparr>], bd_mode = READ, bd_virtual = False\<rparr>]"
proof -
  have "opt_bus_dims physical_options = [''64,512,8,1,16'']" "opt_regs physical_options = opt_regs example_options"
    by (simp_all add: physical_options_def example_options_def Options_default_def)
  then show ?thesis
    by (auto simp: Design_new_def physical_schemas example_schemas physical_batches example_regs bus_dim_example extra_regs_fit_def
        fresh_reg_def mmio_layout.total_append total_RecordBatchRegs all_desc_buffers_def space_used_def mmio_reg_default_def mmio_reg_new_def)
qed

lemma simulation_registers_witness:
  "\<exists>d yaml regs' n outs out. Design_new (\<lambda>_ _. []) physical_options = Inr d
    \<and> GenerateVhdmmioYaml (all_regs d) = (yaml, regs', n)
    \<and> GenerateReadSREC (\<lambda>_. Some 1) (d_batch_desc d) [] True 64 = Inr (outs, out)
    \<and> written_words (range_writes 0 outs) 0 =
        [(unat (the (mr_addr (regs' ! 1 ! 0))), 0), (unat (the (mr_addr (regs' ! 1 ! 1))), 16)]"
proof -
  obtain d where d: "Design_new (\<lambda>_ _. []) physical_options = Inr d" "extra_regs_fit d"
    "d_batch_desc d = [\<lparr>bd_name = ''In'', bd_rows = 16, bd_fields = [\<lparr>fm_type = FIXED INT32, fm_length = 16, fm_null_count = 0,
        fm_buffers = [mk_buffer 4096 64 [''x'', ''values''] 0 False]\<rparr>], bd_mode = READ, bd_virtual = False\<rparr>]"
    using physical_design by blast
  obtain yaml regs' n where y: "GenerateVhdmmioYaml (all_regs d) = (yaml, regs', n)"
    by (cases "GenerateVhdmmioYaml (all_regs d)")
  have b: "all_buffers (d_batch_desc d) = [mk_buffer 4096 64 [''x'', ''values''] 0 False]"
    using d(3) by (simp add: all_buffers_def batch_buffers_def)
  have "\<forall>b\<in>set (d_batch_desc d). \<not> bd_virtual b" "32 < total_padded 64 (all_buffers (d_batch_desc d))"
    "total_padded 64 (all_buffers (d_batch_desc d)) \<le> 2 ^ 32"
    "\<forall>b\<in>set (all_buffers (d_batch_desc d)). 0 \<le> buf_size b \<and> readable (\<lambda>_. Some 1) b"
    unfolding b using d(3) by (simp_all add: total_padded_def padded_def size_nat_def mk_buffer_def readable_def)
  from simulation_registers [OF d(1,2) y this] show ?thesis using d(1,3) y by fastforce
qed

section \<open>Placeholders\<close>

lemma kernel_init_keys:
  "kernel_init acc ks = Inr rs \<Longrightarrow> fst ` set rs = (if \<exists>r\<in>set ks. mr_behavior r = CONTROL then {''KERNEL_REGS_INIT''} else {})"
proof (induction ks arbitrary: acc rs)
  case (Cons r ks)
  show ?case
  proof (cases "mr_behavior r = CONTROL")
    case True
    then obtain kri rs' where "rs = (''KERNEL_REGS_INIT'', kri) # rs'" "kernel_init kri ks = Inr rs'"
      using Cons.prems by (auto simp: res_bind_Inr_iff Let_def split: option.splits)
    then show ?thesis using True Cons.IH [of kri rs'] by (simp split: if_splits)
  next
    case False
    then show ?thesis using Cons by simp
  qed
qed simp

lemma sim_part_keys:
  "sim_kernel_part ks = Inr rs \<Longrightarrow>
   fst ` set rs = (if ks = [] \<or> (\<exists>r\<in>set ks. mr_behavior r = CONTROL) then {''KERNEL_REGS_INIT''} else {})"
  "sim_profile_part ps = Inr rs \<Longrightarrow> fst ` set rs = {''PROFILE_START'', ''PROFILE_STOP'', ''PROFILE_READ''}"
  "sim_read_part realpath s rp = Inr rs \<Longrightarrow> fst ` set rs = {''BUS_READ_SLAVE_MOCK'', ''MST_RREQ_DECLARE'', ''MST_RREQ_INSTANTIATE''}"
  "sim_write_part realpath s rp = Inr rs \<Longrightarrow> fst ` set rs = {''BUS_WRITE_SLAVE_MOCK'', ''MST_WREQ_DECLARE'', ''MST_WREQ_INSTANTIATE''}"
  using kernel_init_keys [of "[]" ks rs]
  by (auto simp: sim_kernel_part_def sim_profile_part_def sim_read_part_def sim_write_part_def res_bind_Inr_iff split: if_splits)

lemma sim_top_keys:
  assumes "GenerateSimTop realpath nm s ks ps rp wp rbs = Inr reps"
  shows "fst ` set reps = {''READ_SREC_PATH'', ''WRITE_SREC_PATH''} \<union> (set sim_placeholders - {''KERNEL_REGS_INIT''})
    \<union> (if ks = [] \<or> (\<exists>r\<in>set ks. mr_behavior r = CONTROL) then {''KERNEL_REGS_INIT''} else {})"
proof -
  obtain kp pp sp tp where parts: "sim_kernel_part ks = Inr kp" "sim_profile_part ps = Inr pp"
    "sim_read_part realpath s rp = Inr sp" "sim_write_part realpath s wp = Inr tp"
    "fst ` set reps = {''BUS_ADDR_WIDTH'', ''BUS_DATA_WIDTH'', ''BUS_LEN_WIDTH'', ''BUS_BURST_STEP_LEN'', ''BUS_BURST_MAX_LEN'',
      ''FLETCHER_WRAPPER_NAME'', ''FLETCHER_WRAPPER_INST_NAME'', ''READ_SREC_PATH'', ''WRITE_SREC_PATH'', ''SREC_BUFFER_ADDRESSES'',
      ''SREC_FIRSTLAST_INDICES''} \<union> fst ` set kp \<union> fst ` set pp \<union> fst ` set sp \<union> fst ` set tp"
    using assms unfolding GenerateSimTop_def Let_def by (auto simp: res_bind_Inr_iff image_Un Un_assoc)
  have "{''BUS_ADDR_WIDTH'', ''BUS_DATA_WIDTH'', ''BUS_LEN_WIDTH'', ''BUS_BURST_STEP_LEN'', ''BUS_BURST_MAX_LEN'',
      ''FLETCHER_WRAPPER_NAME'', ''FLETCHER_WRAPPER_INST_NAME'', ''READ_SREC_PATH'', ''WRITE_SREC_PATH'', ''SREC_BUFFER_ADDRESSES'',
      ''SREC_FIRSTLAST_INDICES''} \<union> {''PROFILE_START'', ''PROFILE_STOP'', ''PROFILE_READ''}
      \<union> {''BUS_READ_SLAVE_MOCK'', ''MST_RREQ_DECLARE'', ''MST_RREQ_INSTANTIATE''}
      \<union> {''BUS_WRITE_SLAVE_MOCK'', ''MST_WREQ_DECLARE'', ''MST_WREQ_INSTANTIATE''}
      = {''READ_SREC_PATH'', ''WRITE_SREC_PATH''} \<union> (set sim_placeholders - {''KERNEL_REGS_INIT''})"
    by code_simp
  then show ?thesis
    unfolding parts(5) sim_part_keys(1) [OF parts(1)] sim_part_keys(2) [OF parts(2)] sim_part_keys(3) [OF parts(3)]
      sim_part_keys(4) [OF parts(4)] by (simp only: Un_ac)
qed

text \<open>The generator of the simulation replaces every placeholder of its template exactly when there is no kernel register or
  a kernel register that the test bench can write; with status registers only one placeholder stays in the VHDL.
  The generator of the AXI top level always replaces all of them.\<close>

theorem placeholders_replaced:
  "(GenerateSimTop realpath nm s ks ps rp wp rbs = Inr reps \<longrightarrow>
     {p \<in> set sim_placeholders. p \<notin> fst ` set reps} =
      (if ks = [] \<or> (\<exists>r\<in>set ks. mr_behavior r = CONTROL) then {} else {''KERNEL_REGS_INIT''}))
   \<and> set axi_placeholders \<subseteq> fst ` set (GenerateAXITop nm s)"
proof (intro conjI impI)
  assume "GenerateSimTop realpath nm s ks ps rp wp rbs = Inr reps"
  note keys = sim_top_keys [OF this]
  have "''KERNEL_REGS_INIT'' \<in> set sim_placeholders" "''KERNEL_REGS_INIT'' \<notin> {''READ_SREC_PATH'', ''WRITE_SREC_PATH''}"
    by (simp_all add: sim_placeholders_def)
  then show "{p \<in> set sim_placeholders. p \<notin> fst ` set reps} =
      (if ks = [] \<or> (\<exists>r\<in>set ks. mr_behavior r = CONTROL) then {} else {''KERNEL_REGS_INIT''})"
    unfolding keys by auto
qed (simp add: axi_placeholders_def GenerateAXITop_def)

lemma placeholders_replaced_witness:
  "\<exists>reps. GenerateSimTop Some ''M'' (SchemaSet_Make ''k'') [mmio_reg_new F_KERNEL STATUS ''s'' ''s'' 32 0 (Some 16) None] [] [] [] [] = Inr reps
    \<and> {p \<in> set sim_placeholders. p \<notin> fst ` set reps} = {''KERNEL_REGS_INIT''}"
proof -
  let ?ks = "[mmio_reg_new F_KERNEL STATUS ''s'' ''s'' 32 0 (Some 16) None]"
  obtain reps where r: "GenerateSimTop Some ''M'' (SchemaSet_Make ''k'') ?ks [] [] [] [] = Inr reps"
    by (simp add: GenerateSimTop_def Let_def mmio_reg_new_def RequiresReading_def RequiresWriting_def SchemaSet_Make_def
        sim_kernel_part_def sim_profile_part_def sim_read_part_def sim_write_part_def)
  then show ?thesis using placeholders_replaced [of Some "''M''" "SchemaSet_Make ''k''" ?ks "[]" "[]" "[]" "[]" reps]
    by (auto simp: mmio_reg_new_def)
qed

text \<open>Before the configuration file for vhdmmio is made no kernel register has an address.\<close>

lemma sim_top_before_vhdmmio:
  "\<exists>r\<in>set ks. mr_behavior r = CONTROL \<Longrightarrow> \<forall>r\<in>set ks. mr_addr r = None \<Longrightarrow>
   GenerateSimTop realpath nm s ks ps rp wp rbs = Inl Bad_optional_access"
proof -
  have "\<exists>r\<in>set ks. mr_behavior r = CONTROL \<Longrightarrow> \<forall>r\<in>set ks. mr_addr r = None \<Longrightarrow> kernel_init acc ks = Inl Bad_optional_access" for acc
    by (induction ks arbitrary: acc) auto
  moreover assume "\<exists>r\<in>set ks. mr_behavior r = CONTROL" "\<forall>r\<in>set ks. mr_addr r = None"
  ultimately show ?thesis by (auto simp: GenerateSimTop_def Let_def sim_kernel_part_def)
qed

end
