(* ===== verification/Fletchgen.thy ===== *)
theory Fletchgen
  imports Top_Level
begin

text \<open>
  The program fletchgen, \<^verbatim>\<open>fletchgen/fletchgen.cc\<close>, with the end of \<^verbatim>\<open>Options::Parse\<close> and \<^verbatim>\<open>utils.cc\<close>: what it
  generates, in which order. The command line parser, the file functions, the DOT and VHDL generators of Cerata and the vhdmmio tool
  are not part of the repository: a generated file is given by what it is generated from. The thread that assigns the addresses
  of the registers and runs vhdmmio may have assigned them when the simulation top level is generated, or not: this is the argument
  \<open>early\<close>. Logging to files and messages are left out.
\<close>

section \<open>Options\<close>

text \<open>What CLI11 returns: the options after parsing, or after a call for help, or an error.\<close>

datatype cli = Cli_parsed options | Cli_help options | Cli_error

definition Options_Parse :: "cli \<Rightarrow> options res" where
  "Options_Parse c = (case c of
      Cli_help o' \<Rightarrow> Inr (o'\<lparr>opt_quit := True\<rparr>)
    | Cli_error \<Rightarrow> Inl Exited
    | Cli_parsed o' \<Rightarrow> Inr (if show_version o' then o'\<lparr>opt_quit := True\<rparr> else o'))"

section \<open>Small functions\<close>

definition GetProgramName :: "string \<Rightarrow> string" where
  "GetProgramName argv0 =
    (if CHR 0x5C \<in> set argv0 then rev (takeWhile (\<lambda>c. c \<noteq> CHR 0x5C) (rev argv0)) else ''fletchgen'')"

definition version_string :: "nat \<Rightarrow> nat \<Rightarrow> nat \<Rightarrow> string" where
  "version_string major minor patch = ''fletchgen '' @ show_nat major @ ''.'' @ show_nat minor @ ''.'' @ show_nat patch"

datatype cerata_level = CERATA_LOG_DEBUG | CERATA_LOG_INFO | CERATA_LOG_WARNING | CERATA_LOG_ERROR | CERATA_LOG_FATAL

definition LogCerata :: "cerata_level \<Rightarrow> string \<Rightarrow> unit res" where
  "LogCerata level message = (case level of
      CERATA_LOG_DEBUG \<Rightarrow> Inr () | CERATA_LOG_INFO \<Rightarrow> Inr () | CERATA_LOG_WARNING \<Rightarrow> Inr ()
    | CERATA_LOG_ERROR \<Rightarrow> Inl Exited | CERATA_LOG_FATAL \<Rightarrow> Inl Exited)"

section \<open>The program\<close>

text \<open>The components are known by their names.\<close>

definition component_names :: "options \<Rightarrow> design \<Rightarrow> string list" where
  "component_names o' d =
    [kernel_name o' @ ''_Mantle'', kernel_name o' @ ''_Nucleus'', kernel_name o'] @
    map (\<lambda>s. kernel_name o' @ ''_'' @ fs_name s) (ss_schemas (d_schema_set d))"

definition output_spec :: "string \<Rightarrow> options \<Rightarrow> design \<Rightarrow> (string \<times> string \<times> string) list" where
  "output_spec key o' d = GetOutputSpec key o' (kernel_name o' @ ''_Mantle'') (kernel_name o' @ ''_Nucleus'') (kernel_name o')
     (map (\<lambda>s. kernel_name o' @ ''_'' @ fs_name s) (ss_schemas (d_schema_set d)))"

datatype artifact =
    Srec_file string string
  | Dot_files string "(string \<times> string \<times> string) list"
  | Vhdl_files string "(string \<times> string \<times> string) list"
  | Touched string
  | Sim_file string "(string \<times> string) list"
  | Axi_file string "(string \<times> string) list"
  | Yaml_file string

text \<open>What the program uses from outside.\<close>

record ('f, 'r) world =
  w_io :: "('f, 'r, record_batch) arrow_io"
  w_good :: "string \<Rightarrow> bool"
  w_exists :: "string \<Rightarrow> bool"
  w_realpath :: "string \<Rightarrow> string option"
  w_vhdmmio :: "string \<Rightarrow> int"
  w_memory :: host_memory
  w_key :: string

definition srec_step :: "('f, 'r) world \<Rightarrow> options \<Rightarrow> design \<Rightarrow> (batch_description list \<times> artifact list) res" where
  "srec_step w o' d =
    (if MustGenerateSREC o'
     then res_bind (GenerateReadSREC (w_memory w) (d_batch_desc d) [] (w_good w (srec_out_path o')) 64) (\<lambda>(placed, out).
       Inr (placed, [Srec_file (srec_out_path o') out]))
     else Inr ([], []))"

definition sim_step :: "('f, 'r) world \<Rightarrow> options \<Rightarrow> design \<Rightarrow> mmio_reg list list \<Rightarrow> batch_description list \<Rightarrow> artifact list res" where
  "sim_step w o' d regs placed =
    (if MustGenerateDesign o' \<and> sim_top o'
     then res_bind (GenerateSimTop (w_realpath w) (kernel_name o' @ ''_Mantle'') (d_schema_set d) (regs ! 2) (regs ! 3)
         (srec_out_path o') (srec_sim_dump o') placed) (\<lambda>reps.
       Inr ((if w_exists w (srec_sim_dump o') then [] else [Touched (srec_sim_dump o')]) @
         [Sim_file (output_dir o' @ ''/vhdl/SimTop_tc.gen.vhd'') reps]))
     else Inr [])"

definition axi_step :: "options \<Rightarrow> design \<Rightarrow> artifact list" where
  "axi_step o' d =
    (if axi_top o' then [Axi_file (output_dir o' @ ''/vhdl/AxiTop.gen.vhd'') (GenerateAXITop (kernel_name o' @ ''_Mantle'') (d_schema_set d))]
     else [])"

text \<open>The exit code and the outputs in the order of the main thread, with the configuration of vhdmmio at the end, where its
  thread is waited for.\<close>

definition fletchgen ::
    "(fletcher_schema list \<Rightarrow> batch_description list \<Rightarrow> mmio_reg list) \<Rightarrow> ('f, 'r) world \<Rightarrow> bool \<Rightarrow> cli \<Rightarrow> (int \<times> artifact list) res" where
  "fletchgen profiling w early c =
    res_bind (Options_Parse c) (\<lambda>o'.
    if opt_quit o' then Inr (0, [])
    else res_bind (LoadRecordBatches (w_io w) o') (\<lambda>o'. res_bind (LoadSchemas (w_io w) o') (\<lambda>o'.
    if \<not> MustGenerateDesign o' then Inr (0, [])
    else res_bind (Design_new profiling o') (\<lambda>d.
      let (_, regs', _) = GenerateVhdmmioYaml (all_regs d) in
      res_bind (srec_step w o' d) (\<lambda>(placed, srec).
      let dot = (if MustGenerateDOT o' then [Dot_files (output_dir o') (output_spec (w_key w) o' d)] else []);
          vhdl = (if MustGenerateVHDL o' then [Vhdl_files (output_dir o') (output_spec (w_key w) o' d)] else []) in
      res_bind (sim_step w o' d (if early then regs' else all_regs d) placed) (\<lambda>sim.
      res_bind (RunVhdmmio (w_vhdmmio w) (all_regs d)) (\<lambda>(yaml, _).
      Inr (0, srec @ dot @ vhdl @ sim @ axi_step o' d @ [Yaml_file yaml]))))))))"

section \<open>The race for the addresses\<close>

lemma custom_reg_addr: "parse_custom_reg str = Inr r \<Longrightarrow> mr_addr r = None"
  by (auto simp: parse_custom_reg_def mmio_reg_default_def mmio_reg_new_def split: option.splits if_splits)

text \<open>C37: Whether fletchgen finishes depends on the thread that assigns the register addresses: when a simulation top
  level is to be generated for a design with a custom register that the host writes and the thread has not got to the registers
  yet, the main thread reads an address that is not there and the program ends with an exception.\<close>

theorem sim_top_races:
  assumes "Options_Parse c = Inr o1" "\<not> opt_quit o1" "LoadRecordBatches (w_io w) o1 = Inr o2" "LoadSchemas (w_io w) o2 = Inr o3"
    "MustGenerateDesign o3" "sim_top o3" "Design_new profiling o3 = Inr d" "srec_step w o3 d = Inr s"
    "\<exists>r\<in>set (d_kernel_regs d). mr_behavior r = CONTROL"
  shows "fletchgen profiling w False c = Inl Bad_optional_access"
proof -
  have "\<forall>r\<in>set (d_kernel_regs d). mr_addr r = None"
    using Design_new_parts(5) [OF assms(7)] custom_reg_addr
    by (fastforce simp: ParseCustomRegs_def res_mapM_Inr_iff in_set_conv_nth)
  then have "GenerateSimTop realpath nm ss (all_regs d ! 2) ps rp wp rbs = Inl Bad_optional_access" for realpath nm ss ps rp wp rbs
    using sim_top_before_vhdmmio [OF assms(9)] by (simp add: all_regs_def)
  then have "sim_step w o3 d (all_regs d) placed = Inl Bad_optional_access" for placed
    using assms(5,6) by (simp add: sim_step_def)
  then show ?thesis
    using assms(1-8) by (simp add: fletchgen_def Let_def split: prod.splits)
qed

text \<open>The example design, its schema read from a file.\<close>

definition sim_options :: options where
  "sim_options = example_options\<lparr>opt_schemas := [], schema_paths := [''in.fbs''], sim_top := True\<rparr>"

definition example_world :: "(unit, unit) world" where
  "example_world = \<lparr>w_io = \<lparr>io_open_readable = (\<lambda>_. Some ()), io_ReadSchema = (\<lambda>_. Some (hd (opt_schemas example_options))),
       io_open_reader = (\<lambda>_. None), io_num_record_batches = (\<lambda>_. 0), io_ReadRecordBatch = (\<lambda>_ _. None),
       io_AllocateResizableBuffer = (\<lambda>_. None), io_SerializeSchema = (\<lambda>_. None), io_open_output = (\<lambda>_. None),
       io_Write = (\<lambda>_ _. None), io_NewFileWriter = (\<lambda>_ _. None), io_WriteRecordBatch = (\<lambda>_ _. None), io_CloseWriter = id\<rparr>,
     w_good = (\<lambda>_. True), w_exists = (\<lambda>_. True), w_realpath = Some, w_vhdmmio = (\<lambda>_. 0), w_memory = (\<lambda>_. None), w_key = ''backup''\<rparr>"

lemma sim_top_races_witness: "fletchgen (\<lambda>_ _. []) example_world False (Cli_parsed sim_options) = Inl Bad_optional_access"
proof -
  let ?o = "example_options\<lparr>schema_paths := [''in.fbs''], sim_top := True\<rparr>"
  have parsed: "Options_Parse (Cli_parsed sim_options) = Inr sim_options" "\<not> opt_quit sim_options"
    by (simp_all add: Options_Parse_def sim_options_def example_options_def Options_default_def)
  have loaded: "LoadRecordBatches (w_io example_world) sim_options = Inr sim_options" "LoadSchemas (w_io example_world) sim_options = Inr ?o"
    by (simp_all add: LoadRecordBatches_def LoadSchemas_def ReadSchemaFromFile_def sim_options_def example_options_def Options_default_def
        example_world_def)
  have flags: "MustGenerateDesign ?o" "sim_top ?o" "\<not> MustGenerateSREC ?o"
    by (simp_all add: MustGenerateDesign_def MustGenerateSREC_def example_options_def Options_default_def)
  have same: "Design_new profiling ?o = Design_new profiling example_options" for profiling
    by (simp add: Design_new_def AnalyzeSchemas_def AnalyzeRecordBatches_def cong: if_cong list.case_cong)
  obtain d where d: "Design_new (\<lambda>_ _. []) ?o = Inr d" "d_kernel_regs d = [mmio_reg_default\<lparr>mr_function := F_KERNEL, mr_name := ''limit'',
        mr_desc := ''Custom register limit'', mr_width := 32, mr_init := Some 0, mr_meta := [(''kernel'', ''true'')]\<rparr>]"
    using example_design same by auto
  have "\<exists>r\<in>set (d_kernel_regs d). mr_behavior r = CONTROL" by (simp add: d(2) mmio_reg_default_def mmio_reg_new_def)
  moreover have "srec_step example_world ?o d = Inr ([], [])" using flags(3) by (simp add: srec_step_def)
  ultimately show ?thesis
    using sim_top_races [OF parsed loaded flags(1,2) d(1)] by blast
qed

end
