(* ===== verification/Doubles.thy ===== *)
theory Doubles
  imports Complex_Main Prelude
begin

text \<open>
  The double-precision values the sources make out of integers, as the rational numbers they are.
  Converting an integer rounds to 53 significant bits, ties to even; multiplying and dividing by the
  powers of two in question is exact.
\<close>

fun bit_length :: "nat \<Rightarrow> nat" where
  "bit_length n = (if n = 0 then 0 else Suc (bit_length (n div 2)))"

declare bit_length.simps [simp del]

definition round53 :: "nat \<Rightarrow> nat" where
  "round53 n =
    (let e = bit_length n - 53 in
     if e = 0 then n
     else let q = n div 2 ^ e; r = n mod 2 ^ e; half = 2 ^ (e - 1)
          in (if half < r \<or> (r = half \<and> odd q) then q + 1 else q) * 2 ^ e)"

definition double_of_u64 :: "u64 \<Rightarrow> rat" where
  "double_of_u64 w = of_nat (round53 (unat w))"

definition double_of_i64 :: "u64 \<Rightarrow> rat" where
  "double_of_i64 w = (if 0 \<le> sint w then of_nat (round53 (nat (sint w))) else - of_nat (round53 (nat (- sint w))))"

lemma bit_length_less: "n < 2 ^ bit_length n"
proof (induction n rule: bit_length.induct)
  case (1 n)
  then show ?case by (cases "n = 0") (auto simp: bit_length.simps [of n])
qed

lemma bit_length_le: "n < 2 ^ k \<Longrightarrow> bit_length n \<le> k"
proof (induction n arbitrary: k rule: bit_length.induct)
  case (1 n)
  then show ?case
    by (cases k; cases "n = 0") (auto simp: bit_length.simps [of n] bit_length.simps [of 0])
qed

text \<open>Integers below 2 to the 53 are represented exactly.\<close>

lemma round53_exact: "n < 2 ^ 53 \<Longrightarrow> round53 n = n"
  using bit_length_le [of n 53] by (simp add: round53_def)

lemma double_of_u64_exact: "unat w < 2 ^ 53 \<Longrightarrow> double_of_u64 w = of_nat (unat w)"
  by (simp add: double_of_u64_def round53_exact)

end
