(* ===== verification/Column_Platform.thy ===== *)
theory Column_Platform
  imports Kernel Doubles
begin

text \<open>
  The hardware instances of the TPC-H accelerator and the threads that drive them:
  \<^verbatim>\<open>native_root/arrow/include/ColumnScheduler.h\<close> (spin lock, \<^verbatim>\<open>ThreadSafePlatform\<close>,
  \<^verbatim>\<open>RunInstanceProjection\<close>) and the register helpers of \<^verbatim>\<open>Util.h\<close>. An operation is the list of
  its atomic actions, so that the operations of several threads can be interleaved. The member
  \<^verbatim>\<open>platform_g\<close> is set by each operation but Start to the one platform there is; sleeping and
  yielding are left out.
\<close>

section \<open>Registers of an instance\<close>

definition NUM_COLS :: nat where "NUM_COLS = 4"
definition REG_BASE :: u64 where "REG_BASE = 10"
definition NUM_THREADS :: nat where "NUM_THREADS = 3"

record ptoa_regs =
  num_val :: u64
  max_size :: u64
  device_parquet_address :: u64

text \<open>The argument is a 32-bit \<^verbatim>\<open>int\<close>.\<close>

definition calculate_reg_base_offset :: "u32 \<Rightarrow> u64" where
  "calculate_reg_base_offset i = scast (push_bit 16 1 + i * push_bit 12 1 :: u32)"

definition base_offsets :: "nat \<Rightarrow> u64 list" where
  "base_offsets instance_index = map (\<lambda>i. calculate_reg_base_offset
     (of_nat i + (of_nat NUM_COLS + 1) * (of_nat instance_index mod 3))) [0..<NUM_COLS + 1]"

definition fixed_to_float :: "u64 \<Rightarrow> rat" where
  "fixed_to_float input = double_of_i64 input / 2 ^ 18"

definition combine_result :: "u32 \<Rightarrow> u32 \<Rightarrow> u64" where
  "combine_result rhigh rlow = push_bit 32 (ucast rhigh) OR ucast rlow"

section \<open>The helpers without a lock\<close>

definition setPtoaArguments :: "'d platform_api \<Rightarrow> u64 \<Rightarrow> ptoa_regs \<Rightarrow> 'd \<Rightarrow> 'd" where
  "setPtoaArguments p col_base_offset r d =
    (let (_, d) = WriteMMIO p col_base_offset (REG_BASE + 0) (ucast (num_val r)) d;
         full = device_parquet_address r;
         (_, d) = WriteMMIO p col_base_offset (REG_BASE + 1) (dau_lo full) d;
         (_, d) = WriteMMIO p col_base_offset (REG_BASE + 2) (dau_hi full) d;
         full = max_size r;
         (_, d) = WriteMMIO p col_base_offset (REG_BASE + 3) (dau_lo full) d;
         (_, d) = WriteMMIO p col_base_offset (REG_BASE + 4) (dau_hi full) d
     in d)"

definition done_mask :: u32 where
  "done_mask = push_bit 2 1"

definition util_WaitForFinish :: "'d platform_api \<Rightarrow> u64 \<Rightarrow> nat \<Rightarrow> 'd \<Rightarrow> (status \<times> 'd) option" where
  "util_WaitForFinish p offset poll_interval_usec d =
    (if poll_interval_usec = 0 then Option.bind (poll p offset done_mask done_mask 0 d) (\<lambda>d'. Some (Status_OK, d'))
     else Option.bind (poll p offset done_mask done_mask 0 d) (\<lambda>d'. Some (Status_OK, d')))"

text \<open>The locals are not initialised: \<open>low0\<close> and \<open>high0\<close> are what they hold.\<close>

definition ReadResultFloat :: "'d platform_api \<Rightarrow> u64 \<Rightarrow> u32 \<Rightarrow> u32 \<Rightarrow> 'd \<Rightarrow> rat \<times> 'd" where
  "ReadResultFloat p base_offset low0 high0 d =
    (let (_, rlow, d1) = ReadMMIO p base_offset 0xF low0 d;
         (_, rhigh, d2) = ReadMMIO p base_offset 0xE high0 d1
     in (fixed_to_float (combine_result rhigh rlow), d2))"

section \<open>Operations as lists of actions\<close>

datatype local_var = STATUS_VAR | RLOW | RHIGH

text \<open>\<open>Test_done body\<close> is the test at the end of a do-while loop with this body.\<close>

datatype action =
    Lock
  | Unlock
  | Write u64 u64 u32
  | Read u64 u64 local_var
  | Init_status
  | Test_done "action list"
  | Return_result

definition tsp_Reset :: "u64 list \<Rightarrow> action list" where
  "tsp_Reset base_offsets' = [Lock] @
     concat (map (\<lambda>i. [Write (base_offsets' ! i) 0 0x04, Write (base_offsets' ! i) 0 0]) [0..<NUM_COLS + 1]) @ [Unlock]"

definition tsp_Start :: "u64 list \<Rightarrow> action list" where
  "tsp_Start base_offsets' = [Lock] @
     concat (map (\<lambda>i. [Write (base_offsets' ! i) 0 0x01, Write (base_offsets' ! i) 0 0]) (rev [0..<NUM_COLS + 1])) @ [Unlock]"

definition tsp_WaitForFinish :: "u64 \<Rightarrow> nat \<Rightarrow> action list" where
  "tsp_WaitForFinish offset poll_interval_usec =
    (let body = (if poll_interval_usec = 0 then [Read offset 0x01 STATUS_VAR]
                 else [Lock, Read offset 0x01 STATUS_VAR, Unlock])
     in [Init_status] @ body @ [Test_done body])"

definition tsp_ReadResult :: "u64 \<Rightarrow> action list" where
  "tsp_ReadResult offset = [Lock, Read offset 0xF RLOW, Read offset 0xE RHIGH, Unlock, Return_result]"

definition ptoa_writes :: "u64 \<Rightarrow> ptoa_regs \<Rightarrow> action list" where
  "ptoa_writes base r =
    [Write base (REG_BASE + 0) (ucast (num_val r)),
     Write base (REG_BASE + 1) (dau_lo (device_parquet_address r)),
     Write base (REG_BASE + 2) (dau_hi (device_parquet_address r)),
     Write base (REG_BASE + 3) (dau_lo (max_size r)),
     Write base (REG_BASE + 4) (dau_hi (max_size r))]"

definition tsp_setPtoaArguments :: "u64 list \<Rightarrow> ptoa_regs list \<Rightarrow> action list" where
  "tsp_setPtoaArguments base_offsets' regs = [Lock] @
     concat (map (\<lambda>i. ptoa_writes (base_offsets' ! i) (regs ! i)) [0..<NUM_COLS]) @ [Unlock]"

definition RunInstanceProjection :: "nat \<Rightarrow> ptoa_regs list \<Rightarrow> action list" where
  "RunInstanceProjection instance_index regs =
    (let bs = base_offsets instance_index in
     tsp_Reset bs @ tsp_setPtoaArguments bs regs @ tsp_Start bs @
     tsp_WaitForFinish (bs ! NUM_COLS) ((instance_index mod 3) * 10) @ tsp_ReadResult (bs ! NUM_COLS))"

section \<open>Threads\<close>

record thread =
  t_prog :: "action list"
  t_status :: u32
  t_rlow :: u32
  t_rhigh :: u32
  t_results :: "rat list"

definition thread_new :: "action list \<Rightarrow> thread" where
  "thread_new prog = \<lparr>t_prog = prog, t_status = 0, t_rlow = 0, t_rhigh = 0, t_results = []\<rparr>"

text \<open>Whether the lock is taken and the state of the device.\<close>

type_synonym 'd shared = "bool \<times> 'd"

fun do_read :: "'d platform_api \<Rightarrow> u64 \<Rightarrow> u64 \<Rightarrow> local_var \<Rightarrow> 'd \<Rightarrow> thread \<Rightarrow> 'd \<times> thread" where
  "do_read p base off STATUS_VAR d t = (let (_, v, d') = ReadMMIO p base off (t_status t) d in (d', t\<lparr>t_status := v\<rparr>))"
| "do_read p base off RLOW d t = (let (_, v, d') = ReadMMIO p base off (t_rlow t) d in (d', t\<lparr>t_rlow := v\<rparr>))"
| "do_read p base off RHIGH d t = (let (_, v, d') = ReadMMIO p base off (t_rhigh t) d in (d', t\<lparr>t_rhigh := v\<rparr>))"

text \<open>The next action of a thread; None when it has ended or spins on the lock.\<close>

fun act :: "'d platform_api \<Rightarrow> 'd shared \<Rightarrow> thread \<Rightarrow> ('d shared \<times> thread) option" where
  "act p (locked, d) t = (case t_prog t of
      [] \<Rightarrow> None
    | Lock # prog \<Rightarrow> if locked then None else Some ((True, d), t\<lparr>t_prog := prog\<rparr>)
    | Unlock # prog \<Rightarrow> Some ((False, d), t\<lparr>t_prog := prog\<rparr>)
    | Write base off v # prog \<Rightarrow> Some ((locked, snd (WriteMMIO p base off v d)), t\<lparr>t_prog := prog\<rparr>)
    | Read base off x # prog \<Rightarrow> (let (d', t') = do_read p base off x d t in Some ((locked, d'), t'\<lparr>t_prog := prog\<rparr>))
    | Init_status # prog \<Rightarrow> Some ((locked, d), t\<lparr>t_prog := prog, t_status := 0\<rparr>)
    | Test_done body # prog \<Rightarrow>
        Some ((locked, d), t\<lparr>t_prog := (if t_status t AND done_mask \<noteq> done_mask then body @ Test_done body # prog else prog)\<rparr>)
    | Return_result # prog \<Rightarrow>
        Some ((locked, d), t\<lparr>t_prog := prog,
          t_results := t_results t @ [double_of_u64 (combine_result (t_rhigh t) (t_rlow t)) / 2 ^ 18]\<rparr>))"

type_synonym 'd system = "'d shared \<times> thread list"

inductive system_step :: "'d platform_api \<Rightarrow> 'd system \<Rightarrow> 'd system \<Rightarrow> bool" for p where
  "i < length ts \<Longrightarrow> act p sh (ts ! i) = Some (sh', t') \<Longrightarrow> system_step p (sh, ts) (sh', ts[i := t'])"

inductive_cases system_stepE: "system_step p (sh, ts) s'"

definition reachable :: "'d platform_api \<Rightarrow> 'd \<Rightarrow> action list list \<Rightarrow> 'd system \<Rightarrow> bool" where
  "reachable p d progs s = (system_step p)\<^sup>*\<^sup>* ((False, d), map thread_new progs) s"

section \<open>Mutual exclusion\<close>

text \<open>Whether a thread with this rest of its program is between Lock and Unlock.\<close>

fun holds :: "action list \<Rightarrow> bool" where
  "holds [] = False"
| "holds (Lock # prog) = False"
| "holds (Unlock # prog) = True"
| "holds (_ # prog) = holds prog"

text \<open>Lock and Unlock alternate, and everything but reading the status happens between them.\<close>

fun bracketed :: "bool \<Rightarrow> action list \<Rightarrow> bool" where
  "bracketed h [] = (\<not> h)"
| "bracketed h (Lock # prog) = (\<not> h \<and> bracketed True prog)"
| "bracketed h (Unlock # prog) = (h \<and> bracketed False prog)"
| "bracketed h (Write _ _ _ # prog) = (h \<and> bracketed h prog)"
| "bracketed h (Read _ _ x # prog) = ((h \<or> x = STATUS_VAR) \<and> bracketed h prog)"
| "bracketed h (Init_status # prog) = (\<not> h \<and> bracketed h prog)"
| "bracketed h (Test_done body # prog) = (\<not> h \<and> bracketed False body \<and> bracketed False prog)"
| "bracketed h (Return_result # prog) = (\<not> h \<and> bracketed h prog)"

lemma bracketed_holds: "bracketed h prog \<Longrightarrow> h = holds prog"
  by (induction h prog rule: bracketed.induct) auto

lemma bracketed_append: "bracketed h xs \<Longrightarrow> bracketed False ys \<Longrightarrow> bracketed h (xs @ ys)"
  by (induction h xs rule: bracketed.induct) auto

lemma bracketed_writes: "bracketed True ys \<Longrightarrow> bracketed True (concat (map (\<lambda>i. [Write (b i) (x i) (v i), Write (b i) (y i) (w i)]) is) @ ys)"
  by (induction "is") auto

lemma bracketed_concat: "\<forall>xs\<in>set xss. bracketed False xs \<Longrightarrow> bracketed False (concat xss)"
  by (induction xss) (auto intro: bracketed_append)

lemma bracketed_ptoa: "bracketed True ys \<Longrightarrow> bracketed True (concat (map (\<lambda>i. ptoa_writes (b i) (r i)) is) @ ys)"
  by (induction "is") (auto simp: ptoa_writes_def)

lemma bracketed_projection: "bracketed False (RunInstanceProjection k regs)"
proof -
  have "bracketed False (tsp_Reset bs)" "bracketed False (tsp_Start bs)" for bs
    by (simp_all add: tsp_Reset_def tsp_Start_def bracketed_writes)
  moreover have "bracketed False (tsp_setPtoaArguments bs regs)" for bs
    by (simp add: tsp_setPtoaArguments_def bracketed_ptoa)
  moreover have "bracketed False (tsp_WaitForFinish b n)" "bracketed False (tsp_ReadResult b)" for b n
    by (auto simp: tsp_WaitForFinish_def tsp_ReadResult_def Let_def)
  ultimately show ?thesis
    unfolding RunInstanceProjection_def Let_def by (intro bracketed_append)
qed

definition lock_inv :: "'d system \<Rightarrow> bool" where
  "lock_inv s \<longleftrightarrow> (let ((locked, _), ts) = s in
     (\<forall>i<length ts. bracketed (holds (t_prog (ts ! i))) (t_prog (ts ! i)))
     \<and> (\<forall>i<length ts. \<forall>j<length ts. holds (t_prog (ts ! i)) \<and> holds (t_prog (ts ! j)) \<longrightarrow> i = j)
     \<and> (locked \<longleftrightarrow> (\<exists>i<length ts. holds (t_prog (ts ! i)))))"

text \<open>What an action does to the lock, from a bracketed program.\<close>

lemma act_lock:
  assumes "act p (l, d) t = Some ((l', d'), t')" "bracketed h (t_prog t)"
  shows "\<exists>h'. bracketed h' (t_prog t') \<and> (h = h' \<and> l' = l \<or> \<not> h \<and> h' \<and> \<not> l \<and> l' \<or> h \<and> \<not> h' \<and> \<not> l')"
proof (cases "t_prog t")
  case (Cons a prog)
  have body: "bracketed False body \<Longrightarrow> bracketed False prog \<Longrightarrow> bracketed False (body @ Test_done body # prog)" for body
    by (rule bracketed_append) simp_all
  show ?thesis
  proof (cases a)
    case (Read b off x)
    then show ?thesis using assms Cons by (cases x) (auto simp: Let_def split: prod.splits)
  next
    case (Test_done body)
    then show ?thesis using assms Cons body [of body] by (intro exI [of _ False]) (auto split: if_splits)
  qed (use assms Cons body in \<open>auto simp: Let_def split: if_splits\<close>)
qed (use assms in simp)

lemma lock_inv_step: "lock_inv s \<Longrightarrow> system_step p s s' \<Longrightarrow> lock_inv s'"
proof -
  assume inv: "lock_inv s" and step: "system_step p s s'"
  from step show "lock_inv s'"
  proof cases
    case (1 i ts sh sh' t')
    obtain l d l' d' where sh: "sh = (l, d)" "sh' = (l', d')" by (cases sh, cases sh')
    have brack: "bracketed (holds (t_prog (ts ! j))) (t_prog (ts ! j))" if "j < length ts" for j
      using inv that unfolding lock_inv_def 1 sh by simp
    have a: "act p (l, d) (ts ! i) = Some ((l', d'), t')" using 1(4) unfolding sh .
    from act_lock [OF a brack [OF 1(3)]] obtain h' where h': "bracketed h' (t_prog t')" and
      change: "holds (t_prog (ts ! i)) = h' \<and> l' = l \<or> \<not> holds (t_prog (ts ! i)) \<and> h' \<and> \<not> l \<and> l'
        \<or> holds (t_prog (ts ! i)) \<and> \<not> h' \<and> \<not> l'"
      by (elim exE conjE) (rule that)
    have hold: "holds (t_prog (ts[i := t'] ! j)) = (if j = i then h' else holds (t_prog (ts ! j)))" if "j < length ts" for j
      using bracketed_holds [OF h', symmetric] that by (simp add: nth_list_update)
    have "\<forall>j<length ts. \<forall>k<length ts. holds (t_prog (ts ! j)) \<and> holds (t_prog (ts ! k)) \<longrightarrow> j = k"
      using inv unfolding lock_inv_def 1 sh by simp
    then have one: "holds (t_prog (ts ! j)) \<Longrightarrow> holds (t_prog (ts ! k)) \<Longrightarrow> j < length ts \<Longrightarrow> k < length ts \<Longrightarrow> j = k" for j k
      by blast
    have lock: "l \<longleftrightarrow> (\<exists>j<length ts. holds (t_prog (ts ! j)))" using inv unfolding lock_inv_def 1 sh by simp
    show ?thesis
      unfolding lock_inv_def 1(2) sh Let_def prod.case length_list_update
    proof (intro conjI allI impI)
      fix j assume "j < length ts"
      then show "bracketed (holds (t_prog (ts[i := t'] ! j))) (t_prog (ts[i := t'] ! j))"
        using brack [of j] h' bracketed_holds [OF h', symmetric] by (cases "j = i") auto
    next
      fix j k assume jk: "j < length ts" "k < length ts"
        "holds (t_prog (ts[i := t'] ! j)) \<and> holds (t_prog (ts[i := t'] ! k))"
      then show "j = k"
        using change lock one [of j k] one [of i j] one [of i k] 1(3) by (auto simp: hold split: if_splits)
    next
      show "l' = (\<exists>j<length ts. holds (t_prog (ts[i := t'] ! j)))"
      proof -
        let ?others = "\<exists>j<length ts. j \<noteq> i \<and> holds (t_prog (ts ! j))"
        have "(\<exists>j<length ts. holds (t_prog (ts[i := t'] ! j))) \<longleftrightarrow> h' \<or> ?others"
          by (metis hold 1(3))
        moreover have "l \<longleftrightarrow> holds (t_prog (ts ! i)) \<or> ?others" using lock 1(3) by auto
        moreover have "holds (t_prog (ts ! i)) \<Longrightarrow> \<not> ?others" using one 1(3) by blast
        ultimately show ?thesis using change by blast
      qed
    qed
  qed
qed

lemma reachable_lock_inv:
  assumes "\<forall>prog\<in>set progs. bracketed False prog" "reachable p d progs s"
  shows "lock_inv s"
  using assms(2) unfolding reachable_def
proof (induction rule: rtranclp_induct)
  case base
  have "\<not> holds (progs ! i)" "bracketed False (progs ! i)" if "i < length progs" for i
    using assms(1) bracketed_holds that by fastforce+
  then show ?case by (simp add: lock_inv_def thread_new_def)
qed (rule lock_inv_step)

end
