(* ===== verification/Column_Threads.thy ===== *)
theory Column_Threads
  imports Column_Platform
begin

text \<open>
  What the threads of the pool do to the hardware under every interleaving: the spin lock excludes, no
  deadlock occurs, and each thread's instance holds the arguments of its last row group. The
  bases of the instances are computed from the source's formula; three threads, as \<^verbatim>\<open>NUM_THREADS\<close> says.
\<close>

section \<open>What the threads write\<close>

fun writes_of :: "action list \<Rightarrow> ((u64 \<times> u64) \<times> u32) list" where
  "writes_of [] = []"
| "writes_of (Write base off v # prog) = ((base, off), v) # writes_of prog"
| "writes_of (_ # prog) = writes_of prog"

text \<open>The bodies of loops do not write.\<close>

fun quiet :: "action list \<Rightarrow> bool" where
  "quiet [] = True"
| "quiet (Test_done body # prog) = (writes_of body = [] \<and> quiet body \<and> quiet prog)"
| "quiet (_ # prog) = quiet prog"

definition fold_writes :: "('k \<times> 'v) list \<Rightarrow> ('k \<Rightarrow> 'v) \<Rightarrow> 'k \<Rightarrow> 'v" where
  "fold_writes ops r = fold (\<lambda>(k, v) r. r(k := v)) ops r"

lemma fold_writes_simps [simp]:
  "fold_writes [] r = r"
  "fold_writes ((k, v) # ops) r = fold_writes ops (r(k := v))"
  "fold_writes (xs @ ys) r = fold_writes ys (fold_writes xs r)"
  by (simp_all add: fold_writes_def)

lemma fold_writes_other: "k \<notin> fst ` set ops \<Longrightarrow> fold_writes ops r k = r k"
  by (induction ops arbitrary: r) auto

lemma fold_writes_cong: "r k = r' k \<Longrightarrow> fold_writes ops r k = fold_writes ops r' k"
proof (induction ops arbitrary: r r')
  case (Cons x ops)
  obtain k' v where x: "x = (k', v)" by fastforce
  have "(r(k' := v)) k = (r'(k' := v)) k" using Cons.prems by simp
  then have "fold_writes ops (r(k' := v)) k = fold_writes ops (r'(k' := v)) k" by (rule Cons.IH)
  then show ?case by (simp only: x fold_writes_simps)
qed simp

text \<open>A platform with registers at each base: writing sets one register, reading changes none of those in \<open>reg\<close>.\<close>

definition mmio_file :: "'d platform_api \<Rightarrow> ('d \<Rightarrow> u64 \<times> u64 \<Rightarrow> u32) \<Rightarrow> bool" where
  "mmio_file p reg \<longleftrightarrow>
    (\<forall>base off v d. reg (snd (p_WriteMMIO p base off v d)) = (reg d)((base, off) := v))
    \<and> (\<forall>base off old d. reg (snd (snd (p_ReadMMIO p base off old d))) = reg d)"

lemma writes_of_append [simp]: "writes_of (xs @ ys) = writes_of xs @ writes_of ys"
  by (induction xs rule: writes_of.induct) auto

lemma quiet_append [simp]: "quiet (xs @ ys) \<longleftrightarrow> quiet xs \<and> quiet ys"
  by (induction xs rule: quiet.induct) auto

lemma do_read_reg:
  assumes "mmio_file p reg" "do_read p base off x d t = (d', t')"
  shows "reg d' = reg d" "t_prog t' = t_prog t"
proof -
  have r: "reg (snd (snd (p_ReadMMIO p base off old d))) = reg d" for old
    using assms(1) by (simp add: mmio_file_def)
  have "(d', t') = do_read p base off x d t" using assms(2) by simp
  then show "reg d' = reg d" "t_prog t' = t_prog t"
    using r by (cases x; auto simp: ReadMMIO_def Let_def split: prod.splits; metis snd_conv)+
qed

lemma act_writes:
  assumes "mmio_file p reg" "act p (l, d) t = Some ((l', d'), t')" "quiet (t_prog t)"
  shows "quiet (t_prog t') \<and> (\<exists>ws. writes_of (t_prog t) = ws @ writes_of (t_prog t') \<and> reg d' = fold_writes ws (reg d))"
proof (cases "t_prog t")
  case (Cons a prog)
  show ?thesis
  proof (cases a)
    case (Read b off x)
    then show ?thesis using assms Cons do_read_reg [OF assms(1)]
      by (auto simp: Let_def split: prod.splits intro!: exI [of _ "[]"])
  next
    case (Write b off v)
    have "reg (snd (p_WriteMMIO p b off v d)) = (reg d)((b, off) := v)" using assms(1) by (simp add: mmio_file_def)
    then show ?thesis using assms Cons Write by (auto intro!: exI [of _ "[((b, off), v)]"])
  next
    case (Test_done body)
    then show ?thesis using assms Cons by (auto split: if_splits intro!: exI [of _ "[]"])
  qed (use assms Cons in \<open>auto split: if_splits intro!: exI [of _ "[]"]\<close>)
qed (use assms in simp)

definition prog_bases :: "action list \<Rightarrow> u64 set" where
  "prog_bases prog = fst ` fst ` set (writes_of prog)"

text \<open>Each thread has done the first part of its writes, and the registers at its bases show just these.\<close>

definition isolation_inv :: "('d \<Rightarrow> u64 \<times> u64 \<Rightarrow> u32) \<Rightarrow> 'd \<Rightarrow> action list list \<Rightarrow> 'd system \<Rightarrow> bool" where
  "isolation_inv reg d0 progs s \<longleftrightarrow> length (snd s) = length progs \<and> (\<forall>i<length progs.
     quiet (t_prog (snd s ! i)) \<and> (\<exists>ws. writes_of (progs ! i) = ws @ writes_of (t_prog (snd s ! i))
       \<and> (\<forall>b\<in>prog_bases (progs ! i). \<forall>off. reg (snd (fst s)) (b, off) = fold_writes ws (reg d0) (b, off))))"

lemma isolation_step:
  assumes regs: "mmio_file p reg" and inv: "isolation_inv reg d0 progs s" and step: "system_step p s s'"
    and disjoint: "\<And>i j. i < length progs \<Longrightarrow> j < length progs \<Longrightarrow> i \<noteq> j \<Longrightarrow> prog_bases (progs ! i) \<inter> prog_bases (progs ! j) = {}"
  shows "isolation_inv reg d0 progs s'"
  using step
proof cases
  case (1 i ts sh sh' t')
  obtain l d l' d' where sh: "sh = (l, d)" "sh' = (l', d')" by (cases sh, cases sh')
  have len: "length ts = length progs" using inv by (simp add: isolation_inv_def 1)
  have old: "quiet (t_prog (ts ! j)) \<and> (\<exists>ws. writes_of (progs ! j) = ws @ writes_of (t_prog (ts ! j))
       \<and> (\<forall>b\<in>prog_bases (progs ! j). \<forall>off. reg d (b, off) = fold_writes ws (reg d0) (b, off)))" if "j < length progs" for j
    using inv that by (simp add: isolation_inv_def 1 sh)
  have i: "i < length progs" using 1(3) len by simp
  have a: "act p (l, d) (ts ! i) = Some ((l', d'), t')" using 1(4) unfolding sh .
  obtain ws where q: "quiet (t_prog t')" and ws: "writes_of (t_prog (ts ! i)) = ws @ writes_of (t_prog t')"
    and reg: "reg d' = fold_writes ws (reg d)"
    using act_writes [OF regs a] old [OF i] by blast
  obtain ws0 where ws0: "writes_of (progs ! i) = ws0 @ writes_of (t_prog (ts ! i))" using old [OF i] by blast
  have "quiet (t_prog (ts[i := t'] ! j)) \<and> (\<exists>ws. writes_of (progs ! j) = ws @ writes_of (t_prog (ts[i := t'] ! j))
       \<and> (\<forall>b\<in>prog_bases (progs ! j). \<forall>off. reg d' (b, off) = fold_writes ws (reg d0) (b, off)))" if j: "j < length progs" for j
  proof (cases "j = i")
    case True
    obtain ws1 where ws1: "writes_of (progs ! i) = ws1 @ writes_of (t_prog (ts ! i))"
      "\<forall>b\<in>prog_bases (progs ! i). \<forall>off. reg d (b, off) = fold_writes ws1 (reg d0) (b, off)" using old [OF i] by blast
    have "\<forall>b\<in>prog_bases (progs ! i). \<forall>off. reg d' (b, off) = fold_writes (ws1 @ ws) (reg d0) (b, off)"
      using ws1(2) by (simp add: reg) (blast intro: fold_writes_cong)
    moreover have "writes_of (progs ! i) = (ws1 @ ws) @ writes_of (t_prog t')" using ws1(1) ws by simp
    ultimately show ?thesis using q True 1(3) by (intro conjI exI [of _ "ws1 @ ws"]) simp_all
  next
    case False
    have other: "reg d' (b, off) = reg d (b, off)" if "b \<in> prog_bases (progs ! j)" for b off
    proof -
      have "b \<notin> prog_bases (progs ! i)" using disjoint [OF i j] False that by blast
      then have "(b, off) \<notin> fst ` set ws" using ws ws0 by (force simp: prog_bases_def image_image)
      then show ?thesis by (simp add: reg fold_writes_other)
    qed
    then show ?thesis using old [OF j] False by simp
  qed
  then show ?thesis by (simp add: isolation_inv_def 1 sh len)
qed

lemma reachable_isolation:
  assumes "mmio_file p reg" "reachable p d progs s" "\<forall>prog\<in>set progs. quiet prog"
    "\<And>i j. i < length progs \<Longrightarrow> j < length progs \<Longrightarrow> i \<noteq> j \<Longrightarrow> prog_bases (progs ! i) \<inter> prog_bases (progs ! j) = {}"
  shows "isolation_inv reg d progs s"
  using assms(2) unfolding reachable_def
proof (induction rule: rtranclp_induct)
  case base
  show ?case using assms(3) by (auto simp: isolation_inv_def thread_new_def intro!: exI [of _ "[]"])
next
  case (step s s')
  show ?case by (rule isolation_step [OF assms(1) step.IH step.hyps(2) assms(4)])
qed

section \<open>The programs of the pool's threads\<close>

text \<open>Thread \<open>k\<close> runs the row groups \<open>tss ! k\<close>, in this order.\<close>

definition instance_program :: "nat \<Rightarrow> ptoa_regs list list \<Rightarrow> action list" where
  "instance_program k tasks = concat (map (RunInstanceProjection k) tasks)"

definition scheduler_programs :: "ptoa_regs list list list \<Rightarrow> action list list" where
  "scheduler_programs tss = map (\<lambda>k. instance_program k (tss ! k)) [0..<NUM_THREADS]"

lemma base_offsets_values:
  "base_offsets 0 = [0x10000, 0x11000, 0x12000, 0x13000, 0x14000]"
  "base_offsets (Suc 0) = [0x15000, 0x16000, 0x17000, 0x18000, 0x19000]"
  "base_offsets 2 = [0x1A000, 0x1B000, 0x1C000, 0x1D000, 0x1E000]"
  by code_simp+

lemma upt_cols: "[0..<NUM_COLS] = [0, 1, 2, 3]" "[0..<Suc NUM_COLS] = [0, 1, 2, 3, 4]"
  by code_simp+

lemma quiet_projection: "quiet (RunInstanceProjection k regs)"
  by (simp add: RunInstanceProjection_def Let_def tsp_Reset_def tsp_setPtoaArguments_def ptoa_writes_def
      tsp_Start_def tsp_WaitForFinish_def tsp_ReadResult_def upt_cols del: upt_Suc)

lemma writes_projection: "writes_of (RunInstanceProjection k regs) =
    (let bs = base_offsets k in
     concat (map (\<lambda>i. [((bs ! i, 0), 4), ((bs ! i, 0), 0)]) [0, 1, 2, 3, 4]) @
     concat (map (\<lambda>i. [((bs ! i, 10), ucast (num_val (regs ! i))),
        ((bs ! i, 11), dau_lo (device_parquet_address (regs ! i))), ((bs ! i, 12), dau_hi (device_parquet_address (regs ! i))),
        ((bs ! i, 13), dau_lo (max_size (regs ! i))), ((bs ! i, 14), dau_hi (max_size (regs ! i)))]) [0, 1, 2, 3]) @
     concat (map (\<lambda>i. [((bs ! i, 0), 1), ((bs ! i, 0), 0)]) [4, 3, 2, 1, 0]))"
  by (simp add: RunInstanceProjection_def Let_def tsp_Reset_def tsp_setPtoaArguments_def ptoa_writes_def
      tsp_Start_def tsp_WaitForFinish_def tsp_ReadResult_def REG_BASE_def upt_cols del: upt_Suc)

lemma bases_projection: "fst ` fst ` set (writes_of (RunInstanceProjection k regs)) = (\<lambda>i. base_offsets k ! i) ` {0, 1, 2, 3, 4}"
  unfolding writes_projection Let_def by auto

lemma bases_instance: "b \<in> prog_bases (instance_program k tasks) \<Longrightarrow> \<exists>n<5. b = base_offsets k ! n"
proof -
  have "prog_bases (instance_program k tasks) \<subseteq> (\<lambda>i. base_offsets k ! i) ` {0, 1, 2, 3, 4}"
  proof (induction tasks)
    case (Cons t tasks)
    then show ?case
      using bases_projection [of k t] by (auto simp: prog_bases_def instance_program_def image_Un)
  qed (simp add: prog_bases_def instance_program_def)
  moreover have "{0 :: nat, 1, 2, 3, 4} = {..<5}" by auto
  moreover assume "b \<in> prog_bases (instance_program k tasks)"
  ultimately show ?thesis by auto
qed

lemma base_offset_unat: "k < 3 \<Longrightarrow> i < 5 \<Longrightarrow> unat (base_offsets k ! i) = 65536 + 4096 * (i + 5 * k)"
proof -
  assume "k < 3" "i < 5"
  then have "k = 0 \<or> k = Suc 0 \<or> k = 2" "i = 0 \<or> i = 1 \<or> i = 2 \<or> i = 3 \<or> i = 4" by auto
  then show ?thesis by (elim disjE) (simp_all add: base_offsets_values)
qed

lemma base_offset_inject:
  assumes "k < 3" "i < 5" "l < 3" "j < 5"
  shows "base_offsets k ! i = base_offsets l ! j \<longleftrightarrow> k = l \<and> i = j"
proof
  assume "base_offsets k ! i = base_offsets l ! j"
  then have e: "i + k * 5 = j + l * 5"
    using base_offset_unat [OF assms(1,2)] base_offset_unat [OF assms(3,4)] by simp
  have "(i + k * 5) div 5 = k" "(j + l * 5) div 5 = l" using assms by simp_all
  then have "k = l" using e by simp
  then show "k = l \<and> i = j" using e by simp
qed simp

lemma less_3_cases: "(k :: nat) < 3 \<Longrightarrow> k = 0 \<or> k = 1 \<or> k = 2"
  by auto

lemma instance_bases_disjoint:
  assumes "i < 3" "j < 3" "i \<noteq> j"
  shows "prog_bases (instance_program i ti) \<inter> prog_bases (instance_program j tj) = {}"
proof -
  have "base_offsets i ! m \<noteq> base_offsets j ! n" if "m < 5" "n < 5" for m n
    using base_offset_inject that assms by blast
  then show ?thesis using bases_instance [of _ i ti] bases_instance [of _ j tj] by blast
qed

lemma base_in_program: "tasks \<noteq> [] \<Longrightarrow> i < 5 \<Longrightarrow> base_offsets k ! i \<in> prog_bases (instance_program k tasks)"
proof -
  assume "tasks \<noteq> []" "i < 5"
  moreover have "{0 :: nat, 1, 2, 3, 4} = {..<5}" by auto
  ultimately show ?thesis
    using bases_projection [of k "hd tasks"]
    by (cases tasks) (auto simp: prog_bases_def instance_program_def image_Un)
qed

text \<open>The registers of column \<open>i\<close> after a projection, whatever they held before.\<close>

lemma projection_registers:
  fixes regs :: "ptoa_regs list" and r0 :: "u64 \<times> u64 \<Rightarrow> u32"
  assumes "k < 3" "i < 4"
  defines "r \<equiv> fold_writes (writes_of (RunInstanceProjection k regs)) r0" and "b \<equiv> base_offsets k ! i"
  shows "r (b, 0) = 0" "r (b, 10) = ucast (num_val (regs ! i))"
    "r (b, 11) = dau_lo (device_parquet_address (regs ! i))" "r (b, 12) = dau_hi (device_parquet_address (regs ! i))"
    "r (b, 13) = dau_lo (max_size (regs ! i))" "r (b, 14) = dau_hi (max_size (regs ! i))"
proof -
  have ne: "base_offsets k ! m = base_offsets k ! n \<longleftrightarrow> m = n" if "m < 5" "n < 5" for m n
    using base_offset_inject assms(1) that by blast
  have "i = 0 \<or> i = 1 \<or> i = 2 \<or> i = 3" using assms(2) by auto
  then show "r (b, 0) = 0" "r (b, 10) = ucast (num_val (regs ! i))"
    "r (b, 11) = dau_lo (device_parquet_address (regs ! i))" "r (b, 12) = dau_hi (device_parquet_address (regs ! i))"
    "r (b, 13) = dau_lo (max_size (regs ! i))" "r (b, 14) = dau_hi (max_size (regs ! i))"
    unfolding r_def b_def writes_projection Let_def by (elim disjE; simp add: ne)+
qed

text \<open>Running one thread for a number of actions.\<close>

fun run_thread :: "'d platform_api \<Rightarrow> nat \<Rightarrow> nat \<Rightarrow> 'd system \<Rightarrow> 'd system option" where
  "run_thread p i 0 s = Some s"
| "run_thread p i (Suc n) (sh, ts) = (if i < length ts then
     (case act p sh (ts ! i) of None \<Rightarrow> None | Some (sh', t') \<Rightarrow> run_thread p i n (sh', ts[i := t'])) else None)"

lemma run_thread_steps: "run_thread p i n s = Some s' \<Longrightarrow> (system_step p)\<^sup>*\<^sup>* s s'"
proof (induction p i n s rule: run_thread.induct)
  case (2 p i n sh ts)
  then obtain sh' t' where i: "i < length ts" and a: "act p sh (ts ! i) = Some (sh', t')"
    and r: "run_thread p i n (sh', ts[i := t']) = Some s'"
    by (auto split: if_splits option.splits)
  have "system_step p (sh, ts) (sh', ts[i := t'])" using i a by (rule system_step.intros)
  moreover have "(system_step p)\<^sup>*\<^sup>* (sh', ts[i := t']) s'" using 2(1) i a r by auto
  ultimately show ?case by (rule converse_rtranclp_into_rtranclp)
qed simp

text \<open>A device with registers whose status register always reads as done.\<close>

definition ready_api :: "(u64 \<times> u64 \<Rightarrow> u32) platform_api" where
  "ready_api = \<lparr>p_GetName = (\<lambda>n d. (0, [], d)), p_Init = (\<lambda>d. (0, d)),
     p_WriteMMIO = (\<lambda>base off v d. (0, d((base, off) := v))),
     p_ReadMMIO = (\<lambda>base off old d. (0, if off = 1 then 4 else d (base, off), d)),
     p_DeviceMalloc = (\<lambda>old n d. (0, old, d)), p_DeviceFree = (\<lambda>a d. (0, d)),
     p_CopyHostToDevice = (\<lambda>s t n d. (0, d)), p_CopyDeviceToHost = (\<lambda>s t n d. (0, d)),
     p_PrepareHostBuffer = (\<lambda>s old n al d. (0, s, 0, d)), p_CacheHostBuffer = (\<lambda>s old n d. (0, s, d)),
     p_Terminate = (\<lambda>d. (0, d))\<rparr>"

lemma ready_mmio_file: "mmio_file ready_api (\<lambda>d. d)"
  by (simp add: mmio_file_def ready_api_def)

definition example_tasks :: "ptoa_regs list list list" where
  "example_tasks = [[replicate 4 \<lparr>num_val = 100, max_size = 832, device_parquet_address = 0x200001000\<rparr>], [], []]"

lemma example_run: "case run_thread ready_api 0 54 ((False, \<lambda>_. 0), map thread_new (scheduler_programs example_tasks)) of
    Some s \<Rightarrow> t_prog (snd s ! 0) = [] \<and> length (t_results (snd s ! 0)) = 1 | None \<Rightarrow> False"
  by code_simp

lemma example_reachable: "\<exists>s. reachable ready_api (\<lambda>_. 0) (scheduler_programs example_tasks) s
    \<and> t_prog (snd s ! 0) = [] \<and> length (t_results (snd s ! 0)) = 1"
proof (cases "run_thread ready_api 0 54 ((False, \<lambda>_. 0), map thread_new (scheduler_programs example_tasks))")
  case None
  then show ?thesis using example_run by (simp only: option.case)
next
  case (Some s)
  then have "t_prog (snd s ! 0) = [] \<and> length (t_results (snd s ! 0)) = 1" using example_run by (simp only: option.case)
  then show ?thesis using run_thread_steps [OF Some] unfolding reachable_def by blast
qed

lemma scheduler_bracketed: "\<forall>prog\<in>set (scheduler_programs tss). bracketed False prog"
  by (auto simp: scheduler_programs_def instance_program_def intro!: bracketed_concat bracketed_projection)

lemma scheduler_quiet: "\<forall>prog\<in>set (scheduler_programs tss). quiet prog"
proof -
  have "quiet (instance_program k tasks)" for k tasks
    by (induction tasks) (simp_all add: instance_program_def quiet_projection)
  then show ?thesis by (simp add: scheduler_programs_def)
qed

lemma system_step_length: "system_step p s s' \<Longrightarrow> length (snd s') = length (snd s)"
  by (induction rule: system_step.induct) simp

lemma reachable_length: "reachable p d progs s \<Longrightarrow> length (snd s) = length progs"
  unfolding reachable_def by (induction rule: rtranclp_induct) (simp_all add: system_step_length)

section \<open>Properties\<close>

text \<open>C17: the spin lock excludes: whatever the order of the actions of the threads, the lock is taken exactly
  when some thread is between Lock and Unlock, never two threads are, and a thread that is about to write a register or to read
  a result register is there.\<close>

theorem mmio_mutual_exclusion:
  assumes "reachable p d (scheduler_programs tss) ((locked, d'), ts)"
  shows "(locked \<longleftrightarrow> (\<exists>i<length ts. holds (t_prog (ts ! i))))
    \<and> (\<forall>i<length ts. \<forall>j<length ts. holds (t_prog (ts ! i)) \<and> holds (t_prog (ts ! j)) \<longrightarrow> i = j)
    \<and> (\<forall>i<length ts. case t_prog (ts ! i) of
         Write base off v # prog \<Rightarrow> holds (t_prog (ts ! i))
       | Read base off x # prog \<Rightarrow> x \<noteq> STATUS_VAR \<longrightarrow> holds (t_prog (ts ! i))
       | _ \<Rightarrow> True)"
proof -
  have inv: "lock_inv ((locked, d'), ts)" by (rule reachable_lock_inv [OF scheduler_bracketed assms])
  have "case t_prog (ts ! i) of Write base off v # prog \<Rightarrow> holds (t_prog (ts ! i))
       | Read base off x # prog \<Rightarrow> x \<noteq> STATUS_VAR \<longrightarrow> holds (t_prog (ts ! i)) | _ \<Rightarrow> True" if "i < length ts" for i
  proof -
    have "bracketed (holds (t_prog (ts ! i))) (t_prog (ts ! i))" using inv that by (simp add: lock_inv_def)
    then show ?thesis by (auto split: list.splits action.splits)
  qed
  then show ?thesis using inv by (simp add: lock_inv_def)
qed

lemma mmio_mutual_exclusion_witness:
  "\<exists>locked d' ts. reachable ready_api (\<lambda>_. 0) (scheduler_programs example_tasks) ((locked, d'), ts)
    \<and> (locked \<longleftrightarrow> (\<exists>i<length ts. holds (t_prog (ts ! i))))"
proof -
  obtain l d ts where r: "reachable ready_api (\<lambda>_. 0) (scheduler_programs example_tasks) ((l, d), ts)"
    using example_reachable by (metis surj_pair)
  from mmio_mutual_exclusion [OF r] have "l \<longleftrightarrow> (\<exists>i<length ts. holds (t_prog (ts ! i)))" by (rule conjunct1)
  then show ?thesis using r by (intro exI conjI)
qed

text \<open>C27: the threads cannot block each other for ever: in every reachable state some thread that has not
  ended can take its next action, since the one that holds the lock never waits.\<close>

theorem threads_never_deadlock:
  assumes "reachable p d (scheduler_programs tss) s" "\<exists>i<length (snd s). t_prog (snd s ! i) \<noteq> []"
  shows "\<exists>i<length (snd s). t_prog (snd s ! i) \<noteq> [] \<and> act p (fst s) (snd s ! i) \<noteq> None"
proof -
  obtain l d' ts where s: "s = ((l, d'), ts)" by (metis surj_pair)
  have inv: "lock_inv s" by (rule reachable_lock_inv [OF scheduler_bracketed assms(1)])
  have go: "act p (l, d') t \<noteq> None" if "t_prog t \<noteq> []" "l \<Longrightarrow> hd (t_prog t) \<noteq> Lock" for t
  proof (cases "t_prog t")
    case (Cons a prog)
    show ?thesis using that Cons by (cases a) (auto split: prod.splits)
  qed (use that in simp)
  show ?thesis
  proof (cases l)
    case True
    then obtain i where i: "i < length ts" "holds (t_prog (ts ! i))" using inv by (auto simp: lock_inv_def s)
    have "prog \<noteq> [] \<and> hd prog \<noteq> Lock" if "holds prog" for prog using that by (cases prog rule: holds.cases) auto
    then have "t_prog (ts ! i) \<noteq> []" "hd (t_prog (ts ! i)) \<noteq> Lock" using i(2) by blast+
    then show ?thesis using go i by (auto simp: s)
  next
    case False
    then show ?thesis using assms(2) go by (auto simp: s)
  qed
qed

lemma threads_never_deadlock_witness:
  "\<exists>i<3. act ready_api (False, \<lambda>_. 0) (map thread_new (scheduler_programs example_tasks) ! i) \<noteq> None"
proof -
  have "reachable ready_api (\<lambda>_. 0) (scheduler_programs example_tasks) ((False, \<lambda>_. 0), map thread_new (scheduler_programs example_tasks))"
    by (simp add: reachable_def)
  moreover have "\<exists>i<length (map thread_new (scheduler_programs example_tasks)).
      t_prog (map thread_new (scheduler_programs example_tasks) ! i) \<noteq> []"
    by (intro exI [of _ 0]) code_simp
  moreover have "length (map thread_new (scheduler_programs example_tasks)) = 3" by (simp add: scheduler_programs_def NUM_THREADS_def)
  ultimately show ?thesis
    using threads_never_deadlock [of ready_api "\<lambda>_. 0" example_tasks "((False, \<lambda>_. 0), map thread_new (scheduler_programs example_tasks))"]
    unfolding fst_conv snd_conv by metis
qed

text \<open>C4: the threads do not disturb each other's hardware: when a thread has ended, the registers of its instance hold
  the arguments of its last row group, for each column the number of values (cut to 32 bits), the address and the size in the
  registers 10 to 14, and the control register is 0, however its actions were interleaved with those of the other threads.\<close>

theorem instances_isolated:
  assumes "mmio_file p reg" "reachable p d (scheduler_programs tss) s" "k < 3" "tss ! k \<noteq> []"
    "t_prog (snd s ! k) = []" "i < 4"
  defines "r \<equiv> \<lambda>off. reg (snd (fst s)) (base_offsets k ! i, off)" and "args \<equiv> last (tss ! k) ! i"
  shows "r 0 = 0 \<and> r 10 = ucast (num_val args)
    \<and> r 11 = dau_lo (device_parquet_address args) \<and> r 12 = dau_hi (device_parquet_address args)
    \<and> r 13 = dau_lo (max_size args) \<and> r 14 = dau_hi (max_size args)"
proof -
  let ?progs = "scheduler_programs tss" and ?P = "instance_program k (tss ! k)"
  have prog: "i < length ?progs \<Longrightarrow> ?progs ! i = instance_program i (tss ! i)" and len: "length ?progs = 3" for i
    by (simp_all add: scheduler_programs_def NUM_THREADS_def)
  have "isolation_inv reg d ?progs s"
    by (rule reachable_isolation [OF assms(1,2) scheduler_quiet]) (use prog len instance_bases_disjoint in simp)
  then obtain ws where ws: "writes_of ?P = ws @ writes_of (t_prog (snd s ! k))"
    and regs: "\<forall>b\<in>prog_bases ?P. \<forall>off. reg (snd (fst s)) (b, off) = fold_writes ws (reg d) (b, off)"
    using assms(3) prog [of k] len by (auto simp: isolation_inv_def)
  have "ws = writes_of ?P" using ws assms(5) by simp
  moreover have "base_offsets k ! i \<in> prog_bases ?P" using base_in_program assms(4,6) by simp
  ultimately have "r off = fold_writes (writes_of ?P) (reg d) (base_offsets k ! i, off)" for off
    using regs by (simp add: r_def)
  moreover have "writes_of ?P = writes_of (instance_program k (butlast (tss ! k))) @ writes_of (RunInstanceProjection k (last (tss ! k)))"
    using arg_cong [OF append_butlast_last_id [OF assms(4)], of "instance_program k"]
    by (simp add: instance_program_def flip: writes_of_append)
  ultimately have r: "r off = fold_writes (writes_of (RunInstanceProjection k (last (tss ! k))))
      (fold_writes (writes_of (instance_program k (butlast (tss ! k)))) (reg d)) (base_offsets k ! i, off)" for off by simp
  show ?thesis unfolding r args_def by (intro conjI projection_registers [OF assms(3,6)])
qed

lemma instances_isolated_witness:
  "\<exists>s. reachable ready_api (\<lambda>_. 0) (scheduler_programs example_tasks) s \<and> snd (fst s) (base_offsets 0 ! 2, 12) = 2"
proof -
  obtain s where s: "reachable ready_api (\<lambda>_. 0) (scheduler_programs example_tasks) s" "t_prog (snd s ! 0) = []"
    using example_reachable by blast
  have "example_tasks ! 0 \<noteq> []" "dau_hi (device_parquet_address (last (example_tasks ! 0) ! 2)) = 2" by code_simp+
  then have "snd (fst s) (base_offsets 0 ! 2, 12) = 2"
    using instances_isolated [OF ready_mmio_file s(1) _ _ s(2), of 2] by simp
  then show ?thesis using s(1) by blast
qed

end
