(* ===== verification/Task_Pool.thy ===== *)
theory Task_Pool
  imports Column_Platform "HOL-Library.Multiset"
begin

text \<open>
  The task queues, the thread pool and the scheduler of \<^verbatim>\<open>ColumnScheduler.h\<close> and
  \<^verbatim>\<open>ColumnScheduler.cpp\<close>, with \<^verbatim>\<open>PlatformWrapper.cpp\<close> on top. A \<^verbatim>\<open>FunctionWrapper\<close> is an
  option: None is one whose implementation has been moved away, which crashes when it is called. Each
  queue operation runs under the queue's mutex and is one step; the workers interleave. What
  a task computes is left to the platform, so a future is filled by the step that ends its task.
\<close>

section \<open>Queues\<close>

text \<open>The front of the queue is the head of the list.\<close>

type_synonym 'a wrapper = "'a option"

definition ws_push :: "'a wrapper \<Rightarrow> 'a wrapper list \<Rightarrow> 'a wrapper list" where
  "ws_push val thread_queue = val # thread_queue"

definition ws_try_pop :: "'a wrapper list \<Rightarrow> ('a wrapper \<times> 'a wrapper list) option" where
  "ws_try_pop thread_queue = (case thread_queue of [] \<Rightarrow> None | front # rest \<Rightarrow> Some (front, rest))"

text \<open>The front is moved out, which leaves an empty wrapper there, and the back is removed.\<close>

definition ws_try_steal :: "'a wrapper list \<Rightarrow> ('a wrapper \<times> 'a wrapper list) option" where
  "ws_try_steal thread_queue =
    (case thread_queue of [] \<Rightarrow> None | front # rest \<Rightarrow> Some (front, butlast (None # rest)))"

definition tq_push :: "'a \<Rightarrow> 'a list \<Rightarrow> 'a list" where
  "tq_push val thread_queue = thread_queue @ [val]"

definition tq_try_pop :: "'a list \<Rightarrow> ('a \<times> 'a list) option" where
  "tq_try_pop thread_queue = (case thread_queue of [] \<Rightarrow> None | front # rest \<Rightarrow> Some (front, rest))"

text \<open>The size is cut to a 32-bit \<^verbatim>\<open>int\<close>.\<close>

definition queue_size :: "'a list \<Rightarrow> u32" where
  "queue_size thread_queue = of_nat (length thread_queue)"

definition queue_empty :: "'a list \<Rightarrow> bool" where
  "queue_empty thread_queue = (thread_queue = [])"

section \<open>The contract of a queue\<close>

text \<open>What a pool needs of a queue of tasks: nothing is lost and nothing is made up.\<close>

locale task_queue =
  fixes push :: "'a \<Rightarrow> 'q \<Rightarrow> 'q"
    and try_pop :: "'q \<Rightarrow> ('a \<times> 'q) option"
    and items :: "'q \<Rightarrow> 'a multiset"
  assumes items_push: "items (push x q) = add_mset x (items q)"
    and try_pop_None: "try_pop q = None \<longleftrightarrow> items q = {#}"
    and try_pop_Some: "try_pop q = Some (x, q') \<Longrightarrow> items q = add_mset x (items q')"
begin

fun drain :: "nat \<Rightarrow> 'q \<Rightarrow> 'a list" where
  "drain 0 q = []"
| "drain (Suc n) q = (case try_pop q of None \<Rightarrow> [] | Some (x, q') \<Rightarrow> x # drain n q')"

definition push_all :: "'a list \<Rightarrow> 'q \<Rightarrow> 'q" where
  "push_all xs q = fold push xs q"

lemma items_push_all: "items (push_all xs q) = mset xs + items q"
  by (induction xs arbitrary: q) (simp_all add: push_all_def items_push)

lemma mset_drain: "mset (drain (size (items q)) q) = items q"
proof (induction "size (items q)" arbitrary: q)
  case 0
  then show ?case by simp
next
  case (Suc n)
  then have "items q \<noteq> {#}" by auto
  then obtain x q' where p: "try_pop q = Some (x, q')" using try_pop_None by (cases "try_pop q") auto
  note items = try_pop_Some [OF p]
  then have "n = size (items q')" using Suc(2) by simp
  then have "mset (drain n q') = items q'" using Suc(1) by blast
  moreover have "size (items q) = Suc n" using Suc(2) by simp
  ultimately show ?case using p items by simp
qed

text \<open>What is pushed comes out again, each as often as it was pushed.\<close>

lemma drain_pushed: "items q = {#} \<Longrightarrow> mset (drain (length xs) (push_all xs q)) = mset xs"
  using mset_drain [of "push_all xs q"] items_push_all [of xs q] by simp

end

interpretation global_queue: task_queue tq_push tq_try_pop mset
  by unfold_locales (auto simp: tq_push_def tq_try_pop_def split: list.splits)

interpretation local_queue: task_queue ws_push ws_try_pop mset
  by unfold_locales (auto simp: ws_push_def ws_try_pop_def split: list.splits)

section \<open>The pool\<close>

text \<open>Where a worker is in \<^verbatim>\<open>run_pending_task\<close>: before its own queue, the global queue or the \<open>i\<close>-th other
  queue, or in a task.\<close>

datatype 'a worker_pc = At_local | At_global | At_steal nat | In_task "'a wrapper"

record 'a pool =
  global_worker_queue :: "'a wrapper list"
  local_queues :: "'a wrapper list list"
  workers :: "'a worker_pc list"
  finished :: "'a list"

definition pool_new :: "'a pool" where
  "pool_new = \<lparr>global_worker_queue = [], local_queues = replicate NUM_THREADS [],
     workers = replicate NUM_THREADS At_local, finished = []\<rparr>"

text \<open>A thread outside the pool has no local queue, so its tasks go to the global one.\<close>

definition submit :: "'a \<Rightarrow> 'a pool \<Rightarrow> 'a pool" where
  "submit f p = p\<lparr>global_worker_queue := tq_push (Some f) (global_worker_queue p)\<rparr>"

definition steal_index :: "nat \<Rightarrow> nat \<Rightarrow> nat \<Rightarrow> nat" where
  "steal_index instance_index i queues = (instance_index + i + 1) mod queues"

text \<open>The next step of worker \<open>w\<close>; None is a crash, the call of an empty wrapper.\<close>

definition worker_step :: "nat \<Rightarrow> 'a pool \<Rightarrow> 'a pool option" where
  "worker_step w p = (let set_pc = (\<lambda>pc q. q\<lparr>workers := (workers q)[w := pc]\<rparr>) in
     case workers p ! w of
       At_local \<Rightarrow> (case ws_try_pop (local_queues p ! w) of
           Some (task, q) \<Rightarrow> Some (set_pc (In_task task) (p\<lparr>local_queues := (local_queues p)[w := q]\<rparr>))
         | None \<Rightarrow> Some (set_pc At_global p))
     | At_global \<Rightarrow> (case tq_try_pop (global_worker_queue p) of
           Some (task, q) \<Rightarrow> Some (set_pc (In_task task) (p\<lparr>global_worker_queue := q\<rparr>))
         | None \<Rightarrow> Some (set_pc (At_steal 0) p))
     | At_steal i \<Rightarrow>
         if i < length (local_queues p) then
           let index = steal_index w i (length (local_queues p)) in
           (case ws_try_steal (local_queues p ! index) of
              Some (task, q) \<Rightarrow> Some (set_pc (In_task task) (p\<lparr>local_queues := (local_queues p)[index := q]\<rparr>))
            | None \<Rightarrow> Some (set_pc (At_steal (Suc i)) p))
         else Some (set_pc At_local p)
     | In_task task \<Rightarrow> (case task of
           None \<Rightarrow> None
         | Some f \<Rightarrow> Some (set_pc At_local (p\<lparr>finished := finished p @ [f]\<rparr>))))"

text \<open>A history: the tasks submitted so far, in order, and the state they led to.\<close>

inductive pool_run :: "'a list \<Rightarrow> 'a pool \<Rightarrow> bool" where
  start: "pool_run [] pool_new"
| submitted: "pool_run fs p \<Longrightarrow> pool_run (fs @ [f]) (submit f p)"
| worked: "pool_run fs p \<Longrightarrow> w < length (workers p) \<Longrightarrow> worker_step w p = Some p' \<Longrightarrow> pool_run fs p'"

section \<open>The scheduler\<close>

record scheduler =
  sch_results :: "rat list"
  sch_submitted :: bool

definition scheduler_new :: scheduler where
  "scheduler_new = \<lparr>sch_results = [], sch_submitted = False\<rparr>"

text \<open>\<^verbatim>\<open>Schedule\<close> does not submit anything (the call is commented out): it asks default-constructed
  futures for their values, which has no defined behaviour.\<close>

definition Schedule :: "'c list \<Rightarrow> rat res" where
  "Schedule chunks = (if chunks = [] then Inr 0 else Inl Undefined)"

text \<open>\<open>future i\<close> is the value that the task of chunk \<open>i\<close> ends with; waiting for it is the pool's part.\<close>

definition scheduler_Submit :: "nat \<Rightarrow> (nat \<Rightarrow> rat) \<Rightarrow> scheduler \<Rightarrow> status \<times> scheduler" where
  "scheduler_Submit chunk_size future s =
    (Status_OK, s\<lparr>sch_results := sch_results s @ map future [0..<chunk_size], sch_submitted := True\<rparr>)"

definition scheduler_hasNext :: "scheduler \<Rightarrow> bool" where
  "scheduler_hasNext s = (0 < length (sch_results s) \<and> sch_submitted s)"

text \<open>None: the loop before never ends. An empty deque has no front.\<close>

definition scheduler_Next :: "scheduler \<Rightarrow> (rat \<times> scheduler) res option" where
  "scheduler_Next s =
    (if \<not> sch_submitted s then None
     else case sch_results s of
       [] \<Rightarrow> Some (Inl Undefined)
     | result # rest \<Rightarrow> Some (Inr (result, s\<lparr>sch_results := rest\<rparr>)))"

definition wrapper_hasNext :: "scheduler \<Rightarrow> bool" where
  "wrapper_hasNext s = scheduler_hasNext s"

definition wrapper_Next :: "scheduler \<Rightarrow> (rat \<times> scheduler) res option" where
  "wrapper_Next s = (if \<not> scheduler_hasNext s then None else scheduler_Next s)"

definition reader_Next :: "scheduler \<Rightarrow> (rat \<times> scheduler) res option" where
  "reader_Next s = (if \<not> wrapper_hasNext s then None else wrapper_Next s)"

definition reader_hasNext :: "scheduler \<Rightarrow> bool" where
  "reader_hasNext s = wrapper_hasNext s"

text \<open>The macro that ends the program on a status that is not OK.\<close>

definition ASSERT_FLETCHER_OK :: "status \<Rightarrow> unit res" where
  "ASSERT_FLETCHER_OK s = (if \<not> status_ok s then Inl Exited else Inr ())"

definition PlatformWrapper_new :: "('h, 'd) loader \<Rightarrow> 'd \<Rightarrow> ('d platform \<times> scheduler \<times> 'd) res" where
  "PlatformWrapper_new dl d =
    res_bind (Platform_Make dl ''snap'' None False) (\<lambda>(st, out).
    res_bind (ASSERT_FLETCHER_OK st) (\<lambda>_.
    case out of
      None \<Rightarrow> Inl Undefined
    | Some pf \<Rightarrow> (let (st, d') = Platform_Init (pf_api pf) d in
        res_bind (ASSERT_FLETCHER_OK st) (\<lambda>_. Inr (pf, scheduler_new, d')))))"

definition wrapper_Submit :: "nat \<Rightarrow> (nat \<Rightarrow> rat) \<Rightarrow> scheduler \<Rightarrow> (status \<times> scheduler) res" where
  "wrapper_Submit num_row_groups future s =
    (let (st, s') = scheduler_Submit num_row_groups future s in
     res_bind (ASSERT_FLETCHER_OK st) (\<lambda>_. Inr (Status_OK, s')))"

text \<open>The reader submits the row groups when it is made; the times it adds up are left out.\<close>

definition FletcherParquetReader_new :: "nat \<Rightarrow> (nat \<Rightarrow> rat) \<Rightarrow> scheduler \<Rightarrow> scheduler res" where
  "FletcherParquetReader_new group_length future s =
    res_bind (wrapper_Submit group_length future s) (\<lambda>(st, s').
    res_bind (ASSERT_FLETCHER_OK st) (\<lambda>_. Inr s'))"

section \<open>The invariant of the pool\<close>

definition running :: "'a worker_pc list \<Rightarrow> 'a list" where
  "running pcs = concat (map (\<lambda>pc. case pc of In_task (Some f) \<Rightarrow> [f] | _ \<Rightarrow> []) pcs)"

text \<open>The local queues stay empty, the global queue holds the tasks from number \<open>k\<close> on, and the first
  \<open>k\<close> tasks are running or finished, each once.\<close>

definition pool_inv :: "'a list \<Rightarrow> 'a pool \<Rightarrow> bool" where
  "pool_inv fs p \<longleftrightarrow> local_queues p = replicate NUM_THREADS [] \<and> length (workers p) = NUM_THREADS
     \<and> In_task None \<notin> set (workers p)
     \<and> (\<exists>k\<le>length fs. global_worker_queue p = map Some (drop k fs)
         \<and> mset (take k fs) = mset (running (workers p)) + mset (finished p))"

definition task_list :: "'a worker_pc \<Rightarrow> 'a list" where
  "task_list pc = (case pc of In_task (Some f) \<Rightarrow> [f] | _ \<Rightarrow> [])"

lemma running_def2: "running pcs = concat (map task_list pcs)"
  by (simp add: running_def task_list_def [abs_def])

lemma mset_running_update:
  "w < length pcs \<Longrightarrow> mset (running (pcs[w := pc])) + mset (task_list (pcs ! w)) = mset (running pcs) + mset (task_list pc)"
proof (induction pcs arbitrary: w)
  case (Cons x pcs)
  then show ?case by (cases w) (auto simp: running_def2 ac_simps)
qed simp

lemma pool_inv_submit: "pool_inv fs p \<Longrightarrow> pool_inv (fs @ [f]) (submit f p)"
proof -
  assume inv: "pool_inv fs p"
  then obtain k where k: "k \<le> length fs" "global_worker_queue p = map Some (drop k fs)"
    "mset (take k fs) = mset (running (workers p)) + mset (finished p)" unfolding pool_inv_def by blast
  then show ?thesis using inv
    by (auto simp: pool_inv_def submit_def tq_push_def intro!: exI [of _ k])
qed

text \<open>The steps that are left when the local queues are empty.\<close>

lemma worker_step_empty:
  assumes "local_queues p = replicate NUM_THREADS []" "w < NUM_THREADS"
  shows "worker_step w p = (case workers p ! w of
      At_local \<Rightarrow> Some (p\<lparr>workers := (workers p)[w := At_global]\<rparr>)
    | At_global \<Rightarrow> (case global_worker_queue p of
          [] \<Rightarrow> Some (p\<lparr>workers := (workers p)[w := At_steal 0]\<rparr>)
        | task # q \<Rightarrow> Some (p\<lparr>global_worker_queue := q, workers := (workers p)[w := In_task task]\<rparr>))
    | At_steal i \<Rightarrow> Some (p\<lparr>workers := (workers p)[w := if i < NUM_THREADS then At_steal (Suc i) else At_local]\<rparr>)
    | In_task None \<Rightarrow> None
    | In_task (Some f) \<Rightarrow> Some (p\<lparr>workers := (workers p)[w := At_local], finished := finished p @ [f]\<rparr>))"
proof -
  have "ws_try_steal (replicate NUM_THREADS [] ! steal_index w i NUM_THREADS) = (None :: ('a wrapper \<times> 'a wrapper list) option)" for i
    by (simp add: ws_try_steal_def steal_index_def NUM_THREADS_def)
  moreover have "ws_try_pop (local_queues p ! w) = None"
    using assms by (simp add: ws_try_pop_def)
  ultimately show ?thesis
    by (cases "workers p ! w")
      (auto simp: worker_step_def Let_def assms tq_try_pop_def split: list.split option.split)
qed

lemma pool_inv_work:
  assumes inv: "pool_inv fs p" and w: "w < length (workers p)" and step: "worker_step w p = Some p'"
  shows "pool_inv fs p'"
proof -
  have lq: "local_queues p = replicate NUM_THREADS []" and len: "length (workers p) = NUM_THREADS"
    and ok: "In_task None \<notin> set (workers p)" using inv by (simp_all add: pool_inv_def)
  obtain k where k: "k \<le> length fs" "global_worker_queue p = map Some (drop k fs)"
    "mset (take k fs) = mset (running (workers p)) + mset (finished p)" using inv unfolding pool_inv_def by blast
  have wN: "w < NUM_THREADS" using w len by simp
  note st = step [unfolded worker_step_empty [OF lq wN]]
  have upd: "In_task None \<notin> set ((workers p)[w := pc])" if "pc \<noteq> In_task None" for pc
    using ok that set_update_subset_insert [of "workers p" w pc] by blast
  have run: "mset (running ((workers p)[w := pc])) + mset (task_list (workers p ! w)) = mset (running (workers p)) + mset (task_list pc)" for pc
    by (rule mset_running_update [OF w])
  have idle: "pool_inv fs (p\<lparr>workers := (workers p)[w := pc]\<rparr>)"
    if "task_list pc = []" "task_list (workers p ! w) = []" "pc \<noteq> In_task None" for pc
    using k run [of pc] that lq len upd [of pc] by (auto simp: pool_inv_def)
  show ?thesis
  proof (cases "workers p ! w")
    case At_local
    then show ?thesis using st idle [of At_global] by (simp add: task_list_def)
  next
    case At_global
    show ?thesis
    proof (cases "drop k fs")
      case Nil
      then show ?thesis using st At_global idle [of "At_steal 0"] k(2) by (simp add: task_list_def)
    next
      case (Cons f rest)
      then have kl: "k < length fs" and f: "f = fs ! k" and rest: "rest = drop (Suc k) fs"
        using Cons_nth_drop_Suc [of k fs] by (cases "k < length fs"; simp)+
      have p': "p' = p\<lparr>global_worker_queue := map Some rest, workers := (workers p)[w := In_task (Some f)]\<rparr>"
        using st At_global Cons k(2) by simp
      have "mset (take (Suc k) fs) = mset (running ((workers p)[w := In_task (Some f)])) + mset (finished p)"
        using run [of "In_task (Some f)"] k(3) At_global kl f by (simp add: task_list_def take_Suc_conv_app_nth)
      then show ?thesis using lq len upd [of "In_task (Some f)"] kl rest
        by (auto simp: pool_inv_def p' intro!: exI [of _ "Suc k"])
    qed
  next
    case (At_steal i)
    then show ?thesis using st idle [of "if i < NUM_THREADS then At_steal (Suc i) else At_local"]
      by (auto simp: task_list_def split: if_splits)
  next
    case (In_task t)
    then obtain f where f: "workers p ! w = In_task (Some f)" using ok w nth_mem [of w "workers p"] by (cases t) auto
    have p': "p' = p\<lparr>workers := (workers p)[w := At_local], finished := finished p @ [f]\<rparr>" using st f by simp
    have "mset (take k fs) = mset (running ((workers p)[w := At_local])) + mset (finished p @ [f])"
      using run [of At_local] k(3) f by (simp add: task_list_def)
    then show ?thesis using lq len upd [of At_local] k(1,2) by (auto simp: pool_inv_def p' intro!: exI [of _ k])
  qed
qed

lemma pool_run_inv: "pool_run fs p \<Longrightarrow> pool_inv fs p"
proof (induction rule: pool_run.induct)
  case start
  show ?case by (simp add: pool_inv_def pool_new_def running_def)
qed (auto intro: pool_inv_submit pool_inv_work)

section \<open>Schedules\<close>

text \<open>What happens to a pool, in any interleaving: a call of \<^verbatim>\<open>submit\<close> or a step of a worker. \<^verbatim>\<open>submit\<close> looks at the
  \<^verbatim>\<open>local_worker_queue\<close> of its thread: a worker that submits from inside a task pushes to its own queue. The
  steps of a task between its start and its end do not touch the pool and are not listed.\<close>

datatype 'a pool_action = Submit_from "nat option" 'a | Worker nat

definition submit_from :: "nat option \<Rightarrow> 'a \<Rightarrow> 'a pool \<Rightarrow> 'a pool" where
  "submit_from local_worker_queue f p =
    (case local_worker_queue of
       Some w \<Rightarrow> p\<lparr>local_queues := (local_queues p)[w := ws_push (Some f) (local_queues p ! w)]\<rparr>
     | None \<Rightarrow> submit f p)"

fun pool_act :: "'a pool_action \<Rightarrow> 'a pool \<Rightarrow> 'a pool option" where
  "pool_act (Submit_from t f) p = Some (submit_from t f p)"
| "pool_act (Worker w) p = worker_step w p"

fun pool_acts :: "'a pool_action list \<Rightarrow> 'a pool \<Rightarrow> 'a pool option" where
  "pool_acts [] p = Some p"
| "pool_acts (a # as) p = (case pool_act a p of None \<Rightarrow> None | Some p' \<Rightarrow> pool_acts as p')"

lemma pool_acts_append [simp]:
  "pool_acts (as @ bs) p = (case pool_acts as p of None \<Rightarrow> None | Some p' \<Rightarrow> pool_acts bs p')"
  by (induction as arbitrary: p) (simp_all split: option.split)

text \<open>The steps a worker still has to take, at most, when \<open>m\<close> tasks are queued and nobody helps it.\<close>

definition steps_left :: "nat \<Rightarrow> 'a worker_pc \<Rightarrow> nat" where
  "steps_left m pc = (case pc of
       In_task _ \<Rightarrow> 3 * m + 1
     | At_local \<Rightarrow> 3 * m
     | At_global \<Rightarrow> 3 * m - 1
     | At_steal i \<Rightarrow> if m = 0 then 0 else 3 * m + 1 + (NUM_THREADS - i))"

lemma steps_left_mono: "m \<le> n \<Longrightarrow> steps_left m pc \<le> steps_left n pc"
  by (auto simp: steps_left_def split: worker_pc.split)

lemma steps_left_bound: "steps_left m pc \<le> 3 * m + 4"
  by (auto simp: steps_left_def NUM_THREADS_def split: worker_pc.split)

lemma steps_left_0: "steps_left m pc = 0 \<Longrightarrow> m = 0 \<and> task_list pc = []"
  by (auto simp: steps_left_def task_list_def split: worker_pc.splits if_splits)

text \<open>A step of a worker brings it nearer to its end and no other worker further away.\<close>

lemma worker_step_steps_left:
  assumes inv: "pool_inv fs p" and w: "w < NUM_THREADS" and v: "v < NUM_THREADS" and step: "worker_step w p = Some p'"
  shows "steps_left (length (global_worker_queue p')) (workers p' ! v)
    \<le> steps_left (length (global_worker_queue p)) (workers p ! v) - (if v = w then 1 else 0)"
proof -
  have lq: "local_queues p = replicate NUM_THREADS []" and len: "length (workers p) = NUM_THREADS"
    using inv by (simp_all add: pool_inv_def)
  note st = step [unfolded worker_step_empty [OF lq w]]
  have fewer: "length (global_worker_queue p') \<le> length (global_worker_queue p)"
    using st by (auto split: worker_pc.splits list.splits option.splits)
  show ?thesis
  proof (cases "v = w")
    case True
    have e: "workers p ! v = pc \<Longrightarrow> worker_step w p = Some p' \<Longrightarrow> ?thesis" for pc
      using st w len True
      by (cases pc; cases "global_worker_queue p") (auto simp: steps_left_def split: option.splits)
    then show ?thesis using step by blast
  next
    case False
    then have "workers p' ! v = workers p ! v"
      using st by (auto split: worker_pc.splits list.splits option.splits)
    then show ?thesis using False steps_left_mono [OF fewer] by simp
  qed
qed

lemma pool_inv_step: "pool_inv fs p \<Longrightarrow> w < NUM_THREADS \<Longrightarrow> \<exists>p'. worker_step w p = Some p'"
proof -
  assume inv: "pool_inv fs p" and w: "w < NUM_THREADS"
  have len: "length (workers p) = NUM_THREADS" using inv by (simp add: pool_inv_def)
  then have "workers p ! w \<in> set (workers p)" using w by simp
  moreover have "In_task None \<notin> set (workers p)" using inv by (simp add: pool_inv_def)
  ultimately have "workers p ! w \<noteq> In_task None" by metis
  moreover have "local_queues p = replicate NUM_THREADS []" using inv by (simp add: pool_inv_def)
  ultimately show ?thesis using worker_step_empty [of p w] w
    by (cases "workers p ! w") (auto split: list.splits option.splits)
qed

lemma pool_acts_workers:
  assumes "pool_inv fs p" "set ws \<subseteq> {..<NUM_THREADS}"
  shows "\<exists>p'. pool_acts (map Worker ws) p = Some p' \<and> pool_inv fs p' \<and> (\<forall>v<NUM_THREADS.
    steps_left (length (global_worker_queue p')) (workers p' ! v)
      \<le> steps_left (length (global_worker_queue p)) (workers p ! v) - count_list ws v)"
  using assms
proof (induction ws arbitrary: p)
  case (Cons w ws)
  have w: "w < NUM_THREADS" using Cons.prems(2) by simp
  obtain q where q: "worker_step w p = Some q" using pool_inv_step [OF Cons.prems(1) w] by blast
  have "w < length (workers p)" using Cons.prems(1) w by (simp add: pool_inv_def)
  then have inv: "pool_inv fs q" using pool_inv_work Cons.prems(1) q by blast
  obtain p' where p': "pool_acts (map Worker ws) q = Some p'" "pool_inv fs p'"
    and left: "\<And>v. v < NUM_THREADS \<Longrightarrow> steps_left (length (global_worker_queue p')) (workers p' ! v)
      \<le> steps_left (length (global_worker_queue q)) (workers q ! v) - count_list ws v"
    using Cons.IH [OF inv] Cons.prems(2) by auto
  have "steps_left (length (global_worker_queue p')) (workers p' ! v)
      \<le> steps_left (length (global_worker_queue p)) (workers p ! v) - count_list (w # ws) v" if "v < NUM_THREADS" for v
    using left [OF that] worker_step_steps_left [OF Cons.prems(1) w that q] by (cases "v = w") auto
  then show ?case using q p' by simp
qed simp

lemma running_none: "(\<And>v. v < length pcs \<Longrightarrow> task_list (pcs ! v) = []) \<Longrightarrow> running pcs = []"
  by (auto simp: running_def2 in_set_conv_nth)

text \<open>What a task submits is stacked on the queue of its worker.\<close>

lemma nested_submits:
  "w < length (local_queues p) \<Longrightarrow> pool_acts (map (Submit_from (Some w)) fs) p
    = Some (p\<lparr>local_queues := (local_queues p)[w := map Some (rev fs) @ local_queues p ! w]\<rparr>)"
  by (induction fs arbitrary: p) (simp_all add: submit_from_def ws_push_def)

text \<open>A worker without work reaches the queue of worker \<open>w\<close> when it has found the others empty.\<close>

definition steps_to_steal :: "nat \<Rightarrow> nat \<Rightarrow> nat" where
  "steps_to_steal v w = 3 + (w + (NUM_THREADS - 1) - v) mod NUM_THREADS"

definition stealing_pool :: "nat \<Rightarrow> 'a worker_pc list \<Rightarrow> 'a wrapper list \<Rightarrow> 'a list \<Rightarrow> 'a pool" where
  "stealing_pool w pcs q fin = \<lparr>global_worker_queue = [], local_queues = (replicate NUM_THREADS [])[w := q],
     workers = pcs, finished = fin\<rparr>"

lemma two_workers:
  assumes "w < NUM_THREADS" "v < NUM_THREADS" "v \<noteq> w"
  shows "(w, v) \<in> {(0, 1), (0, 2), (1, 0), (1, 2), (2, 0), (2, 1)}"
  using assms by (auto simp: NUM_THREADS_def)

lemma nested_start:
  "w < NUM_THREADS \<Longrightarrow> pool_acts ([Submit_from None f, Worker w, Worker w] @ map (Submit_from (Some w)) fs @ as) pool_new
    = pool_acts as (stealing_pool w ((replicate NUM_THREADS At_local)[w := In_task (Some f)]) (map Some (rev fs)) [])"
  by (simp add: nested_submits pool_new_def submit_from_def submit_def worker_step_def tq_push_def tq_try_pop_def
      ws_try_pop_def stealing_pool_def)

text \<open>The steps of a worker whose own queue is empty, while worker \<open>w\<close> has queue \<open>q\<close>.\<close>

lemma thief_step:
  assumes "v < NUM_THREADS" "v \<noteq> w" "length pcs = NUM_THREADS"
  shows "pcs ! v = At_local \<Longrightarrow> worker_step v (stealing_pool w pcs q fin) = Some (stealing_pool w (pcs[v := At_global]) q fin)"
    and "pcs ! v = At_global \<Longrightarrow> worker_step v (stealing_pool w pcs q fin) = Some (stealing_pool w (pcs[v := At_steal 0]) q fin)"
    and "pcs ! v = At_steal i \<Longrightarrow> i < NUM_THREADS \<Longrightarrow> steal_index v i NUM_THREADS \<noteq> w \<Longrightarrow>
      worker_step v (stealing_pool w pcs q fin) = Some (stealing_pool w (pcs[v := At_steal (Suc i)]) q fin)"
    and "pcs ! v = At_steal i \<Longrightarrow> i < NUM_THREADS \<Longrightarrow> steal_index v i NUM_THREADS = w \<Longrightarrow> ws_try_steal q = Some (task, q') \<Longrightarrow>
      worker_step v (stealing_pool w pcs q fin) = Some (stealing_pool w (pcs[v := In_task task]) q' fin)"
proof -
  have e: "steal_index v i NUM_THREADS < NUM_THREADS" for i by (simp add: steal_index_def NUM_THREADS_def)
  show "pcs ! v = At_local \<Longrightarrow> worker_step v (stealing_pool w pcs q fin) = Some (stealing_pool w (pcs[v := At_global]) q fin)"
    "pcs ! v = At_global \<Longrightarrow> worker_step v (stealing_pool w pcs q fin) = Some (stealing_pool w (pcs[v := At_steal 0]) q fin)"
    using assms by (simp_all add: stealing_pool_def worker_step_def ws_try_pop_def tq_try_pop_def)
  show "pcs ! v = At_steal i \<Longrightarrow> i < NUM_THREADS \<Longrightarrow> steal_index v i NUM_THREADS \<noteq> w \<Longrightarrow>
      worker_step v (stealing_pool w pcs q fin) = Some (stealing_pool w (pcs[v := At_steal (Suc i)]) q fin)"
    using e [of i] by (simp add: stealing_pool_def worker_step_def ws_try_steal_def)
  show "pcs ! v = At_steal i \<Longrightarrow> i < NUM_THREADS \<Longrightarrow> steal_index v i NUM_THREADS = w \<Longrightarrow> ws_try_steal q = Some (task, q') \<Longrightarrow>
      worker_step v (stealing_pool w pcs q fin) = Some (stealing_pool w (pcs[v := In_task task]) q' fin)"
    using e [of i] by (auto simp: stealing_pool_def worker_step_def)
qed

lemma thief_steals:
  assumes "w < NUM_THREADS" "v < NUM_THREADS" "v \<noteq> w" "ws_try_steal q = Some (task, q')"
    and "length pcs = NUM_THREADS" "pcs ! v = At_local"
  shows "pool_acts (replicate (steps_to_steal v w) (Worker v) @ as) (stealing_pool w pcs q fin)
    = pool_acts as (stealing_pool w (pcs[v := In_task task]) q' fin)"
proof -
  note st = thief_step [OF assms(2,3)]
  have v: "v < length pcs" using assms by simp
  show ?thesis
  proof (cases "steal_index v 0 NUM_THREADS = w")
    case True
    then have "steps_to_steal v w = 3" using two_workers [OF assms(1-3)]
      by (elim insertE emptyE) (simp_all add: steal_index_def steps_to_steal_def NUM_THREADS_def)
    then show ?thesis using assms v True
      by (simp add: numeral_3_eq_3 st(1) st(2) st(4) [where task = task and q' = q'] NUM_THREADS_def)
  next
    case False
    then have "steps_to_steal v w = Suc 3" "steal_index v 1 NUM_THREADS = w" using two_workers [OF assms(1-3)]
      by (elim insertE emptyE; simp add: steal_index_def steps_to_steal_def NUM_THREADS_def)+
    then show ?thesis using assms v False
      by (simp add: numeral_3_eq_3 st(1) st(2) st(3) st(4) [where task = task and q' = q'] NUM_THREADS_def)
  qed
qed

section \<open>Results\<close>

text \<open>Asking a scheduler for all its results, through the reader.\<close>

fun read_all :: "nat \<Rightarrow> scheduler \<Rightarrow> (rat list \<times> scheduler) option" where
  "read_all 0 s = Some ([], s)"
| "read_all (Suc n) s = (case reader_Next s of
      Some (Inr (r, s')) \<Rightarrow> (case read_all n s' of Some (rs, s'') \<Rightarrow> Some (r # rs, s'') | None \<Rightarrow> None)
    | _ \<Rightarrow> None)"

lemma read_all_results:
  "sch_submitted s \<Longrightarrow> sch_results s = xs @ ys \<Longrightarrow> read_all (length xs) s = Some (xs, s\<lparr>sch_results := ys\<rparr>)"
proof (induction xs arbitrary: s)
  case (Cons x xs)
  let ?s = "s\<lparr>sch_results := xs @ ys\<rparr>"
  have "reader_Next s = Some (Inr (x, ?s))"
    using Cons.prems by (simp add: reader_Next_def wrapper_Next_def wrapper_hasNext_def scheduler_hasNext_def scheduler_Next_def)
  moreover have "read_all (length xs) ?s = Some (xs, ?s\<lparr>sch_results := ys\<rparr>)" by (rule Cons.IH) (use Cons.prems in simp_all)
  ultimately show ?case by simp
qed simp

section \<open>Properties\<close>

text \<open>C18: the pool loses no task and runs none twice. After any history, the queue holds the last tasks submitted, in order,
  the ones before them are running or finished, each exactly once, and no worker ever calls an empty wrapper.\<close>

theorem tasks_run_once:
  assumes "pool_run fs p"
  shows "\<exists>k\<le>length fs. global_worker_queue p = map Some (drop k fs)
    \<and> mset (take k fs) = mset (running (workers p)) + mset (finished p)
    \<and> (\<forall>w<length (workers p). worker_step w p \<noteq> None)"
proof -
  have inv: "pool_inv fs p" by (rule pool_run_inv [OF assms])
  have "worker_step w p \<noteq> None" if "w < length (workers p)" for w
  proof -
    have "workers p ! w \<noteq> In_task None" using inv nth_mem [OF that] by (auto simp: pool_inv_def)
    moreover have "local_queues p = replicate NUM_THREADS []" "w < NUM_THREADS" using inv that by (simp_all add: pool_inv_def)
    ultimately show ?thesis using worker_step_empty [of p w]
      by (auto split: worker_pc.splits list.splits option.splits)
  qed
  then show ?thesis using inv unfolding pool_inv_def by blast
qed

lemma example_pool_run: "pool_run [7 :: nat] (submit 7 pool_new)"
  using pool_run.submitted [OF pool_run.start, of 7] by simp

lemma tasks_run_once_witness: "worker_step 2 (submit (7 :: nat) pool_new) \<noteq> None"
  using tasks_run_once [OF example_pool_run] by (auto simp: submit_def pool_new_def NUM_THREADS_def)

text \<open>C26: progress under every interleaving. From any state the pool can be in, take any schedule of its workers, with \<open>n\<close>
  tasks queued at its start. A step is one operation on a queue or the end of a task; what a task does in between does not count,
  and tasks are taken to end. No worker crashes; a single worker that gets \<open>3 n + 4\<close> steps is enough to empty the global
  queue, however slow or fast the others are; and when every worker gets as many, all tasks ever submitted have ended, each
  exactly once.\<close>

theorem worker_progress:
  assumes "pool_run fs p" "set ws \<subseteq> {..<NUM_THREADS}"
  defines "enough \<equiv> 3 * length (global_worker_queue p) + 4"
  shows "\<exists>p'. pool_acts (map Worker ws) p = Some p'
    \<and> (\<forall>w<NUM_THREADS. enough \<le> count_list ws w \<longrightarrow> global_worker_queue p' = [] \<and> task_list (workers p' ! w) = [])
    \<and> ((\<forall>w<NUM_THREADS. enough \<le> count_list ws w) \<longrightarrow> running (workers p') = [] \<and> mset (finished p') = mset fs)"
proof -
  obtain p' where p': "pool_acts (map Worker ws) p = Some p'" and inv: "pool_inv fs p'"
    and left: "\<And>v. v < NUM_THREADS \<Longrightarrow> steps_left (length (global_worker_queue p')) (workers p' ! v)
      \<le> steps_left (length (global_worker_queue p)) (workers p ! v) - count_list ws v"
    using pool_acts_workers [OF pool_run_inv [OF assms(1)] assms(2)] by blast
  have idle: "global_worker_queue p' = [] \<and> task_list (workers p' ! w) = []" if "w < NUM_THREADS" "enough \<le> count_list ws w" for w
  proof -
    have "steps_left (length (global_worker_queue p')) (workers p' ! w) = 0"
      using left [OF that(1)] steps_left_bound [of "length (global_worker_queue p)" "workers p ! w"] that(2)
      by (simp add: enough_def)
    then show ?thesis using steps_left_0 [of "length (global_worker_queue p')" "workers p' ! w"] by simp
  qed
  moreover have "running (workers p') = [] \<and> mset (finished p') = mset fs" if all: "\<forall>w<NUM_THREADS. enough \<le> count_list ws w"
  proof -
    have "global_worker_queue p' = []" using idle [of 0] all by (simp add: NUM_THREADS_def)
    moreover have none: "running (workers p') = []"
      using idle all inv by (intro running_none) (simp add: pool_inv_def)
    ultimately show ?thesis using inv by (auto simp: pool_inv_def)
  qed
  ultimately show ?thesis using p' by blast
qed

lemma example_pool_run_2: "pool_run [7, 8 :: nat] (submit 8 (submit 7 pool_new))"
  using pool_run.submitted [OF example_pool_run, of 8] by simp

lemma worker_progress_witness:
  "\<exists>p'. pool_acts (map Worker (concat (replicate 10 [2, 0, 1]))) (submit 8 (submit (7 :: nat) pool_new)) = Some p'
    \<and> mset (finished p') = {#7, 8#}"
proof -
  have q: "length (global_worker_queue (submit 8 (submit (7 :: nat) pool_new))) = 2"
    by (simp add: submit_def pool_new_def tq_push_def)
  have "\<forall>w<NUM_THREADS. 10 \<le> count_list (concat (replicate 10 [2, 0, 1])) w"
    by (simp add: NUM_THREADS_def numeral_eq_Suc less_Suc_eq)
  then show ?thesis
    using worker_progress [OF example_pool_run_2, of "concat (replicate 10 [2, 0, 1])"]
    by (auto simp: q NUM_THREADS_def)
qed

text \<open>C40: stealing loses tasks, as soon as a task submits tasks of its own, which no task of \<^verbatim>\<open>Submit\<close> does but
  \<^verbatim>\<open>ThreadPool::submit\<close> provides for. A task \<open>f\<close> on worker \<open>w\<close> submits two or more
  tasks, which go to the queue of \<open>w\<close>, and then another worker \<open>v\<close> runs out of work. It takes the task at the front and the
  queue drops the one at the back: the first task submitted by \<open>f\<close> is neither queued nor running nor finished, and an empty
  wrapper stays at the front, which \<open>w\<close> pops after \<open>f\<close> and calls, which crashes.\<close>

theorem steal_loses_task:
  assumes "w < NUM_THREADS" "v < NUM_THREADS" "v \<noteq> w"
  shows "\<exists>p. pool_acts ([Submit_from None f, Worker w, Worker w] @ map (Submit_from (Some w)) (first # others @ [back])
        @ replicate (steps_to_steal v w) (Worker v) @ [Worker w, Worker w]) pool_new = Some p
    \<and> mset (running (workers p)) + mset (finished p) = {#f, back#}
    \<and> global_worker_queue p = [] \<and> local_queues p = (replicate NUM_THREADS [])[w := map Some (rev others)]
    \<and> worker_step w p = None"
proof -
  let ?pcs = "(replicate NUM_THREADS At_local)[w := In_task (Some f)]"
  let ?q = "map Some (rev (first # others @ [back]))"
  let ?p = "stealing_pool w ((replicate NUM_THREADS At_local)[w := In_task None, v := In_task (Some back)])
    (map Some (rev others)) [f]"
  have "ws_try_steal ?q = Some (Some back, None # map Some (rev others))"
    by (simp add: ws_try_steal_def butlast_append)
  note steal = thief_steals [OF assms this, of ?pcs _ "[]"]
  have last: "pool_acts [Worker w, Worker w] (stealing_pool w (?pcs[v := In_task (Some back)]) (None # map Some (rev others)) []) = Some ?p"
    using assms by (simp add: stealing_pool_def worker_step_def ws_try_pop_def list_update_swap)
  have run: "pool_acts ([Submit_from None f, Worker w, Worker w] @ map (Submit_from (Some w)) (first # others @ [back])
      @ replicate (steps_to_steal v w) (Worker v) @ [Worker w, Worker w]) pool_new = Some ?p"
    using assms unfolding nested_start [OF assms(1)] by (subst steal) (simp_all add: last del: pool_acts.simps)
  have tasks: "mset (running (workers ?p)) + mset (finished ?p) = {#f, back#}"
    using two_workers [OF assms]
    by (elim insertE emptyE) (simp_all add: stealing_pool_def running_def NUM_THREADS_def numeral_eq_Suc)
  have crash: "worker_step w ?p = None" using assms by (simp add: stealing_pool_def worker_step_def)
  show ?thesis using run tasks crash by (intro exI [of _ ?p] conjI) (simp_all add: stealing_pool_def del: pool_acts.simps)
qed

lemma steal_loses_task_witness:
  "\<exists>p. pool_acts ([Submit_from None 1, Worker 0, Worker 0] @ map (Submit_from (Some 0)) [2, 3, 4 :: nat]
      @ replicate (steps_to_steal 2 0) (Worker 2) @ [Worker 0, Worker 0]) pool_new = Some p
    \<and> mset (running (workers p)) + mset (finished p) = {#1, 4#} \<and> worker_step 0 p = None"
  using steal_loses_task [of 0 2 "1 :: nat" 2 "[3]" 4] by (auto simp: NUM_THREADS_def simp del: pool_acts.simps One_nat_def)

text \<open>C24: the results come back in the order of the chunks, however the pool ordered the tasks: after Submit of \<open>n\<close> chunks
  to a fresh scheduler, \<open>n\<close> calls of Next give the values of the futures in order, then there is no next result and one more
  call never returns. Before Submit, Next never returns.\<close>

theorem results_in_chunk_order:
  fixes n :: nat and future :: "nat \<Rightarrow> rat"
  defines "s \<equiv> snd (scheduler_Submit n future scheduler_new)"
  shows "(\<exists>s'. read_all n s = Some (map future [0..<n], s') \<and> \<not> reader_hasNext s' \<and> reader_Next s' = None)
    \<and> reader_Next scheduler_new = None \<and> (\<forall>i<n. \<exists>s'. read_all i s = Some (map future [0..<i], s') \<and> reader_hasNext s')"
proof -
  have s: "sch_submitted s" "sch_results s = map future [0..<n]" by (simp_all add: s_def scheduler_Submit_def scheduler_new_def)
  have all: "read_all i s = Some (map future [0..<i], s\<lparr>sch_results := map future [i..<n]\<rparr>)" if "i \<le> n" for i
    using read_all_results [of s "map future [0..<i]" "map future [i..<n]"] s that
      upt_add_eq_append [of 0 i "n - i"]
    by (simp flip: map_append)
  have "read_all i s = Some (map future [0..<i], s\<lparr>sch_results := map future [i..<n]\<rparr>)
      \<and> reader_hasNext (s\<lparr>sch_results := map future [i..<n]\<rparr>)" if "i < n" for i
    using all that s(1) by (simp add: reader_hasNext_def wrapper_hasNext_def scheduler_hasNext_def)
  moreover have "reader_Next scheduler_new = None"
    by (simp add: reader_Next_def wrapper_hasNext_def scheduler_hasNext_def scheduler_new_def)
  moreover have "\<not> reader_hasNext (s\<lparr>sch_results := []\<rparr>)" "reader_Next (s\<lparr>sch_results := []\<rparr>) = None"
    by (simp_all add: reader_hasNext_def reader_Next_def wrapper_hasNext_def scheduler_hasNext_def)
  ultimately show ?thesis using all [of n] by auto
qed

lemma results_in_chunk_order_witness:
  "\<exists>s'. read_all 2 (snd (scheduler_Submit 3 of_nat scheduler_new)) = Some ([0, 1], s') \<and> reader_hasNext s'"
proof -
  have "\<forall>i<3. \<exists>s'. read_all i (snd (scheduler_Submit 3 of_nat scheduler_new)) = Some (map of_nat [0..<i], s') \<and> reader_hasNext s'"
    using results_in_chunk_order [of 3 of_nat] by blast
  then have "\<exists>s'. read_all 2 (snd (scheduler_Submit 3 of_nat scheduler_new)) = Some (map of_nat [0..<2], s') \<and> reader_hasNext s'"
    by (rule allE [of _ 2]) simp
  then show ?thesis by (simp add: upt_rec)
qed

end
