(* ===== verification/Parquet_Regs.thy ===== *)
theory Parquet_Regs
  imports Task_Pool
begin

text \<open>
  From a Parquet file to the arguments of the hardware: \<^verbatim>\<open>FileReader.h\<close>, \<^verbatim>\<open>FileReader.cpp\<close> and
  \<^verbatim>\<open>JNIFletcherParquetReader.cpp\<close>. The Parquet library is a parameter, which gives the metadata of a file;
  so is the allocator, which gives an address, zero when it fails. Of an allocated buffer the model keeps
  the bytes that were read into it. Printing is left out.
\<close>

section \<open>Input streams\<close>

record stream =
  s_bytes :: "u8 list"
  s_pos :: nat
  s_fail :: bool

definition open_stream :: "(string \<Rightarrow> u8 list option) \<Rightarrow> string \<Rightarrow> stream" where
  "open_stream files path = (case files path of
      Some bytes \<Rightarrow> \<lparr>s_bytes = bytes, s_pos = 0, s_fail = False\<rparr>
    | None \<Rightarrow> \<lparr>s_bytes = [], s_pos = 0, s_fail = True\<rparr>)"

text \<open>Seeking from the start: nothing happens to a stream that has failed, and a negative position fails.\<close>

definition seekg :: "int \<Rightarrow> stream \<Rightarrow> stream" where
  "seekg off s = (if s_fail s then s else if off < 0 then s\<lparr>s_fail := True\<rparr> else s\<lparr>s_pos := nat off\<rparr>)"

text \<open>\<^verbatim>\<open>read\<close>: fewer bytes than asked for also set the fail bit.\<close>

definition stream_read :: "nat \<Rightarrow> stream \<Rightarrow> u8 list \<times> stream" where
  "stream_read n s =
    (if s_fail s then ([], s)
     else let got = take n (drop (s_pos s) (s_bytes s))
          in (got, s\<lparr>s_pos := s_pos s + length got, s_fail := length got < n\<rparr>))"

text \<open>The end of the stream, and its position there or -1.\<close>

definition file_size_of :: "stream \<Rightarrow> int \<times> stream" where
  "file_size_of s = (if s_fail s then (- 1, s) else (int (length (s_bytes s)), s\<lparr>s_pos := length (s_bytes s)\<rparr>))"

section \<open>Reading a column chunk\<close>

type_synonym 'h allocator = "u64 \<Rightarrow> 'h \<Rightarrow> u64 \<times> 'h"

text \<open>The offset is a 32-bit \<^verbatim>\<open>int\<close>. Writing to the null pointer or past the buffer has no defined behaviour.\<close>

definition read_file ::
    "'h allocator \<Rightarrow> u32 \<Rightarrow> u64 \<Rightarrow> u64 \<Rightarrow> stream \<Rightarrow> 'h \<Rightarrow> ((u64 \<times> u8 list) \<times> stream \<times> 'h) res" where
  "read_file alloc offset n buffer_size s h =
    (let (data, h') = alloc buffer_size h;
         s1 = seekg (sint offset) s;
         (got, s2) = stream_read (unat n) s1
     in if got \<noteq> [] \<and> (data = 0 \<or> unat buffer_size < length got) then Inl Undefined
        else Inr ((data, got), s2, h'))"

text \<open>The division is one of integers, so rounding up does nothing; the product is one of doubles, exact as
  the width is a power of two, and a result of 2 to the 64 or more does not fit.\<close>

definition padded_size :: "u64 \<Rightarrow> u64 \<Rightarrow> u64 res" where
  "padded_size n type_width =
    (let v = round53 (unat ((n + type_width) div type_width)) * unat type_width
     in if v < 2 ^ 64 then Inr (of_nat v) else Inl Undefined)"

datatype parquet_type = PQ_DOUBLE | PQ_OTHER string

record chunk_meta =
  cm_type :: parquet_type
  cm_file_offset :: u64
  cm_total_uncompressed_size :: u64
  cm_num_values :: u64

text \<open>The arguments of a column and the contents of its buffer.\<close>

type_synonym filled_regs = "ptoa_regs \<times> u8 list"

definition parseRegs :: "'h allocator \<Rightarrow> chunk_meta \<Rightarrow> stream \<Rightarrow> 'h \<Rightarrow> (filled_regs \<times> stream \<times> 'h) res" where
  "parseRegs alloc chunk_meta s h =
    (let type_width = (if cm_type chunk_meta = PQ_DOUBLE then 64 else 32);
         fpo = cm_file_offset chunk_meta in
     res_bind (padded_size (cm_total_uncompressed_size chunk_meta) type_width) (\<lambda>buffer_size.
     res_bind (read_file alloc (ucast fpo) (cm_total_uncompressed_size chunk_meta) buffer_size s h)
       (\<lambda>((device_addr, got), s', h').
     Inr ((\<lparr>num_val = cm_num_values chunk_meta, max_size = buffer_size, device_parquet_address = device_addr\<rparr>, got),
          s', h'))))"

section \<open>The file reader\<close>

record parquet_file =
  pq_columns :: "string list"
  pq_row_groups :: "chunk_meta list list"

record file_reader =
  fr_stream :: stream
  fr_columns :: "string list option"
  fr_row_groups :: "chunk_meta list list"

definition input_schema :: "string list" where
  "input_schema = [''l_extendedprice'', ''l_discount'', ''l_quantity'', ''l_shipdate'']"

text \<open>The columns are those of the last row group; without row groups the pointer to them is not set.\<close>

definition OpenAndParse ::
    "(string \<Rightarrow> u8 list option) \<Rightarrow> (string \<Rightarrow> parquet_file res) \<Rightarrow> string \<Rightarrow> file_reader res" where
  "OpenAndParse files parquet path =
    res_bind (parquet path) (\<lambda>f. Inr
      \<lparr>fr_stream = snd (file_size_of (open_stream files path)),
       fr_columns = (if pq_row_groups f = [] then None else Some (pq_columns f)),
       fr_row_groups = pq_row_groups f\<rparr>)"

fun column_index :: "string list \<Rightarrow> string \<Rightarrow> int" where
  "column_index [] col = - 1"
| "column_index (c # cs) col = (if c = col then 0 else let i = column_index cs col in if i < 0 then - 1 else i + 1)"

text \<open>The library throws on an index out of range.\<close>

definition ColumnChunk :: "chunk_meta list \<Rightarrow> int \<Rightarrow> chunk_meta res" where
  "ColumnChunk r i = (if 0 \<le> i \<and> i < int (length r) then Inr (r ! nat i) else Inl Runtime_error)"

definition selected_indexes :: "file_reader \<Rightarrow> int list res" where
  "selected_indexes fr = (case fr_columns fr of
      None \<Rightarrow> Inl Undefined
    | Some cols \<Rightarrow> Inr (map (column_index cols) input_schema))"

fun read_columns ::
    "'h allocator \<Rightarrow> chunk_meta list \<Rightarrow> int list \<Rightarrow> stream \<Rightarrow> 'h \<Rightarrow> (filled_regs list \<times> stream \<times> 'h) res" where
  "read_columns alloc r [] s h = Inr ([], s, h)"
| "read_columns alloc r (i # is) s h =
    res_bind (ColumnChunk r i) (\<lambda>cm.
    res_bind (parseRegs alloc cm s h) (\<lambda>(c, s1, h1).
    res_bind (read_columns alloc r is s1 h1) (\<lambda>(cs, s2, h2). Inr (c # cs, s2, h2))))"

fun read_groups ::
    "'h allocator \<Rightarrow> chunk_meta list list \<Rightarrow> int list \<Rightarrow> stream \<Rightarrow> 'h \<Rightarrow> (filled_regs list list \<times> stream \<times> 'h) res" where
  "read_groups alloc [] is s h = Inr ([], s, h)"
| "read_groups alloc (r # rs) is s h =
    res_bind (read_columns alloc r is s h) (\<lambda>(c, s1, h1).
    res_bind (read_groups alloc rs is s1 h1) (\<lambda>(cs, s2, h2). Inr (c # cs, s2, h2)))"

text \<open>The variant that fills the caller's arrays, in the order of row groups and columns.\<close>

definition readChunks_into ::
    "'h allocator \<Rightarrow> file_reader \<Rightarrow> 'h \<Rightarrow> (filled_regs list list \<times> file_reader \<times> 'h) res" where
  "readChunks_into alloc fr h =
    res_bind (selected_indexes fr) (\<lambda>is.
    res_bind (read_groups alloc (fr_row_groups fr) is (fr_stream fr) h) (\<lambda>(gs, s, h').
    Inr (gs, fr\<lparr>fr_stream := s\<rparr>, h')))"

text \<open>The variant that returns a vector: it starts with as many elements as there are row groups and
  the row groups are appended.\<close>

definition readChunks ::
    "'h allocator \<Rightarrow> file_reader \<Rightarrow> 'h \<Rightarrow> (filled_regs list list \<times> file_reader \<times> 'h) res" where
  "readChunks alloc fr h =
    (let chunks_r = replicate (length (fr_row_groups fr)) [] in
     res_bind (selected_indexes fr) (\<lambda>is.
     res_bind (read_groups alloc (fr_row_groups fr) is (fr_stream fr) h) (\<lambda>(gs, s, h').
     Inr (chunks_r @ gs, fr\<lparr>fr_stream := s\<rparr>, h'))))"

section \<open>The arguments from Java\<close>

text \<open>Offset, size and number of values of the row groups, for one column.\<close>

record jni_column =
  jc_offset :: "u64 list"
  jc_size :: "u64 list"
  jc_val :: "u64 list"

definition arr_at :: "'a list \<Rightarrow> nat \<Rightarrow> 'a res" where
  "arr_at xs i = (if i < length xs then Inr (xs ! i) else Inl Undefined)"

definition jni_column_regs ::
    "'h allocator \<Rightarrow> u64 \<Rightarrow> jni_column \<Rightarrow> nat \<Rightarrow> stream \<Rightarrow> 'h \<Rightarrow> (filled_regs \<times> stream \<times> 'h) res" where
  "jni_column_regs alloc width col i s h =
    res_bind (arr_at (jc_size col) i) (\<lambda>sz.
    res_bind (padded_size sz width) (\<lambda>buffer_size.
    res_bind (arr_at (jc_val col) i) (\<lambda>val.
    res_bind (arr_at (jc_offset col) i) (\<lambda>off.
    res_bind (read_file alloc (ucast off) sz buffer_size s h) (\<lambda>((addr, got), s', h').
    Inr ((\<lparr>num_val = val, max_size = buffer_size, device_parquet_address = addr\<rparr>, got), s', h'))))))"

text \<open>Extended price, discount, quantity and ship date, each with its width.\<close>

type_synonym jni_columns = "(u64 \<times> jni_column) list"

definition jni_columns_of :: "jni_column \<Rightarrow> jni_column \<Rightarrow> jni_column \<Rightarrow> jni_column \<Rightarrow> jni_columns" where
  "jni_columns_of ext disc quant ship = [(64, ext), (64, disc), (64, quant), (32, ship)]"

fun jni_group :: "'h allocator \<Rightarrow> jni_columns \<Rightarrow> nat \<Rightarrow> stream \<Rightarrow> 'h \<Rightarrow> (filled_regs list \<times> stream \<times> 'h) res" where
  "jni_group alloc [] i s h = Inr ([], s, h)"
| "jni_group alloc ((width, col) # cols) i s h =
    res_bind (jni_column_regs alloc width col i s h) (\<lambda>(r, s1, h1).
    res_bind (jni_group alloc cols i s1 h1) (\<lambda>(rs, s2, h2). Inr (r # rs, s2, h2)))"

fun jni_groups :: "'h allocator \<Rightarrow> jni_columns \<Rightarrow> nat \<Rightarrow> nat \<Rightarrow> stream \<Rightarrow> 'h \<Rightarrow> (filled_regs list list \<times> stream \<times> 'h) res" where
  "jni_groups alloc cols i 0 s h = Inr ([], s, h)"
| "jni_groups alloc cols i (Suc n) s h =
    res_bind (jni_group alloc cols i s h) (\<lambda>(g, s1, h1).
    res_bind (jni_groups alloc cols (Suc i) n s1 h1) (\<lambda>(gs, s2, h2). Inr (g # gs, s2, h2)))"

text \<open>The row groups are submitted and their results wait in the scheduler. \<open>future\<close> gives the
  result of the row group with these arguments.\<close>

definition initFletcherParquetReaderIterator ::
    "(string \<Rightarrow> u8 list option) \<Rightarrow> 'h allocator \<Rightarrow> (ptoa_regs list \<Rightarrow> rat) \<Rightarrow> scheduler \<Rightarrow> string \<Rightarrow>
     jni_column \<Rightarrow> jni_column \<Rightarrow> jni_column \<Rightarrow> jni_column \<Rightarrow> 'h \<Rightarrow> (filled_regs list list \<times> scheduler \<times> 'h) res" where
  "initFletcherParquetReaderIterator files alloc future sch file_name ext disc quant ship h =
    (let group_length = length (jc_offset ext) in
     res_bind (jni_groups alloc (jni_columns_of ext disc quant ship) 0 group_length (open_stream files file_name) h)
       (\<lambda>(regs, _, h').
     res_bind (FletcherParquetReader_new group_length (\<lambda>i. future (map fst (regs ! i))) sch) (\<lambda>sch'.
     Inr (regs, sch', h'))))"

section \<open>Lemmas\<close>

lemma padded_size_exact:
  assumes "unat n < 2 ^ 53" "w = 32 \<or> w = 64"
  shows "padded_size n w = Inr (of_nat ((unat n div unat w + 1) * unat w))"
    and "(unat n div unat w + 1) * unat w < 2 ^ 54"
proof -
  have w: "unat w = 32 \<or> unat w = 64" using assms(2) by auto
  have q: "unat ((n + w) div w) = unat n div unat w + 1"
  proof -
    have "unat (n + w) = unat n + unat w" using assms(1) w by (subst unat_add_lem [THEN iffD1]) auto
    then show ?thesis using w by (auto simp: unat_div_distrib)
  qed
  have m: "unat n div unat w * unat w \<le> unat n" by simp
  have "unat n div unat w \<le> unat n div 32" using w by auto
  then have "unat n div unat w + 1 < 2 ^ 53" using assms(1) by (auto intro: le_less_trans [of _ "unat n div 32 + 1"])
  then have r: "round53 (unat n div unat w + 1) = unat n div unat w + 1" by (rule round53_exact)
  show bound: "(unat n div unat w + 1) * unat w < 2 ^ 54" using m assms(1) w by (auto simp: algebra_simps)
  show "padded_size n w = Inr (of_nat ((unat n div unat w + 1) * unat w))"
  proof -
    have "(unat n div unat w + 1) * unat w < 2 ^ 64" using bound by simp
    then show ?thesis by (simp only: padded_size_def Let_def q r if_True)
  qed
qed

lemma padded_size_bounds:
  assumes "unat n < 2 ^ 53" "w = 32 \<or> w = 64"
  obtains b where "padded_size n w = Inr b" "unat n < unat b" "unat b \<le> unat n + unat w" "unat w dvd unat b"
proof
  let ?v = "(unat n div unat w + 1) * unat w"
  have v: "unat (of_nat ?v :: u64) = ?v" using padded_size_exact(2) [OF assms] by (intro unat_of_nat_small) simp
  have w: "unat w = 32 \<or> unat w = 64" using assms(2) by auto
  show "padded_size n w = Inr (of_nat ?v)" by (rule padded_size_exact(1) [OF assms])
  show "unat n < unat (of_nat ?v :: u64)" unfolding v using w by auto
  show "unat (of_nat ?v :: u64) \<le> unat n + unat w" unfolding v using w by auto
  show "unat w dvd unat (of_nat ?v :: u64)" unfolding v by simp
qed

text \<open>A read that stays within the file and below two gigabytes.\<close>

definition chunk_ok :: "u8 list \<Rightarrow> u64 \<Rightarrow> u64 \<Rightarrow> bool" where
  "chunk_ok bytes off n \<longleftrightarrow> unat off < 2 ^ 31 \<and> unat off + unat n \<le> length bytes \<and> unat n < 2 ^ 53"

lemma sint_cut: "unat off < 2 ^ 31 \<Longrightarrow> sint (ucast (off :: u64) :: u32) = int (unat off)"
proof -
  assume off: "unat off < 2 ^ 31"
  then have "unat (ucast off :: u32) = unat off" by (simp add: take_bit_nat_eq_self unsigned_ucast_eq)
  then show ?thesis using off by (simp add: sint_small)
qed

lemma sint_negative: "2 ^ 31 \<le> unat w \<Longrightarrow> sint (w :: u32) < 0"
proof (rule ccontr)
  assume w: "2 ^ 31 \<le> unat w" and "\<not> sint w < 0"
  then have "0 \<le> sint w" "sint w < 2 ^ 31" using sint_lt [of w] by simp_all
  then have "take_bit 32 (sint w) = sint w" by (intro take_bit_int_eq_self) simp_all
  then have "uint w = sint w" using uint_sint [of w] by simp
  then have "nat (uint w) < 2 ^ 31" using \<open>sint w < 2 ^ 31\<close> by (simp add: nat_less_iff)
  then show False using w by simp
qed

lemma read_file_ok:
  assumes "chunk_ok (s_bytes s) off n" "\<not> s_fail s" "unat n \<le> unat buffer_size" "fst (alloc buffer_size h) \<noteq> 0"
  shows "\<exists>s'. read_file alloc (ucast off) n buffer_size s h =
      Inr ((fst (alloc buffer_size h), take (unat n) (drop (unat off) (s_bytes s))), s', snd (alloc buffer_size h))
    \<and> \<not> s_fail s' \<and> s_bytes s' = s_bytes s"
  using assms by (auto simp: read_file_def seekg_def stream_read_def chunk_ok_def sint_cut Let_def split: prod.splits)

lemma jni_column_regs_ok:
  assumes "i < length (jc_size col)" "i < length (jc_val col)" "i < length (jc_offset col)" "width = 32 \<or> width = 64"
    "chunk_ok (s_bytes s) (jc_offset col ! i) (jc_size col ! i)" "\<not> s_fail s" "\<forall>n h. fst (alloc n h) \<noteq> 0"
  shows "\<exists>r got s' h'. jni_column_regs alloc width col i s h = Inr ((r, got), s', h') \<and> \<not> s_fail s' \<and> s_bytes s' = s_bytes s
    \<and> num_val r = jc_val col ! i \<and> got = take (unat (jc_size col ! i)) (drop (unat (jc_offset col ! i)) (s_bytes s))
    \<and> unat (jc_size col ! i) < unat (max_size r) \<and> unat (max_size r) \<le> unat (jc_size col ! i) + unat width
    \<and> device_parquet_address r \<noteq> 0"
proof -
  have "unat (jc_size col ! i) < 2 ^ 53" using assms(5) by (simp add: chunk_ok_def)
  from padded_size_bounds [OF this assms(4)] obtain b where b: "padded_size (jc_size col ! i) width = Inr b"
    "unat (jc_size col ! i) < unat b" "unat b \<le> unat (jc_size col ! i) + unat width" by blast
  obtain s' where s': "read_file alloc (ucast (jc_offset col ! i)) (jc_size col ! i) b s h =
      Inr ((fst (alloc b h), take (unat (jc_size col ! i)) (drop (unat (jc_offset col ! i)) (s_bytes s))), s', snd (alloc b h))"
    "\<not> s_fail s'" "s_bytes s' = s_bytes s"
    using read_file_ok [OF assms(5,6), of b alloc h] b(2) assms(7) by auto
  show ?thesis using assms(1-3,7) b s' by (simp add: jni_column_regs_def arr_at_def)
qed

text \<open>What a column's registers and buffer should hold.\<close>

definition column_filled :: "u8 list \<Rightarrow> u64 \<Rightarrow> jni_column \<Rightarrow> nat \<Rightarrow> filled_regs \<Rightarrow> bool" where
  "column_filled bytes width col i fr \<longleftrightarrow> (case fr of (r, got) \<Rightarrow>
     num_val r = jc_val col ! i \<and> got = take (unat (jc_size col ! i)) (drop (unat (jc_offset col ! i)) bytes)
     \<and> unat (jc_size col ! i) < unat (max_size r) \<and> unat (max_size r) \<le> unat (jc_size col ! i) + unat width
     \<and> device_parquet_address r \<noteq> 0)"

definition column_ok :: "u8 list \<Rightarrow> nat \<Rightarrow> u64 \<times> jni_column \<Rightarrow> bool" where
  "column_ok bytes n wc \<longleftrightarrow> (case wc of (width, col) \<Rightarrow>
     (width = 32 \<or> width = 64) \<and> n \<le> length (jc_size col) \<and> n \<le> length (jc_val col) \<and> n \<le> length (jc_offset col)
     \<and> (\<forall>i<n. chunk_ok bytes (jc_offset col ! i) (jc_size col ! i)))"

lemma jni_group_ok:
  assumes "\<forall>wc\<in>set cols. column_ok bytes n wc" "i < n" "\<not> s_fail s" "s_bytes s = bytes" "\<forall>n h. fst (alloc n h) \<noteq> 0"
  shows "\<exists>rs s' h'. jni_group alloc cols i s h = Inr (rs, s', h') \<and> \<not> s_fail s' \<and> s_bytes s' = bytes
    \<and> list_all2 (\<lambda>(width, col). column_filled bytes width col i) cols rs"
  using assms(1,3,4)
proof (induction cols arbitrary: s h)
  case (Cons wc cols)
  obtain width col where wc: "wc = (width, col)" by fastforce
  have ok: "width = 32 \<or> width = 64" "i < length (jc_size col)" "i < length (jc_val col)" "i < length (jc_offset col)"
    "chunk_ok bytes (jc_offset col ! i) (jc_size col ! i)"
    using Cons.prems(1) assms(2) by (auto simp: column_ok_def wc)
  obtain r got s1 h1 where r: "jni_column_regs alloc width col i s h = Inr ((r, got), s1, h1)" "\<not> s_fail s1" "s_bytes s1 = bytes"
    "column_filled bytes width col i (r, got)"
    using jni_column_regs_ok [OF ok(2-4,1) _ Cons.prems(2) assms(5), of h] ok(5) Cons.prems(3)
    unfolding column_filled_def prod.case by metis
  obtain rs s2 h2 where "jni_group alloc cols i s1 h1 = Inr (rs, s2, h2)" "\<not> s_fail s2" "s_bytes s2 = bytes"
    "list_all2 (\<lambda>(width, col). column_filled bytes width col i) cols rs"
    using Cons.IH [OF _ r(2,3), of h1] Cons.prems(1) by auto
  then show ?case using r by (auto simp: wc)
qed simp

lemma jni_groups_ok:
  assumes "\<forall>wc\<in>set cols. column_ok bytes n wc" "\<forall>n h. fst (alloc n h) \<noteq> 0"
    "i + m \<le> n" "\<not> s_fail s" "s_bytes s = bytes"
  shows "\<exists>gs s' h'. jni_groups alloc cols i m s h = Inr (gs, s', h') \<and> length gs = m
    \<and> (\<forall>g<m. list_all2 (\<lambda>(width, col). column_filled bytes width col (i + g)) cols (gs ! g))"
  using assms(3-5)
proof (induction m arbitrary: i s h)
  case (Suc m)
  obtain g s1 h1 where g: "jni_group alloc cols i s h = Inr (g, s1, h1)" "\<not> s_fail s1" "s_bytes s1 = bytes"
    "list_all2 (\<lambda>(width, col). column_filled bytes width col i) cols g"
    using jni_group_ok [OF assms(1) _ Suc.prems(2,3) assms(2), of i h] Suc.prems(1) by auto
  obtain gs s2 h2 where gs: "jni_groups alloc cols (Suc i) m s1 h1 = Inr (gs, s2, h2)" "length gs = m"
    "\<forall>g<m. list_all2 (\<lambda>(width, col). column_filled bytes width col (Suc i + g)) cols (gs ! g)"
    using Suc.IH [of "Suc i" s1 h1] Suc.prems(1) g by auto
  have "list_all2 (\<lambda>(width, col). column_filled bytes width col (i + j)) cols ((g # gs) ! j)" if "j < Suc m" for j
    using that g(4) gs(3) by (cases j) auto
  then show ?case using g gs by auto
qed simp

section \<open>Properties\<close>

text \<open>C28: the buffer of a chunk is large enough for it, by at least one byte and at most one unit of 32 or 64, and a multiple of
  this unit; so the chunk never overflows its buffer, as long as its size is below 2 to the 53.\<close>

theorem chunk_buffer_bounds:
  assumes "unat n < 2 ^ 53" "type_width = 32 \<or> type_width = 64"
  shows "\<exists>b. padded_size n type_width = Inr b \<and> unat n < unat b \<and> unat b \<le> unat n + unat type_width \<and> unat type_width dvd unat b"
  using padded_size_bounds [OF assms] by metis

lemma chunk_buffer_bounds_witness: "\<exists>b. padded_size 128 64 = Inr b \<and> (128 :: nat) < unat b"
  using chunk_buffer_bounds [of 128 64] by auto

text \<open>C5: the arguments that reach the hardware. For chunks inside the file and below two gigabytes, the iterator hands to
  the pool, for every row group, the four columns in the order price, discount, quantity, ship date, each with its number of values,
  the address of a buffer that holds exactly the bytes of the chunk, and a size that covers them. Reading the results then gives
  those of the row groups in order.\<close>

theorem parquet_arguments:
  assumes "files path = Some bytes" "\<forall>n h. fst (alloc n h) \<noteq> 0"
    and "\<forall>wc\<in>set (jni_columns_of ext disc quant ship). column_ok bytes (length (jc_offset ext)) wc"
  shows "\<exists>gs sch h'. initFletcherParquetReaderIterator files alloc future scheduler_new path ext disc quant ship h = Inr (gs, sch, h')
    \<and> length gs = length (jc_offset ext)
    \<and> (\<forall>g<length gs. list_all2 (\<lambda>(width, col). column_filled bytes width col g) [(64, ext), (64, disc), (64, quant), (32, ship)] (gs ! g))
    \<and> (\<exists>sch'. read_all (length gs) sch = Some (map (\<lambda>g. future (map fst g)) gs, sch'))"
proof -
  let ?n = "length (jc_offset ext)"
  have "\<not> s_fail (open_stream files path)" "s_bytes (open_stream files path) = bytes"
    using assms(1) by (simp_all add: open_stream_def)
  from jni_groups_ok [OF assms(3,2) _ this, of 0 ?n h] obtain gs s' h' where
    gs: "jni_groups alloc (jni_columns_of ext disc quant ship) 0 ?n (open_stream files path) h = Inr (gs, s', h')" "length gs = ?n"
      "\<forall>g<?n. list_all2 (\<lambda>(width, col). column_filled bytes width col g) (jni_columns_of ext disc quant ship) (gs ! g)"
    by auto
  let ?sch = "snd (scheduler_Submit ?n (\<lambda>i. future (map fst (gs ! i))) scheduler_new)"
  have init: "initFletcherParquetReaderIterator files alloc future scheduler_new path ext disc quant ship h = Inr (gs, ?sch, h')"
    using gs(1) by (simp add: initFletcherParquetReaderIterator_def FletcherParquetReader_new_def wrapper_Submit_def ASSERT_FLETCHER_OK_def scheduler_Submit_def)
  have "sch_submitted ?sch" "sch_results ?sch = map (\<lambda>g. future (map fst g)) gs @ []"
    using gs(2) by (auto simp: scheduler_Submit_def scheduler_new_def intro: nth_equalityI)
  from read_all_results [OF this] have "\<exists>sch'. read_all (length gs) ?sch = Some (map (\<lambda>g. future (map fst g)) gs, sch')" by simp
  then show ?thesis using init gs(2,3) by (auto simp: jni_columns_of_def)
qed

definition example_column :: jni_column where
  "example_column = \<lparr>jc_offset = [0, 2], jc_size = [2, 1], jc_val = [5, 6]\<rparr>"

lemma parquet_arguments_witness:
  "\<exists>gs sch h'. initFletcherParquetReaderIterator (\<lambda>_. Some [1, 2, 3]) (\<lambda>n h. (4096, h)) (\<lambda>r. of_nat (length r)) scheduler_new ''f''
      example_column example_column example_column example_column () = Inr (gs, sch, h') \<and> length gs = 2"
proof -
  have "\<forall>wc\<in>set (jni_columns_of example_column example_column example_column example_column).
      column_ok [1, 2, 3] (length (jc_offset example_column)) wc"
    by (simp add: jni_columns_of_def column_ok_def example_column_def chunk_ok_def All_less_Suc2)
  from parquet_arguments [of "\<lambda>_. Some [1, 2, 3]" "''f''" "[1, 2, 3]" "\<lambda>n h. (4096, h)", OF _ _ this, of "\<lambda>r. of_nat (length r)" "()"]
  show ?thesis by (auto simp: example_column_def)
qed

text \<open>Offsets from two gigabytes on break the reader: the offset is cut to a signed 32-bit number, seeking to a negative position
  fails, nothing is read, and every later chunk of the file is left unread as well, without any error.\<close>

theorem large_offset_unread:
  fixes off :: u64
  assumes "2 ^ 31 \<le> unat off" "unat off < 2 ^ 32" "\<not> s_fail s"
  shows "\<exists>s'. read_file alloc (ucast off) n buffer_size s h = Inr ((fst (alloc buffer_size h), []), s', snd (alloc buffer_size h))
    \<and> s_fail s'
    \<and> (\<forall>off2 n2 b2 h2. read_file alloc off2 n2 b2 s' h2 = Inr ((fst (alloc b2 h2), []), s', snd (alloc b2 h2)))"
proof -
  have "unat (ucast off :: u32) = unat off" using assms(2) by (simp add: take_bit_nat_eq_self unsigned_ucast_eq)
  then have "sint (ucast off :: u32) < 0"
    using assms(1) by (intro sint_negative) simp
  then show ?thesis using assms(3)
    by (auto simp: read_file_def seekg_def stream_read_def Let_def split: prod.splits)
qed

lemma large_offset_unread_witness:
  "\<exists>s'. read_file (\<lambda>n h. (4096, h)) (ucast (0x80000004 :: u64)) 2 64 \<lparr>s_bytes = [1, 2, 3], s_pos = 0, s_fail = False\<rparr> ()
      = Inr ((4096, []), s', ()) \<and> s_fail s'"
  using large_offset_unread [of "0x80000004" "\<lparr>s_bytes = [1, 2, 3], s_pos = 0, s_fail = False\<rparr>" "\<lambda>n h. (4096, h)" 2 64 "()"]
  by auto

text \<open>The vector of row groups that \<^verbatim>\<open>readChunks\<close> returns has twice as many elements as the file has row groups,
  and the first half of them is empty; the variant that fills the caller's arrays gives just the second half.\<close>

theorem read_chunks_doubled:
  assumes "readChunks_into alloc fr h = Inr (gs, fr', h')"
  shows "\<exists>rs. readChunks alloc fr h = Inr (rs, fr', h') \<and> length rs = 2 * length (fr_row_groups fr)
    \<and> (\<forall>i<length (fr_row_groups fr). rs ! i = [] \<and> rs ! (length (fr_row_groups fr) + i) = gs ! i)
    \<and> (\<forall>g\<in>set gs. length g = length input_schema)"
proof -
  obtain "is" s where is': "selected_indexes fr = Inr is"
    and g: "read_groups alloc (fr_row_groups fr) is (fr_stream fr) h = Inr (gs, s, h')" and fr': "fr' = fr\<lparr>fr_stream := s\<rparr>"
    using assms by (auto simp: readChunks_into_def res_bind_Inr_iff)
  have cols: "read_columns alloc r is s h = Inr (c, s', h') \<Longrightarrow> length c = length is" for r s h c s' h'
  proof (induction alloc r "is" s h arbitrary: c s' h' rule: read_columns.induct)
    case 2
    then show ?case by (auto simp: res_bind_Inr_iff)
  qed simp
  have groups: "read_groups alloc rs is s h = Inr (c, s', h') \<Longrightarrow> length c = length rs \<and> (\<forall>x\<in>set c. length x = length is)" for rs s h c s' h'
    by (induction rs arbitrary: s h c) (auto simp: res_bind_Inr_iff dest!: cols)
  have "length is = length input_schema" using is' by (auto simp: selected_indexes_def split: option.splits)
  then show ?thesis using is' g fr' groups [OF g]
    by (auto simp: readChunks_def Let_def nth_append intro!: exI [of _ "replicate (length (fr_row_groups fr)) [] @ gs"])
qed

definition example_chunk :: chunk_meta where
  "example_chunk = \<lparr>cm_type = PQ_DOUBLE, cm_file_offset = 1, cm_total_uncompressed_size = 2, cm_num_values = 1\<rparr>"

definition example_reader :: file_reader where
  "example_reader = \<lparr>fr_stream = \<lparr>s_bytes = [1, 2, 3], s_pos = 0, s_fail = False\<rparr>, fr_columns = Some input_schema,
     fr_row_groups = [[example_chunk, example_chunk, example_chunk, example_chunk]]\<rparr>"

lemma example_parse: "\<exists>c s'. parseRegs (\<lambda>n h. (4096, h)) example_chunk s () = Inr (c, s', ())"
proof -
  have "padded_size 2 64 = Inr 64" using padded_size_exact(1) [of 2 64] by simp
  then show ?thesis
    by (auto simp: parseRegs_def example_chunk_def read_file_def stream_read_def seekg_def Let_def)
qed

lemma example_reader_reads: "\<exists>x. readChunks_into (\<lambda>n h. (4096, h)) example_reader () = Inr x"
proof -
  have i: "map (column_index input_schema) input_schema = [0, 1, 2, 3]" by (simp add: input_schema_def)
  have "\<forall>s. \<exists>cs. parseRegs (\<lambda>n h. (4096, h)) example_chunk s () = Inr (fst cs, snd cs, ())"
    using example_parse by simp
  then obtain cs where "\<forall>s. parseRegs (\<lambda>n h. (4096, h)) example_chunk s () = Inr (fst (cs s), snd (cs s), ())"
    by (rule choice [THEN exE])
  then show ?thesis
    by (simp add: readChunks_into_def selected_indexes_def example_reader_def i ColumnChunk_def)
qed

lemma read_chunks_doubled_witness:
  "\<exists>rs fr'. readChunks (\<lambda>n h. (4096, h)) example_reader () = Inr (rs, fr', ()) \<and> length rs = 2"
proof -
  obtain gs fr' h' where "readChunks_into (\<lambda>n h. (4096, h)) example_reader () = Inr (gs, fr', h')"
    using example_reader_reads by auto
  from read_chunks_doubled [OF this] show ?thesis by (auto simp: example_reader_def)
qed

end
