(* ===== verification/Profiler.thy ===== *)
theory Profiler
  imports Bus_Ports
begin

text \<open>
  \<^verbatim>\<open>fletchgen/profiler.cc\<close> and \<^verbatim>\<open>Nucleus::ProfileDataStreams\<close> of \<^verbatim>\<open>nucleus.cc\<close>: the registers for the counters
  of the data streams to profile, the profilers, and the connections between them. Parameters are what Cerata makes of a
  type when it flattens it, the name it gives to the signal that is put in place of a port, and the order of the
  addresses of these signals: the profilers are kept in a \<^verbatim>\<open>std::map\<close> with pointers as keys, and the code goes through it
  in that order.
\<close>

section \<open>Flattened types\<close>

text \<open>What is asked of a flattened type: whether it is a record (a stream is one as well) or a stream, its metadata, and its name
  after \<^verbatim>\<open>NamePart(s)\<close> and \<^verbatim>\<open>NamePart(s, true)\<close>.\<close>

record flat_entry =
  fl_record :: bool
  fl_stream :: bool
  fl_meta :: "(string \<times> string) list"
  fl_name :: "string \<Rightarrow> string"
  fl_name_sep :: "string \<Rightarrow> string"

section \<open>Registers\<close>

definition COUNT_WIDTH :: u32 where "COUNT_WIDTH = 32"

definition counter_names :: "string list" where
  "counter_names = [''elements'', ''valids'', ''readies'', ''transfers'', ''packets'', ''cycles'']"

definition counter_docs :: "string list" where
  "counter_docs =
    [''Element count. Accumulates the number of elements transferred on the stream. '' @
       ''Writing to the register subtracts the written value.'',
     ''Valid count. Increments each cycle that the stream is valid. '' @
       ''Writing to the register subtracts the written value.'',
     ''Ready count. Increments each cycle that the stream is ready. '' @
       ''Writing to the register subtracts the written value.'',
     ''Transfer count. '' @
       ''Increments for each transfer on the stream, i.e. when it is handshaked. '' @
       ''Writing to the register subtracts the written value.'',
     ''Packet count. Increments each time the last signal is set during a handshake '' @
       ''Writing to the register subtracts the written value.'',
     ''Cycle count. Increments each clock cycle while profiler is enabled.'']"

definition counter_reg :: "string \<Rightarrow> nat \<Rightarrow> nat \<Rightarrow> mmio_reg" where
  "counter_reg pre si c =
    mmio_reg_new F_PROFILE STATUS (pre @ ''_'' @ show_nat si @ ''_'' @ counter_names ! c) (counter_docs ! c) COUNT_WIDTH 0 None None"

text \<open>The registers of the streams among the flattened types of a port; \<open>si\<close> numbers the streams.\<close>

fun stream_regs :: "string \<Rightarrow> nat \<Rightarrow> flat_entry list \<Rightarrow> mmio_reg list" where
  "stream_regs port si [] = []"
| "stream_regs port si (t # ts) =
    (if fl_stream t then map (counter_reg (''Profile_'' @ fl_name t port) si) [0..<6] @ stream_regs port (Suc si) ts
     else stream_regs port si ts)"

definition GetProfilingRegs :: "(hw_type \<Rightarrow> flat_entry list) \<Rightarrow> batch_component list \<Rightarrow> mmio_reg list" where
  "GetProfilingRegs flatten rbs =
    [mmio_reg_new F_PROFILE CONTROL ''Profile_enable'' ''Activates profiler counting when this bit is high.'' 1 0 None None,
     mmio_reg_new F_PROFILE STROBE ''Profile_clear'' ''Resets profiler counters when this bit is asserted.'' 1 0 None None] @
    concat (map (\<lambda>rb. concat (map (\<lambda>fp. if fp_profile fp then stream_regs (fp_name fp) 0 (flatten (fp_type fp)) else [])
      (GetFieldPorts None rb))) rbs)"

text \<open>The registers for the components that the constructor of Design makes.\<close>

definition design_profiling ::
    "(hw_type \<Rightarrow> flat_entry list) \<Rightarrow> array_lib \<Rightarrow> string \<Rightarrow> fletcher_schema list \<Rightarrow> batch_description list \<Rightarrow> mmio_reg list" where
  "design_profiling flatten lib kernel_nm ss ds =
    (case res_mapM (\<lambda>(schema, desc). RecordBatch_new lib (kernel_nm @ ''_'' @ fs_name schema) schema desc) (zip ss ds) of
       Inr rbs \<Rightarrow> GetProfilingRegs flatten rbs
     | Inl _ \<Rightarrow> [])"

section \<open>Profilers\<close>

text \<open>The valid and ready types of a Cerata stream are parameters.\<close>

definition stream_probe :: "hw_type \<Rightarrow> hw_type \<Rightarrow> hw_width \<Rightarrow> hw_type" where
  "stream_probe valid ready count_wd =
    Hw_stream [''probe'', ''count''] (vec count_wd) [unnamed valid, unnamed ready, unnamed (last_type 1 False)]"

definition profiler_ports :: "hw_type \<Rightarrow> hw_type \<Rightarrow> (string \<times> hw_type \<times> port_dir) list" where
  "profiler_ports valid ready =
    [(''pcd'', cr_type, DIR_IN), (''probe'', stream_probe valid ready (Text_node ''PROBE_COUNT_WIDTH''), DIR_IN),
     (''enable'', Hw_bit None [], DIR_IN), (''clear'', Hw_bit None [], DIR_IN)] @
    map (\<lambda>n. (''count_'' @ n, Hw_vector (Some ''out_count_type'') (Text_node ''OUT_COUNT_WIDTH'') [], DIR_OUT)) counter_names"

definition GetClockResetPort :: "hw_port list \<Rightarrow> clock_domain \<Rightarrow> hw_port option" where
  "GetClockResetPort ports domain = find (\<lambda>p. port_type p = cr_type \<and> port_domain p = domain) ports"

text \<open>A profiler: its name, the signal it probes (by its position among the profiled ones), the clock and reset port, the width
  of the count, if one was found, and the entries of the mapping matrix that are 1.\<close>

record profiler =
  pf_name :: string
  pf_signal :: nat
  pf_clock :: hw_port
  pf_count_width :: "int option"
  pf_matrix :: "(nat \<times> nat) list"

text \<open>\<^verbatim>\<open>strtol\<close> to the base 10.\<close>

definition strtol :: "string \<Rightarrow> int" where
  "strtol s = (case stol s 10 of
      Inr v \<Rightarrow> v
    | Inl e \<Rightarrow> if e = Out_of_range then (if take 1 (dropWhile is_space s) = ''-'' then - (2 ^ 63) else 2 ^ 63 - 1) else 0)"

definition probe_columns :: "flat_entry \<Rightarrow> nat list" where
  "probe_columns t =
    (if map_of (fl_meta t) meta_COUNT \<noteq> None then [4] else []) @ (if map_of (fl_meta t) meta_LAST \<noteq> None then [3] else [])"

definition probe_width :: "flat_entry list \<Rightarrow> int option" where
  "probe_width ts =
    (case concat (map (\<lambda>t. case map_of (fl_meta t) meta_COUNT of None \<Rightarrow> [] | Some w \<Rightarrow> [sint (word_of_int (strtol w) :: u32)]) ts) of
       [] \<Rightarrow> None | ws \<Rightarrow> Some (List.last ws))"

definition make_profiler :: "string \<Rightarrow> nat \<Rightarrow> hw_port \<Rightarrow> flat_entry list \<Rightarrow> nat \<Rightarrow> profiler" where
  "make_profiler nm k cr flats fti =
    \<lparr>pf_name = ''Profiler_'' @ fl_name_sep (flats ! fti) nm @ ''_inst'', pf_signal = k, pf_clock = cr,
     pf_count_width = probe_width (drop (fti + 3) flats),
     pf_matrix = [(fti, 0), (fti + 1, 1), (fti + 2, 2)] @
       concat (map (\<lambda>j. map (Pair j) (probe_columns (flats ! j))) [fti + 3..<length flats])\<rparr>"

text \<open>The loop over the flattened types of a signal. The inner loop always runs to their end.\<close>

function profile_types :: "hw_port option \<Rightarrow> string \<Rightarrow> nat \<Rightarrow> flat_entry list \<Rightarrow> nat \<Rightarrow> profiler list res" where
  "profile_types clock nm k flats fti =
    (if fti < length flats then
       if fl_record (flats ! fti) then
         (case clock of
            None \<Rightarrow> Inl Runtime_error
          | Some cr \<Rightarrow>
              if fti + 2 < length flats
              then res_bind (profile_types clock nm k flats (max (fti + 3) (length flats))) (\<lambda>rest.
                Inr (make_profiler nm k cr flats fti # rest))
              else Inl Undefined)
       else profile_types clock nm k flats (Suc fti)
     else Inr [])"
  by pat_completeness auto
termination by (relation "measure (\<lambda>(_, _, _, flats, fti). length flats - fti)") auto

declare profile_types.simps [simp del]

text \<open>A signal to profile has a name, a type and a clock domain. The result has an entry for each signal with a profiler: its
  profilers and the counters that are kept for it. The counters of a second profiler are added to a copy of the vector.\<close>

type_synonym profile_entry = "profiler list \<times> (nat \<times> nat) list"

fun EnableStreamProfiling ::
    "(hw_type \<Rightarrow> flat_entry list) \<Rightarrow> hw_port list \<Rightarrow> nat \<Rightarrow> (string \<times> hw_type \<times> clock_domain) list \<Rightarrow> profile_entry list res" where
  "EnableStreamProfiling flatten ports k [] = Inr []"
| "EnableStreamProfiling flatten ports k ((nm, ty, domain) # nodes) =
    res_bind (profile_types (GetClockResetPort ports domain) nm k (flatten ty) 0) (\<lambda>insts.
    res_bind (EnableStreamProfiling flatten ports (Suc k) nodes) (\<lambda>entries.
    Inr ((if insts = [] then [] else [(insts, map (Pair k) [0..<6])]) @ entries)))"

section \<open>The nucleus\<close>

definition nucleus_cr_ports :: "hw_port list" where
  "nucleus_cr_ports = [\<lparr>port_name = ''kcd'', port_type = cr_type, port_direction = DIR_IN, port_domain = KCD\<rparr>]"

definition touches :: "string \<Rightarrow> edge \<Rightarrow> bool" where
  "touches n e = (fst e = Nucleus_port n \<or> snd e = Nucleus_port n)"

definition profile_status_ports :: "mmio_reg list \<Rightarrow> nat list" where
  "profile_status_ports regs = filter (\<lambda>i. mr_function (regs ! i) = F_PROFILE \<and> mr_behavior (regs ! i) = STATUS) [0..<length regs]"

fun connect_counters :: "nat list \<Rightarrow> nat \<Rightarrow> (nat \<times> nat) list \<Rightarrow> (nat \<times> nat \<times> nat) list res" where
  "connect_counters mports idx [] = Inr []"
| "connect_counters mports idx (c # cs) =
    (if idx < length mports then res_bind (connect_counters mports (Suc idx) cs) (\<lambda>es. Inr ((mports ! idx, c) # es))
     else Inl Undefined)"

text \<open>\<open>by_address n\<close> lists the positions of \<open>n\<close> entries in the order of the addresses of their signals. The result: the profilers
  that get the enable and clear signals, and the mmio ports with the counters they are connected to.\<close>

definition ProfileDataStreams ::
    "(hw_type \<Rightarrow> flat_entry list) \<Rightarrow> (string \<Rightarrow> string) \<Rightarrow> (nat \<Rightarrow> nat list) \<Rightarrow> nucleus \<Rightarrow> mmio_reg list \<Rightarrow>
     (profiler list \<times> (nat \<times> nat \<times> nat) list) res" where
  "ProfileDataStreams flatten signal_name by_address nu regs =
    (let ports = filter (\<lambda>p. fp_function p = FP_ARROW \<and> fp_profile p) (nu_ports nu) in
     if \<exists>p\<in>set ports. length (filter (touches (fp_name p)) (nu_edges nu)) \<noteq> 1 then Inl Exited
     else if ports = [] then Inr ([], [])
     else res_bind (EnableStreamProfiling flatten nucleus_cr_ports 0
           (map (\<lambda>p. (signal_name (fp_name p), fp_type p, fp_domain p)) ports)) (\<lambda>entries.
       let sorted = map (\<lambda>k. entries ! k) (by_address (length entries)) in
       res_bind (connect_counters (profile_status_ports regs) 0 (concat (map snd sorted))) (\<lambda>es.
       Inr (concat (map fst sorted), es))))"

section \<open>Which counter is connected to which register\<close>

text \<open>A type with one stream that is its first record, with its valid and ready types behind it.\<close>

definition one_stream :: "flat_entry list \<Rightarrow> bool" where
  "one_stream ts = (length (filter fl_stream ts) = 1 \<and> 3 \<le> length (dropWhile (\<lambda>t. \<not> fl_record t) ts))"

definition stream_name :: "(hw_type \<Rightarrow> flat_entry list) \<Rightarrow> field_port \<Rightarrow> string" where
  "stream_name flatten p = fl_name (hd (filter fl_stream (flatten (fp_type p)))) (fp_name p)"

definition profiled :: "batch_component list \<Rightarrow> field_port list" where
  "profiled rbs = concat (map (\<lambda>rb. filter fp_profile (bc_ports rb)) rbs)"

lemma profile_types_end: "length flats \<le> fti \<Longrightarrow> profile_types clock nm k flats fti = Inr []"
  by (subst profile_types.simps) simp

lemma profile_types_one:
  "3 \<le> length (dropWhile (\<lambda>t. \<not> fl_record t) (drop fti flats)) \<Longrightarrow> \<exists>inst. profile_types (Some cr) nm k flats fti = Inr [inst]"
proof (induction "length flats - fti" arbitrary: fti)
  case 0
  then show ?case using length_dropWhile_le [of "\<lambda>t. \<not> fl_record t" "drop fti flats"] by simp
next
  case (Suc n)
  then have lt: "fti < length flats" by simp
  have split: "drop fti flats = flats ! fti # drop (Suc fti) flats" using lt by (rule Cons_nth_drop_Suc [symmetric])
  show ?case
  proof (cases "fl_record (flats ! fti)")
    case True
    then have "3 \<le> length flats - fti" using Suc.prems by (simp add: split)
    then show ?thesis using True lt by (subst profile_types.simps) (simp add: profile_types_end)
  next
    case False
    then have "\<exists>inst. profile_types (Some cr) nm k flats (Suc fti) = Inr [inst]"
      using Suc.hyps(2) Suc.prems by (intro Suc.hyps(1)) (simp_all add: split)
    then show ?thesis using False lt by (subst profile_types.simps) simp
  qed
qed

lemma nucleus_clock: "\<exists>cr. GetClockResetPort nucleus_cr_ports KCD = Some cr"
  by (simp add: GetClockResetPort_def nucleus_cr_ports_def)

lemma EnableStreamProfiling_ok:
  "\<forall>(nm, ty, domain)\<in>set nodes. one_stream (flatten ty) \<and> domain = KCD \<Longrightarrow>
   \<exists>entries. EnableStreamProfiling flatten nucleus_cr_ports k nodes = Inr entries \<and> length entries = length nodes
    \<and> (\<forall>j<length nodes. length (fst (entries ! j)) = 1 \<and> snd (entries ! j) = map (Pair (k + j)) [0..<6])"
proof (induction nodes arbitrary: k)
  case (Cons node nodes)
  obtain nm ty domain where node: "node = (nm, ty, domain)" by (cases node)
  obtain cr where cr: "GetClockResetPort nucleus_cr_ports KCD = Some cr" using nucleus_clock by blast
  have "3 \<le> length (dropWhile (\<lambda>t. \<not> fl_record t) (flatten ty))" using Cons.prems by (simp add: node one_stream_def)
  then obtain inst where inst: "profile_types (Some cr) nm k (flatten ty) 0 = Inr [inst]"
    using profile_types_one [of 0 "flatten ty" cr nm k] by auto
  obtain entries where entries: "EnableStreamProfiling flatten nucleus_cr_ports (Suc k) nodes = Inr entries" "length entries = length nodes"
    "\<forall>j<length nodes. length (fst (entries ! j)) = 1 \<and> snd (entries ! j) = map (Pair (Suc k + j)) [0..<6]"
    using Cons.IH [of "Suc k"] Cons.prems by auto
  let ?es = "([inst], map (Pair k) [0..<6]) # entries"
  have "EnableStreamProfiling flatten nucleus_cr_ports k (node # nodes) = Inr ?es"
    using Cons.prems cr inst entries(1) by (simp add: node del: upt_rec_numeral)
  moreover have "length (fst (?es ! j)) = 1 \<and> snd (?es ! j) = map (Pair (k + j)) [0..<6]" if "j < Suc (length nodes)" for j
    using that entries(3) by (cases j) (simp_all del: upt_rec_numeral)
  ultimately show ?case using entries(2) by (intro exI [of _ ?es]) simp
qed simp

lemma connect_counters_ok:
  "idx + length cs \<le> length mports \<Longrightarrow> connect_counters mports idx cs = Inr (zip (drop idx mports) cs)"
proof (induction cs arbitrary: idx)
  case (Cons c cs)
  then have lt: "idx < length mports" by simp
  show ?case using Cons.IH [of "Suc idx"] Cons.prems lt by (simp add: Cons_nth_drop_Suc [OF lt, symmetric])
qed simp

lemma concat_blocks_nth:
  "\<forall>xs\<in>set xss. length xs = n \<Longrightarrow> k < length xss \<Longrightarrow> c < n \<Longrightarrow>
   k * n + c < length (concat xss) \<and> concat xss ! (k * n + c) = xss ! k ! c"
proof (induction xss arbitrary: k)
  case (Cons xs xss)
  then show ?case by (cases k) (auto simp: nth_append)
qed simp

lemma length_concat_blocks: "\<forall>xs\<in>set xss. length xs = n \<Longrightarrow> length (concat xss) = length xss * n"
  by (induction xss) auto

lemma map_nth_filter: "map (nth xs) (filter (\<lambda>i. P (xs ! i)) [0..<length xs]) = filter P xs"
  using filter_map [of P "nth xs" "[0..<length xs]"] by (simp add: map_nth comp_def)

lemma stream_regs_none: "filter fl_stream ts = [] \<Longrightarrow> stream_regs port si ts = []"
  by (induction ts arbitrary: si) (auto split: if_splits)

lemma stream_regs_one:
  "filter fl_stream ts = [t] \<Longrightarrow> stream_regs port si ts = map (counter_reg (''Profile_'' @ fl_name t port) si) [0..<6]"
proof (induction ts)
  case (Cons u ts)
  then show ?case by (cases "fl_stream u") (simp_all add: stream_regs_none del: upt_rec_numeral)
qed simp

lemma stream_regs_kind: "r \<in> set (stream_regs port si ts) \<Longrightarrow> mr_function r = F_PROFILE \<and> mr_behavior r = STATUS"
  by (induction ts arbitrary: si) (auto simp: counter_reg_def mmio_reg_new_def simp del: upt_rec_numeral split: if_splits)

section \<open>The edges of a port\<close>

definition name_count :: "string \<Rightarrow> field_port list \<Rightarrow> nat" where
  "name_count n ps = length (filter (\<lambda>p. fp_name p = n) ps)"

lemma name_count_append [simp]: "name_count n (ps @ qs) = name_count n ps + name_count n qs"
  by (simp add: name_count_def)

lemma name_count_Nil [simp]: "name_count n [] = 0"
  by (simp add: name_count_def)

lemma name_count_Cons [simp]: "name_count n (p # ps) = of_bool (fp_name p = n) + name_count n ps"
  by (simp add: name_count_def)

lemma touches_simps [simp]: "touches n (x, y) = (x = Nucleus_port n \<or> y = Nucleus_port n)"
  by (simp add: touches_def)

abbreviation edge_count :: "string \<Rightarrow> edge list \<Rightarrow> nat" where
  "edge_count n es \<equiv> length (filter (touches n) es)"

lemma edge_count_arrow: "edge_count n (map connect_arrow ps) = name_count n ps"
  by (induction ps) (simp_all add: touches_def connect_arrow_def)

lemma edge_count_unlock: "edge_count n (map connect_unlock ps) = name_count n ps"
  by (induction ps) (simp_all add: touches_def connect_unlock_def)

lemma edge_count_lanes: "connect_lanes bps a l m b = Inr es \<Longrightarrow> edge_count n es = 0"
  by (induction m arbitrary: l b es) (fastforce simp: touches_def res_bind_Inr_iff split: if_splits)+

lemma edge_count_commands: "connect_commands bps desc cmds fi a b = Inr (es, a', b') \<Longrightarrow> edge_count n es = name_count n cmds"
proof (induction cmds arbitrary: fi a b es a' b')
  case (Cons c cmds)
  from Cons.prems obtain lanes es' where parts: "connect_lanes bps a 0 (length (fm_buffers (bd_fields desc ! fi))) b = Inr lanes"
    "connect_commands bps desc cmds (Suc fi) (Suc a) (b + length (fm_buffers (bd_fields desc ! fi))) = Inr (es', a', b')"
    "es = [(Nucleus_port (fp_name c), Accm_port a ''nucleus_cmd''), (Accm_port a ''kernel_cmd'', Kernel_port (fp_name c))] @ lanes @ es'"
    by (auto simp: Let_def res_bind_Inr_iff split: if_splits)
  then show ?case using Cons.IH [OF parts(2)] edge_count_lanes [OF parts(1), of n] by simp
qed simp

text \<open>The ports of a record batch, ordered by their functions.\<close>

lemma name_count_functions:
  "name_count n (GetFieldPorts (Some FP_ARROW) rb) + name_count n (GetFieldPorts (Some FP_UNLOCK) rb)
     + name_count n (GetFieldPorts (Some FP_COMMAND) rb) = name_count n (bc_ports rb)"
proof -
  have "name_count n (filter (\<lambda>p. fp_function p = FP_ARROW) ps) + name_count n (filter (\<lambda>p. fp_function p = FP_UNLOCK) ps)
     + name_count n (filter (\<lambda>p. fp_function p = FP_COMMAND) ps) = name_count n ps" for ps
  proof (induction ps)
    case (Cons p ps)
    then show ?case by (cases "fp_function p") auto
  qed simp
  then show ?thesis by (simp add: GetFieldPorts_def)
qed

lemma edge_count_batches:
  "connect_batches bps rbs a b = Inr es \<Longrightarrow> edge_count n es = name_count n (concat (map bc_ports rbs))"
proof (induction rbs arbitrary: a b es)
  case (Cons r rbs)
  from Cons.prems obtain cs a' b' rest where parts:
    "connect_commands bps (bc_desc r) (GetFieldPorts (Some FP_COMMAND) r) 0 a b = Inr (cs, a', b')"
    "connect_batches bps rbs a' b' = Inr rest"
    "es = map connect_arrow (GetFieldPorts (Some FP_ARROW) r) @ map connect_unlock (GetFieldPorts (Some FP_UNLOCK) r) @ cs @ rest"
    by (auto simp: res_bind_Inr_iff)
  then show ?case
    using Cons.IH [OF parts(2)] edge_count_commands [OF parts(1), of n] name_count_functions [of n r]
    by (simp only: parts(3) filter_append length_append edge_count_arrow edge_count_unlock list.map concat.simps name_count_append)
qed simp

lemma edge_count_regs: "edge_count n (connect_regs regs) = 0"
  by (auto simp: connect_regs_def touches_def Let_def filter_empty_conv split: if_splits)

lemma edge_count_nucleus:
  assumes "Nucleus_new rbs regs = Inr nu" "distinct (map fp_name (concat (map bc_ports rbs)))" "p \<in> set (concat (map bc_ports rbs))"
  shows "edge_count (fp_name p) (nu_edges nu) = 1"
proof -
  have one: "name_count n ps = of_bool (n \<in> set (map fp_name ps))" if "distinct (map fp_name ps)" for n ps
    using that by (induction ps) auto
  from assms(1) obtain es where "connect_batches (buffer_ports regs) rbs 0 0 = Inr es" "nu_edges nu = es @ connect_regs regs"
    by (auto simp: Nucleus_new_def res_bind_Inr_iff)
  then show ?thesis using edge_count_batches [of _ rbs 0 0 es "fp_name p"] one [OF assms(2), of "fp_name p"] assms(3)
    by (simp add: edge_count_regs del: set_concat)
qed

section \<open>The ports of the nucleus\<close>

lemma add_field_profile:
  "add_field lib schema f = Inr (ps, arrs) \<Longrightarrow> p \<in> set ps \<Longrightarrow> fp_profile p \<Longrightarrow> fp_function p = FP_ARROW \<and> fp_domain p = KCD"
  by (auto simp: add_field_def arrow_port_def command_port_def unlock_port_def res_bind_Inr_iff split: if_splits)

lemma AddArrays_profile:
  "AddArrays lib schema fs = Inr (ps, arrs) \<Longrightarrow> p \<in> set ps \<Longrightarrow> fp_profile p \<Longrightarrow> fp_function p = FP_ARROW \<and> fp_domain p = KCD"
proof (induction fs arbitrary: ps arrs)
  case (Cons f fs)
  from Cons.prems(1) obtain qs bs rs cs where parts: "add_field lib schema f = Inr (qs, bs)" "AddArrays lib schema fs = Inr (rs, cs)"
    "ps = qs @ rs" by (auto simp: res_bind_Inr_iff)
  then show ?case using Cons.IH [OF parts(2)] add_field_profile [OF parts(1)] Cons.prems(2,3) by auto
qed simp

lemma component_profile:
  assumes "design_components lib nm d = Inr rbs" "rb \<in> set rbs" "p \<in> set (bc_ports rb)" "fp_profile p"
  shows "fp_function p = FP_ARROW \<and> fp_domain p = KCD"
proof -
  obtain s desc k where "RecordBatch_new lib k s desc = Inr rb"
    using assms(1,2) by (force simp: design_components_def res_mapM_Inr_iff in_set_conv_nth split: prod.splits)
  then obtain arrs where "AddArrays lib s (schema_fields (fs_arrow_schema s)) = Inr (bc_ports rb, arrs)"
    by (auto simp: RecordBatch_new_def res_bind_Inr_iff)
  then show ?thesis using AddArrays_profile assms(3,4) by blast
qed

lemma reversed_command_function: "reversed_command aw p = Inr c \<Longrightarrow> fp_function c = FP_COMMAND"
  by (auto simp: reversed_command_def command_port_def res_bind_Inr_iff)

lemma reversed_commands_function:
  "res_mapM (\<lambda>p. reversed_command (g p) p) ps = Inr cs \<Longrightarrow> c \<in> set cs \<Longrightarrow> fp_function c = FP_COMMAND"
  by (induction ps arbitrary: cs) (auto simp: res_bind_Inr_iff dest: reversed_command_function)

lemma nucleus_batch_profiled:
  assumes "nucleus_batch_ports rb = Inr ps" "\<forall>p\<in>set (bc_ports rb). fp_profile p \<longrightarrow> fp_function p = FP_ARROW"
  shows "filter (\<lambda>p. fp_function p = FP_ARROW \<and> fp_profile p) ps =
    map (\<lambda>p. p\<lparr>fp_dir := reverse_dir (fp_dir p)\<rparr>) (filter fp_profile (bc_ports rb))"
proof -
  from assms(1) obtain cmds where ps: "ps = CopyFieldPorts rb FP_ARROW @ CopyFieldPorts rb FP_UNLOCK @ cmds"
    "res_mapM (\<lambda>p. reversed_command (Some (Text_node (fs_name (bc_schema rb) @ ''_'' @ field_name (fp_field p) @ ''_BUS_ADDR_WIDTH''))) p)
      (GetFieldPorts (Some FP_COMMAND) rb) = Inr cmds"
    by (auto simp: nucleus_batch_ports_def res_bind_Inr_iff)
  note cmds = ps(1) reversed_commands_function [OF ps(2)]
  have "filter (\<lambda>p. fp_function p = FP_ARROW \<and> fp_profile p) (bc_ports rb) = filter fp_profile (bc_ports rb)"
    using assms(2) by (intro filter_cong) auto
  then show ?thesis using cmds
    by (auto simp: CopyFieldPorts_def GetFieldPorts_def filter_map comp_def filter_empty_conv
        intro!: arg_cong [of _ _ "map _"] filter_cong dest: assms(2) [rule_format])
qed

lemma nucleus_profiled:
  assumes "res_mapM nucleus_batch_ports rbs = Inr pss" "\<forall>rb\<in>set rbs. \<forall>p\<in>set (bc_ports rb). fp_profile p \<longrightarrow> fp_function p = FP_ARROW"
  shows "filter (\<lambda>p. fp_function p = FP_ARROW \<and> fp_profile p) (concat pss) =
    map (\<lambda>p. p\<lparr>fp_dir := reverse_dir (fp_dir p)\<rparr>) (profiled rbs)"
  using assms
proof (induction rbs arbitrary: pss)
  case (Cons rb rbs)
  then show ?case
    by (auto simp: res_bind_Inr_iff profiled_def nucleus_batch_profiled)
qed (simp add: profiled_def)

section \<open>Registers of a design\<close>

definition profile_status :: "mmio_reg \<Rightarrow> bool" where
  "profile_status r = (mr_function r = F_PROFILE \<and> mr_behavior r = STATUS)"

lemma filter_profiling_regs:
  "filter profile_status (GetProfilingRegs flatten rbs) =
   concat (map (\<lambda>p. stream_regs (fp_name p) 0 (flatten (fp_type p))) (profiled rbs))"
proof -
  have fix_regs: "filter profile_status (stream_regs port si ts) = stream_regs port si ts" for port si ts
    by (simp add: filter_id_conv profile_status_def stream_regs_kind)
  have "filter profile_status (concat (map (\<lambda>fp. if fp_profile fp then stream_regs (fp_name fp) 0 (flatten (fp_type fp)) else []) ps)) =
      concat (map (\<lambda>p. stream_regs (fp_name p) 0 (flatten (fp_type p))) (filter fp_profile ps))" for ps
    by (induction ps) (simp_all add: fix_regs)
  note inner = this
  have "filter profile_status (concat (map (\<lambda>rb. concat (map (\<lambda>fp. if fp_profile fp
        then stream_regs (fp_name fp) 0 (flatten (fp_type fp)) else []) (GetFieldPorts None rb))) rbs)) =
      concat (map (\<lambda>p. stream_regs (fp_name p) 0 (flatten (fp_type p))) (profiled rbs))"
    by (induction rbs) (simp_all add: profiled_def GetFieldPorts_def inner)
  then show ?thesis by (simp add: GetProfilingRegs_def profile_status_def mmio_reg_new_def)
qed

lemma Design_new_profiling:
  assumes "Design_new profiling opts = Inr d"
  shows "d_profiling_regs d = profiling (ss_schemas (d_schema_set d)) (d_batch_desc d)"
proof -
  obtain dim dims where dims: "opt_bus_dims opts = dim # dims"
    using assms by (cases "opt_bus_dims opts") (auto simp: Design_new_def res_bind_Inr_iff split: if_splits)
  show ?thesis using assms by (auto simp: Design_new_def dims res_bind_Inr_iff split: if_splits)
qed

lemma design_status_regs:
  assumes "Design_new (design_profiling flatten lib nm) opts = Inr d" "design_components lib nm d = Inr rbs"
  shows "filter profile_status (concat (all_regs d)) =
    concat (map (\<lambda>p. stream_regs (fp_name p) 0 (flatten (fp_type p))) (profiled rbs))"
proof -
  note parts = Design_new_parts [OF assms(1)]
  have prof: "d_profiling_regs d = GetProfilingRegs flatten rbs"
    using Design_new_profiling [OF assms(1)] assms(2) by (simp add: design_profiling_def design_components_def)
  have ker: "filter profile_status (d_kernel_regs d) = []"
    using parts(5) custom_reg_function
    by (fastforce simp: filter_empty_conv profile_status_def ParseCustomRegs_def res_mapM_Inr_iff in_set_conv_nth)
  have "filter profile_status (map (\<lambda>(x, b). buffer_reg x b) bs) = []" for bs
    by (auto simp: filter_empty_conv profile_status_def buffer_reg_def mmio_reg_new_def)
  moreover have "filter profile_status (concat (map batch_index_regs ds)) = []" for ds
    by (auto simp: filter_empty_conv profile_status_def batch_index_regs_def mmio_reg_new_def)
  ultimately have rec: "filter profile_status (d_recordbatch_regs d) = []" using parts(4) by (simp add: GetRecordBatchRegs_flat)
  have "filter profile_status GetDefaultRegs = []" by (simp add: GetDefaultRegs_def profile_status_def mmio_reg_new_def)
  then show ?thesis using parts(3) prof ker rec by (simp add: all_regs_def filter_profiling_regs)
qed

text \<open>C14: when every profiled port has one stream, each of these streams gets one profiler, and the six counters of the
  profilers are connected to the six registers of the streams, taken in the order of the addresses of the signals: the registers
  named after stream \<open>k\<close> get the counters of the stream at place \<open>k\<close> in that order. So every stream reaches its own registers if
  and only if the addresses happen to follow the order of the ports; otherwise registers show the counters of another stream.\<close>

theorem profiling_counters:
  assumes "Design_new (design_profiling flatten lib nm) opts = Inr d" "design_components lib nm d = Inr rbs"
    "design_nucleus lib nm d = Inr nu" "distinct (map fp_name (concat (map bc_ports rbs)))"
    "\<forall>p\<in>set (profiled rbs). one_stream (flatten (fp_type p))"
    "mset (by_address (length (profiled rbs))) = mset [0..<length (profiled rbs)]"
  shows "\<exists>profilers es. ProfileDataStreams flatten signal_name by_address nu (concat (all_regs d)) = Inr (profilers, es)
    \<and> length profilers = length (profiled rbs)
    \<and> (\<forall>k<length (profiled rbs). \<forall>c<6. \<exists>r. (r, by_address (length (profiled rbs)) ! k, c) \<in> set es
        \<and> mr_name (concat (all_regs d) ! r) =
          ''Profile_'' @ stream_name flatten (profiled rbs ! k) @ ''_'' @ show_nat 0 @ ''_'' @ counter_names ! c)
    \<and> (distinct (map (stream_name flatten) (profiled rbs)) \<longrightarrow>
        ((\<forall>(r, j, c)\<in>set es. mr_name (concat (all_regs d) ! r) =
            ''Profile_'' @ stream_name flatten (profiled rbs ! j) @ ''_'' @ show_nat 0 @ ''_'' @ counter_names ! c)
         \<longleftrightarrow> by_address (length (profiled rbs)) = [0..<length (profiled rbs)]))"
proof -
  let ?n = "length (profiled rbs)" and ?regs = "concat (all_regs d)"
  let ?order = "by_address ?n"
  have order: "length ?order = ?n" "\<forall>k\<in>set ?order. k < ?n"
    using assms(6) mset_eq_length mset_eq_setD by fastforce+
  have arrow: "\<forall>rb\<in>set rbs. \<forall>p\<in>set (bc_ports rb). fp_profile p \<longrightarrow> fp_function p = FP_ARROW"
    using component_profile [OF assms(2)] by blast
  have nu: "Nucleus_new rbs ?regs = Inr nu" using assms(2,3) by (simp add: design_nucleus_def)
  then obtain pss where pss: "res_mapM nucleus_batch_ports rbs = Inr pss" "nu_ports nu = concat pss"
    by (auto simp: Nucleus_new_def res_bind_Inr_iff)
  let ?rev = "\<lambda>p. p\<lparr>fp_dir := reverse_dir (fp_dir p)\<rparr>"
  have ports: "filter (\<lambda>p. fp_function p = FP_ARROW \<and> fp_profile p) (nu_ports nu) = map ?rev (profiled rbs)"
    using nucleus_profiled [OF pss(1) arrow] pss(2) by simp
  have edges: "edge_count (fp_name p) (nu_edges nu) = 1" if "p \<in> set (profiled rbs)" for p
    using that by (intro edge_count_nucleus [OF nu assms(4)]) (auto simp: profiled_def)
  let ?nodes = "map (\<lambda>p. (signal_name (fp_name p), fp_type p, fp_domain p)) (map ?rev (profiled rbs))"
  have "\<forall>(nm, ty, domain)\<in>set ?nodes. one_stream (flatten ty) \<and> domain = KCD"
    using assms(5) component_profile [OF assms(2)] by (auto simp: profiled_def)
  from EnableStreamProfiling_ok [OF this, of 0] obtain entries where
    entries: "EnableStreamProfiling flatten nucleus_cr_ports 0 ?nodes = Inr entries" "length entries = ?n"
    "\<forall>j<?n. length (fst (entries ! j)) = 1 \<and> snd (entries ! j) = map (Pair j) [0..<6]" by auto
  define sorted where "sorted = map (\<lambda>k. entries ! k) ?order"
  define cs where "cs = concat (map snd sorted)"
  have snds: "\<forall>xs\<in>set (map snd sorted). length xs = 6" using entries(3) order(2) by (auto simp: sorted_def)
  have fsts: "\<forall>xs\<in>set (map fst sorted). length xs = 1" using entries(3) order(2) by (auto simp: sorted_def)
  have lens: "length sorted = ?n" "length cs = ?n * 6" "length (concat (map fst sorted)) = ?n"
    using order(1) length_concat_blocks [OF snds] length_concat_blocks [OF fsts] by (simp_all add: sorted_def cs_def)
  have named: "stream_regs (fp_name p) 0 (flatten (fp_type p)) = map (counter_reg (''Profile_'' @ stream_name flatten p) 0) [0..<6]"
    if "p \<in> set (profiled rbs)" for p
  proof -
    have "one_stream (flatten (fp_type p))" using assms(5) that by blast
    then obtain t where "filter fl_stream (flatten (fp_type p)) = [t]"
      by (auto simp: one_stream_def length_Suc_conv)
    then show ?thesis using stream_regs_one by (simp add: stream_name_def del: upt_rec_numeral)
  qed
  let ?blocks = "map (\<lambda>p. map (counter_reg (''Profile_'' @ stream_name flatten p) 0) [0..<6]) (profiled rbs)"
  let ?ports = "profile_status_ports ?regs"
  have status: "map (nth ?regs) ?ports = concat ?blocks"
    using map_nth_filter [of ?regs profile_status] design_status_regs [OF assms(1,2)] named
    by (simp add: profile_status_ports_def profile_status_def cong: map_cong del: upt_rec_numeral)
  have blocks: "\<forall>xs\<in>set ?blocks. length xs = 6" by simp
  have len_ports: "length ?ports = ?n * 6"
    using arg_cong [OF status, of length] length_concat_blocks [OF blocks] by simp
  have "connect_counters ?ports 0 cs = Inr (zip ?ports cs)"
    using connect_counters_ok [of 0 cs ?ports] lens(2) len_ports by simp
  note counters = this
  have run: "ProfileDataStreams flatten signal_name by_address nu ?regs = Inr (concat (map fst sorted), zip ?ports cs)"
  proof (cases "profiled rbs = []")
    case True
    then show ?thesis using lens ports by (simp add: ProfileDataStreams_def Let_def)
  next
    case False
    moreover have "\<not> (\<exists>p\<in>set (map ?rev (profiled rbs)). edge_count (fp_name p) (nu_edges nu) \<noteq> 1)"
      using edges by auto
    ultimately show ?thesis
      unfolding ProfileDataStreams_def Let_def ports entries(1) entries(2) res_bind_simps sorted_def [symmetric] cs_def [symmetric] counters
      by (simp only: if_False map_is_Nil_conv res_bind_simps)
  qed
  let ?reg_name = "\<lambda>k c. ''Profile_'' @ stream_name flatten (profiled rbs ! k) @ ''_'' @ show_nat 0 @ ''_'' @ counter_names ! c"
  have wire: "cs ! (k * 6 + c) = (?order ! k, c) \<and> mr_name (?regs ! (?ports ! (k * 6 + c))) = ?reg_name k c"
    if k: "k < ?n" and c: "c < 6" for k c
  proof -
    have at: "k * 6 + c < length cs" "cs ! (k * 6 + c) = map snd sorted ! k ! c"
      using concat_blocks_nth [OF snds, of k c] k c lens(1) by (simp_all add: cs_def)
    moreover have "map snd sorted ! k ! c = (?order ! k, c)"
      using k c lens(1) order entries(3) by (simp add: sorted_def)
    moreover have "?regs ! (?ports ! (k * 6 + c)) = ?blocks ! k ! c"
      using concat_blocks_nth [OF blocks, of k c] k c lens(2) at(1) len_ports arg_cong [OF status, of "\<lambda>xs. xs ! (k * 6 + c)"] by simp
    ultimately show ?thesis using k c by (simp add: counter_reg_def mmio_reg_new_def)
  qed
  have edge: "(?ports ! (k * 6 + c), ?order ! k, c) \<in> set (zip ?ports cs)" if "k < ?n" "c < 6" for k c
    using wire [OF that] that len_ports lens(2) by (auto simp: in_set_zip)
  have only: "\<exists>k<?n. r = ?ports ! (k * 6 + c) \<and> j = ?order ! k \<and> c < 6" if e: "(r, j, c) \<in> set (zip ?ports cs)" for r j c
  proof -
    obtain m where m: "m < ?n * 6" "r = ?ports ! m" "cs ! m = (j, c)"
      using e len_ports lens(2) by (auto simp: in_set_zip)
    have k: "m div 6 < ?n" "m mod 6 < 6" "m div 6 * 6 + m mod 6 = m" using m(1) by (auto simp: less_mult_imp_div_less)
    then show ?thesis using wire [OF k(1,2)] m by (intro exI [of _ "m div 6"]) simp
  qed
  have "(\<forall>(r, j, c)\<in>set (zip ?ports cs). mr_name (?regs ! r) = ?reg_name j c) \<longleftrightarrow> ?order = [0..<?n]"
    if dist: "distinct (map (stream_name flatten) (profiled rbs))"
  proof
    assume own: "\<forall>(r, j, c)\<in>set (zip ?ports cs). mr_name (?regs ! r) = ?reg_name j c"
    have "?order ! k = k" if k: "k < ?n" for k
    proof -
      have "?reg_name (?order ! k) 0 = ?reg_name k 0" using own edge [OF k, of 0] wire [OF k, of 0] by auto
      then have "stream_name flatten (profiled rbs ! (?order ! k)) = stream_name flatten (profiled rbs ! k)" by simp
      moreover have "?order ! k < ?n" using order k by simp
      ultimately show ?thesis using dist k nth_eq_iff_index_eq [OF dist, of "?order ! k" k] by simp
    qed
    then show "?order = [0..<?n]" using order(1) by (intro nth_equalityI) simp_all
  next
    assume "?order = [0..<?n]"
    then show "\<forall>(r, j, c)\<in>set (zip ?ports cs). mr_name (?regs ! r) = ?reg_name j c"
      using only wire by fastforce
  qed
  moreover have "\<exists>r. (r, ?order ! k, c) \<in> set (zip ?ports cs) \<and> mr_name (?regs ! r) = ?reg_name k c" if "k < ?n" "c < 6" for k c
    using wire [OF that] edge [OF that] by blast
  ultimately show ?thesis using run lens(3) by blast
qed

definition profiled_field :: "string \<Rightarrow> arrow_field" where
  "profiled_field n = Field n (FIXED INT32) False (Some [(meta_PROFILE, ''true'')])"

definition profiled_schema :: arrow_schema where
  "profiled_schema = WithMetaRequired \<lparr>schema_fields = [profiled_field ''a'', profiled_field ''b''], schema_metadata = None\<rparr> ''In'' READ"

definition profiled_options :: options where
  "profiled_options = example_options\<lparr>opt_schemas := [profiled_schema]\<rparr>"

text \<open>A stream with its valid, ready and data types.\<close>

definition plain_flatten :: "hw_type \<Rightarrow> flat_entry list" where
  "plain_flatten ty = (let other = \<lparr>fl_record = False, fl_stream = False, fl_meta = [], fl_name = id, fl_name_sep = id\<rparr> in
     [\<lparr>fl_record = True, fl_stream = True, fl_meta = [], fl_name = id, fl_name_sep = id\<rparr>, other, other, other])"

lemma profiled_fields: "generable (profiled_field n)" "\<not> GetBoolMeta (profiled_field n) meta_IGNORE False"
    "GetBoolMeta (profiled_field n) meta_PROFILE False" "field_name (profiled_field n) = n"
  by (simp_all add: profiled_field_def generable_def per_cycle_def kernel_kind_def GetBoolMeta_def GetMeta_def lookup_meta_def
      meta_keys int_meta_def GetUIntMeta_def)

lemma profiled_design:
  "\<exists>d s desc. Design_new profiling profiled_options = Inr d \<and> ss_schemas (d_schema_set d) = [s] \<and> d_batch_desc d = [desc]
    \<and> fs_arrow_schema s = profiled_schema \<and> fs_name s = ''In'' \<and> length (bd_fields desc) = 2
    \<and> d_profiling_regs d = profiling [s] [desc]"
proof -
  let ?s = "\<lparr>fs_arrow_schema = profiled_schema, fs_mode = READ, fs_name = ''In'', fs_bus_dims = BusDim_default\<rparr>"
  have a: "AnalyzeSchemas profiled_options = Inr \<lparr>ss_name = ''Kernel'', ss_schemas = [?s]\<rparr>"
    by (simp add: AnalyzeSchemas_def profiled_options_def example_options_def Options_default_def AppendSchema_def SchemaSet_Make_def
        HasSchemaWithName_def FletcherSchema_new_def BusDim_FromString_def SchemaSet_Sort_def profiled_schema_def WithMetaRequired_def
        WithMetadata_schema_def GetMeta_schema_def lookup_meta_def meta_keys GetMode_def Let_def)
  have b: "\<exists>desc. AnalyzeRecordBatches profiled_options \<lparr>ss_name = ''Kernel'', ss_schemas = [?s]\<rparr> = Inr [desc] \<and> length (bd_fields desc) = 2"
    by (simp add: AnalyzeRecordBatches_def analyze_one_def profiled_options_def example_options_def Options_default_def
        GetRecordBatchWithName_def SchemaAnalyzer_Analyze_def FieldAnalyzer_unfold profiled_schema_def WithMetaRequired_def
        WithMetadata_schema_def empty_description_def profiled_field_def)
  have "opt_bus_dims profiled_options = [''64,512,8,1,16'']" "opt_regs profiled_options = opt_regs example_options"
    by (simp_all add: profiled_options_def example_options_def Options_default_def)
  then show ?thesis using b by (auto simp: Design_new_def a example_regs bus_dim_example)
qed

lemma add_field_profiled:
  assumes "add_field lib schema f = Inr (ps, arrs)" "\<not> GetBoolMeta f meta_IGNORE False" "GetBoolMeta f meta_PROFILE False"
  shows "\<exists>arrow. filter fp_profile ps = [arrow] \<and> fp_name arrow = fs_name schema @ ''_'' @ field_name f
    \<and> map fp_name ps = map (\<lambda>t. fs_name schema @ ''_'' @ field_name f @ t) [[], ''_cmd'', ''_unl'']"
  using assms by (auto simp: add_field_def arrow_port_def command_port_def unlock_port_def res_bind_Inr_iff)

lemma profiled_ports:
  assumes "design_components lib nm d = Inr rbs" "ss_schemas (d_schema_set d) = [s]" "d_batch_desc d = [desc]"
    "fs_arrow_schema s = profiled_schema" "fs_name s = ''In''"
  shows "map fp_name (concat (map bc_ports rbs)) = [''In_a'', ''In_a_cmd'', ''In_a_unl'', ''In_b'', ''In_b_cmd'', ''In_b_unl'']"
    "map fp_name (profiled rbs) = [''In_a'', ''In_b'']"
proof -
  have fs: "schema_fields profiled_schema = [profiled_field ''a'', profiled_field ''b'']"
    by (simp add: profiled_schema_def WithMetaRequired_def WithMetadata_schema_def)
  obtain rb where rb: "rbs = [rb]" "RecordBatch_new lib (nm @ ''_'' @ fs_name s) s desc = Inr rb"
    using assms(1-3) by (auto simp: design_components_def res_bind_Inr_iff)
  then obtain ps as' qs bs where f: "add_field lib s (profiled_field ''a'') = Inr (ps, as')"
      "add_field lib s (profiled_field ''b'') = Inr (qs, bs)" "bc_ports rb = ps @ qs"
    by (auto simp: RecordBatch_new_def assms(4) fs res_bind_Inr_iff)
  show "map fp_name (concat (map bc_ports rbs)) = [''In_a'', ''In_a_cmd'', ''In_a_unl'', ''In_b'', ''In_b_cmd'', ''In_b_unl'']"
    "map fp_name (profiled rbs) = [''In_a'', ''In_b'']"
    using add_field_profiled [OF f(1) profiled_fields(2,3)] add_field_profiled [OF f(2) profiled_fields(2,3)] f(3)
    by (auto simp: rb(1) profiled_def profiled_fields(4) assms(5))
qed

text \<open>With the addresses of the two signals in reverse order the registers of the first stream show the counters of the second.\<close>

lemma profiling_counters_witness:
  "\<exists>d nu profilers es r. Design_new (design_profiling plain_flatten example_lib ''Kernel'') profiled_options = Inr d
    \<and> design_nucleus example_lib ''Kernel'' d = Inr nu
    \<and> ProfileDataStreams plain_flatten id (\<lambda>n. rev [0..<n]) nu (concat (all_regs d)) = Inr (profilers, es)
    \<and> (r, 1, 3) \<in> set es \<and> mr_name (concat (all_regs d) ! r) = ''Profile_In_a_0_transfers''"
proof -
  let ?p = "design_profiling plain_flatten example_lib ''Kernel''"
  obtain d s desc where d: "Design_new ?p profiled_options = Inr d" "ss_schemas (d_schema_set d) = [s]" "d_batch_desc d = [desc]"
    "fs_arrow_schema s = profiled_schema" "fs_name s = ''In''" "length (bd_fields desc) = 2" "d_profiling_regs d = ?p [s] [desc]"
    using profiled_design [of ?p] by blast
  have fs: "schema_fields_of s = [profiled_field ''a'', profiled_field ''b'']"
    using d(4) by (simp add: schema_fields_of_def profiled_schema_def WithMetaRequired_def WithMetadata_schema_def)
  have "mr_function r = F_PROFILE" if "r \<in> set (GetProfilingRegs plain_flatten rbs)" for r rbs
    using that by (auto simp: GetProfilingRegs_def mmio_reg_new_def dest: stream_regs_kind split: if_splits)
  then have "\<forall>r\<in>set (d_profiling_regs d). mr_function r \<noteq> F_BUFFER"
    by (auto simp: d(7) design_profiling_def split: sum.splits)
  then have reg: "regular_design d" using d(2,3,6) fs profiled_fields(1) by (simp add: regular_design_def)
  obtain nu where nu: "design_nucleus example_lib ''Kernel'' d = Inr nu"
    using design_nucleus_lanes [OF example_lib_documented d(1) reg] by blast
  then obtain rbs where rbs: "design_components example_lib ''Kernel'' d = Inr rbs" by (auto simp: design_nucleus_def res_bind_Inr_iff)
  note names = profiled_ports [OF rbs d(2-5)]
  have n: "length (profiled rbs) = 2" using arg_cong [OF names(2), of length] by simp
  have one: "\<forall>p\<in>set (profiled rbs). one_stream (plain_flatten (fp_type p))" by (simp add: plain_flatten_def one_stream_def Let_def)
  have dist: "distinct (map fp_name (concat (map bc_ports rbs)))" unfolding names(1) by simp
  have zero: "show_nat 0 = ''0''" by code_simp
  have "fp_name (profiled rbs ! 0) = ''In_a''" using arg_cong [OF names(2), of "\<lambda>xs. xs ! 0"] n by simp
  then have "''Profile_'' @ stream_name plain_flatten (profiled rbs ! 0) @ ''_'' @ show_nat 0 @ ''_'' @ counter_names ! 3 = ''Profile_In_a_0_transfers''"
    using zero by (simp add: stream_name_def plain_flatten_def Let_def counter_names_def)
  note name = this
  have "mset (rev [0..<length (profiled rbs)]) = mset [0..<length (profiled rbs)]" by simp
  then have "mset ((\<lambda>n. rev [0..<n]) (length (profiled rbs))) = mset [0..<length (profiled rbs)]" .
  from profiling_counters [OF d(1) rbs nu dist one, of "\<lambda>n. rev [0..<n]" id, OF this] obtain profilers es where
    run: "ProfileDataStreams plain_flatten id (\<lambda>n. rev [0..<n]) nu (concat (all_regs d)) = Inr (profilers, es)"
    and counters: "\<forall>k<length (profiled rbs). \<forall>c<6. \<exists>r. (r, rev [0..<length (profiled rbs)] ! k, c) \<in> set es
        \<and> mr_name (concat (all_regs d) ! r) =
          ''Profile_'' @ stream_name plain_flatten (profiled rbs ! k) @ ''_'' @ show_nat 0 @ ''_'' @ counter_names ! c"
    by blast
  have "rev [0..<length (profiled rbs)] ! 0 = 1" "0 < length (profiled rbs)" "(3::nat) < 6" by (simp_all add: n numeral_2_eq_2)
  with counters have "\<exists>r. (r, 1, 3) \<in> set es \<and> mr_name (concat (all_regs d) ! r) = ''Profile_In_a_0_transfers''"
    unfolding name [symmetric] by metis
  then show ?thesis using d(1) nu run by blast
qed

end
