(* ===== verification/Transfers.thy ===== *)
theory Transfers
  imports Host_Memory
begin

text \<open>
  Sequences of \<^verbatim>\<open>memset\<close> and \<^verbatim>\<open>memcpy\<close> on the memory of the process. When the blocks that are written do not
  meet each other or a block that is read, the order does not matter: each block ends up with its bytes, and nothing else
  changes.
\<close>

datatype mem_op = Set_block u64 nat u8 | Copy_block u64 u64 nat

definition memset :: "u64 \<Rightarrow> u8 \<Rightarrow> nat \<Rightarrow> host_memory \<Rightarrow> host_memory res" where
  "memset a b n mem = write_host mem a (replicate n b)"

definition memcpy :: "u64 \<Rightarrow> u64 \<Rightarrow> nat \<Rightarrow> host_memory \<Rightarrow> host_memory res" where
  "memcpy dst src n mem = res_bind (read_host mem src n) (write_host mem dst)"

fun run_op :: "mem_op \<Rightarrow> host_memory \<Rightarrow> host_memory res" where
  "run_op (Set_block a n b) mem = memset a b n mem"
| "run_op (Copy_block dst src n) mem = memcpy dst src n mem"

fun transfers :: "mem_op list \<Rightarrow> host_memory \<Rightarrow> host_memory res" where
  "transfers [] mem = Inr mem"
| "transfers (t # ts) mem = res_bind (run_op t mem) (transfers ts)"

lemma transfers_append: "transfers (ss @ ts) mem = res_bind (transfers ss mem) (transfers ts)"
  by (induction ss arbitrary: mem) (auto simp: res_bind_def split: sum.splits)

section \<open>Blocks\<close>

type_synonym block = "u64 \<times> nat"

definition in_block :: "block \<Rightarrow> u64 \<Rightarrow> bool" where
  "in_block r x = (unat (x - fst r) < snd r)"

definition disjoint_blocks :: "block \<Rightarrow> block \<Rightarrow> bool" where
  "disjoint_blocks r s = (\<forall>x. \<not> (in_block r x \<and> in_block s x))"

text \<open>Blocks in ascending order that do not wrap around are disjoint.\<close>

lemma disjoint_blocks_ordered:
  assumes "unat a + n \<le> unat b" "unat b + m \<le> 2 ^ 64"
  shows "disjoint_blocks (a, n) (b, m)" "disjoint_blocks (b, m) (a, n)"
proof -
  have unat_sub: "unat (x - c) = (if c \<le> x then unat x - unat c else unat x + 2 ^ 64 - unat c)" for x c :: u64
    by (auto simp: unat_sub_if_size word_le_nat_alt word_size)
  have "\<not> (unat (x - a) < n \<and> unat (x - b) < m)" for x
    using assms unat_lt_u64 [of x] by (auto simp: unat_sub word_le_nat_alt split: if_splits)
  then show "disjoint_blocks (a, n) (b, m)" "disjoint_blocks (b, m) (a, n)"
    by (auto simp: disjoint_blocks_def in_block_def)
qed

lemma disjoint_blocksI:
  "unat a + n \<le> unat b \<and> unat b + m \<le> 2 ^ 64 \<or> unat b + m \<le> unat a \<and> unat a + n \<le> 2 ^ 64 \<Longrightarrow> disjoint_blocks (a, n) (b, m)"
  using disjoint_blocks_ordered(1) [of a n b m] disjoint_blocks_ordered(2) [of b m a n] by blast

definition mapped_block :: "host_memory \<Rightarrow> block \<Rightarrow> bool" where
  "mapped_block mem r = (snd r \<le> 2 ^ 64 \<and> (\<forall>i < snd r. mem (fst r + of_nat i) \<noteq> None))"

definition block_bytes :: "host_memory \<Rightarrow> block \<Rightarrow> u8 list" where
  "block_bytes mem r = map (\<lambda>i. the (mem (fst r + of_nat i))) [0..<snd r]"

lemma block_bytes_length [simp]: "length (block_bytes mem r) = snd r"
  by (simp add: block_bytes_def)

lemma read_mapped: "mapped_block mem (a, n) \<Longrightarrow> read_host mem a n = Inr (block_bytes mem (a, n))"
  by (auto simp: mapped_block_def read_host_iff block_bytes_def)

lemma in_block_offset: "i < snd r \<Longrightarrow> snd r \<le> 2 ^ 64 \<Longrightarrow> in_block r (fst r + of_nat i)"
  by (simp add: in_block_def)

section \<open>What a transfer reads and writes\<close>

fun target :: "mem_op \<Rightarrow> block" where
  "target (Set_block a n b) = (a, n)"
| "target (Copy_block dst src n) = (dst, n)"

fun source :: "mem_op \<Rightarrow> block" where
  "source (Set_block a n b) = (a, 0)"
| "source (Copy_block dst src n) = (src, n)"

fun moved :: "host_memory \<Rightarrow> mem_op \<Rightarrow> u8 list" where
  "moved mem (Set_block a n b) = replicate n b"
| "moved mem (Copy_block dst src n) = block_bytes mem (src, n)"

lemma moved_length [simp]: "length (moved mem t) = snd (target t)"
  by (cases t) simp_all

lemma run_op_ok:
  assumes "mapped_block mem (target t)" "mapped_block mem (source t)"
  shows "run_op t mem = Inr (put_bytes mem (fst (target t)) (moved mem t))"
proof (cases t)
  case (Set_block a n b)
  then show ?thesis using assms(1) by (simp add: memset_def write_host_iff mapped_block_def)
next
  case (Copy_block dst src n)
  then show ?thesis using assms read_mapped [of mem src n] by (simp add: memcpy_def write_host_iff mapped_block_def)
qed

lemma put_bytes_outside: "\<not> in_block (a, length bs) x \<Longrightarrow> put_bytes mem a bs x = mem x"
  by (simp add: put_bytes_def in_block_def Let_def)

lemma put_bytes_mapped: "mapped_block mem r \<Longrightarrow> mapped_block (put_bytes mem a bs) r"
  by (auto simp: mapped_block_def put_bytes_def Let_def)

lemma block_bytes_put:
  assumes "disjoint_blocks (a, length bs) r" "snd r \<le> 2 ^ 64"
  shows "block_bytes (put_bytes mem a bs) r = block_bytes mem r"
proof -
  have "put_bytes mem a bs (fst r + of_nat i) = mem (fst r + of_nat i)" if "i < snd r" for i
    using assms in_block_offset [OF that assms(2)] by (intro put_bytes_outside) (auto simp: disjoint_blocks_def)
  then show ?thesis by (simp add: block_bytes_def)
qed

text \<open>Transfers that do not interfere, in a memory in which all their blocks are mapped.\<close>

fun independent :: "mem_op list \<Rightarrow> bool" where
  "independent [] = True"
| "independent (t # ts) = (independent ts \<and> disjoint_blocks (target t) (source t)
     \<and> (\<forall>s\<in>set ts. disjoint_blocks (target t) (target s) \<and> disjoint_blocks (target t) (source s) \<and> disjoint_blocks (target s) (source t)))"

definition ready :: "host_memory \<Rightarrow> mem_op list \<Rightarrow> bool" where
  "ready mem ts = (\<forall>t\<in>set ts. mapped_block mem (target t) \<and> mapped_block mem (source t))"

lemma moved_put:
  assumes "disjoint_blocks (a, length bs) (source t)" "mapped_block mem (source t)"
  shows "moved (put_bytes mem a bs) t = moved mem t"
  using assms block_bytes_put [of a bs "source t" mem] by (cases t) (simp_all add: mapped_block_def)

lemma transfers_ok:
  "independent ts \<Longrightarrow> ready mem ts \<Longrightarrow>
   \<exists>mem'. transfers ts mem = Inr mem'
    \<and> (\<forall>t\<in>set ts. read_host mem' (fst (target t)) (snd (target t)) = Inr (moved mem t))
    \<and> (\<forall>x. (\<forall>t\<in>set ts. \<not> in_block (target t) x) \<longrightarrow> mem' x = mem x)"
proof (induction ts arbitrary: mem)
  case (Cons t ts)
  let ?m = "put_bytes mem (fst (target t)) (moved mem t)"
  have ind: "independent ts" "\<forall>s\<in>set ts. disjoint_blocks (target t) (target s) \<and> disjoint_blocks (target t) (source s)"
    using Cons.prems(1) by simp_all
  have mapped: "mapped_block mem (target t)" "mapped_block mem (source t)" "ready mem ts" using Cons.prems(2) by (simp_all add: ready_def)
  have step: "run_op t mem = Inr ?m" using mapped by (intro run_op_ok)
  have "ready ?m ts" using mapped(3) by (auto simp: ready_def put_bytes_mapped)
  from Cons.IH [OF ind(1) this] obtain mem' where mem': "transfers ts ?m = Inr mem'"
    "\<forall>s\<in>set ts. read_host mem' (fst (target s)) (snd (target s)) = Inr (moved ?m s)"
    "\<forall>x. (\<forall>s\<in>set ts. \<not> in_block (target s) x) \<longrightarrow> mem' x = ?m x" by blast
  have same: "moved ?m s = moved mem s" if "s \<in> set ts" for s
    using that ind(2) mapped(3) by (intro moved_put) (simp_all add: ready_def)
  have n: "snd (target t) \<le> 2 ^ 64" using mapped(1) by (simp add: mapped_block_def)
  have "mem' (fst (target t) + of_nat i) = Some (moved mem t ! i)" if i: "i < snd (target t)" for i
  proof -
    have "in_block (target t) (fst (target t) + of_nat i)" using i n by (rule in_block_offset)
    then have "mem' (fst (target t) + of_nat i) = ?m (fst (target t) + of_nat i)"
      using mem'(3) ind(2) unfolding disjoint_blocks_def by blast
    then show ?thesis using i n by (simp add: put_bytes_def Let_def)
  qed
  then have first: "read_host mem' (fst (target t)) (snd (target t)) = Inr (moved mem t)" by (simp add: read_host_iff)
  have rest: "mem' x = mem x" if "\<forall>s\<in>set (t # ts). \<not> in_block (target s) x" for x
    using that mem'(3) put_bytes_outside [of "fst (target t)" "moved mem t" x mem] by simp
  show ?case using step mem'(1,2) same first rest by (intro exI [of _ mem']) auto
qed simp

end
