(* ===== verification/Jni_Batches.thy ===== *)
theory Jni_Batches
  imports Meta Transfers
begin

text \<open>
  Record batches on the border to Java: \<^verbatim>\<open>native_root/jni/Converters.cpp\<close>, \<^verbatim>\<open>JavaResizableBuffer.cpp\<close>,
  \<^verbatim>\<open>JavaMemoryPool.cpp\<close> and the reading of batches in \<^verbatim>\<open>native_root/arrow/DataSetParquetReader.cpp\<close>. The Java objects that expand
  a vector and that allocate memory, and the scan of the data set, are parameters. The copies between host buffers are transfers; a
  copy between blocks that overlap moves the bytes that were there before.
\<close>

section \<open>Batches from the addresses of Java\<close>

text \<open>A buffer is its address and size, None the null pointer. \<open>ad_nulls\<close> is the null count, None if it is not known.\<close>

type_synonym jbuf = "u64 \<times> int"

record array_data =
  ad_type :: arrow_type
  ad_length :: int
  ad_buffers :: "jbuf option list"
  ad_nulls :: "int option"

definition is_binary_like :: "arrow_type \<Rightarrow> bool" where
  "is_binary_like t = (t = BINARY \<or> t = STRING)"

definition take_buffer :: "u64 list \<Rightarrow> int list \<Rightarrow> nat \<Rightarrow> nat \<Rightarrow> jbuf res" where
  "take_buffer addrs sizes i j = (if i < length addrs \<and> j < length sizes then Inr (addrs ! i, sizes ! j) else Inl Undefined)"

text \<open>One round of the loop. None is the status \<^verbatim>\<open>Invalid\<close>; otherwise the column and the next two indices.\<close>

definition make_column ::
    "u64 list \<Rightarrow> int list \<Rightarrow> int \<Rightarrow> int \<Rightarrow> arrow_field \<Rightarrow> nat \<Rightarrow> nat \<Rightarrow> (array_data \<times> nat \<times> nat) option res" where
  "make_column addrs sizes in_bufs_len num_rows f i j =
    (if in_bufs_len \<le> int i then Inr None
     else res_bind (if field_nullable f then Inr ([None], i, j)
                    else res_bind (take_buffer addrs sizes i j) (\<lambda>b. Inr ([Some b], Suc i, Suc j))) (\<lambda>(buffers, i, j).
       if in_bufs_len \<le> int i then Inr None
       else res_bind (take_buffer addrs sizes i j) (\<lambda>data.
         let column = (\<lambda>buffers. \<lparr>ad_type = field_type f, ad_length = num_rows, ad_buffers = buffers,
               ad_nulls = (if field_nullable f then None else Some 0)\<rparr>) in
         if is_binary_like (field_type f) then
           (if in_bufs_len \<le> int (Suc i) then Inr None
            else res_bind (take_buffer addrs sizes (Suc i) (Suc j)) (\<lambda>offsets.
              Inr (Some (column (buffers @ [Some data, Some offsets]), Suc (Suc i), Suc (Suc j)))))
         else Inr (Some (column (buffers @ [Some data]), Suc i, Suc j)))))"

fun make_columns :: "u64 list \<Rightarrow> int list \<Rightarrow> int \<Rightarrow> int \<Rightarrow> arrow_field list \<Rightarrow> nat \<Rightarrow> nat \<Rightarrow> array_data list option res" where
  "make_columns addrs sizes in_bufs_len num_rows [] i j = Inr (Some [])"
| "make_columns addrs sizes in_bufs_len num_rows (f # fs) i j =
    res_bind (make_column addrs sizes in_bufs_len num_rows f i j) (\<lambda>r. case r of
        None \<Rightarrow> Inr None
      | Some (c, i, j) \<Rightarrow> res_bind (make_columns addrs sizes in_bufs_len num_rows fs i j) (\<lambda>cs. Inr (map_option (Cons c) cs)))"

definition make_record_batch_with_buf_addrs ::
    "arrow_schema \<Rightarrow> int \<Rightarrow> u64 list \<Rightarrow> int list \<Rightarrow> int \<Rightarrow> (arrow_schema \<times> int \<times> array_data list) option res" where
  "make_record_batch_with_buf_addrs schema num_rows in_buf_addrs in_buf_sizes in_bufs_len =
    res_bind (make_columns in_buf_addrs in_buf_sizes in_bufs_len num_rows (schema_fields schema) 0 0) (\<lambda>cs.
      Inr (map_option (\<lambda>cs. (schema, num_rows, cs)) cs))"

text \<open>The buffers that the code takes for a field, and the columns as a function of the list of buffers.\<close>

definition own_buffers :: "arrow_field \<Rightarrow> nat" where
  "own_buffers f = (if field_nullable f then 0 else 1) + 1 + of_bool (is_binary_like (field_type f))"

definition column_of :: "int \<Rightarrow> arrow_field \<Rightarrow> jbuf list \<Rightarrow> array_data" where
  "column_of num_rows f bufs =
    \<lparr>ad_type = field_type f, ad_length = num_rows, ad_buffers = (if field_nullable f then [None] else []) @ map Some bufs,
     ad_nulls = (if field_nullable f then None else Some 0)\<rparr>"

fun split_columns :: "int \<Rightarrow> arrow_field list \<Rightarrow> jbuf list \<Rightarrow> array_data list option" where
  "split_columns num_rows [] bufs = Some []"
| "split_columns num_rows (f # fs) bufs =
    (if length bufs < own_buffers f then None
     else map_option (Cons (column_of num_rows f (take (own_buffers f) bufs))) (split_columns num_rows fs (drop (own_buffers f) bufs)))"

lemma take_buffer_ok: "i < length addrs \<Longrightarrow> length addrs = length sizes \<Longrightarrow> take_buffer addrs sizes i i = Inr (zip addrs sizes ! i)"
  by (simp add: take_buffer_def)

lemma take_drop_nth:
  "i < length xs \<Longrightarrow> take (Suc 0) (drop i xs) = [xs ! i]"
  "Suc i < length xs \<Longrightarrow> take (Suc (Suc 0)) (drop i xs) = [xs ! i, xs ! Suc i]"
  "Suc (Suc i) < length xs \<Longrightarrow> take (Suc (Suc (Suc 0))) (drop i xs) = [xs ! i, xs ! Suc i, xs ! Suc (Suc i)]"
  by (simp_all add: Cons_nth_drop_Suc [symmetric])

lemma make_column_split:
  assumes "length sizes = length addrs" "i \<le> length addrs"
  shows "make_column addrs sizes (int (length addrs)) num_rows f i i =
    Inr (if length addrs - i < own_buffers f then None
         else Some (column_of num_rows f (take (own_buffers f) (drop i (zip addrs sizes))), i + own_buffers f, i + own_buffers f))"
proof -
  let ?n = "length addrs" and ?z = "zip addrs sizes"
  have tb: "take_buffer addrs sizes k k = Inr (?z ! k)" if "k < ?n" for k
    using take_buffer_ok that assms(1) by simp
  note defs = make_column_def own_buffers_def column_of_def Let_def
  consider "?n = i" | "?n = Suc i" | "?n = Suc (Suc i)" | "Suc (Suc i) < ?n" using assms(2) by linarith
  then show ?thesis
  proof cases
    case 1
    then show ?thesis by (simp add: defs)
  next
    case 2
    then show ?thesis using tb [of i] take_drop_nth(1) [of i ?z] assms(1) by (simp add: defs)
  next
    case 3
    then show ?thesis using tb [of i] tb [of "Suc i"] take_drop_nth(1,2) [of i ?z] assms(1) by (simp add: defs)
  next
    case 4
    then show ?thesis using tb [of i] tb [of "Suc i"] tb [of "Suc (Suc i)"] take_drop_nth [of i ?z] assms(1) by (simp add: defs) linarith
  qed
qed

lemma make_columns_split:
  assumes "length sizes = length addrs"
  shows "i \<le> length addrs \<Longrightarrow> make_columns addrs sizes (int (length addrs)) num_rows fs i i =
    Inr (split_columns num_rows fs (drop i (zip addrs sizes)))"
proof (induction fs arbitrary: i)
  case (Cons f fs)
  show ?case
  proof (cases "length addrs - i < own_buffers f")
    case True
    then show ?thesis using assms Cons.prems by (simp add: make_column_split)
  next
    case False
    then have "i + own_buffers f \<le> length addrs" using Cons.prems by simp
    then show ?thesis using assms Cons.prems False Cons.IH [of "i + own_buffers f"] by (simp add: make_column_split add.commute)
  qed
qed simp

text \<open>The buffers that Java holds for a field, whether it is nullable or not: the ones of \<^verbatim>\<open>VectorUnloader\<close> that
  \<^verbatim>\<open>FletcherProcessor.scala\<close> passes, which \<open>copy_record_batch_ito_buffers\<close> below also writes. The validity buffer is the first.\<close>

definition out_buffers :: "arrow_field \<Rightarrow> nat" where
  "out_buffers f = 2 + of_bool (is_binary_like (field_type f))"

definition java_buffers :: "arrow_field list \<Rightarrow> 'a list \<Rightarrow> nat \<Rightarrow> 'a list" where
  "java_buffers fs bufs k = take (out_buffers (fs ! k)) (drop (sum_list (map out_buffers (take k fs))) bufs)"

lemma own_buffers_out: "own_buffers f = (if field_nullable f then out_buffers f - 1 else out_buffers f)"
  by (simp add: own_buffers_def out_buffers_def)

lemma split_columns_None: "split_columns num_rows fs bufs = None \<longleftrightarrow> length bufs < sum_list (map own_buffers fs)"
  by (induction fs arbitrary: bufs) auto

text \<open>As long as no field was nullable the code is in step with Java.\<close>

lemma split_columns_nth:
  "split_columns num_rows fs bufs = Some cols \<Longrightarrow> k < length fs \<Longrightarrow> (\<forall>j<k. \<not> field_nullable (fs ! j)) \<Longrightarrow>
   cols ! k = column_of num_rows (fs ! k) (take (own_buffers (fs ! k)) (java_buffers fs bufs k))"
proof (induction fs arbitrary: bufs cols k)
  case (Cons f fs)
  obtain cs where cs: "split_columns num_rows fs (drop (own_buffers f) bufs) = Some cs"
    "cols = column_of num_rows f (take (own_buffers f) bufs) # cs"
    using Cons.prems(1) by (auto split: if_splits)
  show ?case
  proof (cases k)
    case 0
    then show ?thesis using cs by (simp add: java_buffers_def own_buffers_out)
  next
    case (Suc k')
    have e: "own_buffers f = out_buffers f" using Cons.prems(3) Suc by (auto simp: own_buffers_out)
    have "\<forall>j<k'. \<not> field_nullable (fs ! j)" using Cons.prems(3) Suc by auto
    then have "cs ! k' = column_of num_rows (fs ! k') (take (own_buffers (fs ! k')) (java_buffers fs (drop (own_buffers f) bufs) k'))"
      using Cons.IH [OF cs(1), of k'] Cons.prems(2) Suc by simp
    then show ?thesis using Suc cs(2) e by (simp add: java_buffers_def add.commute)
  qed
qed simp

lemma split_columns_length: "split_columns num_rows fs bufs = Some cols \<Longrightarrow> length cols = length fs"
  by (induction fs arbitrary: bufs cols) (auto split: if_splits)

text \<open>C29: what becomes of the buffers of Java. Given the buffers of all vectors, a validity buffer with each, the batch is made, and
  every field before the first nullable one gets its own buffers. The first nullable field gets no validity buffer and the
  others one place too early: the validity bits are taken for its values, and its last buffer is left over, for the next field
  to start with. So the batch is the one of Java exactly when no field is nullable.\<close>

theorem batch_from_java:
  assumes "length in_buf_sizes = length in_buf_addrs"
    and "length in_buf_addrs = sum_list (map out_buffers (schema_fields schema))"
  shows "\<exists>cols. make_record_batch_with_buf_addrs schema num_rows in_buf_addrs in_buf_sizes (int (length in_buf_addrs)) =
      Inr (Some (schema, num_rows, cols)) \<and> length cols = length (schema_fields schema)
    \<and> (\<forall>k<length cols. (\<forall>j\<le>k. \<not> field_nullable (schema_fields schema ! j)) \<longrightarrow>
        ad_buffers (cols ! k) = map Some (java_buffers (schema_fields schema) (zip in_buf_addrs in_buf_sizes) k))
    \<and> (\<forall>k<length cols. field_nullable (schema_fields schema ! k) \<and> (\<forall>j<k. \<not> field_nullable (schema_fields schema ! j)) \<longrightarrow>
        ad_buffers (cols ! k) = None # map Some (butlast (java_buffers (schema_fields schema) (zip in_buf_addrs in_buf_sizes) k)))
    \<and> ((\<forall>k<length cols. ad_buffers (cols ! k) = map Some (java_buffers (schema_fields schema) (zip in_buf_addrs in_buf_sizes) k))
        \<longleftrightarrow> (\<forall>f\<in>set (schema_fields schema). \<not> field_nullable f))"
proof -
  let ?fs = "schema_fields schema" and ?bufs = "zip in_buf_addrs in_buf_sizes"
  have le: "own_buffers f \<le> out_buffers f" for f by (simp add: own_buffers_out)
  then have "sum_list (map own_buffers ?fs) \<le> sum_list (map out_buffers ?fs)" by (simp add: sum_list_mono)
  then obtain cols where cols: "split_columns num_rows ?fs ?bufs = Some cols"
    using split_columns_None [of num_rows ?fs ?bufs] assms by (cases "split_columns num_rows ?fs ?bufs") auto
  have made: "make_record_batch_with_buf_addrs schema num_rows in_buf_addrs in_buf_sizes (int (length in_buf_addrs)) =
      Inr (Some (schema, num_rows, cols))"
    using make_columns_split [OF assms(1), of 0] cols by (simp add: make_record_batch_with_buf_addrs_def)
  note len = split_columns_length [OF cols] and nth = split_columns_nth [OF cols]
  have slots: "length (java_buffers ?fs ?bufs k) = out_buffers (?fs ! k)" if k: "k < length ?fs" for k
  proof -
    have "?fs = take k ?fs @ ?fs ! k # drop (Suc k) ?fs" using k by (rule id_take_nth_drop)
    then have "sum_list (map out_buffers ?fs) = sum_list (map out_buffers (take k ?fs @ ?fs ! k # drop (Suc k) ?fs))"
      by (rule arg_cong)
    then show ?thesis using assms by (simp add: java_buffers_def)
  qed
  have right: "ad_buffers (cols ! k) = map Some (java_buffers ?fs ?bufs k)"
    if "k < length cols" "\<forall>j\<le>k. \<not> field_nullable (?fs ! j)" for k
    using nth [of k] that slots [of k] len by (simp add: column_of_def own_buffers_out)
  have wrong: "ad_buffers (cols ! k) = None # map Some (butlast (java_buffers ?fs ?bufs k))"
    if "k < length cols" "field_nullable (?fs ! k)" "\<forall>j<k. \<not> field_nullable (?fs ! j)" for k
    using nth [of k] that slots [of k] len by (simp add: column_of_def own_buffers_out butlast_conv_take)
  have "\<not> field_nullable f" if all: "\<forall>k<length cols. ad_buffers (cols ! k) = map Some (java_buffers ?fs ?bufs k)" "f \<in> set ?fs" for f
  proof
    assume "field_nullable f"
    then have "\<exists>k. k < length ?fs \<and> field_nullable (?fs ! k)" using all(2) by (metis in_set_conv_nth)
    then obtain k where k: "k < length ?fs" "field_nullable (?fs ! k)" "\<forall>j<k. \<not> (j < length ?fs \<and> field_nullable (?fs ! j))"
      using exists_least_iff [of "\<lambda>k. k < length ?fs \<and> field_nullable (?fs ! k)"] by auto
    then have "ad_buffers (cols ! k) = None # map Some (butlast (java_buffers ?fs ?bufs k))"
      using wrong [of k] len by auto
    moreover have "ad_buffers (cols ! k) = map Some (java_buffers ?fs ?bufs k)" using all(1) k(1) len by simp
    ultimately show False by (cases "java_buffers ?fs ?bufs k") auto
  qed
  then have "(\<forall>k<length cols. ad_buffers (cols ! k) = map Some (java_buffers ?fs ?bufs k))
      \<longleftrightarrow> (\<forall>f\<in>set ?fs. \<not> field_nullable f)"
    using right len by auto
  then show ?thesis using made len right wrong by blast
qed

lemma batch_from_java_witness:
  "\<exists>cols. make_record_batch_with_buf_addrs
      \<lparr>schema_fields = [Field ''a'' (FIXED INT64) False None, Field ''b'' STRING True None], schema_metadata = None\<rparr>
      3 [100, 200, 300, 400, 500] [1, 24, 1, 16, 9] (int (length [100, 200, 300, 400, 500 :: u64])) =
    Inr (Some (\<lparr>schema_fields = [Field ''a'' (FIXED INT64) False None, Field ''b'' STRING True None], schema_metadata = None\<rparr>, 3, cols))
    \<and> ad_buffers (cols ! 0) = [Some (100, 1), Some (200, 24)]
    \<and> ad_buffers (cols ! 1) = [None, Some (300, 1), Some (400, 16)]"
proof -
  let ?s = "\<lparr>schema_fields = [Field ''a'' (FIXED INT64) False None, Field ''b'' STRING True None], schema_metadata = None\<rparr>"
  have hyps: "length [1, 24, 1, 16, 9 :: int] = length [100, 200, 300, 400, 500 :: u64]"
    "length [100, 200, 300, 400, 500 :: u64] = sum_list (map out_buffers (schema_fields ?s))"
    by (simp_all add: out_buffers_def is_binary_like_def)
  have slots: "java_buffers (schema_fields ?s) [(100, 1), (200, 24), (300, 1), (400, 16), (500, 9)] 0 = [(100 :: u64, 1 :: int), (200, 24)]"
    "java_buffers (schema_fields ?s) [(100, 1), (200, 24), (300, 1), (400, 16), (500, 9)] 1 = [(300 :: u64, 1 :: int), (400, 16), (500, 9)]"
    by (simp_all add: java_buffers_def out_buffers_def is_binary_like_def numeral_eq_Suc)
  obtain cols where cols: "make_record_batch_with_buf_addrs ?s 3 [100, 200, 300, 400, 500] [1, 24, 1, 16, 9]
      (int (length [100, 200, 300, 400, 500 :: u64])) = Inr (Some (?s, 3, cols))" "length cols = 2"
    and right: "\<forall>k<length cols. (\<forall>j\<le>k. \<not> field_nullable (schema_fields ?s ! j)) \<longrightarrow>
        ad_buffers (cols ! k) = map Some (java_buffers (schema_fields ?s) (zip [100, 200, 300, 400, 500] [1, 24, 1, 16, 9]) k)"
    and wrong: "\<forall>k<length cols. field_nullable (schema_fields ?s ! k) \<and> (\<forall>j<k. \<not> field_nullable (schema_fields ?s ! j)) \<longrightarrow>
        ad_buffers (cols ! k) = None # map Some (butlast (java_buffers (schema_fields ?s) (zip [100, 200, 300, 400, 500] [1, 24, 1, 16, 9]) k))"
    using batch_from_java [OF hyps, of 3] by auto
  have "ad_buffers (cols ! 0) = [Some (100, 1), Some (200, 24)]" using right [rule_format, of 0] cols(2) slots by simp
  moreover have "ad_buffers (cols ! 1) = [None, Some (300, 1), Some (400, 16)]" using wrong [rule_format, of 1] cols(2) slots by simp
  ultimately show ?thesis using cols(1) by blast
qed

section \<open>Buffers that Java can expand\<close>

datatype arrow_status = Arrow_OK | Arrow_NotImplemented string | Arrow_OutOfMemory string

record java_buffer =
  jb_address :: u64
  jb_size :: int
  jb_capacity :: int
  jb_vector :: nat

text \<open>The length of the constructor is an \<^verbatim>\<open>int32_t\<close>.\<close>

definition JavaResizableBuffer_new :: "nat \<Rightarrow> u64 \<Rightarrow> int \<Rightarrow> java_buffer" where
  "JavaResizableBuffer_new vector_idx buffer len =
    \<lparr>jb_address = buffer, jb_size = 0, jb_capacity = sint (word_of_int len :: u32), jb_vector = vector_idx\<rparr>"

text \<open>\<open>expand\<close> is the method of the expander in Java: the new address and capacity, None after an exception. The copy of the old
  contents that Java makes when it moves a vector is on its side and not part of the memory here.\<close>

definition JavaResizableBuffer_Resize ::
    "(nat \<Rightarrow> int \<Rightarrow> (u64 \<times> int) option) \<Rightarrow> int \<Rightarrow> bool \<Rightarrow> java_buffer \<Rightarrow> arrow_status \<times> java_buffer" where
  "JavaResizableBuffer_Resize expand new_size shrink_to_fit b =
    (if shrink_to_fit then (Arrow_NotImplemented ''shrink not implemented'', b)
     else if new_size < jb_capacity b then (Arrow_OK, b\<lparr>jb_size := new_size\<rparr>)
     else case expand (jb_vector b) new_size of
         None \<Rightarrow> (Arrow_OutOfMemory ''buffer expand failed in java'', b)
       | Some (ret_address, ret_capacity) \<Rightarrow>
           (Arrow_OK, b\<lparr>jb_address := ret_address, jb_size := new_size, jb_capacity := ret_capacity\<rparr>))"

definition JavaResizableBuffer_Reserve :: "int \<Rightarrow> java_buffer \<Rightarrow> arrow_status \<times> java_buffer" where
  "JavaResizableBuffer_Reserve new_capacity b = (Arrow_NotImplemented ''reserve not implemented'', b)"

text \<open>The methods of the memory pool in Java, on its state. An address is what the method returns, whatever it is.\<close>

record 'j java_pool =
  jp_allocate :: "int \<Rightarrow> 'j \<Rightarrow> u64 \<times> 'j"
  jp_reallocate :: "u64 \<Rightarrow> int \<Rightarrow> 'j \<Rightarrow> u64 \<times> 'j"
  jp_free :: "u64 \<Rightarrow> 'j \<Rightarrow> 'j"

definition JavaMemoryPool_Allocate :: "'j java_pool \<Rightarrow> int \<Rightarrow> 'j \<Rightarrow> arrow_status \<times> u64 \<times> 'j" where
  "JavaMemoryPool_Allocate pool sz j = (let (ret, j) = jp_allocate pool sz j in (Arrow_OK, ret, j))"

definition JavaMemoryPool_Reallocate :: "'j java_pool \<Rightarrow> int \<Rightarrow> int \<Rightarrow> u64 \<Rightarrow> 'j \<Rightarrow> arrow_status \<times> u64 \<times> 'j" where
  "JavaMemoryPool_Reallocate pool old_size new_size ptr j = (let (ret, j) = jp_reallocate pool ptr new_size j in (Arrow_OK, ret, j))"

definition JavaMemoryPool_Free :: "'j java_pool \<Rightarrow> u64 \<Rightarrow> int \<Rightarrow> 'j \<Rightarrow> 'j" where
  "JavaMemoryPool_Free pool buffer sz j = jp_free pool buffer j"

section \<open>Copying a batch to buffers of Java\<close>

definition size_t :: "int \<Rightarrow> nat" where
  "size_t n = unat (of_int n :: u64)"

definition at :: "'a list \<Rightarrow> nat \<Rightarrow> 'a res" where
  "at xs i = (if i < length xs then Inr (xs ! i) else Inl Undefined)"

definition copy_validity :: "jbuf list \<Rightarrow> nat \<Rightarrow> jbuf option \<Rightarrow> host_memory \<Rightarrow> host_memory res" where
  "copy_validity outs i b mem =
    res_bind (at outs i) (\<lambda>(out_addr, out_size). case b of
        None \<Rightarrow> memset out_addr 0xFF (size_t out_size) mem
      | Some (addr, sz) \<Rightarrow> if sz \<le> out_size then memcpy out_addr addr (size_t sz) mem else Inl Exited)"

definition copy_values :: "jbuf list \<Rightarrow> nat \<Rightarrow> jbuf option \<Rightarrow> host_memory \<Rightarrow> host_memory res" where
  "copy_values outs i b mem =
    (case b of
        None \<Rightarrow> Inl Undefined
      | Some (addr, sz) \<Rightarrow> res_bind (at outs i) (\<lambda>(out_addr, out_size).
          if sz \<le> out_size then memcpy out_addr addr (size_t sz) mem else Inl Exited))"

definition copy_offsets ::
    "(nat \<Rightarrow> int \<Rightarrow> (u64 \<times> int) option) \<Rightarrow> jbuf list \<Rightarrow> nat \<Rightarrow> nat \<Rightarrow> jbuf option \<Rightarrow> host_memory \<Rightarrow> host_memory res" where
  "copy_offsets expand outs i vector_idx b mem =
    res_bind (at outs i) (\<lambda>(out_addr, out_size). case b of
        None \<Rightarrow> Inl Undefined
      | Some (addr, sz) \<Rightarrow>
          (let (st, r) = JavaResizableBuffer_Resize expand sz False (JavaResizableBuffer_new vector_idx out_addr out_size)
           in if st \<noteq> Arrow_OK then Inl Exited else memcpy (jb_address r) addr (size_t sz) mem))"

text \<open>One round of the loop: the next indices and the memory. The tests of \<^verbatim>\<open>ASSERT\<close> end the program.\<close>

definition copy_column ::
    "(nat \<Rightarrow> int \<Rightarrow> (u64 \<times> int) option) \<Rightarrow> jbuf list \<Rightarrow> int \<Rightarrow> array_data \<Rightarrow> arrow_field \<Rightarrow> nat \<times> nat \<times> host_memory \<Rightarrow>
     (nat \<times> nat \<times> host_memory) res" where
  "copy_column expand outs out_bufs_len a f = (\<lambda>(i, v, mem).
    if int i > out_bufs_len then Inl Exited
    else res_bind (at (ad_buffers a) 0) (\<lambda>validity_buffer.
    res_bind (copy_validity outs i validity_buffer mem) (\<lambda>mem.
    if int (Suc i) > out_bufs_len then Inl Exited
    else res_bind (at (ad_buffers a) 1) (\<lambda>value_buffer.
    res_bind (copy_values outs (Suc i) value_buffer mem) (\<lambda>mem.
    if is_binary_like (field_type f) then
      (if int (Suc (Suc i)) > out_bufs_len then Inl Exited
       else res_bind (at (ad_buffers a) 2) (\<lambda>offset_buffer.
       res_bind (copy_offsets expand outs (Suc (Suc i)) v offset_buffer mem) (\<lambda>mem.
       Inr (Suc (Suc (Suc i)), Suc v, mem))))
    else Inr (Suc (Suc i), v, mem))))))"

fun copy_columns ::
    "(nat \<Rightarrow> int \<Rightarrow> (u64 \<times> int) option) \<Rightarrow> jbuf list \<Rightarrow> int \<Rightarrow> (arrow_field \<times> array_data) list \<Rightarrow> nat \<times> nat \<times> host_memory \<Rightarrow>
     (nat \<times> nat \<times> host_memory) res" where
  "copy_columns expand outs out_bufs_len [] s = Inr s"
| "copy_columns expand outs out_bufs_len ((f, a) # cols) s =
    res_bind (copy_column expand outs out_bufs_len a f s) (copy_columns expand outs out_bufs_len cols)"

definition copy_record_batch_ito_buffers ::
    "(nat \<Rightarrow> int \<Rightarrow> (u64 \<times> int) option) \<Rightarrow> arrow_schema \<Rightarrow> array_data list \<Rightarrow> jbuf list \<Rightarrow> int \<Rightarrow> host_memory \<Rightarrow> host_memory res" where
  "copy_record_batch_ito_buffers expand schema columns outs out_bufs_len mem =
    (if length columns < length (schema_fields schema) then Inl Undefined
     else res_bind (copy_columns expand outs out_bufs_len (zip (schema_fields schema) columns) (0, 0, mem)) (\<lambda>(_, _, mem). Inr mem))"

section \<open>A copy is a list of transfers\<close>

text \<open>The transfers of a column to the buffers from \<open>i\<close> on.\<close>

definition column_transfers ::
    "(nat \<Rightarrow> int \<Rightarrow> (u64 \<times> int) option) \<Rightarrow> jbuf list \<Rightarrow> arrow_field \<Rightarrow> array_data \<Rightarrow> nat \<Rightarrow> nat \<Rightarrow> mem_op list" where
  "column_transfers expand outs f a i v =
    (case ad_buffers a ! 0 of
       None \<Rightarrow> Set_block (fst (outs ! i)) (size_t (snd (outs ! i))) 0xFF
     | Some (addr, sz) \<Rightarrow> Copy_block (fst (outs ! i)) addr (size_t sz)) #
    Copy_block (fst (outs ! Suc i)) (fst (the (ad_buffers a ! 1))) (size_t (snd (the (ad_buffers a ! 1)))) #
    (if is_binary_like (field_type f) then
       let (addr, sz) = the (ad_buffers a ! 2);
           r = snd (JavaResizableBuffer_Resize expand sz False (JavaResizableBuffer_new v (fst (outs ! Suc (Suc i))) (snd (outs ! Suc (Suc i)))))
       in [Copy_block (jb_address r) addr (size_t sz)]
     else [])"

fun batch_transfers ::
    "(nat \<Rightarrow> int \<Rightarrow> (u64 \<times> int) option) \<Rightarrow> jbuf list \<Rightarrow> (arrow_field \<times> array_data) list \<Rightarrow> nat \<Rightarrow> nat \<Rightarrow> mem_op list" where
  "batch_transfers expand outs [] i v = []"
| "batch_transfers expand outs ((f, a) # cols) i v =
    column_transfers expand outs f a i v @
    batch_transfers expand outs cols (i + out_buffers f) (v + of_bool (is_binary_like (field_type f)))"

text \<open>The buffers of a column are there and fit in their places, and Java expands where it is asked to.\<close>

definition fits ::
    "(nat \<Rightarrow> int \<Rightarrow> (u64 \<times> int) option) \<Rightarrow> jbuf list \<Rightarrow> arrow_field \<Rightarrow> array_data \<Rightarrow> nat \<Rightarrow> bool" where
  "fits expand outs f a i =
    (length (ad_buffers a) = out_buffers f
     \<and> (case ad_buffers a ! 0 of None \<Rightarrow> True | Some (addr, sz) \<Rightarrow> sz \<le> snd (outs ! i))
     \<and> (case ad_buffers a ! 1 of None \<Rightarrow> False | Some (addr, sz) \<Rightarrow> sz \<le> snd (outs ! Suc i))
     \<and> (is_binary_like (field_type f) \<longrightarrow> ad_buffers a ! 2 \<noteq> None))"

fun all_fit :: "(nat \<Rightarrow> int \<Rightarrow> (u64 \<times> int) option) \<Rightarrow> jbuf list \<Rightarrow> (arrow_field \<times> array_data) list \<Rightarrow> nat \<Rightarrow> bool" where
  "all_fit expand outs [] i = (i \<le> length outs)"
| "all_fit expand outs ((f, a) # cols) i = (fits expand outs f a i \<and> all_fit expand outs cols (i + out_buffers f))"

lemma all_fit_bound: "all_fit expand outs cols i \<Longrightarrow> i \<le> length outs"
proof (induction cols arbitrary: i)
  case (Cons c cols)
  then show ?case using add_leD1 by (cases c) fastforce
qed simp

definition expands :: "(nat \<Rightarrow> int \<Rightarrow> (u64 \<times> int) option) \<Rightarrow> bool" where
  "expands expand = (\<forall>v n. expand v n \<noteq> None)"

lemma Resize_OK: "expands expand \<Longrightarrow> fst (JavaResizableBuffer_Resize expand n False b) = Arrow_OK"
proof -
  assume "expands expand"
  then obtain r where "expand (jb_vector b) n = Some r" unfolding expands_def by (meson not_Some_eq)
  then show ?thesis by (cases r) (simp add: JavaResizableBuffer_Resize_def)
qed

lemma copy_column_transfers:
  assumes "fits expand outs f a i" "i + out_buffers f \<le> length outs" "expands expand"
  shows "copy_column expand outs (int (length outs)) a f (i, v, mem) =
    res_bind (transfers (column_transfers expand outs f a i v) mem)
      (\<lambda>mem. Inr (i + out_buffers f, v + of_bool (is_binary_like (field_type f)), mem))"
proof -
  note defs = copy_column_def copy_validity_def copy_values_def copy_offsets_def column_transfers_def at_def
  have b: "length (ad_buffers a) = out_buffers f" "2 \<le> out_buffers f" using assms(1) by (simp_all add: fits_def out_buffers_def)
  obtain addr1 sz1 where one: "ad_buffers a ! 1 = Some (addr1, sz1)" "sz1 \<le> snd (outs ! Suc i)"
    using assms(1) by (auto simp: fits_def split: option.splits)
  have validity: "(case ad_buffers a ! 0 of None \<Rightarrow> True | Some (addr, sz) \<Rightarrow> sz \<le> snd (outs ! i))" using assms(1) by (simp add: fits_def)
  show ?thesis
  proof (cases "is_binary_like (field_type f)")
    case False
    then have "i + 2 \<le> length outs" "length (ad_buffers a) = 2" using assms(2) b by (simp_all add: out_buffers_def)
    then show ?thesis using one validity False
      by (cases "ad_buffers a ! 0") (auto simp: defs out_buffers_def split_beta res_bind_def split: sum.splits)
  next
    case True
    obtain addr2 sz2 where two: "ad_buffers a ! 2 = Some (addr2, sz2)" using assms(1) True by (auto simp: fits_def)
    have len: "i + 3 \<le> length outs" "length (ad_buffers a) = 3" using assms(2) b True by (simp_all add: out_buffers_def)
    note ok = Resize_OK [OF assms(3), of sz2 "JavaResizableBuffer_new v (fst (outs ! Suc (Suc i))) (snd (outs ! Suc (Suc i)))"]
    show ?thesis using one two validity True len ok
      by (cases "ad_buffers a ! 0") (auto simp: defs out_buffers_def split_beta res_bind_def Let_def split: sum.splits)
  qed
qed

lemma copy_columns_transfers:
  assumes "expands expand"
  shows "all_fit expand outs cols i \<Longrightarrow>
    \<exists>i' v'. copy_columns expand outs (int (length outs)) cols (i, v, mem) =
      res_bind (transfers (batch_transfers expand outs cols i v) mem) (\<lambda>mem. Inr (i', v', mem))"
proof (induction cols arbitrary: i v mem)
  case (Cons c cols)
  obtain f a where c: "c = (f, a)" by (cases c)
  have fit: "fits expand outs f a i" "all_fit expand outs cols (i + out_buffers f)" using Cons.prems by (simp_all add: c)
  let ?i = "i + out_buffers f" and ?v = "v + of_bool (is_binary_like (field_type f)) :: nat"
  note step = copy_column_transfers [OF fit(1) all_fit_bound [OF fit(2)] assms, of v mem]
  show ?case
  proof (cases "transfers (column_transfers expand outs f a i v) mem")
    case (Inl e)
    then show ?thesis by (simp add: c step transfers_append)
  next
    case (Inr m)
    then show ?thesis using Cons.IH [OF fit(2), of ?v m] by (simp add: c step transfers_append)
  qed
qed (simp add: exI)

text \<open>C15: When the buffers of a batch fit in their places, the blocks that are written are mapped and meet neither each other nor a
  buffer of the batch, copying a batch leaves in the places of each field, in order, its validity bits (ones when there are none), its
  values and, for strings and binary data, the buffer behind them, and changes no other byte.\<close>

theorem batch_to_java:
  assumes "expands expand" "length columns = length (schema_fields schema)"
    "all_fit expand outs (zip (schema_fields schema) columns) 0"
    "independent (batch_transfers expand outs (zip (schema_fields schema) columns) 0 0)"
    "ready mem (batch_transfers expand outs (zip (schema_fields schema) columns) 0 0)"
  shows "\<exists>mem'. copy_record_batch_ito_buffers expand schema columns outs (int (length outs)) mem = Inr mem'
    \<and> (\<forall>t\<in>set (batch_transfers expand outs (zip (schema_fields schema) columns) 0 0).
        read_host mem' (fst (target t)) (snd (target t)) = Inr (moved mem t))
    \<and> (\<forall>x. (\<forall>t\<in>set (batch_transfers expand outs (zip (schema_fields schema) columns) 0 0). \<not> in_block (target t) x)
        \<longrightarrow> mem' x = mem x)"
proof -
  let ?ops = "batch_transfers expand outs (zip (schema_fields schema) columns) 0 0"
  obtain mem' where run: "transfers ?ops mem = Inr mem'"
    and written: "\<forall>t\<in>set ?ops. read_host mem' (fst (target t)) (snd (target t)) = Inr (moved mem t)"
      "\<forall>x. (\<forall>t\<in>set ?ops. \<not> in_block (target t) x) \<longrightarrow> mem' x = mem x"
    using transfers_ok [OF assms(4,5)] by (elim exE conjE) (rule that)
  obtain i' v' where "copy_columns expand outs (int (length outs)) (zip (schema_fields schema) columns) (0, 0, mem) =
      res_bind (transfers ?ops mem) (\<lambda>mem. Inr (i', v', mem))"
    using copy_columns_transfers [OF assms(1,3)] by blast
  then have "copy_record_batch_ito_buffers expand schema columns outs (int (length outs)) mem = Inr mem'"
    using assms(2) run by (simp add: copy_record_batch_ito_buffers_def)
  then show ?thesis using written by blast
qed

lemma batch_to_java_witness:
  "\<exists>mem'. copy_record_batch_ito_buffers (\<lambda>v n. Some (0, n)) \<lparr>schema_fields = [Field ''a'' STRING False None], schema_metadata = None\<rparr>
      [\<lparr>ad_type = STRING, ad_length = 2, ad_buffers = [None, Some (100, 12), Some (120, 3)], ad_nulls = Some 0\<rparr>]
      [(0, 1), (8, 12), (32, 4)] (int (length [(0 :: u64, 1 :: int), (8, 12), (32, 4)])) (\<lambda>x. Some (ucast x)) = Inr mem'
    \<and> read_host mem' 0 1 = Inr [0xFF] \<and> read_host mem' 32 3 = Inr [120, 121, 122]"
proof -
  let ?a = "\<lparr>ad_type = STRING, ad_length = 2, ad_buffers = [None, Some (100, 12), Some (120, 3)], ad_nulls = Some 0\<rparr>"
  let ?s = "\<lparr>schema_fields = [Field ''a'' STRING False None], schema_metadata = None\<rparr>"
  let ?e = "\<lambda>(v :: nat) (n :: int). Some (0 :: u64, n)"
  let ?outs = "[(0 :: u64, 1 :: int), (8, 12), (32, 4)]" and ?mem = "\<lambda>x :: u64. Some (ucast x :: u8)"
  have ops: "batch_transfers ?e ?outs (zip (schema_fields ?s) [?a]) 0 0 = [Set_block 0 1 0xFF, Copy_block 8 100 12, Copy_block 32 120 3]"
    by (simp add: column_transfers_def is_binary_like_def size_t_def JavaResizableBuffer_Resize_def JavaResizableBuffer_new_def)
  have e: "expands ?e" by (simp add: expands_def)
  have fit: "all_fit ?e ?outs (zip (schema_fields ?s) [?a]) 0"
    by (simp add: fits_def out_buffers_def is_binary_like_def numeral_2_eq_2 numeral_3_eq_3)
  have ind: "independent (batch_transfers ?e ?outs (zip (schema_fields ?s) [?a]) 0 0)"
    unfolding ops by (auto intro!: disjoint_blocksI)
  have ready: "ready ?mem (batch_transfers ?e ?outs (zip (schema_fields ?s) [?a]) 0 0)"
    unfolding ops by (simp add: ready_def mapped_block_def)
  have bytes: "block_bytes ?mem (120, 3) = [120, 121, 122]"
    by (simp add: block_bytes_def numeral_3_eq_3)
  show ?thesis
    using batch_to_java [OF e, of "[?a]" ?s, OF _ fit ind ready] unfolding ops by (auto simp: bytes)
qed

section \<open>Reading a data set\<close>

text \<open>The batches that the current iterator still has, and the scan tasks behind it with their batches. What Arrow returns at an
  end is None.\<close>

record 'b dataset_reader =
  dr_batches :: "'b list"
  dr_tasks :: "'b list list"

text \<open>The constructor takes the first task at once.\<close>

definition DataSetParquetReader_new :: "'b list list \<Rightarrow> 'b dataset_reader res" where
  "DataSetParquetReader_new tasks = (case tasks of
      [] \<Rightarrow> Inl Undefined
    | t # ts \<Rightarrow> Inr \<lparr>dr_batches = t, dr_tasks = ts\<rparr>)"

fun read_next :: "'b list \<Rightarrow> 'b list list \<Rightarrow> 'b option \<times> 'b dataset_reader" where
  "read_next (b # bs) tasks = (Some b, \<lparr>dr_batches = bs, dr_tasks = tasks\<rparr>)"
| "read_next [] [] = (None, \<lparr>dr_batches = [], dr_tasks = []\<rparr>)"
| "read_next [] (t # ts) = read_next t ts"

definition ReadNext :: "'b dataset_reader \<Rightarrow> 'b option \<times> 'b dataset_reader" where
  "ReadNext r = read_next (dr_batches r) (dr_tasks r)"

text \<open>The loop of \<^verbatim>\<open>readWholeFileWithDefaultMemoryPool\<close>: None when it does not end.\<close>

partial_function (option) read_whole :: "'b dataset_reader \<Rightarrow> 'b list option" where
  "read_whole r = (case ReadNext r of
      (None, r') \<Rightarrow> Some []
    | (Some b, r') \<Rightarrow> Option.bind (read_whole r') (\<lambda>bs. Some (b # bs)))"

definition unread :: "'b dataset_reader \<Rightarrow> 'b list" where
  "unread r = dr_batches r @ concat (dr_tasks r)"

lemma ReadNext_unread:
  "fst (ReadNext r) = (case unread r of [] \<Rightarrow> None | b # _ \<Rightarrow> Some b) \<and> unread (snd (ReadNext r)) = tl (unread r)"
proof -
  have "fst (read_next bs ts) = (case bs @ concat ts of [] \<Rightarrow> None | b # _ \<Rightarrow> Some b)
      \<and> unread (snd (read_next bs ts)) = tl (bs @ concat ts)" for bs :: "'b list" and ts
    by (induction bs ts rule: read_next.induct) (simp_all add: unread_def)
  then show ?thesis by (simp add: ReadNext_def unread_def)
qed

text \<open>C31: The reader is a queue of all batches of all scan tasks: each call returns the first one left, skipping tasks without
  batches, and the loop over a whole file ends with all of them in order.\<close>

theorem dataset_reader_delivers:
  "fst (ReadNext r) = (case unread r of [] \<Rightarrow> None | b # _ \<Rightarrow> Some b) \<and> unread (snd (ReadNext r)) = tl (unread r)
    \<and> read_whole r = Some (unread r)"
proof -
  have "read_whole r = Some bs" if "unread r = bs" for bs
    using that
  proof (induction bs arbitrary: r)
    case Nil
    then show ?case using ReadNext_unread [of r] by (subst read_whole.simps) (auto split: prod.splits)
  next
    case (Cons b bs)
    obtain r' where next': "ReadNext r = (Some b, r')" "unread r' = bs"
      using ReadNext_unread [of r] Cons.prems by (cases "ReadNext r") auto
    then show ?case using Cons.IH [OF next'(2)] by (subst read_whole.simps) simp
  qed
  then show ?thesis using ReadNext_unread by blast
qed

text \<open>What \<^verbatim>\<open>readNext\<close> hands to Java for a batch: lengths, null counts and three addresses for each field. \<open>null_count\<close> is
  computed by Arrow.\<close>

definition export_buffers :: "arrow_field \<Rightarrow> array_data \<Rightarrow> u64 list res" where
  "export_buffers f a =
    res_bind (at (ad_buffers a) 0) (\<lambda>validity. res_bind (at (ad_buffers a) 1) (\<lambda>data. case data of
        None \<Rightarrow> Inl Undefined
      | Some (data_addr, _) \<Rightarrow>
          res_bind (if is_binary_like (field_type f) then res_bind (at (ad_buffers a) 2) (\<lambda>offsets. case offsets of
              None \<Rightarrow> Inl Undefined | Some (addr, _) \<Rightarrow> Inr addr) else Inr 0) (\<lambda>third.
          Inr [case validity of None \<Rightarrow> 0 | Some (addr, _) \<Rightarrow> addr, data_addr, third])))"

definition native_readNext ::
    "(array_data \<Rightarrow> int) \<Rightarrow> (arrow_field \<times> array_data) list dataset_reader \<Rightarrow>
     (((int list \<times> int list \<times> u64 list) option) \<times> (arrow_field \<times> array_data) list dataset_reader) res" where
  "native_readNext null_count r =
    (case ReadNext r of
       (None, r') \<Rightarrow> Inr (None, r')
     | (Some cols, r') \<Rightarrow> res_bind (res_mapM (\<lambda>(f, a). export_buffers f a) cols) (\<lambda>bufs.
         Inr (Some (map (ad_length \<circ> snd) cols, map (null_count \<circ> snd) cols, concat bufs), r')))"

end
