(* ===== verification/Tpch.thy ===== *)
theory Tpch
  imports Column_Platform
begin

text \<open>
  The software side of the TPC-H accelerator with one context: the class \<^verbatim>\<open>Tpch\<close> of
  \<^verbatim>\<open>native_root/arrow/include/Tpch.h\<close> and the output batch and the reference query of \<^verbatim>\<open>Util.h\<close>. The platform is the record of
  functions of the run-time; the memory pool is only kept. \<^verbatim>\<open>ASSERT_FLETCHER_OK\<close> ends the program. Numbers of type
  \<^verbatim>\<open>double\<close> are rationals, with the rounding of each operation as a parameter.
\<close>

section \<open>The object\<close>

record tpch =
  tp_base_offset :: u64
  tp_context :: ctx
  tp_kernel :: kernel

definition assert_ok :: "status \<Rightarrow> 'a \<Rightarrow> 'a res" where
  "assert_ok st x = (if status_ok st then Inr x else Inl Exited)"

text \<open>\<^verbatim>\<open>Init\<close> takes the base address as an \<^verbatim>\<open>int\<close>.\<close>

definition Tpch_Make :: "u64 \<Rightarrow> tpch res" where
  "Tpch_Make base_address =
    (let base = scast (ucast base_address :: u32) :: u64; (st, c) = Context_Make in
     assert_ok st \<lparr>tp_base_offset = base, tp_context = c\<lparr>ctx_reg_offset := base\<rparr>, tp_kernel = Kernel_new\<rparr>)"

definition tpch_Queue :: "record_batch option \<Rightarrow> tpch \<Rightarrow> tpch res" where
  "tpch_Queue rb t = res_bind (QueueRecordBatch (tp_context t) rb MEM_ANY) (\<lambda>(st, c). assert_ok st (t\<lparr>tp_context := c\<rparr>))"

definition tpch_Enable :: "'d platform_api \<Rightarrow> tpch \<Rightarrow> 'd \<Rightarrow> (tpch \<times> 'd) res" where
  "tpch_Enable p t d = (let (st, c, d') = Context_Enable p (tp_context t) d in assert_ok st (t\<lparr>tp_context := c\<rparr>, d'))"

definition CopyBatch :: "'d platform_api \<Rightarrow> record_batch option \<Rightarrow> tpch \<Rightarrow> 'd \<Rightarrow> (status \<times> tpch \<times> 'd) res" where
  "CopyBatch p input_batch t d =
    res_bind (tpch_Queue input_batch t) (\<lambda>t. res_bind (tpch_Enable p t d) (\<lambda>(t, d). Inr (Status_OK, t, d)))"

definition CopyInputOutputBatches ::
    "'d platform_api \<Rightarrow> record_batch option \<Rightarrow> record_batch option \<Rightarrow> tpch \<Rightarrow> 'd \<Rightarrow> (status \<times> tpch \<times> 'd) res" where
  "CopyInputOutputBatches p input_batch output_batch t d =
    res_bind (tpch_Queue input_batch t) (\<lambda>t. res_bind (tpch_Queue output_batch t) (\<lambda>t.
    res_bind (tpch_Enable p t d) (\<lambda>(t, d). Inr (Status_OK, t, d))))"

definition tpch_Reset :: "'d platform_api \<Rightarrow> tpch \<Rightarrow> 'd \<Rightarrow> (status \<times> 'd) res" where
  "tpch_Reset p t d = (let (st, d') = Kernel_Reset p (tp_kernel t) (tp_context t) d in assert_ok st (Status_OK, d'))"

definition tpch_Start :: "'d platform_api \<Rightarrow> tpch \<Rightarrow> 'd \<Rightarrow> (status \<times> tpch \<times> 'd) res" where
  "tpch_Start p t d = res_bind (Kernel_Start p (tp_kernel t) (tp_context t) d) (\<lambda>(st, k, d').
     assert_ok st (Status_OK, t\<lparr>tp_kernel := k\<rparr>, d'))"

definition tpch_WaitForFinish :: "'d platform_api \<Rightarrow> tpch \<Rightarrow> 'd \<Rightarrow> (status \<times> 'd) option" where
  "tpch_WaitForFinish p t d = Option.bind (Kernel_WaitForFinish p (tp_kernel t) (tp_context t) 10 d) (\<lambda>(_, d'). Some (Status_OK, d'))"

section \<open>Results\<close>

text \<open>The number of the first custom register, and one round of the loop over the two halves. \<open>old\<close>, \<open>hi0\<close> and \<open>lo0\<close> are
  what the locals hold before they are read.\<close>

definition result_register :: "ctx \<Rightarrow> nat \<Rightarrow> u64" where
  "result_register c i = of_nat FLETCHER_REG_SCHEMA + 2 * of_nat (num_recordbatches c) + 2 * of_nat (num_buffers c) + of_nat i"

definition result_half :: "'d platform_api \<Rightarrow> ctx \<Rightarrow> u64 \<Rightarrow> u32 \<Rightarrow> u32 \<Rightarrow> nat \<Rightarrow> 'd \<Rightarrow> u32 \<times> 'd" where
  "result_half p c old hi0 lo0 i d =
    (let (_, v, d') = ReadMMIO64 p 0 (result_register c i) old hi0 lo0 d in (ucast (v AND 0xffffffff), d'))"

definition GetReturnValueStatusReg :: "'d platform_api \<Rightarrow> tpch \<Rightarrow> u64 \<Rightarrow> u32 \<Rightarrow> u32 \<Rightarrow> 'd \<Rightarrow> rat \<times> 'd" where
  "GetReturnValueStatusReg p t old hi0 lo0 d =
    (let (rhigh, d1) = result_half p (tp_context t) old hi0 lo0 0 d;
         (rlow, d2) = result_half p (tp_context t) old hi0 lo0 1 d1
     in (fixed_to_float (combine_result rhigh rlow), d2))"

datatype buffer_kind = STRING_OFFSET | STRING_VALUE | PLAIN_VALUE

text \<open>The bytes to copy back for a buffer: sizes are of type \<^verbatim>\<open>size_t\<close>, \<open>num_rows\<close> is an \<^verbatim>\<open>int\<close>.\<close>

definition table_bytes :: "u32 \<Rightarrow> buffer_kind \<Rightarrow> u64 res" where
  "table_bytes num_rows k = (case k of
      STRING_OFFSET \<Rightarrow> if num_rows = 0x7fffffff then Inl Undefined else Inr (4 * scast (num_rows + 1))
    | STRING_VALUE \<Rightarrow> Inr 8
    | PLAIN_VALUE \<Rightarrow> Inr (8 * scast num_rows))"

fun table_loop :: "'d platform_api \<Rightarrow> ctx \<Rightarrow> u32 \<Rightarrow> u32 \<Rightarrow> u64 list \<Rightarrow> buffer_kind list \<Rightarrow> 'd \<Rightarrow> 'd res" where
  "table_loop p c num_rows k [] kinds d = Inr d"
| "table_loop p c num_rows k (b # bs) [] d = Inl Undefined"
| "table_loop p c num_rows k (b # bs) (kd # kinds) d =
    res_bind (device_buffer_at c (unat (scast k :: u64))) (\<lambda>buf.
    res_bind (table_bytes num_rows kd) (\<lambda>n.
    table_loop p c num_rows (k + 1) bs kinds (snd (CopyDeviceToHost p (db_device_address buf) b n d))))"

definition GetReturnTable :: "'d platform_api \<Rightarrow> tpch \<Rightarrow> u32 \<Rightarrow> u32 \<Rightarrow> u64 list \<Rightarrow> buffer_kind list \<Rightarrow> 'd \<Rightarrow> (status \<times> 'd) res" where
  "GetReturnTable p t num_rows device_buffer_offset buffer type_buffer d =
    res_bind (table_loop p (tp_context t) num_rows device_buffer_offset buffer type_buffer d) (\<lambda>d'. Inr (Status_OK, d'))"

section \<open>The reference query\<close>

text \<open>The columns of a batch as \<^verbatim>\<open>raw_values\<close>. \<open>rnd\<close> rounds the exact result of an operation on doubles.\<close>

record lineitem =
  li_quantity :: rat
  li_extendedprice :: rat
  li_discount :: rat
  li_shipdate :: int

text \<open>The constants 0.061 and 0.059 of the source are doubles.\<close>

definition discount_up :: rat where "discount_up = 8791026472627208 / 2 ^ 57"
definition discount_down :: rat where "discount_down = 8502796096475496 / 2 ^ 57"

definition tpch6_selected :: "lineitem \<Rightarrow> bool" where
  "tpch6_selected r = (li_quantity r < 24 \<and> li_shipdate r < 9131 \<and> 8766 \<le> li_shipdate r
     \<and> li_discount r \<le> discount_up \<and> discount_down \<le> li_discount r)"

fun tpch6_loop :: "(rat \<Rightarrow> rat) \<Rightarrow> rat \<Rightarrow> lineitem list \<Rightarrow> rat" where
  "tpch6_loop rnd s [] = s"
| "tpch6_loop rnd s (r # rs) =
    tpch6_loop rnd (if tpch6_selected r then rnd (s + rnd (li_extendedprice r * li_discount r)) else s) rs"

definition tpch6cpuversion :: "(rat \<Rightarrow> rat) \<Rightarrow> lineitem list \<Rightarrow> rat" where
  "tpch6cpuversion rnd rows = tpch6_loop rnd 0 rows"

section \<open>The output batch of query 1\<close>

text \<open>\<^verbatim>\<open>AllocateBuffer\<close> is given a signed 64-bit size and fails for a negative one. The buffers of the ten columns.\<close>

definition query1_columns :: "string list" where
  "query1_columns = [''l_returnflag'', ''l_linestatus'', ''sum_qty'', ''sum_base_price'', ''sum_disc_price'', ''sum_charge'',
     ''avg_qty'', ''avg_price'', ''avg_disc'', ''count_order'']"

definition string_sizes :: "u32 \<Rightarrow> u32 \<Rightarrow> u64 list res" where
  "string_sizes num_strings num_chars =
    (if num_strings = 0x7fffffff then Inl Undefined else Inr [4 * scast (num_strings + 1), scast num_chars])"

definition PrepareOutputRecordBatchQuery1 :: "u32 \<Rightarrow> u32 \<Rightarrow> u32 \<Rightarrow> (arrow_schema \<times> int \<times> u64 list list) res" where
  "PrepareOutputRecordBatchQuery1 num_strings num_chars num_rows =
    res_bind (string_sizes num_strings num_chars) (\<lambda>ss.
      let sizes = [ss, ss] @ replicate 8 [8 * scast num_rows] in
      if \<exists>s\<in>set (concat sizes). sint s < 0 then Inl Exited
      else Inr (\<lparr>schema_fields = map (\<lambda>(n, i). Field n (if i < (2 :: nat) then STRING else FIXED INT64) False None)
                    (zip query1_columns [0..<10]), schema_metadata = None\<rparr>, sint num_rows, sizes))"

section \<open>Where the result is read\<close>

text \<open>Reading a register of the platform returns it and changes nothing.\<close>

definition reads_registers :: "'d platform_api \<Rightarrow> u64 \<Rightarrow> ('d \<Rightarrow> u64 \<Rightarrow> u32) \<Rightarrow> bool" where
  "reads_registers p base reg = (\<forall>off old d. p_ReadMMIO p base off old d = (0, reg d off, d))"

lemma result_half_reads:
  assumes "reads_registers p 0 reg"
  shows "result_half p c old hi0 lo0 i d = (reg d (result_register c i), d)"
proof -
  let ?o = "result_register c i"
  have mask32: "(0xffffffff :: u64) = Bit_Operations.mask 32" by (simp add: mask_eq_exp_minus_1)
  have "ucast ((push_bit 32 (ucast (reg d (?o + 1))) OR ucast (reg d ?o) :: u64) AND 0xffffffff) = reg d ?o"
    unfolding mask32 take_bit_eq_mask [symmetric]
    by (rule bit_word_eqI) (auto simp: bit_simps)
  then show ?thesis
    using assms by (simp add: result_half_def ReadMMIO64_def ReadMMIO_def reads_registers_def status_ok_def mk_status_def
        FLETCHER_STATUS_OK_def)
qed

lemma result_read:
  assumes "reads_registers p 0 reg"
  shows "GetReturnValueStatusReg p t old hi0 lo0 d =
    (fixed_to_float (combine_result (reg d (result_register (tp_context t) 0)) (reg d (result_register (tp_context t) 1))), d)"
  by (simp add: GetReturnValueStatusReg_def result_half_reads [OF assms])

text \<open>Without rounding the reference query is the sum over the selected rows.\<close>

lemma tpch6_exact: "tpch6cpuversion id rows = sum_list (map (\<lambda>r. li_extendedprice r * li_discount r) (filter tpch6_selected rows))"
proof -
  have "tpch6_loop id s rows = s + sum_list (map (\<lambda>r. li_extendedprice r * li_discount r) (filter tpch6_selected rows))" for s
    by (induction rows arbitrary: s) simp_all
  then show ?thesis by (simp add: tpch6cpuversion_def)
qed

lemma toy_reads: "reads_registers toy_api base (\<lambda>d. d)"
  by (simp add: reads_registers_def toy_api_def)

section \<open>Fixed point numbers\<close>

text \<open>The product with a power of two is exact; the conversion cuts off the fraction, and a number that does not fit has no value.
  \<^verbatim>\<open>BaseType\<close> is the 64-bit integer that \<open>fixed_to_float\<close> takes.\<close>

definition round_to_zero :: "rat \<Rightarrow> int" where
  "round_to_zero x = (if 0 \<le> x then \<lfloor>x\<rfloor> else \<lceil>x\<rceil>)"

definition float_to_fixed :: "rat \<Rightarrow> u64 res" where
  "float_to_fixed input = (let v = round_to_zero (2 ^ 18 * input) in if - (2 ^ 63) \<le> v \<and> v < 2 ^ 63 then Inr (of_int v) else Inl Undefined)"

lemma double_of_i64_exact:
  assumes "sint w < 2 ^ 53" "- (2 ^ 53) < sint w"
  shows "double_of_i64 w = of_int (sint w)"
proof (cases "0 \<le> sint w")
  case True
  then obtain n where n: "sint w = int n" using nonneg_int_cases by blast
  then have "n < 2 ^ 53" using assms(1) by simp
  then show ?thesis using n by (simp add: double_of_i64_def round53_exact)
next
  case False
  then obtain n where n: "sint w = - int n" using nonpos_int_cases [of "sint w"] by auto
  then have "n < 2 ^ 53" using assms(2) by simp
  then show ?thesis using n False by (simp add: double_of_i64_def round53_exact)
qed

lemma round_to_zero_of_int [simp]: "round_to_zero (of_int i) = i"
  by (simp add: round_to_zero_def)

text \<open>Fixed point numbers of at most 53 bits survive the way through floating point numbers.\<close>

theorem fixed_float_roundtrip:
  assumes "sint w < 2 ^ 53" "- (2 ^ 53) < sint w"
  shows "float_to_fixed (fixed_to_float w) = Inr w"
proof -
  have "2 ^ 18 * fixed_to_float w = of_int (sint w)"
    by (simp add: fixed_to_float_def double_of_i64_exact [OF assms])
  then have c: "round_to_zero (2 ^ 18 * fixed_to_float w) = sint w" by (simp only: round_to_zero_of_int)
  have "- (2 ^ 63) \<le> sint w \<and> sint w < 2 ^ 63" using assms by simp
  then have "float_to_fixed (fixed_to_float w) = Inr (of_int (sint w))" unfolding float_to_fixed_def c Let_def by (rule if_P)
  then show ?thesis by simp
qed

section \<open>The trivial version of query 1\<close>

text \<open>Columns of four rows: two of text, seven of random doubles, one of random integers. \<open>rand_pair\<close> gives the results of the two calls of
  \<^verbatim>\<open>rand\<close> in one expression, whose order C++ leaves open, the first for the high half.\<close>

datatype trivial_column = Text_column "string list" | Double_column "rat list" | Int_column "u64 list"

fun random_longs :: "('s \<Rightarrow> u32 \<times> u32 \<times> 's) \<Rightarrow> nat \<Rightarrow> 's \<Rightarrow> u64 list \<times> 's" where
  "random_longs rand_pair 0 s = ([], s)"
| "random_longs rand_pair (Suc n) s =
    (let (high, low, s) = rand_pair s; number = push_bit 32 (scast high) OR scast low;
         (ns, s) = random_longs rand_pair n s in (number # ns, s))"

definition trivial_col :: "('s \<Rightarrow> u32 \<times> u32 \<times> 's) \<Rightarrow> nat \<Rightarrow> 's \<Rightarrow> trivial_column \<times> 's" where
  "trivial_col rand_pair c s =
    (let r = [''N'', ''N'', ''A'', ''R'', ''A'', ''N'', ''N'', ''R'', ''N'', ''R''];
         l = [''F'', ''O'', ''F'', ''F'', ''F'', ''F'', ''O'', ''F'', ''O'', ''F''];
         num_rows = 4 in
     if c = 0 then (Text_column (map (\<lambda>i. r ! i) [0..<num_rows]), s)
     else if c = 1 then (Text_column (map (\<lambda>i. l ! i) [0..<num_rows]), s)
     else let (ns, s) = random_longs rand_pair num_rows s in
       (if c = 9 then Int_column ns else Double_column (map double_of_i64 ns), s))"

fun trivial_cols :: "('s \<Rightarrow> u32 \<times> u32 \<times> 's) \<Rightarrow> nat list \<Rightarrow> 's \<Rightarrow> trivial_column list \<times> 's" where
  "trivial_cols rand_pair [] s = ([], s)"
| "trivial_cols rand_pair (c # cs) s =
    (let (col, s) = trivial_col rand_pair c s; (cols, s) = trivial_cols rand_pair cs s in (col # cols, s))"

definition trivialcpuversion :: "('s \<Rightarrow> u32 \<times> u32 \<times> 's) \<Rightarrow> 's \<Rightarrow> int \<times> trivial_column list \<times> 's" where
  "trivialcpuversion rand_pair s = (4, trivial_cols rand_pair [0..<10] s)"

end
