(* ===== verification/Table_Batches.thy ===== *)
theory Table_Batches
  imports Echo Transfers
begin

text \<open>
  The batches of \<^verbatim>\<open>native_root/arrow/include/Util.h\<close> that take the columns of a TPC-H table: each column gets an aligned block of
  zeros and is an Arrow array on top of it. \<^verbatim>\<open>posix_memalign\<close> is a parameter. \<^verbatim>\<open>MutableBuffer::Wrap\<close> takes the size from
  the type of its pointer, which is a pointer to 64-bit numbers for every column.
\<close>

section \<open>Columns\<close>

text \<open>A buffer as Arrow sees it: address and size.\<close>

type_synonym wrapped = "u64 \<times> int"

definition wrap_u64 :: "u64 \<Rightarrow> int \<Rightarrow> wrapped" where
  "wrap_u64 ptr n = (ptr, 8 * n)"

text \<open>The block of a column with elements of \<open>element_size\<close> bytes. The pointer is null when the allocation fails, and setting
  zeros through it is undefined.\<close>

definition prepare_values ::
    "(host_memory \<Rightarrow> nat \<Rightarrow> nat \<Rightarrow> (u64 \<times> u8 list) option) \<Rightarrow> nat \<Rightarrow> u32 \<Rightarrow> host_memory \<Rightarrow> (wrapped \<times> host_memory) res" where
  "prepare_values memalign element_size num_val mem =
    (let values_size = unat (of_nat element_size * scast num_val :: u64) in
     case memalign mem 4096 values_size of
       None \<Rightarrow> Inl Undefined
     | Some (values_ptr, junk) \<Rightarrow>
         res_bind (memset values_ptr 0 values_size (put_bytes mem values_ptr junk)) (\<lambda>mem.
         Inr (wrap_u64 values_ptr (sint num_val), mem)))"

fun prepare_all ::
    "(host_memory \<Rightarrow> nat \<Rightarrow> nat \<Rightarrow> (u64 \<times> u8 list) option) \<Rightarrow> nat list \<Rightarrow> u32 \<Rightarrow> host_memory \<Rightarrow> (wrapped list \<times> host_memory) res" where
  "prepare_all memalign [] num_val mem = Inr ([], mem)"
| "prepare_all memalign (s # ss) num_val mem =
    res_bind (prepare_values memalign s num_val mem) (\<lambda>(b, mem).
    res_bind (prepare_all memalign ss num_val mem) (\<lambda>(bs, mem). Inr (b # bs, mem)))"

text \<open>A batch: its schema, the number of rows and the buffer of each column.\<close>

type_synonym table_batch = "arrow_schema \<times> int \<times> wrapped list"

definition table_schema :: "(string \<times> fixed_kind) list \<Rightarrow> arrow_schema" where
  "table_schema cols = \<lparr>schema_fields = map (\<lambda>(n, t). Field n (FIXED t) False None) cols, schema_metadata = None\<rparr>"

definition final_columns :: "(string \<times> fixed_kind) list" where
  "final_columns = [(''l_extendedprice'', DOUBLE), (''l_discount'', DOUBLE), (''l_quantity'', DOUBLE), (''l_shipdate'', DATE32)]"

definition prepareFinalRecordBatch ::
    "(host_memory \<Rightarrow> nat \<Rightarrow> nat \<Rightarrow> (u64 \<times> u8 list) option) \<Rightarrow> u32 \<Rightarrow> host_memory \<Rightarrow> (table_batch \<times> host_memory) res" where
  "prepareFinalRecordBatch memalign num_val mem =
    res_bind (prepare_all memalign (map (\<lambda>i. if i = (3 :: nat) then 4 else 8) [0..<4]) num_val mem) (\<lambda>(bs, mem).
    Inr ((table_schema final_columns, sint num_val, bs), mem))"

definition prepare_one ::
    "string \<Rightarrow> fixed_kind \<Rightarrow> nat \<Rightarrow> (host_memory \<Rightarrow> nat \<Rightarrow> nat \<Rightarrow> (u64 \<times> u8 list) option) \<Rightarrow> u32 \<Rightarrow> host_memory \<Rightarrow>
     (table_batch \<times> host_memory) res" where
  "prepare_one name type element_size memalign num_val mem =
    res_bind (prepare_values memalign element_size num_val mem) (\<lambda>(b, mem).
    Inr ((table_schema [(name, type)], sint num_val, [b]), mem))"

definition prepareRecordBatchC1 ::
    "(host_memory \<Rightarrow> nat \<Rightarrow> nat \<Rightarrow> (u64 \<times> u8 list) option) \<Rightarrow> u32 \<Rightarrow> host_memory \<Rightarrow> (table_batch \<times> host_memory) res" where
  "prepareRecordBatchC1 = prepare_one ''l_quantity'' DOUBLE 8"

definition prepareRecordBatchC2 ::
    "(host_memory \<Rightarrow> nat \<Rightarrow> nat \<Rightarrow> (u64 \<times> u8 list) option) \<Rightarrow> u32 \<Rightarrow> host_memory \<Rightarrow> (table_batch \<times> host_memory) res" where
  "prepareRecordBatchC2 = prepare_one ''l_extendedprice'' DOUBLE 8"

definition prepareRecordBatchC3 ::
    "(host_memory \<Rightarrow> nat \<Rightarrow> nat \<Rightarrow> (u64 \<times> u8 list) option) \<Rightarrow> u32 \<Rightarrow> host_memory \<Rightarrow> (table_batch \<times> host_memory) res" where
  "prepareRecordBatchC3 = prepare_one ''l_discount'' DOUBLE 8"

definition prepareRecordBatchC4 ::
    "(host_memory \<Rightarrow> nat \<Rightarrow> nat \<Rightarrow> (u64 \<times> u8 list) option) \<Rightarrow> u32 \<Rightarrow> host_memory \<Rightarrow> (table_batch \<times> host_memory) res" where
  "prepareRecordBatchC4 = prepare_one ''l_shipdate'' DATE32 4"

section \<open>Blocks and the sizes that the buffers claim\<close>

lemma values_size:
  assumes "0 \<le> sint (num_val :: u32)" "s \<le> 8"
  shows "unat (of_nat s * scast num_val :: u64) = s * nat (sint num_val)"
proof -
  have lt: "sint num_val < 2 ^ 31" using sint_lt [of num_val] by simp
  have "(scast num_val :: u64) = of_nat (nat (sint num_val))" using assms(1) by (simp add: of_nat_nat)
  then have "(of_nat s * scast num_val :: u64) = of_nat (s * nat (sint num_val))" by simp
  moreover have "s * nat (sint num_val) < 2 ^ LENGTH(64)"
  proof -
    have "nat (sint num_val) < 2 ^ 31" using lt assms(1) by (simp add: nat_less_iff)
    then have "s * nat (sint num_val) \<le> 8 * 2 ^ 31" using assms(2) by (intro mult_mono) simp_all
    then show ?thesis by simp
  qed
  ultimately show ?thesis by (simp only: unat_of_nat_small)
qed

text \<open>The block of a column after it was prepared: aligned, new, and all zeros.\<close>

definition zero_block :: "host_memory \<Rightarrow> u64 \<Rightarrow> nat \<Rightarrow> bool" where
  "zero_block mem a n = (4096 dvd unat a \<and> read_host mem a n = Inr (replicate n 0))"

lemma prepare_values_ok:
  assumes "memalign_ok memalign" "0 \<le> sint num_val" "s \<le> 8" "prepare_values memalign s num_val mem = Inr (b, mem')"
  shows "snd b = 8 * sint num_val \<and> zero_block mem' (fst b) (s * nat (sint num_val))
    \<and> fresh_block mem (fst b) (s * nat (sint num_val)) \<and> mem' = put_bytes mem (fst b) (replicate (s * nat (sint num_val)) 0)"
proof -
  let ?n = "s * nat (sint num_val)"
  note size' = values_size [OF assms(2,3)]
  obtain a junk where a: "memalign mem 4096 ?n = Some (a, junk)"
    using assms(4) by (auto simp: prepare_values_def size' Let_def split: option.splits)
  then have ok: "length junk = ?n" "4096 dvd unat a" "fresh_block mem a ?n"
    using assms(1) by (auto simp: memalign_ok_def)
  have m: "b = (a, 8 * sint num_val)" "mem' = put_bytes mem a (replicate ?n 0)"
    using assms(4) ok(1) a
    by (auto simp: prepare_values_def size' Let_def memset_def write_host_def wrap_u64_def res_bind_Inr_iff put_put_same)
  have "?n \<le> 2 ^ 64" using ok(3) by (simp add: fresh_block_def)
  then have "read_host mem' a ?n = Inr (replicate ?n 0)" using read_put_same [of "replicate ?n 0" mem a] m(2) by simp
  then show ?thesis using m ok(2,3) by (simp add: zero_block_def)
qed

lemma prepare_all_ok:
  assumes "memalign_ok memalign" "0 \<le> sint num_val"
  shows "\<forall>s\<in>set ss. s \<le> 8 \<Longrightarrow> prepare_all memalign ss num_val mem = Inr (bs, mem') \<Longrightarrow>
    length bs = length ss
    \<and> (\<forall>i<length ss. snd (bs ! i) = 8 * sint num_val \<and> zero_block mem' (fst (bs ! i)) (ss ! i * nat (sint num_val)))
    \<and> (\<forall>a n cs. read_host mem a n = Inr cs \<longrightarrow> read_host mem' a n = Inr cs)"
proof (induction ss arbitrary: mem bs)
  case (Cons s ss)
  from Cons.prems(2) obtain b m cs where parts: "prepare_values memalign s num_val mem = Inr (b, m)"
    "prepare_all memalign ss num_val m = Inr (cs, mem')" "bs = b # cs" by (auto simp: res_bind_Inr_iff)
  have "s \<le> 8" using Cons.prems(1) by simp
  note first = prepare_values_ok [OF assms this parts(1)]
  have "\<forall>s\<in>set ss. s \<le> 8" using Cons.prems(1) by simp
  note rest = Cons.IH [OF this parts(2)]
  have keep: "read_host m a n = Inr cs" if "read_host mem a n = Inr cs" for a n cs
    using first that read_put_fresh [of mem "fst b" "replicate (s * nat (sint num_val)) 0" a n cs] by simp
  have "zero_block mem' (fst b) (s * nat (sint num_val))" using first rest unfolding zero_block_def by blast
  then show ?case using first rest keep parts(3) by (auto simp: nth_Cons split: nat.splits)
qed simp

text \<open>C30: The columns of the final batch are aligned blocks of zeros, eight bytes for each row of the three columns of doubles and
  four for the dates; but the buffer of every column claims eight bytes for each row, so that of the dates is twice as long
  as its block.\<close>

theorem final_batch_buffers:
  assumes "memalign_ok memalign" "0 \<le> sint num_val"
    "prepareFinalRecordBatch memalign num_val mem = Inr ((schema, num_rows, bufs), mem')"
  shows "length bufs = 4 \<and> num_rows = sint num_val
    \<and> (\<forall>i<4. snd (bufs ! i) = 8 * num_rows
        \<and> zero_block mem' (fst (bufs ! i)) (if field_type (schema_fields schema ! i) = FIXED DATE32 then 4 * nat num_rows else 8 * nat num_rows))"
proof -
  let ?ss = "map (\<lambda>i. if i = (3 :: nat) then 4 else 8 :: nat) [0..<4]"
  have all: "prepare_all memalign ?ss num_val mem = Inr (bufs, mem')" "num_rows = sint num_val" "schema = table_schema final_columns"
    using assms(3) by (auto simp: prepareFinalRecordBatch_def res_bind_Inr_iff simp del: upt_rec_numeral)
  have le: "\<forall>s\<in>set ?ss. s \<le> 8" by auto
  have "field_type (schema_fields schema ! i) = FIXED DATE32 \<longleftrightarrow> i = 3" if "i < 4" for i
  proof -
    have "i = 0 \<or> i = 1 \<or> i = 2 \<or> i = 3" using that by linarith
    then show ?thesis by (auto simp: all(3) table_schema_def final_columns_def)
  qed
  note date = this
  note ok = prepare_all_ok [OF assms(1,2) le all(1)]
  have len: "length ?ss = 4" by simp
  have "snd (bufs ! i) = 8 * num_rows
      \<and> zero_block mem' (fst (bufs ! i)) (if field_type (schema_fields schema ! i) = FIXED DATE32 then 4 * nat num_rows else 8 * nat num_rows)"
    if "i < 4" for i
  proof -
    have "?ss ! i = (if i = 3 then 4 else 8)" using that by (simp del: upt_rec_numeral)
    moreover have "snd (bufs ! i) = 8 * sint num_val \<and> zero_block mem' (fst (bufs ! i)) (?ss ! i * nat (sint num_val))"
      using ok that unfolding len by blast
    ultimately show ?thesis using date [OF that] all(2) by (cases "i = 3") simp_all
  qed
  moreover have "length bufs = 4" using ok unfolding len by blast
  ultimately show ?thesis using all(2) by blast
qed

text \<open>An allocator with four blocks.\<close>

definition page_memalign :: "host_memory \<Rightarrow> nat \<Rightarrow> nat \<Rightarrow> (u64 \<times> u8 list) option" where
  "page_memalign mem al n =
    (case find (\<lambda>a. mem a = None) [4096, 8192, 12288, 16384] of
       None \<Rightarrow> None
     | Some a \<Rightarrow> if al = 4096 \<and> n \<le> 4096 \<and> list_all (\<lambda>i. mem (a + of_nat i) = None) [0..<n] then Some (a, replicate n 1) else None)"

lemma find_SomeD: "find P xs = Some x \<Longrightarrow> x \<in> set xs"
  by (induction xs) (auto split: if_splits)

lemma page_memalign_ok: "memalign_ok page_memalign"
  unfolding memalign_ok_def
proof (intro allI impI)
  fix mem al n a junk
  assume "page_memalign mem al n = Some (a, junk)"
  then have n: "al = 4096" "n \<le> 4096" "junk = replicate n 1" "\<forall>i<n. mem (a + of_nat i) = None"
    and "find (\<lambda>a. mem a = None) [4096, 8192, 12288, 16384] = Some a"
    by (auto simp: page_memalign_def list_all_iff split: option.splits if_splits)
  then have "a \<in> {4096, 8192, 12288, 16384}" using find_SomeD by fastforce
  then have "4096 dvd unat a \<and> 4096 \<le> unat (- a)" by auto
  then show "length junk = n \<and> al dvd unat a \<and> fresh_block mem a n \<and> n \<le> unat (- a)"
    using n by (simp add: fresh_block_iff)
qed

text \<open>Allocations of eight or four bytes from an empty memory.\<close>

definition zeros_at :: "u64 list \<Rightarrow> host_memory" where
  "zeros_at as' = fold (\<lambda>a mem. put_bytes mem a (replicate 8 0)) as' (\<lambda>_. None)"

lemma put_zeros: "put_bytes mem a (replicate 8 0) x = (if unat (x - a) < 8 then Some 0 else mem x)"
  by (simp add: put_bytes_def Let_def)

lemma page_allocations:
  "page_memalign (zeros_at []) 4096 8 = Some (4096, replicate 8 1)"
  "page_memalign (zeros_at [4096]) 4096 8 = Some (8192, replicate 8 1)"
  "page_memalign (zeros_at [4096, 8192]) 4096 8 = Some (12288, replicate 8 1)"
  "page_memalign (zeros_at [4096, 8192, 12288]) 4096 4 = Some (16384, replicate 4 1)"
proof -
  have upt: "[0..<8] = [0, 1, 2, 3, 4, 5, 6, 7 :: nat]" "[0..<4] = [0, 1, 2, 3 :: nat]" by code_simp+
  show "page_memalign (zeros_at []) 4096 8 = Some (4096, replicate 8 1)"
    "page_memalign (zeros_at [4096]) 4096 8 = Some (8192, replicate 8 1)"
    "page_memalign (zeros_at [4096, 8192]) 4096 8 = Some (12288, replicate 8 1)"
    "page_memalign (zeros_at [4096, 8192, 12288]) 4096 4 = Some (16384, replicate 4 1)"
    by (simp_all add: page_memalign_def zeros_at_def put_zeros upt)
qed

lemma prepare_values_one:
  "page_memalign mem 4096 s = Some (a, replicate s 1) \<Longrightarrow> s \<le> 8 \<Longrightarrow>
   prepare_values page_memalign s 1 mem = Inr ((a, 8), put_bytes mem a (replicate s 0))"
proof -
  assume a: "page_memalign mem 4096 s = Some (a, replicate s 1)" and s: "s \<le> 8"
  have "unat (of_nat s * scast (1 :: u32) :: u64) = s" using s values_size [of 1 s] by simp
  moreover have "memset a 0 s (put_bytes mem a (replicate s 1)) = Inr (put_bytes mem a (replicate s 0))"
    using s by (simp add: memset_def write_host_iff put_put_same) (simp add: put_bytes_def Let_def)
  ultimately show ?thesis using a by (simp add: prepare_values_def Let_def wrap_u64_def)
qed

lemma final_batch_buffers_witness:
  "\<exists>schema num_rows bufs mem'. prepareFinalRecordBatch page_memalign 1 (\<lambda>_. None) = Inr ((schema, num_rows, bufs), mem')
    \<and> num_rows = 1 \<and> snd (bufs ! 3) = 8"
proof -
  have step: "put_bytes (zeros_at as') a (replicate 8 0) = zeros_at (as' @ [a])" for as' a by (simp add: zeros_at_def)
  have sizes: "map (\<lambda>i. if i = (3 :: nat) then 4 else 8 :: nat) [0..<4] = [8, 8, 8, 4]" by code_simp
  have "\<exists>bs mem'. prepare_all page_memalign [8, 8, 8, 4] 1 (zeros_at []) = Inr (bs, mem')"
    by (simp add: prepare_values_one page_allocations step)
  then obtain bs mem' where "prepare_all page_memalign [8, 8, 8, 4] 1 (\<lambda>_. None) = Inr (bs, mem')"
    by (auto simp: zeros_at_def simp del: prepare_all.simps)
  then have run: "prepareFinalRecordBatch page_memalign 1 (\<lambda>_. None) = Inr ((table_schema final_columns, 1, bs), mem')"
    using sizes by (simp add: prepareFinalRecordBatch_def del: prepare_all.simps)
  have "0 \<le> sint (1 :: u32)" by simp
  from final_batch_buffers [OF page_memalign_ok this run] run show ?thesis by auto
qed

end
