(* ===== verification/Proto_Schema.thy ===== *)
theory Proto_Schema
  imports Prelude
begin

text \<open>
  \<^verbatim>\<open>native_root/jni/ProtobufSchemaDeserializer.cpp\<close>: from the message for a schema to an Arrow schema. The messages are
  records with the fields that are read; what protobuf makes of a byte string is a parameter. A null pointer to a
  type is None.
\<close>

section \<open>Messages\<close>

text \<open>The numbers of \<^verbatim>\<open>Types_.proto\<close>; a message can hold any other number too.\<close>

datatype gandiva_type =
    G_NONE | G_BOOL | G_UINT8 | G_INT8 | G_UINT16 | G_INT16 | G_UINT32 | G_INT32 | G_UINT64 | G_INT64
  | G_HALF_FLOAT | G_FLOAT | G_DOUBLE | G_UTF8 | G_BINARY | G_FIXED_SIZE_BINARY | G_DATE32 | G_DATE64
  | G_TIMESTAMP | G_TIME32 | G_TIME64 | G_INTERVAL | G_DECIMAL | G_LIST | G_STRUCT | G_UNION | G_DICTIONARY | G_MAP
  | G_OTHER int

datatype proto_time_unit = SEC | MILLISEC | MICROSEC | NANOSEC | Other_unit int

datatype proto_interval = YEAR_MONTH | DAY_TIME | Other_interval int

record ext_type =
  et_type :: gandiva_type
  et_timeunit :: proto_time_unit
  et_intervaltype :: proto_interval
  et_precision :: int
  et_scale :: int

record proto_field =
  pf_name :: string
  pf_type :: ext_type
  pf_nullable :: "bool option"

section \<open>Arrow types\<close>

datatype time_unit = SECOND | MILLI | MICRO | NANO

datatype data_type =
    AT_null | AT_boolean | AT_uint8 | AT_int8 | AT_uint16 | AT_int16 | AT_uint32 | AT_int32 | AT_uint64 | AT_int64
  | AT_float16 | AT_float32 | AT_float64 | AT_utf8 | AT_binary | AT_date32 | AT_date64
  | AT_decimal int int | AT_time32 time_unit | AT_time64 time_unit | AT_timestamp time_unit
  | AT_month_interval | AT_day_time_interval

fun ProtoTypeToTime32 :: "proto_time_unit \<Rightarrow> data_type option" where
  "ProtoTypeToTime32 SEC = Some (AT_time32 SECOND)"
| "ProtoTypeToTime32 MILLISEC = Some (AT_time32 MILLI)"
| "ProtoTypeToTime32 _ = None"

fun ProtoTypeToTime64 :: "proto_time_unit \<Rightarrow> data_type option" where
  "ProtoTypeToTime64 MICROSEC = Some (AT_time64 MICRO)"
| "ProtoTypeToTime64 NANOSEC = Some (AT_time64 NANO)"
| "ProtoTypeToTime64 _ = None"

fun ProtoTypeToTimestamp :: "proto_time_unit \<Rightarrow> data_type option" where
  "ProtoTypeToTimestamp SEC = Some (AT_timestamp SECOND)"
| "ProtoTypeToTimestamp MILLISEC = Some (AT_timestamp MILLI)"
| "ProtoTypeToTimestamp MICROSEC = Some (AT_timestamp MICRO)"
| "ProtoTypeToTimestamp NANOSEC = Some (AT_timestamp NANO)"
| "ProtoTypeToTimestamp (Other_unit n) = None"

fun ProtoTypeToInterval :: "proto_interval \<Rightarrow> data_type option" where
  "ProtoTypeToInterval YEAR_MONTH = Some AT_month_interval"
| "ProtoTypeToInterval DAY_TIME = Some AT_day_time_interval"
| "ProtoTypeToInterval (Other_interval n) = None"

definition ProtoTypeToDataType :: "ext_type \<Rightarrow> data_type option" where
  "ProtoTypeToDataType e = (case et_type e of
      G_NONE \<Rightarrow> Some AT_null
    | G_BOOL \<Rightarrow> Some AT_boolean
    | G_UINT8 \<Rightarrow> Some AT_uint8
    | G_INT8 \<Rightarrow> Some AT_int8
    | G_UINT16 \<Rightarrow> Some AT_uint16
    | G_INT16 \<Rightarrow> Some AT_int16
    | G_UINT32 \<Rightarrow> Some AT_uint32
    | G_INT32 \<Rightarrow> Some AT_int32
    | G_UINT64 \<Rightarrow> Some AT_uint64
    | G_INT64 \<Rightarrow> Some AT_int64
    | G_HALF_FLOAT \<Rightarrow> Some AT_float16
    | G_FLOAT \<Rightarrow> Some AT_float32
    | G_DOUBLE \<Rightarrow> Some AT_float64
    | G_UTF8 \<Rightarrow> Some AT_utf8
    | G_BINARY \<Rightarrow> Some AT_binary
    | G_DATE32 \<Rightarrow> Some AT_date32
    | G_DATE64 \<Rightarrow> Some AT_date64
    | G_DECIMAL \<Rightarrow> Some (AT_decimal (et_precision e) (et_scale e))
    | G_TIME32 \<Rightarrow> ProtoTypeToTime32 (et_timeunit e)
    | G_TIME64 \<Rightarrow> ProtoTypeToTime64 (et_timeunit e)
    | G_TIMESTAMP \<Rightarrow> ProtoTypeToTimestamp (et_timeunit e)
    | G_INTERVAL \<Rightarrow> ProtoTypeToInterval (et_intervaltype e)
    | G_FIXED_SIZE_BINARY \<Rightarrow> None
    | G_LIST \<Rightarrow> None
    | G_STRUCT \<Rightarrow> None
    | G_UNION \<Rightarrow> None
    | G_DICTIONARY \<Rightarrow> None
    | G_MAP \<Rightarrow> None
    | G_OTHER _ \<Rightarrow> None)"

section \<open>Fields and schemas\<close>

text \<open>An Arrow field of a type that may be the null pointer.\<close>

record typed_field =
  tf_name :: string
  tf_type :: "data_type option"
  tf_nullable :: bool

text \<open>\<^verbatim>\<open>arrow::field\<close> returns a new field, so the result is never the null pointer.\<close>

definition ProtoTypeToField :: "proto_field \<Rightarrow> typed_field option" where
  "ProtoTypeToField f = Some \<lparr>tf_name = pf_name f, tf_type = ProtoTypeToDataType (pf_type f),
     tf_nullable = (case pf_nullable f of None \<Rightarrow> True | Some b \<Rightarrow> b)\<rparr>"

fun ProtoTypeToSchema :: "proto_field list \<Rightarrow> typed_field list option" where
  "ProtoTypeToSchema [] = Some []"
| "ProtoTypeToSchema (f # fs) =
    (case ProtoTypeToField f of None \<Rightarrow> None | Some t \<Rightarrow> map_option (Cons t) (ProtoTypeToSchema fs))"

definition ReadSchemaFromProtobufBytes :: "('b \<Rightarrow> proto_field list option) \<Rightarrow> 'b \<Rightarrow> typed_field list option" where
  "ReadSchemaFromProtobufBytes parse bytes = (case parse bytes of None \<Rightarrow> None | Some s \<Rightarrow> ProtoTypeToSchema s)"

text \<open>The types for which there is an Arrow type.\<close>

definition handled :: "ext_type \<Rightarrow> bool" where
  "handled e = (et_type e \<notin> {G_FIXED_SIZE_BINARY, G_LIST, G_STRUCT, G_UNION, G_DICTIONARY, G_MAP}
     \<and> (\<forall>n. et_type e \<noteq> G_OTHER n)
     \<and> (et_type e = G_TIME32 \<longrightarrow> et_timeunit e \<in> {SEC, MILLISEC})
     \<and> (et_type e = G_TIME64 \<longrightarrow> et_timeunit e \<in> {MICROSEC, NANOSEC})
     \<and> (et_type e = G_TIMESTAMP \<longrightarrow> et_timeunit e \<in> {SEC, MILLISEC, MICROSEC, NANOSEC})
     \<and> (et_type e = G_INTERVAL \<longrightarrow> et_intervaltype e \<in> {YEAR_MONTH, DAY_TIME}))"

lemma handled_type: "ProtoTypeToDataType e = None \<longleftrightarrow> \<not> handled e"
proof -
  have units: "ProtoTypeToTime32 u = None \<longleftrightarrow> u \<notin> {SEC, MILLISEC}" "ProtoTypeToTime64 u = None \<longleftrightarrow> u \<notin> {MICROSEC, NANOSEC}"
    "ProtoTypeToTimestamp u = None \<longleftrightarrow> u \<notin> {SEC, MILLISEC, MICROSEC, NANOSEC}" for u
    by (cases u; simp)+
  have interval: "ProtoTypeToInterval i = None \<longleftrightarrow> i \<notin> {YEAR_MONTH, DAY_TIME}" for i by (cases i) simp_all
  show ?thesis by (cases "et_type e") (simp_all add: ProtoTypeToDataType_def handled_def units interval)
qed

text \<open>A message that parses is never refused: every column becomes a field of its name in order, nullable unless
  the message says otherwise, and the fields whose type has no Arrow type get a null pointer for it.\<close>

theorem proto_schema_total:
  "ReadSchemaFromProtobufBytes parse bytes = (case parse bytes of
      None \<Rightarrow> None
    | Some fs \<Rightarrow> Some (map (\<lambda>f. \<lparr>tf_name = pf_name f,
        tf_type = (if handled (pf_type f) then Some (the (ProtoTypeToDataType (pf_type f))) else None),
        tf_nullable = (pf_nullable f \<noteq> Some False)\<rparr>) fs))"
proof -
  have field: "ProtoTypeToField f = Some \<lparr>tf_name = pf_name f,
      tf_type = (if handled (pf_type f) then Some (the (ProtoTypeToDataType (pf_type f))) else None),
      tf_nullable = (pf_nullable f \<noteq> Some False)\<rparr>" for f
    using handled_type [of "pf_type f"] by (auto simp: ProtoTypeToField_def split: option.splits)
  have "ProtoTypeToSchema fs = Some (map (\<lambda>f. the (ProtoTypeToField f)) fs)" for fs
    by (induction fs) (simp_all add: field)
  then show ?thesis by (simp add: ReadSchemaFromProtobufBytes_def field split: option.splits)
qed

end
