(* ===== verification/Hls_Packets.thy ===== *)
theory Hls_Packets
  imports Prelude
begin

text \<open>
  The packets of kernels written for Vivado HLS, \<^verbatim>\<open>fletcher/integrations/vivado_hls/src/fletcher\<close>: packets, nullable packets,
  the operators on them, packets with several elements and strings as streams of packets. The operators are made by
  macros for every operation, and the numbers come from the library of the tool: an operation is a parameter, which may
  fail, as a division by zero does. Operators that only forward to others with the same operands are not repeated.
\<close>

section \<open>Packets\<close>

record packet_base =
  pk_dvalid :: bool
  pk_last :: bool

record 'a packet = packet_base +
  pk_data :: 'a

definition f_packet_new :: "'a \<Rightarrow> bool \<Rightarrow> bool \<Rightarrow> 'a packet" where
  "f_packet_new d dvalid l = \<lparr>pk_dvalid = dvalid, pk_last = l, pk_data = d\<rparr>"

definition f_packet_data :: "'a \<Rightarrow> 'a packet" where
  "f_packet_data d = \<lparr>pk_dvalid = True, pk_last = False, pk_data = d\<rparr>"

text \<open>A nullable packet is a packet with a valid bit. A packet and a valid bit make a nullable one, which keeps all of the packet.\<close>

record 'a nullable = "'a packet" +
  nb_valid :: bool

definition nullable_new :: "bool \<Rightarrow> 'a packet \<Rightarrow> 'a nullable" where
  "nullable_new valid p = packet.extend p \<lparr>nb_valid = valid\<rparr>"

definition packet_of :: "'a nullable \<Rightarrow> 'a packet" where
  "packet_of n = packet.truncate n"

lemma packet_of_new [simp]: "packet_of (nullable_new v p) = p" "nb_valid (nullable_new v p) = v"
  by (simp_all add: packet_of_def nullable_new_def packet.defs)

lemma packet_of_sel [simp]: "pk_data (packet_of n) = pk_data n" "pk_dvalid (packet_of n) = pk_dvalid n"
  "pk_last (packet_of n) = pk_last n"
  by (simp_all add: packet_of_def packet.defs)

text \<open>The operands of the operators. Overloading picks the operator by their kinds and by whether an operand is a named object
  (True) or a temporary one: a parameter \<^verbatim>\<open>T &&\<close> beside \<^verbatim>\<open>nullable<T> &\<close> fits only a temporary packet, since for
  a named one \<open>T\<close> would be a reference. Then the nullable operand is taken as the packet it is derived from.\<close>

datatype 'a operand = Packet "'a packet" | Nullable "'a nullable" | Plain 'a

type_synonym 'a argument = "bool \<times> 'a operand"

datatype overload = Packets | Packet_plain | Plain_packet | Nullables | Nullable_packet | Packet_nullable
  | Nullable_plain | Plain_nullable | Builtin

text \<open>None: no operator fits and the program is not accepted.\<close>

fun pick :: "'a argument \<Rightarrow> 'a argument \<Rightarrow> overload option" where
  "pick (m, Packet l) (n, Packet r) = Some Packets"
| "pick (m, Packet l) (n, Plain r) = (if m then Some Packet_plain else None)"
| "pick (m, Plain l) (n, Packet r) = (if n then Some Plain_packet else None)"
| "pick (m, Nullable l) (n, Nullable r) = Some Nullables"
| "pick (m, Nullable l) (n, Packet r) = Some (if m \<and> \<not> n then Nullable_packet else Packets)"
| "pick (m, Packet l) (n, Nullable r) = Some (if n \<and> \<not> m then Packet_nullable else Packets)"
| "pick (m, Nullable l) (n, Plain r) = (if m then Some Nullable_plain else None)"
| "pick (m, Plain l) (n, Nullable r) = (if n then Some Plain_nullable else None)"
| "pick (m, Plain l) (n, Plain r) = Some Builtin"

text \<open>The packet of an operand, and what it stands for: a null has no value.\<close>

fun base_packet :: "'a operand \<Rightarrow> 'a packet" where
  "base_packet (Packet p) = p"
| "base_packet (Nullable n) = packet_of n"
| "base_packet (Plain x) = f_packet_data x"

definition operand_data :: "'a operand \<Rightarrow> 'a" where
  "operand_data l = pk_data (base_packet l)"

fun operand_value :: "'a operand \<Rightarrow> 'a option" where
  "operand_value (Nullable n) = (if nb_valid n then Some (pk_data n) else None)"
| "operand_value l = Some (operand_data l)"

lemma operand_data_simps [simp]: "operand_data (Packet p) = pk_data p" "operand_data (Nullable n) = pk_data n"
  "operand_data (Plain x) = x"
  by (simp_all add: operand_data_def f_packet_data_def)

section \<open>Arithmetic\<close>

definition arith_pp :: "('a \<Rightarrow> 'a \<Rightarrow> 'a res) \<Rightarrow> 'a packet \<Rightarrow> 'a packet \<Rightarrow> 'a packet res" where
  "arith_pp OP lhs rhs = res_bind (OP (pk_data lhs) (pk_data rhs)) (\<lambda>d. Inr (f_packet_new d (pk_dvalid lhs) (pk_last lhs)))"

definition arith_pb :: "('a \<Rightarrow> 'a \<Rightarrow> 'a res) \<Rightarrow> 'a packet \<Rightarrow> 'a \<Rightarrow> 'a packet res" where
  "arith_pb OP lhs rhs = res_bind (OP (pk_data lhs) rhs) (\<lambda>d. Inr (f_packet_new d (pk_dvalid lhs) (pk_last lhs)))"

definition arith_bp :: "('a \<Rightarrow> 'a \<Rightarrow> 'a res) \<Rightarrow> 'a \<Rightarrow> 'a packet \<Rightarrow> 'a packet res" where
  "arith_bp OP lhs rhs = res_bind (OP lhs (pk_data rhs)) (\<lambda>d. Inr (f_packet_new d (pk_dvalid rhs) (pk_last rhs)))"

definition arith_nn :: "('a \<Rightarrow> 'a \<Rightarrow> 'a res) \<Rightarrow> 'a nullable \<Rightarrow> 'a nullable \<Rightarrow> 'a nullable res" where
  "arith_nn OP lhs rhs = res_bind (arith_pp OP (packet_of lhs) (packet_of rhs)) (\<lambda>p. Inr (nullable_new (nb_valid lhs \<and> nb_valid rhs) p))"

definition arith_np :: "('a \<Rightarrow> 'a \<Rightarrow> 'a res) \<Rightarrow> 'a nullable \<Rightarrow> 'a packet \<Rightarrow> 'a nullable res" where
  "arith_np OP lhs rhs = res_bind (arith_pp OP (packet_of lhs) rhs) (\<lambda>p. Inr (nullable_new (nb_valid lhs) p))"

definition arith_pn :: "('a \<Rightarrow> 'a \<Rightarrow> 'a res) \<Rightarrow> 'a packet \<Rightarrow> 'a nullable \<Rightarrow> 'a nullable res" where
  "arith_pn OP lhs rhs = res_bind (arith_pp OP lhs (packet_of rhs)) (\<lambda>p. Inr (nullable_new (nb_valid rhs) p))"

definition arith_nb :: "('a \<Rightarrow> 'a \<Rightarrow> 'a res) \<Rightarrow> 'a nullable \<Rightarrow> 'a \<Rightarrow> 'a nullable res" where
  "arith_nb OP lhs rhs = res_bind (arith_pb OP (packet_of lhs) rhs) (\<lambda>p. Inr (nullable_new (nb_valid lhs) p))"

definition arith_bn :: "('a \<Rightarrow> 'a \<Rightarrow> 'a res) \<Rightarrow> 'a \<Rightarrow> 'a nullable \<Rightarrow> 'a nullable res" where
  "arith_bn OP lhs rhs = res_bind (arith_bp OP lhs (packet_of rhs)) (\<lambda>p. Inr (nullable_new (nb_valid rhs) p))"

definition as_packet :: "'a packet res \<Rightarrow> 'a operand res" where "as_packet r = res_bind r (\<lambda>p. Inr (Packet p))"
definition as_nullable :: "'a nullable res \<Rightarrow> 'a operand res" where "as_nullable r = res_bind r (\<lambda>n. Inr (Nullable n))"

definition operand_arith :: "('a \<Rightarrow> 'a \<Rightarrow> 'a res) \<Rightarrow> 'a argument \<Rightarrow> 'a argument \<Rightarrow> 'a operand res option" where
  "operand_arith OP a b = map_option (\<lambda>ov. case (ov, snd a, snd b) of
       (Packet_plain, Packet l, Plain r) \<Rightarrow> as_packet (arith_pb OP l r)
     | (Plain_packet, Plain l, Packet r) \<Rightarrow> as_packet (arith_bp OP l r)
     | (Nullables, Nullable l, Nullable r) \<Rightarrow> as_nullable (arith_nn OP l r)
     | (Nullable_packet, Nullable l, Packet r) \<Rightarrow> as_nullable (arith_np OP l r)
     | (Packet_nullable, Packet l, Nullable r) \<Rightarrow> as_nullable (arith_pn OP l r)
     | (Nullable_plain, Nullable l, Plain r) \<Rightarrow> as_nullable (arith_nb OP l r)
     | (Plain_nullable, Plain l, Nullable r) \<Rightarrow> as_nullable (arith_bn OP l r)
     | (Builtin, Plain l, Plain r) \<Rightarrow> res_bind (OP l r) (\<lambda>d. Inr (Plain d))
     | (_, l, r) \<Rightarrow> as_packet (arith_pp OP (base_packet l) (base_packet r))) (pick a b)"

lemmas arith_defs = arith_pp_def arith_pb_def arith_bp_def arith_nn_def arith_np_def arith_pn_def arith_nb_def arith_bn_def
  as_packet_def as_nullable_def

definition unary_packet :: "('a \<Rightarrow> 'a res) \<Rightarrow> 'a packet \<Rightarrow> 'a packet res" where
  "unary_packet OP rhs = res_bind (OP (pk_data rhs)) (\<lambda>d. Inr (f_packet_new d (pk_dvalid rhs) (pk_last rhs)))"

definition unary_nullable :: "('a \<Rightarrow> 'a res) \<Rightarrow> 'a nullable \<Rightarrow> 'a nullable res" where
  "unary_nullable OP rhs = res_bind (unary_packet OP (packet_of rhs)) (\<lambda>p. Inr (nullable_new (nb_valid rhs) p))"

fun operand_flags :: "'a operand \<Rightarrow> (bool \<times> bool) option" where
  "operand_flags (Packet p) = Some (pk_dvalid p, pk_last p)"
| "operand_flags (Nullable n) = Some (pk_dvalid n, pk_last n)"
| "operand_flags (Plain x) = None"

text \<open>The result carries the flags of the left operand that has some. It is nullable unless the operator on packets was picked,
  which drops the valid bit of a nullable operand.\<close>

lemma operand_arith_result:
  assumes "pick (m, l) (n, r) = Some ov"
  shows "operand_arith OP (m, l) (n, r) = Some (case OP (operand_data l) (operand_data r) of Inl e \<Rightarrow> Inl e | Inr d \<Rightarrow> Inr
    (case (case operand_flags l of None \<Rightarrow> operand_flags r | Some f \<Rightarrow> Some f) of
        None \<Rightarrow> Plain d
      | Some (v, e) \<Rightarrow>
          (if ov \<in> {Packets, Packet_plain, Plain_packet} then Packet (f_packet_new d v e)
           else Nullable (nullable_new (operand_value l \<noteq> None \<and> operand_value r \<noteq> None) (f_packet_new d v e)))))"
  using assms
  by (cases l; cases r) (auto simp: operand_arith_def arith_defs res_bind_def split: sum.splits if_splits)

section \<open>Comparisons\<close>

definition rel_nn :: "('a \<Rightarrow> 'a \<Rightarrow> bool) \<Rightarrow> 'a nullable \<Rightarrow> 'a nullable \<Rightarrow> bool" where
  "rel_nn OP lhs rhs = (if nb_valid lhs \<and> nb_valid rhs then OP (pk_data lhs) (pk_data rhs) else False)"

definition rel_n :: "('a \<Rightarrow> 'a \<Rightarrow> bool) \<Rightarrow> 'a nullable \<Rightarrow> 'a \<Rightarrow> bool" where
  "rel_n OP lhs rhs = (if nb_valid lhs then OP (pk_data lhs) rhs else False)"

definition rel_to_n :: "('a \<Rightarrow> 'a \<Rightarrow> bool) \<Rightarrow> 'a \<Rightarrow> 'a nullable \<Rightarrow> bool" where
  "rel_to_n OP lhs rhs = (if nb_valid rhs then OP lhs (pk_data rhs) else False)"

definition operand_rel :: "('a \<Rightarrow> 'a \<Rightarrow> bool) \<Rightarrow> 'a argument \<Rightarrow> 'a argument \<Rightarrow> bool option" where
  "operand_rel OP a b = map_option (\<lambda>ov. case (ov, snd a, snd b) of
       (Nullables, Nullable l, Nullable r) \<Rightarrow> rel_nn OP l r
     | (Nullable_packet, Nullable l, Packet r) \<Rightarrow> rel_n OP l (pk_data r)
     | (Packet_nullable, Packet l, Nullable r) \<Rightarrow> rel_to_n OP (pk_data l) r
     | (Nullable_plain, Nullable l, Plain r) \<Rightarrow> rel_n OP l r
     | (Plain_nullable, Plain l, Nullable r) \<Rightarrow> rel_to_n OP l r
     | (_, l, r) \<Rightarrow> OP (operand_data l) (operand_data r)) (pick a b)"

text \<open>The other comparisons come from \<^verbatim>\<open>==\<close> and \<^verbatim>\<open><\<close>, on their parameters, which are named objects, whatever the
  operands were.\<close>

definition derived :: "('a argument \<Rightarrow> 'a argument \<Rightarrow> bool option) \<Rightarrow> 'a argument \<Rightarrow> 'a argument \<Rightarrow> bool option" where
  "derived body lhs rhs = (if pick lhs rhs = None then None else body (True, snd lhs) (True, snd rhs))"

definition operand_ne :: "('a \<Rightarrow> 'a \<Rightarrow> bool) \<Rightarrow> 'a argument \<Rightarrow> 'a argument \<Rightarrow> bool option" where
  "operand_ne EQ = derived (\<lambda>lhs rhs. map_option Not (operand_rel EQ rhs lhs))"

definition operand_gt :: "('a \<Rightarrow> 'a \<Rightarrow> bool) \<Rightarrow> 'a argument \<Rightarrow> 'a argument \<Rightarrow> bool option" where
  "operand_gt LT = derived (\<lambda>lhs rhs. operand_rel LT rhs lhs)"

definition operand_le :: "('a \<Rightarrow> 'a \<Rightarrow> bool) \<Rightarrow> 'a argument \<Rightarrow> 'a argument \<Rightarrow> bool option" where
  "operand_le LT = derived (\<lambda>lhs rhs. map_option Not (operand_rel LT rhs lhs))"

definition operand_ge :: "('a \<Rightarrow> 'a \<Rightarrow> bool) \<Rightarrow> 'a argument \<Rightarrow> 'a argument \<Rightarrow> bool option" where
  "operand_ge LT = derived (\<lambda>lhs rhs. map_option Not (operand_rel LT lhs rhs))"

lemmas derived_defs = derived_def operand_ne_def operand_gt_def operand_le_def operand_ge_def

text \<open>\<^verbatim>\<open>==\<close> and \<^verbatim>\<open><\<close> compare values, so that they are false for a null, unless the operator on packets was picked.\<close>

lemma operand_rel_result:
  assumes "pick (m, l) (n, r) = Some ov"
  shows "operand_rel OP (m, l) (n, r) = Some (if ov = Packets then OP (operand_data l) (operand_data r)
    else \<exists>x y. operand_value l = Some x \<and> operand_value r = Some y \<and> OP x y)"
  using assms
  by (cases l; cases r) (auto simp: operand_rel_def rel_nn_def rel_n_def rel_to_n_def split: if_splits)

text \<open>So between two nullable operands, or one and a number, a null is not equal to, below or above anything, itself included, and
  yet both \<^verbatim>\<open><=\<close> and \<^verbatim>\<open>>=\<close> hold: they are made as negations.\<close>

lemma null_comparisons:
  fixes l r :: "'a::linorder operand"
  assumes "pick (m, l) (n, r) = Some ov" "ov \<in> {Nullables, Nullable_plain, Plain_nullable}"
    "operand_value l = None \<or> operand_value r = None"
  shows "operand_rel (=) (m, l) (n, r) = Some False \<and> operand_ne (=) (m, l) (n, r) = Some True
    \<and> operand_rel (<) (m, l) (n, r) = Some False \<and> operand_gt (<) (m, l) (n, r) = Some False
    \<and> operand_le (<) (m, l) (n, r) = Some True \<and> operand_ge (<) (m, l) (n, r) = Some True"
  using assms
  by (cases l; cases r) (auto simp: derived_defs operand_rel_def rel_nn_def rel_n_def rel_to_n_def split: if_splits)

text \<open>Between a nullable operand and a packet, \<^verbatim>\<open>!=\<close> and the other derived comparisons never look at the valid bit, and
  \<^verbatim>\<open>==\<close> does only for a temporary packet: a null and a temporary packet with the data it holds are neither equal nor
  unequal.\<close>

lemma null_and_packet:
  fixes k :: "'a::linorder nullable" and p :: "'a packet"
  shows "operand_ne (=) (True, Nullable k) (n, Packet p) = Some (pk_data k \<noteq> pk_data p)"
    and "operand_le (<) (True, Nullable k) (n, Packet p) = Some (pk_data k \<le> pk_data p)"
    and "operand_rel (=) (True, Nullable k) (True, Packet p) = Some (pk_data k = pk_data p)"
    and "operand_rel (=) (True, Nullable k) (False, Packet p) = Some (nb_valid k \<and> pk_data k = pk_data p)"
  by (auto simp: derived_defs operand_rel_def rel_n_def)

section \<open>Increments\<close>

text \<open>An operator returns its result and the new value of its operand.\<close>

definition prefix_packet :: "('a \<Rightarrow> 'a) \<Rightarrow> ('a, 'm) packet_scheme \<Rightarrow> ('a, 'm) packet_scheme" where
  "prefix_packet OP val = val\<lparr>pk_data := OP (pk_data val)\<rparr>"

definition postfix_packet :: "('a \<Rightarrow> 'a) \<Rightarrow> 'a packet \<Rightarrow> 'a packet \<times> 'a packet" where
  "postfix_packet OP val = (val, prefix_packet OP val)"

text \<open>For a valid nullable packet the prefix operator calls itself, which fits better than the operator of packets.\<close>

partial_function (option) prefix_nullable :: "('a \<Rightarrow> 'a) \<Rightarrow> 'a nullable \<Rightarrow> ('a nullable \<times> 'a nullable) option" where
  "prefix_nullable OP val =
    (if nb_valid val then Option.bind (prefix_nullable OP val) (\<lambda>(_, val'). Some (val', val')) else Some (val, val))"

definition postfix_nullable :: "('a \<Rightarrow> 'a) \<Rightarrow> 'a nullable \<Rightarrow> 'a nullable \<times> 'a nullable" where
  "postfix_nullable OP val = (val, if nb_valid val then prefix_packet OP val else val)"

lemma prefix_nullable_valid: "prefix_nullable OP val = Some r \<Longrightarrow> \<not> nb_valid val"
proof (induction rule: prefix_nullable.raw_induct [rotated, consumes 1, where P = "\<lambda>_ val _. \<not> nb_valid val"])
  case (1 f OP val r)
  then show ?case by (auto split: if_splits simp: bind_eq_Some_conv)
qed

text \<open>The prefix operators on a null return it and on anything else never return; the postfix ones return the old value and count
  on.\<close>

lemma prefix_nullable_diverges: "prefix_nullable OP val = (if nb_valid val then None else Some (val, val))"
proof (cases "nb_valid val")
  case True
  then show ?thesis using prefix_nullable_valid [of OP val] by (cases "prefix_nullable OP val") auto
qed (subst prefix_nullable.simps, simp)

section \<open>Packets of several elements\<close>

text \<open>The width of the count. For zero the template has no end.\<close>

fun f_log2 :: "nat \<Rightarrow> nat option" where
  "f_log2 x = (if x = 0 then None else if x = 1 then Some 1 else map_option Suc (f_log2 (x div 2)))"

declare f_log2.simps [simp del]

record 'a mpacket = packet_base +
  mp_count :: nat
  mp_data :: "'a list"

definition f_mpacket_default :: "nat \<Rightarrow> 'a \<Rightarrow> 'a mpacket option" where
  "f_mpacket_default N d = map_option (\<lambda>w. \<lparr>pk_dvalid = True, pk_last = False, mp_count = N mod 2 ^ w, mp_data = replicate N d\<rparr>) (f_log2 N)"

lemma f_log2_bounds: "0 < n \<Longrightarrow> \<exists>k. f_log2 n = Some k \<and> n < 2 ^ k \<and> 2 ^ k \<le> 2 * n"
proof (induction n rule: less_induct)
  case (less n)
  show ?case
  proof (cases "n = 1")
    case False
    then obtain k where k: "f_log2 (n div 2) = Some k" "n div 2 < 2 ^ k" "2 ^ k \<le> 2 * (n div 2)"
      using less.IH [of "n div 2"] less.prems by fastforce
    then have "f_log2 n = Some (Suc k)" using False less.prems by (subst f_log2.simps) simp
    moreover have "n < 2 * 2 ^ k" using k(2) by (simp add: div_less_iff_less_mult mult.commute)
    ultimately show ?thesis using k(3) by auto
  qed (subst f_log2.simps, simp)
qed

lemma mpacket_count: "0 < n \<Longrightarrow> \<exists>p. f_mpacket_default n d = Some p \<and> mp_count p = n \<and> length (mp_data p) = n"
  using f_log2_bounds [of n] by (auto simp: f_mpacket_default_def)

section \<open>Strings\<close>

text \<open>Reading from an empty stream waits: the result is None. An index outside of the buffer has no meaning.\<close>

definition MAX_STRING_LENGTH :: nat where "MAX_STRING_LENGTH = 256"

fun pull_loop :: "nat \<Rightarrow> nat \<Rightarrow> 'a list \<Rightarrow> 'a list \<Rightarrow> ('a list \<times> 'a list) option res" where
  "pull_loop i 0 buffer chars = Inr (Some (buffer, chars))"
| "pull_loop i (Suc n) buffer [] = Inr None"
| "pull_loop i (Suc n) buffer (c # chars) =
    (if i < length buffer then pull_loop (Suc i) n (buffer[i := c]) chars else Inl Undefined)"

fun push_loop :: "nat \<Rightarrow> nat \<Rightarrow> 'a list \<Rightarrow> 'a list \<Rightarrow> 'a list res" where
  "push_loop i 0 buffer chars = Inr chars"
| "push_loop i (Suc n) buffer chars =
    (if i < length buffer then push_loop (Suc i) n buffer (chars @ [buffer ! i]) else Inl Undefined)"

definition PullString :: "'a packet list \<Rightarrow> int packet \<Rightarrow> 'a packet list \<Rightarrow> ('a packet list \<times> 'a packet list) option res" where
  "PullString buffer len chars = pull_loop 0 (nat (pk_data len)) buffer chars"

definition PushString :: "'a packet list \<Rightarrow> int packet \<Rightarrow> 'a packet list \<Rightarrow> 'a packet list res" where
  "PushString buffer len chars = push_loop 0 (nat (pk_data len)) buffer chars"

lemma push_loop_ok: "i + n \<le> length buffer \<Longrightarrow> push_loop i n buffer chars = Inr (chars @ take n (drop i buffer))"
  by (induction n arbitrary: i chars) (simp_all add: Cons_nth_drop_Suc [symmetric] del: drop_Suc)

lemma pull_loop_ok: "i + length cs \<le> length buffer \<Longrightarrow>
  pull_loop i (length cs) buffer (cs @ rest) = Inr (Some (take i buffer @ cs @ drop (i + length cs) buffer, rest))"
proof (induction cs arbitrary: i buffer)
  case (Cons c cs)
  then show ?case by (simp add: take_Suc_conv_app_nth list_update_append)
qed simp

lemma push_pull:
  assumes "nat (pk_data len) \<le> length b1" "nat (pk_data len) \<le> length b2"
  shows "res_bind (PushString b1 len []) (\<lambda>s. PullString b2 len (s @ rest)) =
    Inr (Some (take (nat (pk_data len)) b1 @ drop (nat (pk_data len)) b2, rest))"
proof -
  let ?n = "nat (pk_data len)"
  have "PushString b1 len [] = Inr (take ?n b1)" using assms by (simp add: PushString_def push_loop_ok)
  moreover have "pull_loop 0 (length (take ?n b1)) b2 (take ?n b1 @ rest) = Inr (Some (take ?n b1 @ drop ?n b2, rest))"
    using assms pull_loop_ok [of 0 "take ?n b1" b2 rest] by (simp add: min_absorb2)
  ultimately show ?thesis using assms by (simp add: PullString_def min_absorb2)
qed

end
