(* ===== verification/String_Data.thy ===== *)
theory String_Data
  imports Prelude
begin

text \<open>
  The data set of the string writing example, \<^verbatim>\<open>fletcher/examples/stringwrite/software/cpp/src\<close>: the pseudo-random
  generator of the hardware, the lengths and characters made with it, and the two ways to make strings of
  them. Memory does not run out, but where a size is refused the exception of the library is raised; whether Arrow allocates
  a buffer is a parameter. Strings and characters are bytes.
\<close>

section \<open>The generator\<close>

definition lfsr_next :: "u8 \<Rightarrow> u8" where
  "lfsr_next lfsr =
    (let tap = (NOT (drop_bit 7 lfsr XOR drop_bit 5 lfsr XOR drop_bit 4 lfsr XOR drop_bit 3 lfsr)) AND 1
     in push_bit 1 lfsr OR tap)"

lemma lfsr_stuck: "lfsr_next 255 = 255"
  by (simp add: lfsr_next_def)

section \<open>Lengths\<close>

text \<open>\<^verbatim>\<open>reserve\<close> refuses the size that a negative number becomes. A sum that does not fit an \<^verbatim>\<open>int\<close> is undefined.\<close>

definition add_int :: "int \<Rightarrow> int \<Rightarrow> int res" where
  "add_int a b = (if - (2 ^ 31) \<le> a + b \<and> a + b < 2 ^ 31 then Inr (a + b) else Inl Undefined)"

fun lengths_loop :: "nat \<Rightarrow> u8 \<Rightarrow> u32 \<Rightarrow> u32 \<Rightarrow> int \<Rightarrow> (int list \<times> int) res" where
  "lengths_loop 0 lfsr min_len msk total_length = Inr ([], total_length)"
| "lengths_loop (Suc n) lfsr min_len msk total_length =
    (let lfsr = lfsr_next lfsr; len = sint (min_len + (ucast lfsr AND msk)) in
     res_bind (add_int total_length len) (\<lambda>total_length.
     res_bind (lengths_loop n lfsr min_len msk total_length) (\<lambda>(lengths, total).
     Inr (len # lengths, total))))"

definition GenerateRandomLengths :: "int \<Rightarrow> u32 \<Rightarrow> u32 \<Rightarrow> (int list \<times> int) res" where
  "GenerateRandomLengths amount min_len msk =
    (if amount < 0 then Inl Length_error else lengths_loop (nat amount) 0 min_len msk 0)"

section \<open>Characters\<close>

definition printable :: "u8 \<Rightarrow> u8" where
  "printable r = (let val = r AND 127 in if val < 32 then 46 else if val = 127 then 46 else val)"

text \<open>Filling from a line: what is taken, and the position in the string.\<close>

fun fill :: "u8 list \<Rightarrow> nat \<Rightarrow> nat \<Rightarrow> u8 list \<times> nat" where
  "fill [] strpos len = ([], strpos)"
| "fill (c # buffer) strpos len =
    (if strpos < len then let (cs, strpos') = fill buffer (Suc strpos) len in (c # cs, strpos') else ([], strpos))"

lemma fill_result: "strpos \<le> len \<Longrightarrow>
  fill buffer strpos len = (take (len - strpos) buffer, strpos + min (length buffer) (len - strpos))"
proof (induction buffer arbitrary: strpos)
  case (Cons c buffer)
  show ?case
  proof (cases "strpos < len")
    case True
    then have "len - strpos = Suc (len - Suc strpos)" by simp
    then show ?thesis using True Cons.IH [of "Suc strpos"] by simp
  qed (use Cons.prems in simp)
qed simp

text \<open>One string: the lines of the generators until the string is full. There are always 64 generators, so the test that
  there is one, without which lists of generators give no end, is always true.\<close>

function string_loop :: "nat \<Rightarrow> nat \<Rightarrow> u8 list \<Rightarrow> u8 list \<times> u8 list" where
  "string_loop strpos len lfsrs =
    (let lfsrs = map lfsr_next lfsrs; (cs, strpos') = fill (map printable lfsrs) strpos len in
     if strpos' < len \<and> lfsrs \<noteq> [] then let (rest, lfsrs') = string_loop strpos' len lfsrs in (cs @ rest, lfsrs')
     else (cs, lfsrs))"
  by pat_completeness auto

termination
proof (relation "measure (\<lambda>(strpos, len, _). len - strpos)")
  fix strpos len :: nat and lfsrs x :: "u8 list" and y cs strpos'
  assume a: "x = map lfsr_next lfsrs" "y = fill (map printable x) strpos len" "(cs, strpos') = y" "strpos' < len \<and> x \<noteq> []"
  then have "strpos \<le> len" by (cases "strpos \<le> len"; cases x) auto
  then have "strpos' = strpos + min (length x) (len - strpos)" using a by (simp add: fill_result)
  then show "((strpos', len, x), strpos, len, lfsrs) \<in> measure (\<lambda>(strpos, len, _). len - strpos)"
    using a(4) by (cases x) auto
qed simp

declare string_loop.simps [simp del]

fun values_loop :: "int list \<Rightarrow> u8 list \<Rightarrow> u8 list" where
  "values_loop [] lfsrs = []"
| "values_loop (len # lengths) lfsrs =
    (let (cs, lfsrs') = string_loop 0 (unat (of_int len :: u32)) lfsrs in cs @ values_loop lengths lfsrs')"

definition GenerateRandomValues :: "int list \<Rightarrow> int \<Rightarrow> u8 list res" where
  "GenerateRandomValues lengths amount =
    (if amount < 0 then Inl Length_error else Inr (values_loop lengths (map of_nat [0..<64])))"

section \<open>Strings\<close>

text \<open>The constructor of a string refuses the size that a negative length becomes.\<close>

fun vector_loop :: "int list \<Rightarrow> int \<Rightarrow> u8 list \<Rightarrow> u8 list list res" where
  "vector_loop [] pos vals = Inr []"
| "vector_loop (len # lengths) pos vals =
    (if len < 0 then Inl Length_error
     else if nat (pos + len) > length vals then Inl Undefined
     else res_bind (add_int pos len) (\<lambda>pos'. res_bind (vector_loop lengths pos' vals) (\<lambda>vec.
       Inr (take (nat len) (drop (nat pos) vals) # vec))))"

definition DeserializeToVector :: "int list \<Rightarrow> u8 list \<Rightarrow> u8 list list res" where
  "DeserializeToVector lengths vals = vector_loop lengths 0 vals"

record string_array =
  sa_length :: nat
  sa_offsets :: "int list"
  sa_values :: "u8 list"

fun offsets_loop :: "int list \<Rightarrow> int \<Rightarrow> int list res" where
  "offsets_loop [] offset = Inr [offset]"
| "offsets_loop (len # lengths) offset =
    res_bind (add_int offset len) (\<lambda>offset'. res_bind (offsets_loop lengths offset') (\<lambda>raw_ints. Inr (offset # raw_ints)))"

definition DeserializeToArrow :: "(nat \<Rightarrow> bool) \<Rightarrow> int list \<Rightarrow> u8 list \<Rightarrow> string_array res" where
  "DeserializeToArrow AllocateBuffer lengths vals =
    (if \<not> AllocateBuffer (length vals) then Inl Runtime_error
     else if \<not> AllocateBuffer ((length lengths + 1) * 4) then Inl Runtime_error
     else res_bind (offsets_loop lengths 0) (\<lambda>raw_ints.
       Inr \<lparr>sa_length = length lengths, sa_offsets = raw_ints, sa_values = vals\<rparr>))"

text \<open>A string of an array lies between its offset and the next one.\<close>

definition array_string :: "string_array \<Rightarrow> nat \<Rightarrow> u8 list" where
  "array_string a i = take (nat (sa_offsets a ! Suc i - sa_offsets a ! i)) (drop (nat (sa_offsets a ! i)) (sa_values a))"

section \<open>What the data set is\<close>

definition printable_char :: "u8 \<Rightarrow> bool" where
  "printable_char c \<longleftrightarrow> 32 \<le> c \<and> c < 127"

lemma printable_ok: "printable_char (printable r)"
proof -
  have "r AND 127 \<le> 127" by (rule word_and_le1)
  then show ?thesis by (auto simp: printable_def printable_char_def Let_def order_le_less)
qed

lemma string_loop_result:
  assumes "lfsrs \<noteq> []" "strpos \<le> len"
  shows "length (fst (string_loop strpos len lfsrs)) = len - strpos" "length (snd (string_loop strpos len lfsrs)) = length lfsrs"
    "\<forall>c\<in>set (fst (string_loop strpos len lfsrs)). printable_char c"
proof -
  have "length (fst (string_loop strpos len lfsrs)) = len - strpos \<and> length (snd (string_loop strpos len lfsrs)) = length lfsrs
    \<and> (\<forall>c\<in>set (fst (string_loop strpos len lfsrs)). printable_char c)"
    using assms
  proof (induction strpos len lfsrs rule: string_loop.induct)
    case (1 strpos len lfsrs)
    let ?l = "map lfsr_next lfsrs"
    let ?cs = "take (len - strpos) (map printable ?l)" and ?p = "strpos + min (length lfsrs) (len - strpos)"
    have f: "fill (map printable ?l) strpos len = (?cs, ?p)" using fill_result [OF 1(3)] by simp
    have cs: "length ?cs = ?p - strpos" "\<forall>c\<in>set ?cs. printable_char c"
      by (auto simp: printable_ok dest!: in_set_takeD)
    show ?case
    proof (cases "?p < len")
      case True
      then show ?thesis
        using 1(1) [OF refl f [symmetric] refl] 1(2,3) cs f
        by (subst (1 2 3) string_loop.simps) (auto simp: split_beta Let_def)
    next
      case False
      then show ?thesis using 1(2,3) cs f by (subst (1 2 3) string_loop.simps) (auto simp: split_beta Let_def)
    qed
  qed
  then show "length (fst (string_loop strpos len lfsrs)) = len - strpos" "length (snd (string_loop strpos len lfsrs)) = length lfsrs"
    "\<forall>c\<in>set (fst (string_loop strpos len lfsrs)). printable_char c" by blast+
qed

lemma values_loop_result:
  assumes "\<forall>len\<in>set lengths. 0 \<le> len \<and> len < 2 ^ 31" "lfsrs \<noteq> []"
  shows "int (length (values_loop lengths lfsrs)) = sum_list lengths" "\<forall>c\<in>set (values_loop lengths lfsrs). printable_char c"
proof -
  have "int (length (values_loop lengths lfsrs)) = sum_list lengths \<and> (\<forall>c\<in>set (values_loop lengths lfsrs). printable_char c)"
    using assms
  proof (induction lengths arbitrary: lfsrs)
    case (Cons len lengths)
    have "unat (of_int len :: u32) = nat len" using Cons.prems(1) by (intro unat_of_int_small) auto
    moreover have "snd (string_loop 0 (nat len) lfsrs) \<noteq> []"
      using string_loop_result(2) [OF Cons.prems(2), of 0 "nat len"] Cons.prems(2) by (metis le0 length_0_conv)
    ultimately show ?case
      using Cons.IH [of "snd (string_loop 0 (nat len) lfsrs)"] Cons.prems string_loop_result [OF Cons.prems(2), of 0 "nat len"]
      by (auto simp: split_beta Let_def)
  qed simp
  then show "int (length (values_loop lengths lfsrs)) = sum_list lengths" "\<forall>c\<in>set (values_loop lengths lfsrs). printable_char c"
    by blast+
qed

lemma lengths_loop_result:
  assumes "0 \<le> tot" "tot + int n * (int (unat min_len) + 255) < 2 ^ 31"
  shows "\<exists>lengths. lengths_loop n lfsr min_len msk tot = Inr (lengths, tot + sum_list lengths) \<and> length lengths = n
    \<and> (\<forall>len\<in>set lengths. int (unat min_len) \<le> len \<and> len \<le> int (unat min_len) + 255)"
  using assms
proof (induction n arbitrary: lfsr tot)
  case (Suc n)
  let ?l = "lfsr_next lfsr" and ?m = "int (unat min_len)"
  let ?r = "ucast ?l AND msk :: u32"
  have m': "0 \<le> int n * (?m + 255)" "int (Suc n) * (?m + 255) = int n * (?m + 255) + (?m + 255)"
    by (simp, simp add: algebra_simps)
  then have m: "?m + 255 < 2 ^ 31" using Suc.prems by linarith
  have "?r \<le> ucast ?l" by (rule word_and_le2)
  moreover have "unat (ucast ?l :: u32) = unat ?l"
    using unat_lt_u8 [of ?l] by (simp add: unsigned_ucast_eq take_bit_nat_eq_self)
  ultimately have "unat ?r \<le> unat ?l" by (simp add: word_le_nat_alt)
  then have r: "unat ?r \<le> 255" using unat_lt_u8 [of ?l] by linarith
  have "int (unat min_len + 255) < int (2 ^ 31)" using m by simp
  then have mn: "unat min_len + 255 < 2 ^ 31" by (simp only: of_nat_less_iff)
  with r have "unat (min_len + ?r) = unat min_len + unat ?r" by (intro unat_add_lem [THEN iffD1]) simp
  then have len: "sint (min_len + ?r) = ?m + int (unat ?r)" using mn r sint_small [of "min_len + ?r"] by simp
  have ri: "int (unat ?r) \<le> 255" using r by linarith
  have p: "0 \<le> tot + (?m + int (unat ?r))" "tot + (?m + int (unat ?r)) + int n * (?m + 255) < 2 ^ 31"
    using Suc.prems m' ri by linarith+
  then have fits: "add_int tot (?m + int (unat ?r)) = Inr (tot + (?m + int (unat ?r)))"
    unfolding add_int_def using m'(1) by (intro if_P) linarith
  show ?case
    using Suc.IH [OF p, of ?l] fits len ri by (auto simp: Let_def simp del: of_nat_unat)
qed simp

text \<open>Where the strings start.\<close>

fun starts :: "int \<Rightarrow> int list \<Rightarrow> int list" where
  "starts pos [] = [pos]"
| "starts pos (len # lengths) = pos # starts (pos + len) lengths"

lemma length_starts [simp]: "length (starts pos lengths) = Suc (length lengths)"
  by (induction lengths arbitrary: pos) simp_all

lemma starts_0 [simp]: "starts pos lengths ! 0 = pos"
  by (cases lengths) simp_all

lemma starts_Suc: "i < length lengths \<Longrightarrow> starts pos lengths ! Suc i = starts pos lengths ! i + lengths ! i"
proof (induction lengths arbitrary: pos i)
  case (Cons len lengths)
  then show ?case by (cases i) auto
qed simp

lemma add_int_ok: "0 \<le> a \<Longrightarrow> 0 \<le> b \<Longrightarrow> a + b < 2 ^ 31 \<Longrightarrow> add_int a b = Inr (a + b)"
  by (simp add: add_int_def)

lemma offsets_loop_result:
  assumes "\<forall>len\<in>set lengths. 0 \<le> len" "0 \<le> pos" "pos + sum_list lengths < 2 ^ 31"
  shows "offsets_loop lengths pos = Inr (starts pos lengths)"
  using assms
proof (induction lengths arbitrary: pos)
  case (Cons len lengths)
  have "0 \<le> sum_list lengths" using Cons.prems(1) by (intro sum_list_nonneg) simp
  then show ?case using Cons by (simp add: add_int_ok)
qed simp

fun parts :: "int \<Rightarrow> int list \<Rightarrow> u8 list \<Rightarrow> u8 list list" where
  "parts pos [] vals = []"
| "parts pos (len # lengths) vals = take (nat len) (drop (nat pos) vals) # parts (pos + len) lengths vals"

lemma vector_loop_result:
  assumes "\<forall>len\<in>set lengths. 0 \<le> len" "0 \<le> pos" "pos + sum_list lengths < 2 ^ 31" "pos + sum_list lengths \<le> int (length vals)"
  shows "vector_loop lengths pos vals = Inr (parts pos lengths vals)"
  using assms
proof (induction lengths arbitrary: pos)
  case (Cons len lengths)
  have "0 \<le> sum_list lengths" using Cons.prems(1) by (intro sum_list_nonneg) simp
  moreover from this have "add_int pos len = Inr (pos + len)" using Cons.prems by (intro add_int_ok) auto
  ultimately show ?case using Cons by simp
qed simp

lemma parts_result:
  assumes "\<forall>len\<in>set lengths. 0 \<le> len" "0 \<le> pos" "pos + sum_list lengths = int (length vals)"
  shows "concat (parts pos lengths vals) = drop (nat pos) vals" "map (\<lambda>s. int (length s)) (parts pos lengths vals) = lengths"
proof -
  have "concat (parts pos lengths vals) = drop (nat pos) vals \<and> map (\<lambda>s. int (length s)) (parts pos lengths vals) = lengths"
    using assms
  proof (induction lengths arbitrary: pos)
    case (Cons len lengths)
    have "0 \<le> sum_list lengths" using Cons.prems(1) by (intro sum_list_nonneg) simp
    then have "nat pos + nat len \<le> length vals" "nat (pos + len) = nat len + nat pos" using Cons.prems by auto
    moreover have "take (nat len) (drop (nat pos) vals) @ drop (nat len + nat pos) vals = drop (nat pos) vals"
      by (metis append_take_drop_id drop_drop)
    ultimately show ?case using Cons.IH [of "pos + len"] Cons.prems by simp
  qed simp
  then show "concat (parts pos lengths vals) = drop (nat pos) vals" "map (\<lambda>s. int (length s)) (parts pos lengths vals) = lengths"
    by blast+
qed

lemma parts_nth: "i < length lengths \<Longrightarrow>
  length (parts pos lengths vals) = length lengths \<and> parts pos lengths vals ! i = take (nat (lengths ! i)) (drop (nat (starts pos lengths ! i)) vals)"
proof (induction lengths arbitrary: pos i)
  case (Cons len lengths)
  have l: "length (parts p ls vals) = length ls" for p ls by (induction ls arbitrary: p) simp_all
  show ?case using Cons l by (cases i) auto
qed simp

lemma nonneg_le_sum_list: "\<forall>x\<in>set xs. 0 \<le> x \<Longrightarrow> x \<in> set xs \<Longrightarrow> x \<le> sum_list (xs :: int list)"
proof (induction xs)
  case (Cons y xs)
  have "0 \<le> sum_list xs" using Cons.prems(1) by (intro sum_list_nonneg) simp
  then show ?case using Cons by fastforce
qed simp

lemma data_set_generated:
  assumes "0 \<le> amount" "amount * (int (unat min_len) + 255) < 2 ^ 31" "\<forall>n. AllocateBuffer n"
  shows "\<exists>lengths tot vals strs arr. GenerateRandomLengths amount min_len msk = Inr (lengths, tot)
    \<and> GenerateRandomValues lengths tot = Inr vals \<and> int (length vals) = tot
    \<and> DeserializeToVector lengths vals = Inr strs \<and> int (length strs) = amount \<and> concat strs = vals
    \<and> DeserializeToArrow AllocateBuffer lengths vals = Inr arr \<and> map (array_string arr) [0..<sa_length arr] = strs
    \<and> (\<forall>s\<in>set strs. int (unat min_len) \<le> int (length s) \<and> int (length s) \<le> int (unat min_len) + 255 \<and> (\<forall>c\<in>set s. printable_char c))"
proof -
  let ?m = "int (unat min_len)"
  obtain ls where ls: "GenerateRandomLengths amount min_len msk = Inr (ls, sum_list ls)" "int (length ls) = amount"
    "\<forall>len\<in>set ls. ?m \<le> len \<and> len \<le> ?m + 255"
    using lengths_loop_result [of 0 "nat amount" min_len 0 msk] assms(1,2) by (auto simp: GenerateRandomLengths_def)
  have pos: "\<forall>len\<in>set ls. 0 \<le> len" using ls(3) by (meson of_nat_0_le_iff order_trans)
  have sm: "sum_list ls \<le> int (length ls) * (?m + 255)" using ls(3) by (induction ls) (auto simp: algebra_simps)
  then have sum: "0 \<le> sum_list ls" "sum_list ls < 2 ^ 31" using pos ls(2) assms(2) by (auto intro: sum_list_nonneg)
  have small: "\<forall>len\<in>set ls. 0 \<le> len \<and> len < 2 ^ 31"
    using pos sum(2) nonneg_le_sum_list [OF pos] by fastforce
  define vals where "vals = values_loop ls (map of_nat [0..<64])"
  have ne: "map of_nat [0..<64] \<noteq> ([] :: u8 list)" by simp
  note vals = values_loop_result [OF small ne, folded vals_def]
  define strs where "strs = parts 0 ls vals"
  define arr where "arr = \<lparr>sa_length = length ls, sa_offsets = starts 0 ls, sa_values = vals\<rparr>"
  have vec: "DeserializeToVector ls vals = Inr strs"
    unfolding DeserializeToVector_def strs_def using vector_loop_result [OF pos] sum vals(1) by simp
  have arw: "DeserializeToArrow AllocateBuffer ls vals = Inr arr"
    using offsets_loop_result [OF pos, of 0] sum assms(3) by (simp add: DeserializeToArrow_def arr_def)
  have con: "concat strs = vals" and len: "map (\<lambda>s. int (length s)) strs = ls"
    unfolding strs_def using parts_result [OF pos, of 0 vals] vals(1) by simp_all
  have "length strs = length ls" using arg_cong [OF len, of length] by simp
  moreover have "map (array_string arr) [0..<sa_length arr] = strs"
    using calculation by (intro nth_equalityI) (simp_all add: arr_def strs_def array_string_def starts_Suc parts_nth)
  moreover have "?m \<le> int (length s) \<and> int (length s) \<le> ?m + 255" if "s \<in> set strs" for s
    using that ls(3) by (auto simp flip: len)
  moreover have "printable_char c" if "s \<in> set strs" "c \<in> set s" for s c
    using that vals(2) by (auto simp flip: con)
  moreover have "GenerateRandomValues ls (sum_list ls) = Inr vals" using sum by (simp add: GenerateRandomValues_def vals_def)
  ultimately show ?thesis using ls(1,2) vals(1) vec arw con by (intro exI conjI ballI) auto
qed

text \<open>C32: Whatever the mask, as long as the lengths cannot add up to more than an \<^verbatim>\<open>int\<close> holds and memory is given, the
  data set is generated: as many strings as asked for, each at least the minimal length and at most 255 longer, of
  printable characters. The vector of strings and the strings between the offsets of the Arrow array are the same, and together
  they are the characters that were generated, neither more nor less.\<close>

theorem string_data_set:
  assumes "0 \<le> amount" "amount * (int (unat min_len) + 255) < 2 ^ 31" "\<forall>n. AllocateBuffer n"
  shows "\<exists>lengths tot vals strs arr. GenerateRandomLengths amount min_len msk = Inr (lengths, tot)
    \<and> GenerateRandomValues lengths tot = Inr vals \<and> int (length vals) = tot
    \<and> DeserializeToVector lengths vals = Inr strs \<and> int (length strs) = amount \<and> concat strs = vals
    \<and> DeserializeToArrow AllocateBuffer lengths vals = Inr arr \<and> map (array_string arr) [0..<sa_length arr] = strs
    \<and> (\<forall>s\<in>set strs. int (unat min_len) \<le> int (length s) \<and> int (length s) \<le> int (unat min_len) + 255 \<and> (\<forall>c\<in>set s. printable_char c))"
  by (rule data_set_generated [OF assms])

lemma string_data_set_witness:
  "\<exists>lengths tot vals strs. GenerateRandomLengths 16 0 255 = Inr (lengths, tot) \<and> GenerateRandomValues lengths tot = Inr vals
    \<and> DeserializeToVector lengths vals = Inr strs \<and> length strs = 16 \<and> concat strs = vals"
proof -
  have "int (length strs) = 16 \<Longrightarrow> length strs = 16" for strs :: "u8 list list" by simp
  then show ?thesis using string_data_set [of 16 0 "\<lambda>_. True" 255] by fastforce
qed

end
