(* ===== verification/Example_Programs.thy ===== *)
theory Example_Programs
  imports Kernel String_Data
begin

text \<open>
  The main functions of the example programs, \<^verbatim>\<open>fletcher/examples\<close>: \<^verbatim>\<open>stringwrite.cpp\<close>, \<^verbatim>\<open>sum_tiny.cpp\<close> (the same file in the
  examples sum, reduce and filter) and the three programs \<^verbatim>\<open>sum.cpp\<close>. They use the whole run-time library. None is a
  program that waits for its kernel for ever; otherwise the result is an exception or the exit code, what is printed at the end, and
  the state of the device when the body of main ends. The destructors of context and platform, which run after that,
  are in \<^theory_text>\<open>Context\<close> and \<^theory_text>\<open>Platform\<close>. Messages and times are left out. Arrow's file functions and allocator, and the loader of platforms,
  are parameters.
\<close>

section \<open>The sum of a column\<close>

type_synonym 'd outcome = "(int \<times> u32 option \<times> 'd) res option"

definition ret :: "int \<Rightarrow> u32 option \<Rightarrow> 'd \<Rightarrow> 'd outcome" where
  "ret code printed d = Some (Inr (code, printed, d))"

text \<open>Continuing with the result of a call that may throw, and with a status that is looked at.\<close>

definition call :: "'a res \<Rightarrow> ('a \<Rightarrow> 'd outcome) \<Rightarrow> 'd outcome" where
  "call r f = (case r of Inl e \<Rightarrow> Some (Inl e) | Inr x \<Rightarrow> f x)"

lemma call_simps [simp]: "call (Inl e) f = Some (Inl e)" "call (Inr x) f = f x"
  by (simp_all add: call_def)

lemma call_Some_iff: "call r f = Some (Inr y) \<longleftrightarrow> (\<exists>x. r = Inr x \<and> f x = Some (Inr y))"
  by (cases r) auto

text \<open>\<open>result0\<close> is what the variable for the result holds before it is read. No status is looked at.\<close>

definition sum_tiny ::
    "('f, 'r, record_batch) arrow_io \<Rightarrow> ('h, 'd) loader \<Rightarrow> u32 \<Rightarrow> string list \<Rightarrow> 'd \<Rightarrow> 'd outcome" where
  "sum_tiny io dl result0 argv d =
    (if length argv \<noteq> 2 then ret (- 1) None d
     else call (ReadRecordBatchesFromFile io (argv ! 1) []) (\<lambda>batches.
     if batches = [] then Some (Inl Undefined)
     else call (Platform_Make_autodetect dl None True) (\<lambda>(_, platform).
     case platform of None \<Rightarrow> Some (Inl Undefined) | Some pf \<Rightarrow>
     (let p = pf_api pf; (_, d) = Platform_Init p d; (_, c) = Context_Make in
     call (QueueRecordBatch c (Some (batches ! 0)) MEM_ANY) (\<lambda>(_, c).
     let (_, c, d) = Context_Enable p c d; k = Kernel_new in
     call (Kernel_Start p k c d) (\<lambda>(_, k, d).
     case Kernel_WaitForFinish_0 p k c d of None \<Rightarrow> None | Some (_, d) \<Rightarrow>
     (let (_, v, _, d) = Kernel_GetReturn p c result0 None d in ret 0 (Some v) d)))))))"

text \<open>The status of enabling the context is not looked at either: the variable still holds the status of the call before.\<close>

definition reduce_sum ::
    "('f, 'r, record_batch) arrow_io \<Rightarrow> ('h, 'd) loader \<Rightarrow> u32 \<Rightarrow> u32 \<Rightarrow> string list \<Rightarrow> 'd \<Rightarrow> 'd outcome" where
  "reduce_sum io dl result0 result1 argv d =
    (if length argv \<noteq> 2 then ret (- 1) None d
     else call (ReadRecordBatchesFromFile io (argv ! 1) []) (\<lambda>batches.
     if length batches \<noteq> 1 then ret (- 1) None d
     else call (Platform_Make_autodetect dl None True) (\<lambda>(status, platform).
     if \<not> status_ok status then ret (- 1) None d
     else case platform of None \<Rightarrow> Some (Inl Undefined) | Some pf \<Rightarrow>
     (let p = pf_api pf; (status, d) = Platform_Init p d in
     if \<not> status_ok status then ret (- 1) None d
     else let (status, c) = Context_Make in
     if \<not> status_ok status then ret (- 1) None d
     else call (QueueRecordBatch c (Some (batches ! 0)) MEM_ANY) (\<lambda>(status, c).
     if \<not> status_ok status then ret (- 1) None d
     else let (_, c, d) = Context_Enable p c d in
     if \<not> status_ok status then ret (- 1) None d
     else let k = Kernel_new in
     call (Kernel_Start p k c d) (\<lambda>(status, k, d).
     if \<not> status_ok status then ret (- 1) None d
     else case Kernel_WaitForFinish_0 p k c d of None \<Rightarrow> None | Some (status, d) \<Rightarrow>
     (if \<not> status_ok status then ret (- 1) None d
      else let (status, v, _, d) = Kernel_GetReturn p c result0 (Some result1) d in
      if \<not> status_ok status then ret (- 1) None d else ret 0 (Some v) d)))))))"

lemma GetReturn_first:
  "Kernel_GetReturn p c r0 (Some r1) d = (st, v, w, d') \<Longrightarrow> \<exists>st' d''. Kernel_GetReturn p c r0 None d = (st', v, None, d'')"
  by (auto simp: Kernel_GetReturn_def split: prod.splits if_splits)

text \<open>When the program that looks at the statuses prints a sum, the one that looks at none prints the same.\<close>

theorem tiny_sum_agrees:
  assumes "reduce_sum io dl result0 result1 argv d = Some (Inr (0, Some v, d'))"
  shows "\<exists>d''. sum_tiny io dl result0 argv d = Some (Inr (0, Some v, d''))"
proof -
  note r = reduce_sum_def ret_def Let_def Context_Make_def
  have len: "length argv = 2" using assms by (cases "length argv = 2") (simp_all add: r)
  obtain bs where bs: "ReadRecordBatchesFromFile io (argv ! 1) [] = Inr bs"
    using assms len by (cases "ReadRecordBatchesFromFile io (argv ! 1) []") (simp_all add: r)
  have one: "length bs = 1" using assms len bs by (cases "length bs = 1") (simp_all add: r)
  obtain st pf where mk: "Platform_Make_autodetect dl None True = Inr (st, pf)"
    using assms len bs one by (cases "Platform_Make_autodetect dl None True") (auto simp: r)
  have st: "status_ok st" using assms len bs one mk by (cases "status_ok st") (simp_all add: r)
  obtain q where q: "pf = Some q" using assms len bs one mk st by (cases pf) (simp_all add: r)
  let ?p = "pf_api q"
  obtain si d1 where ini: "Platform_Init ?p d = (si, d1)" by fastforce
  have si: "status_ok si" using assms len bs one mk st q ini by (cases "status_ok si") (simp_all add: r)
  note f1 = len bs one mk st q ini si
  let ?c = "snd Context_Make"
  obtain sq c1 where qr: "QueueRecordBatch ?c (Some (bs ! 0)) MEM_ANY = Inr (sq, c1)"
    using assms f1 by (cases "QueueRecordBatch ?c (Some (bs ! 0)) MEM_ANY") (auto simp: r)
  have sq: "status_ok sq" using assms f1 qr by (cases "status_ok sq") (simp_all add: r)
  obtain se c2 d2 where en: "Context_Enable ?p c1 d1 = (se, c2, d2)" by (metis surj_pair)
  obtain sk k d3 where ks: "Kernel_Start ?p Kernel_new c2 d2 = Inr (sk, k, d3)"
    using assms f1 qr sq en by (cases "Kernel_Start ?p Kernel_new c2 d2") (auto simp: r)
  have sk: "status_ok sk" using assms f1 qr sq en ks by (cases "status_ok sk") (simp_all add: r)
  obtain sw d4 where w: "Kernel_WaitForFinish_0 ?p k c2 d3 = Some (sw, d4)"
    using assms f1 qr sq en ks sk by (cases "Kernel_WaitForFinish_0 ?p k c2 d3") (auto simp: r)
  have sw: "status_ok sw" using assms f1 qr sq en ks sk w by (cases "status_ok sw") (simp_all add: r)
  obtain sg v' w' d5 where g: "Kernel_GetReturn ?p c2 result0 (Some result1) d4 = (sg, v', w', d5)" by (metis prod_cases4)
  have "v' = v" using assms f1 qr sq en ks sk w sw g by (cases "status_ok sg") (simp_all add: r)
  then obtain st' d6 where "Kernel_GetReturn ?p c2 result0 None d4 = (st', v, None, d6)"
    using GetReturn_first [OF g] by blast
  moreover have "bs \<noteq> []" using one by auto
  ultimately show ?thesis using f1 qr en ks w by (simp add: sum_tiny_def ret_def Let_def Context_Make_def)
qed

definition example_io :: "(unit, unit, record_batch) arrow_io" where
  "example_io = \<lparr>io_open_readable = (\<lambda>_. Some ()), io_ReadSchema = (\<lambda>_. Some \<lparr>schema_fields = [], schema_metadata = None\<rparr>),
     io_open_reader = (\<lambda>_. Some ()), io_num_record_batches = (\<lambda>_. 1), io_ReadRecordBatch = (\<lambda>_ _. Some (hd (host_batches example_ctx))),
     io_AllocateResizableBuffer = (\<lambda>_. None), io_SerializeSchema = (\<lambda>_. None), io_open_output = (\<lambda>_. None),
     io_Write = (\<lambda>_ _. None), io_NewFileWriter = (\<lambda>_ _. None), io_WriteRecordBatch = (\<lambda>_ _. None), io_CloseWriter = id\<rparr>"

definition counting_loader :: "(nat, nat) loader" where
  "counting_loader = \<lparr>dl_ext = ''.so'', dl_open = (\<lambda>s. if s = ''libfletcher_echo.so'' then Some 0 else None),
     dl_link = (\<lambda>h. counting_api), dl_error = (\<lambda>h. None)\<rparr>"

lemma counting_loader_make: "Platform_Make_autodetect counting_loader None True =
    Inr (Status_OK, Some \<lparr>pf_api = counting_api, pf_terminated = False\<rparr>)"
  by (simp add: Platform_Make_autodetect_def FLETCHER_AUTODETECT_PLATFORMS_def Platform_Make_def Platform_Link_def counting_loader_def)

lemma counting_simps: "p_Init counting_api d = (0, d)" "p_WriteMMIO counting_api base off v d = (0, d)"
    "p_ReadMMIO counting_api base off old d = (0, if 2 \<le> d then 4 else 2, d + 1)"
  by (simp_all add: counting_api_def)

definition counting_ctx :: ctx where
  "counting_ctx = \<lparr>ctx_reg_offset = 0,
     host_batches = [\<lparr>rb_schema = \<lparr>schema_fields = [], schema_metadata = None\<rparr>, rb_num_rows = 2, rb_columns = []\<rparr>],
     host_batch_desc = [empty_description\<lparr>bd_name := [], bd_rows := 2, bd_fields := []\<rparr>], host_batch_memtype = [MEM_ANY],
     device_buffers = []\<rparr>"

abbreviation started_kernel :: kernel where
  "started_kernel \<equiv> Kernel_new\<lparr>metadata_written := True\<rparr>"

lemma counting_queue: "QueueRecordBatch (snd Context_Make)
      (Some \<lparr>rb_schema = \<lparr>schema_fields = [], schema_metadata = None\<rparr>, rb_num_rows = 2, rb_columns = []\<rparr>) MEM_ANY
    = Inr (Status_OK, counting_ctx)"
  by (simp add: QueueRecordBatch_def RecordBatchAnalyzer_Analyze_def Context_Make_def counting_ctx_def empty_description_def
      GetMeta_schema_def lookup_meta_def)

lemma counting_enable: "Context_Enable counting_api counting_ctx d = (Status_OK, counting_ctx, d)"
  by (simp add: Context_Enable_def counting_ctx_def empty_description_def)

lemma counting_start: "Kernel_Start counting_api Kernel_new counting_ctx d = Inr (mk_status 0 [], started_kernel, d)"
  by (simp add: Kernel_Start_def Kernel_WriteMetaData_def counting_ctx_def empty_description_def num_buffers_def Kernel_new_def
      WriteMMIO_def counting_simps)

lemma counting_reset: "\<exists>st. Kernel_Reset counting_api k counting_ctx d = (st, d) \<and> status_ok st"
  by (simp add: Kernel_Reset_def WriteMMIO_def counting_simps Let_def)

lemma counting_wait: "Kernel_WaitForFinish_0 counting_api started_kernel counting_ctx 0 = Some (Status_OK, 3)"
proof -
  have "poll counting_api 0 4 4 0 0 = Some 3" by (simp add: poll.simps ReadMMIO_def counting_simps)
  then show ?thesis
    by (simp add: Kernel_WaitForFinish_0_def Kernel_WaitForFinish_def Kernel_new_def counting_ctx_def FLETCHER_REG_STATUS_DONE_def
        push_bit_eq_mult)
qed

lemma counting_return: "\<exists>st w. Kernel_GetReturn counting_api counting_ctx 0 (Some 0) 3 = (st, 4, w, 5) \<and> status_ok st"
  "\<exists>st w. Kernel_GetReturn counting_api counting_ctx 0 (Some 0) 0 = (st, 2, w, 2) \<and> status_ok st"
  by (simp_all add: Kernel_GetReturn_def ReadMMIO_def counting_simps)

lemmas counting_run = counting_queue counting_enable counting_start counting_wait

lemmas counting_program = counting_loader_make ReadRecordBatchesFromFile_def example_io_def example_ctx_def Context_Make_def Platform_Init_def
  counting_simps Let_def ret_def

lemma tiny_sum_agrees_witness: "\<exists>d''. sum_tiny example_io counting_loader 0 [''sum'', ''numbers.rb''] 0 = Some (Inr (0, Some 4, d''))"
proof (rule tiny_sum_agrees)
  show "reduce_sum example_io counting_loader 0 0 [''sum'', ''numbers.rb''] 0 = Some (Inr (0, Some 4, 5))"
    using counting_run counting_return(1) by (auto simp: reduce_sum_def counting_program)
qed

section \<open>The sum programs that reset their kernel\<close>

text \<open>The example filter, without its clock readings.\<close>

definition filter_sum ::
    "('f, 'r, record_batch) arrow_io \<Rightarrow> ('h, 'd) loader \<Rightarrow> u32 \<Rightarrow> u32 \<Rightarrow> string list \<Rightarrow> 'd \<Rightarrow> 'd outcome" where
  "filter_sum io dl result0 result1 argv d =
    (if length argv \<noteq> 2 then ret (- 1) None d
     else call (ReadRecordBatchesFromFile io (argv ! 1) []) (\<lambda>batches.
     if length batches \<noteq> 1 then ret (- 1) None d
     else call (Platform_Make_autodetect dl None True) (\<lambda>(status, platform).
     if \<not> status_ok status then ret (- 1) None d
     else case platform of None \<Rightarrow> Some (Inl Undefined) | Some pf \<Rightarrow>
     (let p = pf_api pf; (status, d) = Platform_Init p d in
     if \<not> status_ok status then ret (- 1) None d
     else let (status, c) = Context_Make in
     if \<not> status_ok status then ret (- 1) None d
     else call (QueueRecordBatch c (Some (batches ! 0)) MEM_ANY) (\<lambda>(status, c).
     if \<not> status_ok status then ret (- 1) None d
     else let (_, c, d) = Context_Enable p c d in
     if \<not> status_ok status then ret (- 1) None d
     else let k = Kernel_new; (status, d) = Kernel_Reset p k c d in
     if \<not> status_ok status then ret (- 1) None d
     else call (Kernel_Start p k c d) (\<lambda>(status, k, d).
     if \<not> status_ok status then ret (- 1) None d
     else case Kernel_WaitForFinish_0 p k c d of None \<Rightarrow> None | Some (status, d) \<Rightarrow>
     (if \<not> status_ok status then ret (- 1) None d
      else let (status, v, _, d) = Kernel_GetReturn p c result0 (Some result1) d in
      if \<not> status_ok status then ret (- 1) None d else ret 0 (Some v) d)))))))"

text \<open>The example sum does not wait for its kernel but for the user; \<open>pause\<close> is what the device does in the meantime. The status that is looked at
  after that is the one of the start.\<close>

definition sum_main ::
    "('d \<Rightarrow> 'd) \<Rightarrow> ('f, 'r, record_batch) arrow_io \<Rightarrow> ('h, 'd) loader \<Rightarrow> u32 \<Rightarrow> u32 \<Rightarrow> string list \<Rightarrow> 'd \<Rightarrow> 'd outcome" where
  "sum_main pause io dl result0 result1 argv d =
    (if length argv \<noteq> 2 then ret (- 1) None d
     else call (ReadRecordBatchesFromFile io (argv ! 1) []) (\<lambda>batches.
     if length batches \<noteq> 1 then ret (- 1) None d
     else call (Platform_Make_autodetect dl None True) (\<lambda>(status, platform).
     if \<not> status_ok status then ret (- 1) None d
     else case platform of None \<Rightarrow> Some (Inl Undefined) | Some pf \<Rightarrow>
     (let p = pf_api pf; (status, d) = Platform_Init p d in
     if \<not> status_ok status then ret (- 1) None d
     else let (status, c) = Context_Make in
     if \<not> status_ok status then ret (- 1) None d
     else call (QueueRecordBatch c (Some (batches ! 0)) MEM_ANY) (\<lambda>(status, c).
     if \<not> status_ok status then ret (- 1) None d
     else let (_, c, d) = Context_Enable p c d in
     if \<not> status_ok status then ret (- 1) None d
     else let k = Kernel_new; (status, d) = Kernel_Reset p k c d in
     if \<not> status_ok status then ret (- 1) None d
     else call (Kernel_Start p k c d) (\<lambda>(status, k, d).
     if \<not> status_ok status then ret (- 1) None d
     else let d = pause d in
     if \<not> status_ok status then ret (- 1) None d
     else let (status, v, _, d) = Kernel_GetReturn p c result0 (Some result1) d in
     if \<not> status_ok status then ret (- 1) None d else ret 0 (Some v) d))))))"

text \<open>On a device that needs three looks to get done the two programs print different sums when the user is too fast.\<close>

lemma sum_read_early:
  "filter_sum example_io counting_loader 0 0 [''sum'', ''numbers.rb''] 0 = Some (Inr (0, Some 4, 5))"
  "sum_main id example_io counting_loader 0 0 [''sum'', ''numbers.rb''] 0 = Some (Inr (0, Some 2, 2))"
  using counting_run counting_return counting_reset [of Kernel_new 0]
  by (auto simp: filter_sum_def sum_main_def counting_program)

section \<open>Writing strings\<close>

text \<open>The allocator gets the number of the request and the size.\<close>

definition PrepareRecordBatch :: "(nat \<Rightarrow> int \<Rightarrow> u64 option) \<Rightarrow> arrow_schema \<Rightarrow> int \<Rightarrow> int \<Rightarrow> record_batch res" where
  "PrepareRecordBatch AllocateBuffer schema num_strings num_chars =
    res_bind (add_int num_strings 1) (\<lambda>n. let off_size = sint (4 * of_int n :: u64) in
     case AllocateBuffer 0 off_size of None \<Rightarrow> Inl Runtime_error | Some offsets \<Rightarrow>
     (case AllocateBuffer 1 num_chars of None \<Rightarrow> Inl Runtime_error | Some vals \<Rightarrow>
      Inr \<lparr>rb_schema = schema, rb_num_rows = num_strings,
           rb_columns = [Binary_array \<lparr>arr_type = STRING, arr_length = num_strings, arr_null_count = 0, arr_null_bitmap = (0, 0)\<rparr>
              (offsets, off_size) (vals, num_chars)]\<rparr>))"

text \<open>The arguments: number of strings, minimal length and mask of the lengths.\<close>

definition arg_or :: "string list \<Rightarrow> nat \<Rightarrow> u32 \<Rightarrow> u32" where
  "arg_or argv i preset = (if i < length argv then ucast (strtoul (argv ! i) 10) else preset)"

record 'd string_setup =
  su_platform :: "'d platform"
  su_context :: ctx
  su_num_str :: int
  su_num_values :: int
  su_batch :: record_batch

text \<open>Up to the start of the kernel. \<open>alloc_data\<close> is for the data set in software.\<close>

definition stringwrite_setup ::
    "('f, 'r, record_batch) arrow_io \<Rightarrow> ('h, 'd) loader \<Rightarrow> (nat \<Rightarrow> bool) \<Rightarrow> (nat \<Rightarrow> int \<Rightarrow> u64 option) \<Rightarrow> string list \<Rightarrow> 'd \<Rightarrow>
     ('d string_setup \<times> 'd) res" where
  "stringwrite_setup io dl alloc_data alloc argv d =
    res_bind (ReadSchemaFromFile io (argv ! 1)) (\<lambda>schema.
    let num_str = sint (arg_or argv 2 16); min_len = arg_or argv 3 0; len_msk = arg_or argv 4 255 in
    res_bind (GenerateRandomLengths num_str min_len len_msk) (\<lambda>(rand_lens, num_values).
    res_bind (GenerateRandomValues rand_lens num_values) (\<lambda>rand_vals.
    res_bind (DeserializeToVector rand_lens rand_vals) (\<lambda>_.
    res_bind (DeserializeToArrow alloc_data rand_lens rand_vals) (\<lambda>_.
    res_bind (PrepareRecordBatch alloc schema num_str num_values) (\<lambda>dataset_fpga.
    res_bind (Platform_Make_autodetect dl None True) (\<lambda>(status, platform).
    case status_ewf status ''Could not create platform.'' of Inl _ \<Rightarrow> Inl Exited | Inr _ \<Rightarrow>
    (case platform of None \<Rightarrow> Inl Undefined | Some pf \<Rightarrow>
    (let p = pf_api pf; (_, d) = Platform_Init p d; (_, c) = Context_Make in
     res_bind (QueueRecordBatch c (Some dataset_fpga) MEM_ANY) (\<lambda>(_, c).
     let (_, c, d) = Context_Enable p c d in
     res_bind (Kernel_SetRange p Kernel_new c 0 0 (of_int num_str) d) (\<lambda>(_, d).
     let (_, d) = Kernel_SetArguments p Kernel_new c [min_len, len_msk] d in
     Inr (\<lparr>su_platform = pf, su_context = c, su_num_str = num_str, su_num_values = num_values, su_batch = dataset_fpga\<rparr>, d))))))))))))"

text \<open>From the start on: the buffers of the device are copied into those of the batch.\<close>

definition string_buffers :: "record_batch \<Rightarrow> (u64 \<times> u64) res" where
  "string_buffers rb = (case rb_columns rb of
      Binary_array h offsets vals # _ \<Rightarrow> Inr (fst offsets, fst vals)
    | _ \<Rightarrow> Inl Undefined)"

definition stringwrite ::
    "('f, 'r, record_batch) arrow_io \<Rightarrow> ('h, 'd) loader \<Rightarrow> (nat \<Rightarrow> bool) \<Rightarrow> (nat \<Rightarrow> int \<Rightarrow> u64 option) \<Rightarrow> string list \<Rightarrow> 'd \<Rightarrow> 'd outcome" where
  "stringwrite io dl alloc_data alloc argv d =
    (if length argv < 2 then ret (- 1) None d
     else call (stringwrite_setup io dl alloc_data alloc argv d) (\<lambda>(su, d).
     let p = pf_api (su_platform su); c = su_context su in
     call (Kernel_Start p Kernel_new c d) (\<lambda>(_, k, d).
     case Kernel_WaitForFinish p k c 100 d of None \<Rightarrow> None | Some (_, d) \<Rightarrow>
     call (string_buffers (su_batch su)) (\<lambda>(raw_offsets, raw_values).
     call (device_buffer_at c 0) (\<lambda>b0.
     call (add_int (su_num_str su) 1) (\<lambda>n.
     let (_, d) = CopyDeviceToHost p (db_device_address b0) raw_offsets (4 * of_int n) d in
     call (device_buffer_at c 1) (\<lambda>b1.
     let (_, d) = CopyDeviceToHost p (db_device_address b1) raw_values (of_int (su_num_values su)) d in
     ret 0 None d)))))))"

lemma PrepareRecordBatch_rows: "PrepareRecordBatch a schema n m = Inr rb \<Longrightarrow> rb_num_rows rb = n"
  by (auto simp: PrepareRecordBatch_def Let_def elim!: res_bind_InrE split: option.split_asm)

lemma Queue_batches: "QueueRecordBatch c (Some rb) t = Inr (st, c') \<Longrightarrow>
    ctx_reg_offset c' = ctx_reg_offset c \<and> host_batches c' = host_batches c @ [rb]"
  by (auto simp: QueueRecordBatch_def res_bind_Inr_iff)

lemma Enable_batches: "Context_Enable p c d = (st, c', d') \<Longrightarrow> ctx_reg_offset c' = ctx_reg_offset c \<and> host_batches c' = host_batches c"
  by (auto simp: Context_Enable_def split: prod.splits)

lemma stringwrite_setup_result:
  assumes "stringwrite_setup io dl alloc_data alloc argv d = Inr (su, d')"
  shows "\<exists>d0. ctx_reg_offset (su_context su) = 0 \<and> host_batches (su_context su) = [su_batch su]
    \<and> rb_num_rows (su_batch su) = sint (arg_or argv 2 16)
    \<and> d' = SetArguments_loop (pf_api (su_platform su)) (su_context su) 0 [arg_or argv 3 0, arg_or argv 4 255] d0"
  using assms unfolding stringwrite_setup_def
  by (auto simp: Let_def Context_Make_def Kernel_SetArguments_def simp del: SetArguments_loop.simps elim!: res_bind_InrE
      split: prod.split_asm option.split_asm sum.split_asm dest!: PrepareRecordBatch_rows Queue_batches Enable_batches)
    (rule exI, rule refl)

text \<open>C25: When the kernel that writes strings is started, the range of the only batch, the addresses of its
  buffers and, behind them, the minimal length and the mask are in its registers. This needs a platform with registers and a
  device buffer for each buffer of the batch, which enabling the context makes when it succeeds; its status is not looked at.\<close>

theorem stringwrite_registers:
  assumes "stringwrite_setup io dl alloc_data alloc argv d = Inr (su, d1)" "has_registers (pf_api (su_platform su)) 0 reg"
    "num_buffers (su_context su) \<le> length (device_buffers (su_context su))" "2 * num_buffers (su_context su) + 8 \<le> 2 ^ 64"
  shows "\<exists>st d2. Kernel_Start (pf_api (su_platform su)) Kernel_new (su_context su) d1 = Inr (st, Kernel_new\<lparr>metadata_written := True\<rparr>, d2)
    \<and> status_ok st \<and> reg d2 4 = 0 \<and> reg d2 5 = arg_or argv 2 16
    \<and> (\<forall>b<num_buffers (su_context su).
        reg d2 (of_nat (6 + 2 * b)) = dau_lo (db_device_address (device_buffers (su_context su) ! b))
        \<and> reg d2 (of_nat (7 + 2 * b)) = dau_hi (db_device_address (device_buffers (su_context su) ! b)))
    \<and> reg d2 (of_nat (6 + 2 * num_buffers (su_context su))) = arg_or argv 3 0
    \<and> reg d2 (of_nat (7 + 2 * num_buffers (su_context su))) = arg_or argv 4 255"
proof -
  let ?p = "pf_api (su_platform su)" and ?c = "su_context su" and ?args = "[arg_or argv 3 0, arg_or argv 4 255]"
  obtain d0 where c: "ctx_reg_offset ?c = 0" "host_batches ?c = [su_batch su]" "rb_num_rows (su_batch su) = sint (arg_or argv 2 16)"
    and d1: "d1 = SetArguments_loop ?p ?c 0 ?args d0"
    using stringwrite_setup_result [OF assms(1)] by blast
  let ?n = "num_buffers ?c"
  have one: "num_recordbatches ?c = 1" using c(2) by (simp add: num_recordbatches_def)
  have r: "has_registers ?p (ctx_reg_offset ?c) reg" using assms(2) c(1) by simp
  have "reg d1 (of_nat (6 + 2 * ?n + i)) = ?args ! i" if "i < 2" for i
    using reg_consecutive(1) [OF r, of "6 + 2 * ?n" ?args i d0] assms(4) that by (simp add: d1 SetArguments_regs one del: of_nat_add)
  from this [of 0] this [of 1] have args: "reg d1 (of_nat (6 + 2 * ?n)) = arg_or argv 3 0" "reg d1 (of_nat (7 + 2 * ?n)) = arg_or argv 4 255"
    by (simp_all del: of_nat_add add: numeral_eq_Suc)
  obtain st d2 where st: "Kernel_Start ?p Kernel_new ?c d1 = Inr (st, Kernel_new\<lparr>metadata_written := True\<rparr>, d2)" "status_ok st"
    and rng: "\<forall>i<1. reg d2 (of_nat (4 + 2 * i)) = 0 \<and> reg d2 (of_nat (4 + 2 * i + 1)) = of_int (rb_num_rows (host_batches ?c ! i))"
    and buf: "\<forall>b<?n. reg d2 (of_nat (4 + 2 * 1 + 2 * b)) = dau_lo (db_device_address (device_buffers ?c ! b))
        \<and> reg d2 (of_nat (4 + 2 * 1 + 2 * b + 1)) = dau_hi (db_device_address (device_buffers ?c ! b))"
    and keep: "\<forall>off. 0 < off \<and> off < 4 \<or> 4 + 2 * 1 + 2 * ?n \<le> off \<and> off < 2 ^ 64 \<longrightarrow> reg d2 (of_nat off) = reg d1 (of_nat off)"
    using start_registers [OF r, of Kernel_new d1] assms(3,4) c(2) unfolding one by (auto simp: Kernel_new_def)
  have "reg d2 (of_nat (6 + 2 * ?n)) = arg_or argv 3 0" "reg d2 (of_nat (7 + 2 * ?n)) = arg_or argv 4 255"
    using keep [rule_format, of "6 + 2 * ?n"] keep [rule_format, of "7 + 2 * ?n"] args assms(4) by (simp_all del: of_nat_add)
  moreover have "reg d2 4 = 0" "reg d2 5 = arg_or argv 2 16" using rng c(2,3) by simp_all
  moreover have "reg d2 (of_nat (6 + 2 * b)) = dau_lo (db_device_address (device_buffers ?c ! b))
        \<and> reg d2 (of_nat (7 + 2 * b)) = dau_hi (db_device_address (device_buffers ?c ! b))" if "b < ?n" for b
    using buf [rule_format, OF that] by (simp add: add.commute)
  ultimately show ?thesis using st by blast
qed

definition string_io :: "(unit, unit, record_batch) arrow_io" where
  "string_io = example_io\<lparr>io_ReadSchema := (\<lambda>_. Some \<lparr>schema_fields = [Field ''s'' STRING False None], schema_metadata = None\<rparr>)\<rparr>"

lemma toy_enable_ok: "Context_Enable toy_api c d = (st, c', d') \<Longrightarrow> status_ok st"
proof -
  have b: "status_ok (fst (enable_buffer toy_api t m b d))" for t m b d
    by (cases t) (simp_all add: enable_buffer_def PrepareHostBuffer_def CacheHostBuffer_def toy_api_def Let_def)
  have "status_ok (fst (enable_all toy_api qs bufs d))" for qs bufs d
    using b by (induction qs arbitrary: bufs d) (auto simp: Let_def split_beta)
  then show "Context_Enable toy_api c d = (st, c', d') \<Longrightarrow> status_ok st"
    by (auto simp: Context_Enable_all Let_def split_beta)
qed

lemma stringwrite_registers_witness:
  "\<exists>su d1 st d2. stringwrite_setup string_io toy_loader (\<lambda>_. True) (\<lambda>i _. Some (of_nat i * 4096)) [''stringwrite'', ''s.as''] (\<lambda>_. 7) = Inr (su, d1)
    \<and> Kernel_Start (pf_api (su_platform su)) Kernel_new (su_context su) d1 = Inr (st, Kernel_new\<lparr>metadata_written := True\<rparr>, d2)
    \<and> d2 5 = 16 \<and> d2 10 = 0 \<and> d2 11 = 255"
proof -
  let ?argv = "[''stringwrite'', ''s.as'']" and ?alloc = "\<lambda>i (_::int). Some (of_nat i * 4096 :: u64)"
  let ?schema = "\<lparr>schema_fields = [Field ''s'' STRING False None], schema_metadata = None\<rparr>" and ?d = "\<lambda>_ :: u64. 7 :: u32"
  have args: "arg_or ?argv 2 16 = 16" "arg_or ?argv 3 0 = 0" "arg_or ?argv 4 255 = 255" by (simp_all add: arg_or_def)
  obtain lens tot vals strs arr where g: "GenerateRandomLengths 16 0 255 = Inr (lens, tot)" "GenerateRandomValues lens tot = Inr vals"
    "DeserializeToVector lens vals = Inr strs" "DeserializeToArrow (\<lambda>_. True) lens vals = Inr arr"
    using data_set_generated [of 16 0 "\<lambda>_. True" 255] by auto
  define rb where "rb = \<lparr>rb_schema = ?schema, rb_num_rows = 16, rb_columns = [Binary_array \<lparr>arr_type = STRING, arr_length = 16,
    arr_null_count = 0, arr_null_bitmap = (0, 0)\<rparr> (0, 68) (4096, tot)]\<rparr>"
  have p: "PrepareRecordBatch ?alloc ?schema 16 tot = Inr rb" by (simp add: PrepareRecordBatch_def add_int_def rb_def)
  have m: "Platform_Make_autodetect toy_loader None True = Inr (Status_OK, Some \<lparr>pf_api = toy_api, pf_terminated = False\<rparr>)"
    by (simp add: Platform_Make_autodetect_def FLETCHER_AUTODETECT_PLATFORMS_def Platform_Make_def Platform_Link_def toy_loader_def)
  obtain c where q: "QueueRecordBatch (snd Context_Make) (Some rb) MEM_ANY = Inr (Status_OK, c)" "num_buffers c = 2" "device_buffers c = []"
    "ctx_wf c" "ctx_reg_offset c = 0"
    by (simp add: QueueRecordBatch_def RecordBatchAnalyzer_Analyze_def Context_Make_def rb_def RBA_VisitBinary_def RBA_validity_def
        an_emplace_def num_buffers_def ctx_wf_def empty_description_def)
  obtain st c2 d2 where e: "Context_Enable toy_api c ?d = (st, c2, d2)" by (metis surj_pair)
  then have ok: "status_ok st" by (rule toy_enable_ok)
  have c2: "num_buffers c2 = 2" "length (device_buffers c2) = 2"
    using Enable_buffer_count [OF q(4) e ok] q(2,3) e by (auto simp: Context_Enable_def num_buffers_def split: prod.splits)
  obtain d3 where r: "Kernel_SetRange toy_api Kernel_new c2 0 0 16 d2 = Inr (Status_OK, d3)"
    by (simp add: Kernel_SetRange_def Let_def split_beta)
  let ?su = "\<lparr>su_platform = \<lparr>pf_api = toy_api, pf_terminated = False\<rparr>, su_context = c2, su_num_str = 16, su_num_values = tot, su_batch = rb\<rparr>"
  obtain d1 where s: "stringwrite_setup string_io toy_loader (\<lambda>_. True) ?alloc ?argv ?d = Inr (?su, d1)"
    using g p m q e r by (simp add: stringwrite_setup_def args string_io_def example_io_def ReadSchemaFromFile_def status_ewf_def
        Platform_Init_def toy_api_def Let_def split_beta Context_Make_def)
  show ?thesis
    using stringwrite_registers [OF s, of "\<lambda>d. d"] c2 args s by (auto simp: toy_registers)
qed

end
