(* ===== verification/Top_Templates.thy ===== *)
theory Top_Templates
  imports Prelude
begin

text \<open>
  The VHDL templates of the top levels, \<^verbatim>\<open>fletchgen/top/sim_template.h\<close> and \<^verbatim>\<open>axi_template.h\<close>, as lists of their lines
  without the comment with the licence at the top, and the placeholders that are in them. A placeholder is a name in braces
  after a dollar sign.
\<close>

section \<open>The simulation top level\<close>

definition sim_source_1 :: "string list" where
  "sim_source_1 = [
    ''library ieee;'',
    ''use ieee.std_logic_1164.all;'',
    ''use ieee.numeric_std.all;'',
    ''use ieee.std_logic_misc.all;'',
    '''',
    ''library work;'',
    ''use work.Interconnect_pkg.all;'',
    ''use work.UtilStr_pkg.all;'',
    ''use work.UtilConv_pkg.all;'',
    '''',
    ''entity SimTop_tc is'',
    ''  generic ('',
    ''    -- Accelerator properties'',
    ''    INDEX_WIDTH                 : natural := 32;'',
    ''    REG_WIDTH                   : natural := 32;'',
    ''    TAG_WIDTH                   : natural := 1;'',
    '''',
    ''    -- Host bus properties'',
    ''    BUS_ADDR_WIDTH              : natural := ${BUS_ADDR_WIDTH};'',
    ''    BUS_DATA_WIDTH              : natural := ${BUS_DATA_WIDTH};'',
    ''    BUS_LEN_WIDTH               : natural := ${BUS_LEN_WIDTH};'',
    ''    BUS_BURST_MAX_LEN           : natural := ${BUS_BURST_MAX_LEN};'',
    ''    BUS_BURST_STEP_LEN          : natural := ${BUS_BURST_STEP_LEN}'',
    ''  );'',
    ''end SimTop_tc;'',
    '''',
    ''architecture Behavorial of SimTop_tc is'',
    '''',
    ''  -----------------------------------------------------------------------------'',
    ''  -- Default wrapper component.'',
    ''  -----------------------------------------------------------------------------'',
    ''  component ${FLETCHER_WRAPPER_NAME} is'',
    ''    generic('',
    ''      BUS_ADDR_WIDTH     : integer;'',
    ''      BUS_DATA_WIDTH     : integer;'',
    ''      BUS_BURST_STEP_LEN : integer;'',
    ''      BUS_BURST_MAX_LEN  : integer;'',
    ''      BUS_LEN_WIDTH      : integer;'',
    ''      INDEX_WIDTH        : integer;'',
    ''      TAG_WIDTH          : integer'',
    ''    );'',
    ''    port('',
    ''      bcd_clk                   : in  std_logic;'',
    ''      bcd_reset                 : in  std_logic;'',
    ''      kcd_clk                   : in  std_logic;'',
    ''      kcd_reset                 : in  std_logic;'',
    ''${MST_RREQ_DECLARE}'',
    ''${MST_WREQ_DECLARE}'',
    ''      mmio_awvalid              : in  std_logic;'',
    ''      mmio_awready              : out std_logic;'',
    ''      mmio_awaddr               : in  std_logic_vector(31 downto 0);'',
    ''      mmio_wvalid               : in  std_logic;'',
    ''      mmio_wready               : out std_logic;'',
    ''      mmio_wdata                : in  std_logic_vector(31 downto 0);'',
    ''      mmio_wstrb                : in  std_logic_vector(3 downto 0);'',
    ''      mmio_bvalid               : out std_logic;'',
    ''      mmio_bready               : in  std_logic;'',
    ''      mmio_bresp                : out std_logic_vector(1 downto 0);'',
    ''      mmio_arvalid              : in  std_logic;'',
    ''      mmio_arready              : out std_logic;'',
    ''      mmio_araddr               : in  std_logic_vector(31 downto 0);'',
    ''      mmio_rvalid               : out std_logic;'',
    ''      mmio_rready               : in  std_logic;'',
    ''      mmio_rdata                : out std_logic_vector(31 downto 0);'',
    ''      mmio_rresp                : out std_logic_vector(1 downto 0)'',
    ''    );'',
    ''  end component;'',
    ''  -----------------------------------------------------------------------------'',
    '''',
    ''  -- Fletcher defaults'',
    ''  constant REG_CONTROL          : natural := 0;'',
    ''  constant REG_STATUS           : natural := 1;'',
    ''  constant REG_RETURN0          : natural := 2;'',
    ''  constant REG_RETURN1          : natural := 3;'',
    '''',
    ''  constant CONTROL_CLEAR        : std_logic_vector(31 downto 0) := X\"00000000\";'',
    ''  constant CONTROL_START        : std_logic_vector(31 downto 0) := X\"00000001\";'',
    ''  constant CONTROL_STOP         : std_logic_vector(31 downto 0) := X\"00000002\";'',
    ''  constant CONTROL_RESET        : std_logic_vector(31 downto 0) := X\"00000004\";'',
    '''',
    ''  constant STATUS_IDLE          : std_logic_vector(31 downto 0) := X\"00000001\";'',
    ''  constant STATUS_BUSY          : std_logic_vector(31 downto 0) := X\"00000002\";'',
    ''  constant STATUS_DONE          : std_logic_vector(31 downto 0) := X\"00000004\";'',
    '''',
    ''  -- Sim signals'',
    ''  signal clock_stop             : boolean := false;'',
    '''',
    ''  -- Accelerator signals'',
    ''  signal kcd_clk                : std_logic;'',
    ''  signal kcd_reset              : std_logic;'',
    '''',
    ''  -- Fletcher bus signals'',
    ''  signal bcd_clk                : std_logic;'',
    ''  signal bcd_reset              : std_logic;'',
    '''',
    ''  -- MMIO signals'',
    ''  signal mmio_awvalid           : std_logic := '0';'',
    ''  signal mmio_awready           : std_logic := '0';'',
    ''  signal mmio_awaddr            : std_logic_vector(31 downto 0);'',
    ''  signal mmio_wvalid            : std_logic := '0';'',
    ''  signal mmio_wready            : std_logic := '0';'',
    ''  signal mmio_wdata             : std_logic_vector(31 downto 0);'',
    ''  signal mmio_wstrb             : std_logic_vector(3 downto 0);'',
    ''  signal mmio_bvalid            : std_logic := '0';'',
    ''  signal mmio_bready            : std_logic := '0';'',
    ''  signal mmio_bresp             : std_logic_vector(1 downto 0);'',
    ''  signal mmio_arvalid           : std_logic := '0';'',
    ''  signal mmio_arready           : std_logic := '0';'',
    ''  signal mmio_araddr            : std_logic_vector(31 downto 0);'',
    ''  signal mmio_rvalid            : std_logic := '0';'',
    ''  signal mmio_rready            : std_logic := '0';'',
    ''  signal mmio_rdata             : std_logic_vector(31 downto 0);'',
    ''  signal mmio_rresp             : std_logic_vector(1 downto 0);'',
    '''',
    ''  -- Mmio signals to source in mmio procedures.'',
    ''  type mmio_source_t is record'',
    ''    awvalid           : std_logic;'',
    ''    awaddr            : std_logic_vector(31 downto 0);'',
    ''    wvalid            : std_logic;'',
    ''    wdata             : std_logic_vector(31 downto 0);'',
    ''    wstrb             : std_logic_vector(3 downto 0);'',
    ''    bready            : std_logic;'',
    '''',
    ''    arvalid           : std_logic;'',
    ''    araddr            : std_logic_vector(31 downto 0);'',
    ''    rready            : std_logic;'',
    ''  end record;'',
    '''',
    ''  -- Mmio signals to sink in mmio procedures'',
    ''  type mmio_sink_t is record'',
    ''    wready            : std_logic;'',
    '''',
    ''    awready           : std_logic;'',
    '''',
    ''    bvalid            : std_logic;'',
    ''    bresp             : std_logic_vector(1 downto 0);'',
    '''',
    ''    arready           : std_logic;'',
    '''']"

definition sim_source_2 :: "string list" where
  "sim_source_2 = [
    ''    rvalid            : std_logic;'',
    ''    rdata             : std_logic_vector(31 downto 0);'',
    ''    rresp             : std_logic_vector(1 downto 0);'',
    ''  end record;'',
    '''',
    ''  signal mmio_source : mmio_source_t;'',
    ''  signal mmio_sink : mmio_sink_t;'',
    '''',
    ''  -- Memory interface signals'',
    ''  signal bus_rreq_addr          : std_logic_vector(BUS_ADDR_WIDTH-1 downto 0);'',
    ''  signal bus_rreq_len           : std_logic_vector(BUS_LEN_WIDTH-1 downto 0);'',
    ''  signal bus_rreq_valid         : std_logic;'',
    ''  signal bus_rreq_ready         : std_logic;'',
    ''  signal bus_rdat_data          : std_logic_vector(BUS_DATA_WIDTH-1 downto 0);'',
    ''  signal bus_rdat_last          : std_logic;'',
    ''  signal bus_rdat_valid         : std_logic;'',
    ''  signal bus_rdat_ready         : std_logic;'',
    ''  signal bus_wreq_addr          : std_logic_vector(BUS_ADDR_WIDTH-1 downto 0);'',
    ''  signal bus_wreq_len           : std_logic_vector(BUS_LEN_WIDTH-1 downto 0);'',
    ''  signal bus_wreq_valid         : std_logic;'',
    ''  signal bus_wreq_ready         : std_logic;'',
    ''  signal bus_wdat_data          : std_logic_vector(BUS_DATA_WIDTH-1 downto 0);'',
    ''  signal bus_wdat_strobe        : std_logic_vector(BUS_DATA_WIDTH/8-1 downto 0);'',
    ''  signal bus_wdat_last          : std_logic;'',
    ''  signal bus_wdat_valid         : std_logic;'',
    ''  signal bus_wdat_ready         : std_logic;'',
    '''',
    ''  procedure mmio_write (constant idx    : in  natural;'',
    ''                        constant data   : in  std_logic_vector(31 downto 0);'',
    ''                        signal   source : out mmio_source_t;'',
    ''                        signal   sink   : in  mmio_sink_t;'',
    ''                        signal   clk    : in  std_logic;'',
    ''                        signal   reset  : in  std_logic)'',
    ''  is'',
    ''  begin'',
    ''    -- Wait for reset'',
    ''    loop'',
    ''      exit when reset = '0';'',
    ''      wait until rising_edge(clk);'',
    ''    end loop;'',
    ''    -- Address write channel'',
    ''    source.awaddr <= slv((REG_WIDTH/8)*idx, 32);'',
    ''    source.awvalid <= '1';'',
    ''    loop'',
    ''      wait until rising_edge(clk);'',
    ''      exit when sink.awready = '1';'',
    ''    end loop;'',
    ''    source.awvalid <= '0';'',
    ''    source.awaddr <= (others => 'U');'',
    ''    -- Write channel'',
    ''    source.wdata <= data;'',
    ''    source.wstrb <= X\"F\";'',
    ''    source.wvalid <= '1';'',
    ''    loop'',
    ''      wait until rising_edge(clk);'',
    ''      exit when sink.wready = '1';'',
    ''    end loop;'',
    ''    source.wvalid <= '0';'',
    ''    source.wdata <= (others => 'U');'',
    ''    source.wstrb <= (others => 'U');'',
    ''    -- Write response channel.'',
    ''    source.bready <= '1';'',
    ''    loop'',
    ''      wait until rising_edge(clk);'',
    ''      exit when sink.bvalid = '1';'',
    ''    end loop;'',
    ''    source.bready <= '0';'',
    ''  end procedure;'',
    '''',
    ''  procedure mmio_read(constant idx    : in  natural;'',
    ''                      variable data   : out std_logic_vector(31 downto 0);'',
    ''                      signal   source : out mmio_source_t;'',
    ''                      signal   sink   : in  mmio_sink_t;'',
    ''                      signal   clk    : in  std_logic;'',
    ''                      signal   reset  : in  std_logic)'',
    ''  is'',
    ''  begin'',
    ''    -- Wait for reset'',
    ''    loop'',
    ''      exit when reset = '0';'',
    ''      wait until rising_edge(clk);'',
    ''    end loop;'',
    ''    -- Address read channel'',
    ''    source.araddr <= slv((REG_WIDTH/8)*idx, 32);'',
    ''    source.arvalid <= '1';'',
    ''    loop'',
    ''      wait until rising_edge(clk);'',
    ''      exit when sink.arready = '1';'',
    ''    end loop;'',
    ''    source.arvalid <= '0';'',
    ''    source.araddr <= (others => 'U');'',
    ''    -- Read channel'',
    ''    loop'',
    ''      source.rready <= '1';'',
    ''      wait until rising_edge(clk);'',
    ''      if sink.rvalid = '1' then'',
    ''        data := sink.rdata;'',
    ''        exit;'',
    ''      end if;'',
    ''    end loop;'',
    ''    source.rready <= '0';'',
    ''  end procedure;'',
    '''',
    '''',
    ''begin'',
    '''',
    ''  -- Connect to records for easier readibility downstream.'',
    ''  mmio_awvalid <= mmio_source.awvalid;'',
    ''  mmio_awaddr  <= mmio_source.awaddr;'',
    ''  mmio_wvalid  <= mmio_source.wvalid;'',
    ''  mmio_wdata   <= mmio_source.wdata;'',
    ''  mmio_wstrb   <= mmio_source.wstrb;'',
    ''  mmio_bready  <= mmio_source.bready;'',
    ''  mmio_arvalid <= mmio_source.arvalid;'',
    ''  mmio_araddr  <= mmio_source.araddr;'',
    ''  mmio_rready  <= mmio_source.rready;'',
    '''',
    ''  mmio_sink.wready  <= mmio_wready;'',
    ''  mmio_sink.awready <= mmio_awready;'',
    ''  mmio_sink.bvalid  <= mmio_bvalid;'',
    ''  mmio_sink.bresp   <= mmio_bresp;'',
    ''  mmio_sink.arready <= mmio_arready;'',
    ''  mmio_sink.rvalid  <= mmio_rvalid;'',
    ''  mmio_sink.rdata   <= mmio_rdata;'',
    ''  mmio_sink.rresp   <= mmio_rresp;'',
    '''',
    '''',
    ''  -- Typical stimuli process:'',
    ''  stimuli_proc : process is'',
    ''    variable read_data        : std_logic_vector(REG_WIDTH-1 downto 0) := X\"DEADBEEF\";'',
    ''    variable read_data_masked : std_logic_vector(REG_WIDTH-1 downto 0);'',
    ''  begin'',
    ''    mmio_source.awvalid <= '0';'',
    ''    mmio_source.wvalid  <= '0';'',
    ''    mmio_source.bready  <= '0';'',
    '''',
    ''    mmio_source.arvalid <= '0';'',
    ''    mmio_source.rready  <= '0';'',
    '''']"

definition sim_source_3 :: "string list" where
  "sim_source_3 = [
    ''    wait until kcd_reset = '1' and bcd_reset = '1';'',
    '''',
    ''    -- 1. Reset the user core'',
    ''    mmio_write(REG_CONTROL, CONTROL_RESET, mmio_source, mmio_sink, bcd_clk, bcd_reset);'',
    '''',
    ''    -- 2. Write addresses of the arrow buffers in the SREC file.'',
    ''${SREC_BUFFER_ADDRESSES}'',
    ''    -- 3. Write recordbatch bounds.'',
    ''${SREC_FIRSTLAST_INDICES}'',
    ''    -- 4. Write any kernel-specific registers.'',
    ''${KERNEL_REGS_INIT}'',
    ''    -- 5. Start the kernel.'',
    ''${PROFILE_START}    mmio_write(REG_CONTROL, CONTROL_START, mmio_source, mmio_sink, bcd_clk, bcd_reset);'',
    '''',
    ''    -- 6. Poll for completion'',
    ''    loop'',
    ''      -- Wait a bunch of cycles.'',
    ''      for I in 0 to 8 loop'',
    ''        wait until rising_edge(bcd_clk);'',
    ''      end loop;'',
    '''',
    ''      -- Read the status register.'',
    ''      mmio_read(REG_STATUS, read_data, mmio_source, mmio_sink, bcd_clk, bcd_reset);'',
    '''',
    ''      -- Check if we're done.'',
    ''      read_data_masked := read_data and STATUS_DONE;'',
    ''      exit when read_data_masked = STATUS_DONE;'',
    ''    end loop;'',
    '''',
    ''${PROFILE_STOP}'',
    ''    -- 7. Read return register.'',
    ''    mmio_read(REG_RETURN0, read_data, mmio_source, mmio_sink, bcd_clk, bcd_reset);'',
    ''    println(\"Return register 0: \" & slvToHex(read_data));'',
    ''    mmio_read(REG_RETURN1, read_data, mmio_source, mmio_sink, bcd_clk, bcd_reset);'',
    ''    println(\"Return register 1: \" & slvToHex(read_data));'',
    '''',
    ''    -- 8. Read profile registers.'',
    ''${PROFILE_READ}'',
    ''    -- 9. Finish and stop simulation.'',
    ''    report \"Stimuli done.\";'',
    ''    clock_stop <= true;'',
    '''',
    ''    wait;'',
    ''  end process;'',
    '''',
    ''  clk_proc: process is'',
    ''  begin'',
    ''    if not clock_stop then'',
    ''      kcd_clk <= '1';'',
    ''      bcd_clk <= '1';'',
    ''      wait for 5 ns;'',
    ''      kcd_clk <= '0';'',
    ''      bcd_clk <= '0';'',
    ''      wait for 5 ns;'',
    ''    else'',
    ''      wait;'',
    ''    end if;'',
    ''  end process;'',
    '''',
    ''  reset_proc: process is'',
    ''  begin'',
    ''    kcd_reset <= '1';'',
    ''    bcd_reset <= '1';'',
    ''    wait for 50 ns;'',
    ''    wait until rising_edge(kcd_clk);'',
    ''    kcd_reset <= '0';'',
    ''    bcd_reset <= '0';'',
    ''    wait;'',
    ''  end process;'',
    '''',
    ''${BUS_READ_SLAVE_MOCK}'',
    ''${BUS_WRITE_SLAVE_MOCK}'',
    '''',
    '''',
    ''  -----------------------------------------------------------------------------'',
    ''  -- Fletcher generated wrapper'',
    ''  -----------------------------------------------------------------------------'',
    ''  ${FLETCHER_WRAPPER_INST_NAME} : ${FLETCHER_WRAPPER_NAME}'',
    ''    generic map ('',
    ''      BUS_ADDR_WIDTH            => BUS_ADDR_WIDTH,'',
    ''      BUS_DATA_WIDTH            => BUS_DATA_WIDTH,'',
    ''      BUS_BURST_STEP_LEN        => BUS_BURST_STEP_LEN,'',
    ''      BUS_BURST_MAX_LEN         => BUS_ADDR_WIDTH,'',
    ''      BUS_LEN_WIDTH             => BUS_LEN_WIDTH,'',
    ''      INDEX_WIDTH               => INDEX_WIDTH,'',
    ''      TAG_WIDTH                 => TAG_WIDTH'',
    ''    )'',
    ''    port map ('',
    ''      kcd_clk                   => kcd_clk,'',
    ''      kcd_reset                 => kcd_reset,'',
    ''      bcd_clk                   => bcd_clk,'',
    ''      bcd_reset                 => bcd_reset,'',
    ''${MST_RREQ_INSTANTIATE}'',
    ''${MST_WREQ_INSTANTIATE}'',
    ''      mmio_awvalid              => mmio_awvalid,'',
    ''      mmio_awready              => mmio_awready,'',
    ''      mmio_awaddr               => mmio_awaddr,'',
    ''      mmio_wvalid               => mmio_wvalid,'',
    ''      mmio_wready               => mmio_wready,'',
    ''      mmio_wdata                => mmio_wdata,'',
    ''      mmio_wstrb                => mmio_wstrb,'',
    ''      mmio_bvalid               => mmio_bvalid,'',
    ''      mmio_bready               => mmio_bready,'',
    ''      mmio_bresp                => mmio_bresp,'',
    ''      mmio_arvalid              => mmio_arvalid,'',
    ''      mmio_arready              => mmio_arready,'',
    ''      mmio_araddr               => mmio_araddr,'',
    ''      mmio_rvalid               => mmio_rvalid,'',
    ''      mmio_rready               => mmio_rready,'',
    ''      mmio_rdata                => mmio_rdata,'',
    ''      mmio_rresp                => mmio_rresp'',
    ''    );'',
    '''',
    ''end architecture;'']"

section \<open>The AXI top level\<close>

definition axi_source_1 :: "string list" where
  "axi_source_1 = [
    ''library ieee;'',
    ''use ieee.std_logic_1164.all;'',
    ''use ieee.numeric_std.all;'',
    ''use ieee.std_logic_misc.all;'',
    '''',
    ''library work;'',
    ''use work.Axi_pkg.all;'',
    ''use work.UtilInt_pkg.all;'',
    ''use work.UtilConv_pkg.all;'',
    ''use work.UtilMisc_pkg.all;'',
    '''',
    ''-------------------------------------------------------------------------------'',
    ''-- AXI4 compatible top level for Fletcher generated accelerators.'',
    ''-------------------------------------------------------------------------------'',
    ''-- Requires an AXI4 port to host memory.'',
    ''-- Requires an AXI4-lite port from host for MMIO.'',
    ''-------------------------------------------------------------------------------'',
    ''entity AxiTop is'',
    ''  generic ('',
    ''    -- Accelerator properties'',
    ''    INDEX_WIDTH                 : natural := 32;'',
    ''    REG_WIDTH                   : natural := 32;'',
    ''    TAG_WIDTH                   : natural := 1;'',
    ''    -- AXI4 (full) bus properties for memory access.'',
    ''    BUS_ADDR_WIDTH              : natural := ${BUS_ADDR_WIDTH};'',
    ''    BUS_DATA_WIDTH              : natural := ${BUS_DATA_WIDTH};'',
    ''    BUS_LEN_WIDTH               : natural := ${BUS_LEN_WIDTH};'',
    ''    BUS_BURST_MAX_LEN           : natural := ${BUS_BURST_MAX_LEN};'',
    ''    BUS_BURST_STEP_LEN          : natural := ${BUS_BURST_STEP_LEN};'',
    ''    -- AXI4-lite bus properties for MMIO'',
    ''    MMIO_ADDR_WIDTH             : natural := ${MMIO_ADDR_WIDTH};'',
    ''    MMIO_DATA_WIDTH             : natural := ${MMIO_DATA_WIDTH}'',
    ''  );'',
    '''',
    ''  port ('',
    ''    -- Kernel clock domain.'',
    ''    kcd_clk                     : in  std_logic;'',
    ''    kcd_reset                   : in  std_logic;'',
    ''    '',
    ''    -- Bus clock domain.'',
    ''    bcd_clk                     : in  std_logic;'',
    ''    bcd_reset                   : in  std_logic;'',
    '''',
    ''    ---------------------------------------------------------------------------'',
    ''    -- AXI4 master as Host Memory Interface'',
    ''    ---------------------------------------------------------------------------'',
    ''    -- Read address channel'',
    ''    m_axi_araddr                : out std_logic_vector(BUS_ADDR_WIDTH-1 downto 0);'',
    ''    m_axi_arlen                 : out std_logic_vector(7 downto 0);'',
    ''    m_axi_arvalid               : out std_logic := '0';'',
    ''    m_axi_arready               : in  std_logic;'',
    ''    m_axi_arsize                : out std_logic_vector(2 downto 0);'',
    '''',
    ''    -- Read data channel'',
    ''    m_axi_rdata                 : in  std_logic_vector(BUS_DATA_WIDTH-1 downto 0);'',
    ''    m_axi_rresp                 : in  std_logic_vector(1 downto 0);'',
    ''    m_axi_rlast                 : in  std_logic;'',
    ''    m_axi_rvalid                : in  std_logic;'',
    ''    m_axi_rready                : out std_logic := '0';'',
    '''',
    ''    -- Write address channel'',
    ''    m_axi_awvalid               : out std_logic := '0';'',
    ''    m_axi_awready               : in  std_logic;'',
    ''    m_axi_awaddr                : out std_logic_vector(BUS_ADDR_WIDTH-1 downto 0);'',
    ''    m_axi_awlen                 : out std_logic_vector(7 downto 0);'',
    ''    m_axi_awsize                : out std_logic_vector(2 downto 0);'',
    '''',
    ''    -- Write data channel'',
    ''    m_axi_wvalid                : out std_logic := '0';'',
    ''    m_axi_wready                : in  std_logic;'',
    ''    m_axi_wdata                 : out std_logic_vector(BUS_DATA_WIDTH-1 downto 0);'',
    ''    m_axi_wlast                 : out std_logic;'',
    ''    m_axi_wstrb                 : out std_logic_vector(BUS_DATA_WIDTH/8-1 downto 0);'',
    '''',
    ''    ---------------------------------------------------------------------------'',
    ''    -- AXI4-lite Slave as MMIO interface'',
    ''    ---------------------------------------------------------------------------'',
    ''    -- Write adress channel'',
    ''    s_axi_awvalid               : in std_logic;'',
    ''    s_axi_awready               : out std_logic;'',
    ''    s_axi_awaddr                : in std_logic_vector(MMIO_ADDR_WIDTH-1 downto 0);'',
    '''',
    ''    -- Write data channel'',
    ''    s_axi_wvalid                : in std_logic;'',
    ''    s_axi_wready                : out std_logic;'',
    ''    s_axi_wdata                 : in std_logic_vector(MMIO_DATA_WIDTH-1 downto 0);'',
    ''    s_axi_wstrb                 : in std_logic_vector((MMIO_DATA_WIDTH/8)-1 downto 0);'',
    '''',
    ''    -- Write response channel'',
    ''    s_axi_bvalid                : out std_logic;'',
    ''    s_axi_bready                : in std_logic;'',
    ''    s_axi_bresp                 : out std_logic_vector(1 downto 0);'',
    '''',
    ''    -- Read address channel'',
    ''    s_axi_arvalid               : in std_logic;'',
    ''    s_axi_arready               : out std_logic;'',
    ''    s_axi_araddr                : in std_logic_vector(MMIO_ADDR_WIDTH-1 downto 0);'',
    '''',
    ''    -- Read data channel'',
    ''    s_axi_rvalid                : out std_logic;'',
    ''    s_axi_rready                : in std_logic;'',
    ''    s_axi_rdata                 : out std_logic_vector(MMIO_DATA_WIDTH-1 downto 0);'',
    ''    s_axi_rresp                 : out std_logic_vector(1 downto 0)'',
    ''  );'',
    ''end AxiTop;'',
    '''',
    ''architecture Behavorial of AxiTop is'',
    '''']"

definition axi_source_2 :: "string list" where
  "axi_source_2 = [
    ''  -----------------------------------------------------------------------------'',
    ''  -- Generated top-level wrapper component.'',
    ''  -----------------------------------------------------------------------------'',
    ''  component ${FLETCHER_WRAPPER_NAME} is'',
    ''    generic('',
    ''      BUS_ADDR_WIDTH     : integer;'',
    ''      BUS_DATA_WIDTH     : integer;'',
    ''      BUS_BURST_STEP_LEN : integer;'',
    ''      BUS_BURST_MAX_LEN  : integer;'',
    ''      BUS_LEN_WIDTH      : integer;'',
    ''      INDEX_WIDTH        : integer;'',
    ''      TAG_WIDTH          : integer'',
    ''    );'',
    ''    port('',
    ''      bcd_clk                   : in  std_logic;'',
    ''      bcd_reset                 : in  std_logic;'',
    ''      kcd_clk                   : in  std_logic;'',
    ''      kcd_reset                 : in  std_logic;'',
    ''${MST_RREQ_DECLARE}'',
    ''${MST_WREQ_DECLARE}'',
    ''      mmio_awvalid              : in  std_logic;'',
    ''      mmio_awready              : out std_logic;'',
    ''      mmio_awaddr               : in  std_logic_vector(31 downto 0);'',
    ''      mmio_wvalid               : in  std_logic;'',
    ''      mmio_wready               : out std_logic;'',
    ''      mmio_wdata                : in  std_logic_vector(31 downto 0);'',
    ''      mmio_wstrb                : in  std_logic_vector(3 downto 0);'',
    ''      mmio_bvalid               : out std_logic;'',
    ''      mmio_bready               : in  std_logic;'',
    ''      mmio_bresp                : out std_logic_vector(1 downto 0);'',
    ''      mmio_arvalid              : in  std_logic;'',
    ''      mmio_arready              : out std_logic;'',
    ''      mmio_araddr               : in  std_logic_vector(31 downto 0);'',
    ''      mmio_rvalid               : out std_logic;'',
    ''      mmio_rready               : in  std_logic;'',
    ''      mmio_rdata                : out std_logic_vector(31 downto 0);'',
    ''      mmio_rresp                : out std_logic_vector(1 downto 0)'',
    ''    );'',
    ''  end component;'',
    ''  '',
    ''  -----------------------------------------------------------------------------'',
    ''  -- Internal signals.  '',
    ''  '',
    ''  -- Active low reset for bus clock domain'',
    ''  signal bcd_reset_n            : std_logic;'',
    ''  '',
    ''  -- Bus signals to convert to AXI.'',
    ''  signal rd_mst_rreq_addr       : std_logic_vector(BUS_ADDR_WIDTH-1 downto 0);'',
    ''  signal rd_mst_rreq_len        : std_logic_vector(BUS_LEN_WIDTH-1 downto 0);'',
    ''  signal rd_mst_rreq_valid      : std_logic;'',
    ''  signal rd_mst_rreq_ready      : std_logic;'',
    ''  signal rd_mst_rdat_data       : std_logic_vector(BUS_DATA_WIDTH-1 downto 0);'',
    ''  signal rd_mst_rdat_last       : std_logic;'',
    ''  signal rd_mst_rdat_valid      : std_logic;'',
    ''  signal rd_mst_rdat_ready      : std_logic;'',
    ''  signal wr_mst_wreq_valid      : std_logic;'',
    ''  signal wr_mst_wreq_ready      : std_logic;'',
    ''  signal wr_mst_wreq_addr       : std_logic_vector(BUS_ADDR_WIDTH-1 downto 0);'',
    ''  signal wr_mst_wreq_len        : std_logic_vector(BUS_LEN_WIDTH-1 downto 0);'',
    ''  signal wr_mst_wdat_valid      : std_logic;'',
    ''  signal wr_mst_wdat_ready      : std_logic;'',
    ''  signal wr_mst_wdat_data       : std_logic_vector(BUS_DATA_WIDTH-1 downto 0);'',
    ''  signal wr_mst_wdat_strobe     : std_logic_vector(BUS_DATA_WIDTH/8-1 downto 0);'',
    ''  signal wr_mst_wdat_last       : std_logic;'',
    ''begin'',
    '''',
    ''  -- Active low reset'',
    ''  bcd_reset_n <= not bcd_reset;'',
    '''',
    ''  -----------------------------------------------------------------------------'',
    ''  -- Fletcher generated wrapper'',
    ''  -----------------------------------------------------------------------------'',
    ''  ${FLETCHER_WRAPPER_INST_NAME} : ${FLETCHER_WRAPPER_NAME}'',
    ''    generic map ('',
    ''      BUS_ADDR_WIDTH            => BUS_ADDR_WIDTH,'',
    ''      BUS_DATA_WIDTH            => BUS_DATA_WIDTH,'',
    ''      BUS_BURST_STEP_LEN        => BUS_BURST_STEP_LEN,'',
    ''      BUS_BURST_MAX_LEN         => BUS_ADDR_WIDTH,'',
    ''      BUS_LEN_WIDTH             => BUS_LEN_WIDTH,'',
    ''      INDEX_WIDTH               => INDEX_WIDTH,'',
    ''      TAG_WIDTH                 => TAG_WIDTH'',
    ''    )'',
    ''    port map ('',
    ''      kcd_clk                   => kcd_clk,'',
    ''      kcd_reset                 => kcd_reset,'',
    ''      bcd_clk                   => bcd_clk,'',
    ''      bcd_reset                 => bcd_reset,'',
    ''${MST_RREQ_INSTANTIATE}'',
    ''${MST_WREQ_INSTANTIATE}'',
    ''      mmio_awvalid              => s_axi_awvalid,'',
    ''      mmio_awready              => s_axi_awready,'',
    ''      mmio_awaddr               => s_axi_awaddr,'',
    ''      mmio_wvalid               => s_axi_wvalid,'',
    ''      mmio_wready               => s_axi_wready,'',
    ''      mmio_wdata                => s_axi_wdata,'',
    ''      mmio_wstrb                => s_axi_wstrb,'',
    ''      mmio_bvalid               => s_axi_bvalid,'',
    ''      mmio_bready               => s_axi_bready,'',
    ''      mmio_bresp                => s_axi_bresp,'',
    ''      mmio_arvalid              => s_axi_arvalid,'',
    ''      mmio_arready              => s_axi_arready,'',
    ''      mmio_araddr               => s_axi_araddr,'',
    ''      mmio_rvalid               => s_axi_rvalid,'',
    ''      mmio_rready               => s_axi_rready,'',
    ''      mmio_rdata                => s_axi_rdata,'',
    ''      mmio_rresp                => s_axi_rresp'',
    ''    );'',
    '''',
    ''${AXI_READ_CONVERTER}'',
    ''${AXI_WRITE_CONVERTER}'',
    '''',
    ''end architecture;'']"

section \<open>Placeholders\<close>

definition sim_source :: "string list" where "sim_source = sim_source_1 @ sim_source_2 @ sim_source_3"
definition axi_source :: "string list" where "axi_source = axi_source_1 @ axi_source_2"

fun line_placeholders :: "string \<Rightarrow> string list" where
  "line_placeholders [] = []"
| "line_placeholders (c # cs) =
    (if c = CHR ''$'' \<and> take 1 cs = ''{'' then takeWhile (\<lambda>x. x \<noteq> CHR ''}'') (tl cs) # line_placeholders cs
     else line_placeholders cs)"

definition placeholders :: "string list \<Rightarrow> string list" where
  "placeholders ls = concat (map line_placeholders ls)"

lemma placeholders_append: "placeholders (xs @ ys) = placeholders xs @ placeholders ys"
  by (simp add: placeholders_def)

text \<open>A line without a dollar sign has none.\<close>

lemma no_placeholders: "CHR ''$'' \<notin> set l \<Longrightarrow> line_placeholders l = []"
  by (induction l) auto

lemma placeholders_sim_source_1: "placeholders sim_source_1 = [''BUS_ADDR_WIDTH'', ''BUS_DATA_WIDTH'', ''BUS_LEN_WIDTH'', ''BUS_BURST_MAX_LEN'', ''BUS_BURST_STEP_LEN'', ''FLETCHER_WRAPPER_NAME'', ''MST_RREQ_DECLARE'', ''MST_WREQ_DECLARE'']"
  by code_simp

lemma placeholders_sim_source_2: "placeholders sim_source_2 = []"
  by code_simp

lemma placeholders_sim_source_3: "placeholders sim_source_3 = [''SREC_BUFFER_ADDRESSES'', ''SREC_FIRSTLAST_INDICES'', ''KERNEL_REGS_INIT'', ''PROFILE_START'', ''PROFILE_STOP'', ''PROFILE_READ'', ''BUS_READ_SLAVE_MOCK'', ''BUS_WRITE_SLAVE_MOCK'', ''FLETCHER_WRAPPER_INST_NAME'', ''FLETCHER_WRAPPER_NAME'', ''MST_RREQ_INSTANTIATE'', ''MST_WREQ_INSTANTIATE'']"
  by code_simp

lemma placeholders_axi_source_1: "placeholders axi_source_1 = [''BUS_ADDR_WIDTH'', ''BUS_DATA_WIDTH'', ''BUS_LEN_WIDTH'', ''BUS_BURST_MAX_LEN'', ''BUS_BURST_STEP_LEN'', ''MMIO_ADDR_WIDTH'', ''MMIO_DATA_WIDTH'']"
  by code_simp

lemma placeholders_axi_source_2: "placeholders axi_source_2 = [''FLETCHER_WRAPPER_NAME'', ''MST_RREQ_DECLARE'', ''MST_WREQ_DECLARE'', ''FLETCHER_WRAPPER_INST_NAME'', ''FLETCHER_WRAPPER_NAME'', ''MST_RREQ_INSTANTIATE'', ''MST_WREQ_INSTANTIATE'', ''AXI_READ_CONVERTER'', ''AXI_WRITE_CONVERTER'']"
  by code_simp

end
