(* ===== verification/Test_Bench.thy ===== *)
theory Test_Bench
  imports Top_Templates Top_Level Kernel
begin

text \<open>
  The text of the simulation top level: its test bench plays the part of the run-time library (\<^theory_text>\<open>Bench_Run\<close>), with
  numbers of registers and bits of its own (\<^verbatim>\<open>top/sim_template.h\<close>), and its placeholders are filled by \<^verbatim>\<open>top/sim.cc\<close>.
\<close>

section \<open>Constants\<close>

text \<open>The text of the value of a VHDL constant: the last word of the line that declares it, without the semicolon.\<close>

fun starts_with :: "string \<Rightarrow> string \<Rightarrow> bool" where
  "starts_with [] l = True"
| "starts_with (c # p) [] = False"
| "starts_with (c # p) (d # l) = (if c = d then starts_with p l else False)"

definition vhdl_constant :: "string list \<Rightarrow> string \<Rightarrow> string option" where
  "vhdl_constant ls name = map_option (\<lambda>l. butlast (rev (takeWhile (\<lambda>c. c \<noteq> CHR '' '') (rev l))))
     (List.find (starts_with (''  constant '' @ name @ '' '')) ls)"

text \<open>How VHDL writes the bits of a register.\<close>

definition vhdl_bits :: "u32 \<Rightarrow> string" where
  "vhdl_bits w = ''X'' @ [CHR 0x22] @ setw (CHR ''0'') 8 (show_hex True (unat w)) @ [CHR 0x22]"

lemma find_append: "List.find P xs = Some x \<Longrightarrow> List.find P (xs @ ys) = Some x"
  by (induction xs) (auto split: if_splits)

lemma vhdl_constant_first: "vhdl_constant sim_source_1 n = Some v \<Longrightarrow> vhdl_constant sim_source n = Some v"
  by (auto simp: vhdl_constant_def sim_source_def find_append)

lemma template_registers:
  "map (vhdl_constant sim_source_1) [''REG_CONTROL'', ''REG_STATUS'', ''REG_RETURN0'', ''REG_RETURN1''] = map Some [''0'', ''1'', ''2'', ''3'']"
  by code_simp

lemma template_bits:
  "map (vhdl_constant sim_source_1) [''CONTROL_CLEAR'', ''CONTROL_START'', ''CONTROL_STOP'', ''CONTROL_RESET''] =
   map (\<lambda>d. Some (''X'' @ [CHR 0x22] @ ''0000000'' @ d @ [CHR 0x22])) [''0'', ''1'', ''2'', ''4'']"
  by code_simp

lemma template_status:
  "map (vhdl_constant sim_source_1) [''STATUS_IDLE'', ''STATUS_BUSY'', ''STATUS_DONE''] =
   map (\<lambda>d. Some (''X'' @ [CHR 0x22] @ ''0000000'' @ d @ [CHR 0x22])) [''1'', ''2'', ''4'']"
  by code_simp

lemma digit_chars: "char_of (48 :: nat) = CHR ''0''" "char_of (49 :: nat) = CHR ''1''" "char_of (50 :: nat) = CHR ''2''"
    "char_of (51 :: nat) = CHR ''3''" "char_of (52 :: nat) = CHR ''4''"
  by (simp_all add: char_of_def bit_0)

lemma zeros: "replicate 7 CHR ''0'' = ''0000000''"
  by (simp add: eval_nat_numeral)

lemma vhdl_bits_values: "vhdl_bits 0 = ''X'' @ [CHR 0x22] @ ''0000000'' @ ''0'' @ [CHR 0x22]" "vhdl_bits 1 = ''X'' @ [CHR 0x22] @ ''0000000'' @ ''1'' @ [CHR 0x22]"
    "vhdl_bits 2 = ''X'' @ [CHR 0x22] @ ''0000000'' @ ''2'' @ [CHR 0x22]" "vhdl_bits 4 = ''X'' @ [CHR 0x22] @ ''0000000'' @ ''4'' @ [CHR 0x22]"
  by (simp_all add: vhdl_bits_def setw_def show_hex_def digits.simps digit_char_def digit_chars zeros)

lemma show_small: "show_nat 0 = ''0''" "show_nat 1 = ''1''" "show_nat 2 = ''2''" "show_nat 3 = ''3''"
  by (simp_all add: show_nat_def digits.simps digit_char_def digit_chars)

lemma register_bits: "ctrl_start Kernel_new = 1" "push_bit FLETCHER_REG_CONTROL_STOP 1 = (2 :: u32)" "ctrl_reset Kernel_new = 4"
    "push_bit FLETCHER_REG_STATUS_IDLE 1 = (1 :: u32)" "push_bit FLETCHER_REG_STATUS_BUSY 1 = (2 :: u32)" "done_status Kernel_new = 4"
  by (simp_all add: Kernel_new_def FLETCHER_REG_CONTROL_START_def FLETCHER_REG_CONTROL_STOP_def FLETCHER_REG_CONTROL_RESET_def
      FLETCHER_REG_STATUS_IDLE_def FLETCHER_REG_STATUS_BUSY_def FLETCHER_REG_STATUS_DONE_def push_bit_eq_mult)

text \<open>The numbers of the control, status and return registers in the VHDL template are those of \<^verbatim>\<open>fletcher.h\<close>, and its words for
  start, stop, reset, idle, busy and done are the ones that a kernel object writes and waits for.\<close>

lemma bench_constants:
  "map (vhdl_constant sim_source) [''REG_CONTROL'', ''REG_STATUS'', ''REG_RETURN0'', ''REG_RETURN1''] =
     map (\<lambda>r. Some (show_nat r)) [FLETCHER_REG_CONTROL, FLETCHER_REG_STATUS, FLETCHER_REG_RETURN0, FLETCHER_REG_RETURN1]
   \<and> map (vhdl_constant sim_source) [''CONTROL_CLEAR'', ''CONTROL_START'', ''CONTROL_STOP'', ''CONTROL_RESET''] =
     map (\<lambda>w. Some (vhdl_bits w)) [0, ctrl_start Kernel_new, push_bit FLETCHER_REG_CONTROL_STOP 1, ctrl_reset Kernel_new]
   \<and> map (vhdl_constant sim_source) [''STATUS_IDLE'', ''STATUS_BUSY'', ''STATUS_DONE''] =
     map (\<lambda>w. Some (vhdl_bits w)) [push_bit FLETCHER_REG_STATUS_IDLE 1, push_bit FLETCHER_REG_STATUS_BUSY 1, done_status Kernel_new]"
  using template_registers template_bits template_status
  by (simp only: register_bits vhdl_bits_values show_small list.map vhdl_constant_first list.inject FLETCHER_REG_CONTROL_def FLETCHER_REG_STATUS_def
      FLETCHER_REG_RETURN0_def FLETCHER_REG_RETURN1_def)

section \<open>Placeholders\<close>

lemma sim_template_placeholders: "set (placeholders sim_source) = set sim_placeholders"
  by (simp only: sim_source_def placeholders_append placeholders_sim_source_1 placeholders_sim_source_2 placeholders_sim_source_3
      append_Cons append_Nil sim_placeholders_def list.set set_eq_subset insert_subset insert_iff simp_thms empty_subsetI)

lemma axi_template_placeholders: "set (placeholders axi_source) = set axi_placeholders"
  by (simp only: axi_source_def placeholders_append placeholders_axi_source_1 placeholders_axi_source_2 append_Cons append_Nil
      axi_placeholders_def list.set set_eq_subset insert_subset insert_iff simp_thms empty_subsetI)

text \<open>C38: The generator of the simulation replaces every placeholder in the text of its template exactly when there is no kernel
  register or a kernel register that the test bench can write; with status registers only, one placeholder stays in the
  VHDL. The generator of the AXI top level always replaces all placeholders of its template.\<close>

theorem templates_filled:
  "(GenerateSimTop realpath nm s ks ps rp wp rbs = Inr reps \<longrightarrow>
     {p \<in> set (placeholders sim_source). p \<notin> fst ` set reps} =
      (if ks = [] \<or> (\<exists>r\<in>set ks. mr_behavior r = CONTROL) then {} else {''KERNEL_REGS_INIT''}))
   \<and> set (placeholders axi_source) \<subseteq> fst ` set (GenerateAXITop nm s)"
  unfolding sim_template_placeholders axi_template_placeholders by (rule placeholders_replaced)

lemma templates_filled_witness:
  "\<exists>reps. GenerateSimTop Some ''M'' (SchemaSet_Make ''k'') [mmio_reg_new F_KERNEL STATUS ''s'' ''s'' 32 0 (Some 16) None] [] [] [] [] = Inr reps
    \<and> {p \<in> set (placeholders sim_source). p \<notin> fst ` set reps} = {''KERNEL_REGS_INIT''}"
proof -
  let ?ks = "[mmio_reg_new F_KERNEL STATUS ''s'' ''s'' 32 0 (Some 16) None]"
  obtain reps where r: "GenerateSimTop Some ''M'' (SchemaSet_Make ''k'') ?ks [] [] [] [] = Inr reps"
    using placeholders_replaced_witness by blast
  then show ?thesis using templates_filled [of Some "''M''" "SchemaSet_Make ''k''" ?ks "[]" "[]" "[]" "[]" reps]
    by (auto simp: mmio_reg_new_def)
qed

end
