(* ===== verification/Bench_Run.thy ===== *)
theory Bench_Run
  imports Test_Bench
begin

text \<open>
  What the test bench of the simulation does to the registers: the process \<^verbatim>\<open>stimuli_proc\<close> of
  \<^verbatim>\<open>top/sim_template.h\<close>, as accesses of the register file that the run-time library also writes. Register \<open>i\<close> is at byte
  address \<open>4 * i\<close> of the bus; the handshakes of the bus and the cycles between two reads of the status are left out.
\<close>

section \<open>The process of the test bench\<close>

definition bench_REG_CONTROL :: u32 where "bench_REG_CONTROL = 0"
definition bench_REG_STATUS :: u32 where "bench_REG_STATUS = 1"
definition bench_REG_RETURN0 :: u32 where "bench_REG_RETURN0 = 2"
definition bench_REG_RETURN1 :: u32 where "bench_REG_RETURN1 = 3"
definition bench_CONTROL_START :: u32 where "bench_CONTROL_START = 1"
definition bench_CONTROL_RESET :: u32 where "bench_CONTROL_RESET = 4"
definition bench_STATUS_DONE :: u32 where "bench_STATUS_DONE = 4"

lemmas bench_defs = bench_REG_CONTROL_def bench_REG_STATUS_def bench_REG_RETURN0_def bench_REG_RETURN1_def
  bench_CONTROL_START_def bench_CONTROL_RESET_def bench_STATUS_DONE_def

text \<open>They are the constants in the text of the template.\<close>

lemma bench_constants_text:
  "map (vhdl_constant sim_source) [''REG_CONTROL'', ''REG_STATUS'', ''REG_RETURN0'', ''REG_RETURN1''] =
     map (\<lambda>r. Some (show_nat (unat r))) [bench_REG_CONTROL, bench_REG_STATUS, bench_REG_RETURN0, bench_REG_RETURN1]"
  "map (vhdl_constant sim_source) [''CONTROL_START'', ''CONTROL_RESET'', ''STATUS_DONE''] =
     map (\<lambda>w. Some (vhdl_bits w)) [bench_CONTROL_START, bench_CONTROL_RESET, bench_STATUS_DONE]"
  using bench_constants
  by (simp_all add: bench_defs reg_defs register_bits [unfolded One_nat_def] del: vhdl_bits_def)





section \<open>Polling\<close>







section \<open>The words that are written\<close>


















section \<open>Property\<close>




end
