(* ===== verification/Pool_Life.thy ===== *)
theory Pool_Life
  imports Task_Pool
begin

text \<open>
  The life of the \<^verbatim>\<open>ThreadPool\<close> of \<^verbatim>\<open>ColumnScheduler.h\<close> up to its destruction: the loop of
  \<^verbatim>\<open>worker_thread\<close> that tests \<^verbatim>\<open>done\<close>, the destructor, and the destruction of the members, which C++
  does in the reverse order of their declaration: the queues, the global queue, the \<^verbatim>\<open>joiner\<close>.
\<close>

section \<open>Threads and members\<close>

text \<open>Where the thread of a worker is: at the test of \<^verbatim>\<open>done\<close>, in \<^verbatim>\<open>run_pending_task\<close>, or gone.\<close>

datatype loop_position = At_loop_head | In_run | Thread_left

text \<open>How far the destruction is; the threads are joined last.\<close>

datatype pool_stage = Pool_alive | Done_set | Queues_destroyed | Global_destroyed | Threads_joined

record 'a pool_life =
  life_pool :: "'a pool"
  positions :: "loop_position list"
  stage :: pool_stage

definition life_new :: "'a pool_life" where
  "life_new = \<lparr>life_pool = pool_new, positions = replicate NUM_THREADS At_loop_head, stage = Pool_alive\<rparr>"

text \<open>The next step of the search of a worker reads a queue that is destroyed already.\<close>

definition reads_destroyed :: "pool_stage \<Rightarrow> 'a worker_pc \<Rightarrow> bool" where
  "reads_destroyed st pc = (case pc of
       In_task _ \<Rightarrow> False
     | At_global \<Rightarrow> st = Global_destroyed \<or> st = Threads_joined
     | _ \<Rightarrow> st = Queues_destroyed \<or> st = Global_destroyed \<or> st = Threads_joined)"

definition worker_thread_step :: "nat \<Rightarrow> 'a pool_life \<Rightarrow> 'a pool_life res" where
  "worker_thread_step w s = (case positions s ! w of
       Thread_left \<Rightarrow> Inr s
     | At_loop_head \<Rightarrow> Inr (s\<lparr>positions := (positions s)[w := if stage s = Pool_alive then In_run else Thread_left]\<rparr>)
     | In_run \<Rightarrow>
         if reads_destroyed (stage s) (workers (life_pool s) ! w) then Inl Undefined
         else case worker_step w (life_pool s) of
             None \<Rightarrow> Inl Undefined
           | Some p \<Rightarrow> Inr (s\<lparr>life_pool := p,
               positions := if workers p ! w = At_local then (positions s)[w := At_loop_head] else positions s\<rparr>))"

text \<open>The destructor sets \<^verbatim>\<open>done\<close>, then the members go; the joiner waits until every thread is gone.\<close>

definition destructor_step :: "'a pool_life \<Rightarrow> 'a pool_life" where
  "destructor_step s = (case stage s of
       Pool_alive \<Rightarrow> s\<lparr>stage := Done_set\<rparr>
     | Done_set \<Rightarrow> s\<lparr>stage := Queues_destroyed\<rparr>
     | Queues_destroyed \<Rightarrow> s\<lparr>stage := Global_destroyed\<rparr>
     | Global_destroyed \<Rightarrow> if \<forall>pos\<in>set (positions s). pos = Thread_left then s\<lparr>stage := Threads_joined\<rparr> else s
     | Threads_joined \<Rightarrow> s)"

datatype 'a life_event = Life_submit 'a | Life_worker nat | Life_destructor

fun life_do :: "'a life_event \<Rightarrow> 'a pool_life \<Rightarrow> 'a pool_life res" where
  "life_do (Life_submit f) s =
    (if stage s = Pool_alive then Inr (s\<lparr>life_pool := submit f (life_pool s)\<rparr>) else Inl Undefined)"
| "life_do (Life_worker w) s = worker_thread_step w s"
| "life_do Life_destructor s = Inr (destructor_step s)"

fun life_run :: "'a life_event list \<Rightarrow> 'a pool_life \<Rightarrow> 'a pool_life res" where
  "life_run [] s = Inr s"
| "life_run (e # es) s = res_bind (life_do e s) (life_run es)"

lemma life_run_append [simp]: "life_run (es @ es') s = res_bind (life_run es s) (life_run es')"
  by (induction es arbitrary: s) (simp_all add: res_bind_def split: sum.split)

text \<open>The tasks submitted in a history and the workers that occur in it.\<close>

fun tasks_of :: "'a life_event list \<Rightarrow> 'a list" where
  "tasks_of [] = []"
| "tasks_of (Life_submit f # es) = f # tasks_of es"
| "tasks_of (_ # es) = tasks_of es"

definition events_ok :: "'a life_event list \<Rightarrow> bool" where
  "events_ok es = list_all (\<lambda>e. case e of Life_worker w \<Rightarrow> w < NUM_THREADS | _ \<Rightarrow> True) es"

section \<open>Invariant\<close>

definition life_inv :: "'a list \<Rightarrow> 'a pool_life \<Rightarrow> bool" where
  "life_inv fs s \<longleftrightarrow> pool_inv fs (life_pool s) \<and> length (positions s) = NUM_THREADS
    \<and> (\<forall>w<NUM_THREADS. positions s ! w \<noteq> In_run \<longrightarrow> workers (life_pool s) ! w = At_local)"

lemma life_inv_new: "life_inv [] life_new"
  by (simp add: life_inv_def life_new_def pool_run_inv pool_run.start) (simp add: pool_new_def)

text \<open>A thread inside the search that reads nothing destroyed makes the step of its worker.\<close>

lemma thread_in_run:
  assumes "life_inv fs s" "w < NUM_THREADS" "positions s ! w = In_run" "\<not> reads_destroyed (stage s) (workers (life_pool s) ! w)"
  obtains p where "worker_step w (life_pool s) = Some p" "pool_inv fs p"
    "\<And>v. v \<noteq> w \<Longrightarrow> workers p ! v = workers (life_pool s) ! v"
    "worker_thread_step w s = Inr (s\<lparr>life_pool := p,
       positions := if workers p ! w = At_local then (positions s)[w := At_loop_head] else positions s\<rparr>)"
proof -
  have inv: "pool_inv fs (life_pool s)" using assms(1) by (simp add: life_inv_def)
  obtain p where p: "worker_step w (life_pool s) = Some p" using pool_inv_step [OF inv assms(2)] by blast
  have "w < length (workers (life_pool s))" using inv assms(2) by (simp add: pool_inv_def)
  then have "pool_inv fs p" using pool_inv_work inv p by blast
  moreover have "workers p ! v = workers (life_pool s) ! v" if "v \<noteq> w" for v
  proof -
    have lq: "local_queues (life_pool s) = replicate NUM_THREADS []" using inv by (simp add: pool_inv_def)
    show ?thesis using p [unfolded worker_step_empty [OF lq assms(2)]] that
      by (auto split: worker_pc.splits list.splits option.splits)
  qed
  ultimately show ?thesis using that p assms by (simp add: worker_thread_step_def)
qed

lemma life_inv_worker:
  assumes inv: "life_inv fs s" and w: "w < NUM_THREADS" and step: "worker_thread_step w s = Inr s'"
  shows "life_inv fs s'" "stage s' = stage s"
proof -
  have "life_inv fs s' \<and> stage s' = stage s"
  proof (cases "positions s ! w")
    case In_run
    show ?thesis
    proof (cases "reads_destroyed (stage s) (workers (life_pool s) ! w)")
      case True
      then show ?thesis using step In_run by (simp add: worker_thread_step_def)
    next
      case False
      obtain p where p: "pool_inv fs p" "\<And>v. v \<noteq> w \<Longrightarrow> workers p ! v = workers (life_pool s) ! v"
        and s': "worker_thread_step w s = Inr (s\<lparr>life_pool := p,
          positions := if workers p ! w = At_local then (positions s)[w := At_loop_head] else positions s\<rparr>)"
        using thread_in_run [OF inv w In_run False] by blast
      have "workers p ! v = At_local" if "v < NUM_THREADS" "positions s' ! v \<noteq> In_run" for v
        using that p(2) [of v] s' step inv In_run
        by (cases "v = w") (auto simp: life_inv_def split: if_splits)
      then show ?thesis using s' step p(1) inv by (auto simp: life_inv_def)
    qed
  qed (use step inv w in \<open>auto simp: worker_thread_step_def life_inv_def nth_list_update split: if_splits\<close>)
  then show "life_inv fs s'" "stage s' = stage s" by simp_all
qed

lemma life_inv_destructor: "life_inv fs s \<Longrightarrow> life_inv fs (destructor_step s)"
  by (auto simp: destructor_step_def life_inv_def split: pool_stage.split)

lemma life_inv_events:
  "life_inv fs s \<Longrightarrow> events_ok es \<Longrightarrow> life_run es s = Inr s' \<Longrightarrow> life_inv (fs @ tasks_of es) s'"
proof (induction es arbitrary: fs s)
  case (Cons e es)
  obtain s1 where s1: "life_do e s = Inr s1" "life_run es s1 = Inr s'"
    using Cons.prems(3) by (auto simp: res_bind_def split: sum.splits)
  have ok: "events_ok es" using Cons.prems(2) by (simp add: events_ok_def)
  show ?case
  proof (cases e)
    case (Life_submit f)
    then have "life_inv (fs @ [f]) s1" using s1(1) Cons.prems(1) pool_inv_submit
      by (auto simp: life_inv_def submit_def split: if_splits)
    then show ?thesis using Cons.IH [OF _ ok s1(2)] Life_submit by fastforce
  next
    case (Life_worker w)
    then have "life_inv fs s1" using life_inv_worker(1) [of fs s w] s1(1) Cons.prems(1,2) by (simp add: events_ok_def)
    then show ?thesis using Cons.IH [OF _ ok s1(2)] Life_worker by simp
  next
    case Life_destructor
    then have "life_inv fs s1" using life_inv_destructor s1(1) Cons.prems(1) by auto
    then show ?thesis using Cons.IH [OF _ ok s1(2)] Life_destructor by simp
  qed
qed simp

section \<open>Leaving the loop\<close>

text \<open>The steps a thread takes, at most, until it is gone once \<^verbatim>\<open>done\<close> is set.\<close>

definition leave_steps :: "loop_position \<Rightarrow> 'a worker_pc \<Rightarrow> nat" where
  "leave_steps pos pc = (case pos of
       Thread_left \<Rightarrow> 0
     | At_loop_head \<Rightarrow> 1
     | In_run \<Rightarrow> (case pc of In_task _ \<Rightarrow> 2 | At_local \<Rightarrow> 7 | At_global \<Rightarrow> 6 | At_steal i \<Rightarrow> 2 + (NUM_THREADS - i)))"

abbreviation leave_left :: "nat \<Rightarrow> 'a pool_life \<Rightarrow> nat" where
  "leave_left v s \<equiv> leave_steps (positions s ! v) (workers (life_pool s) ! v)"

lemma leave_steps_bound: "leave_steps pos pc \<le> 7"
  by (auto simp: leave_steps_def NUM_THREADS_def split: loop_position.split worker_pc.split)

lemma leave_steps_0: "leave_steps pos pc = 0 \<longleftrightarrow> pos = Thread_left"
  by (auto simp: leave_steps_def split: loop_position.split worker_pc.split)

lemma worker_step_leaves:
  assumes inv: "pool_inv fs p" and w: "w < NUM_THREADS" and step: "worker_step w p = Some p'"
  shows "leave_steps (if workers p' ! w = At_local then At_loop_head else In_run) (workers p' ! w)
    < leave_steps In_run (workers p ! w)"
proof -
  have lq: "local_queues p = replicate NUM_THREADS []" and len: "length (workers p) = NUM_THREADS"
    using inv by (simp_all add: pool_inv_def)
  have "NUM_THREADS < 4" by (simp add: NUM_THREADS_def)
  then have "workers p ! w = pc \<Longrightarrow> ?thesis" for pc
    using step [unfolded worker_step_empty [OF lq w]] w len
    by (cases pc; cases "global_worker_queue p") (auto simp: leave_steps_def split: option.splits if_splits)
  then show ?thesis by simp
qed

lemma thread_leaves:
  assumes inv: "life_inv fs s" and st: "stage s = Done_set" and w: "w < NUM_THREADS"
  shows "\<exists>s'. worker_thread_step w s = Inr s' \<and> life_inv fs s' \<and> stage s' = Done_set
    \<and> (\<forall>v<NUM_THREADS. leave_left v s' \<le> leave_left v s - (if v = w then 1 else 0))"
proof (cases "positions s ! w")
  case At_loop_head
  then have "worker_thread_step w s = Inr (s\<lparr>positions := (positions s)[w := Thread_left]\<rparr>)"
    by (simp add: worker_thread_step_def st)
  moreover have "leave_steps ((positions s)[w := Thread_left] ! v) pc \<le> leave_steps (positions s ! v) pc - (if v = w then 1 else 0)"
    for v and pc :: "'a worker_pc"
    using inv w by (cases "v = w") (simp_all add: leave_steps_def life_inv_def)
  ultimately show ?thesis using life_inv_worker [OF inv w] st by simp
next
  case Thread_left
  then have "worker_thread_step w s = Inr s" by (simp add: worker_thread_step_def)
  then show ?thesis using inv st Thread_left by (auto simp: leave_steps_def)
next
  case In_run
  have safe: "\<not> reads_destroyed (stage s) (workers (life_pool s) ! w)"
    by (simp add: reads_destroyed_def st split: worker_pc.split)
  obtain p where p: "worker_step w (life_pool s) = Some p" "\<And>v. v \<noteq> w \<Longrightarrow> workers p ! v = workers (life_pool s) ! v"
    and s': "worker_thread_step w s = Inr (s\<lparr>life_pool := p,
      positions := if workers p ! w = At_local then (positions s)[w := At_loop_head] else positions s\<rparr>)"
    using thread_in_run [OF inv w In_run safe] by blast
  have len: "length (positions s) = NUM_THREADS" using inv by (simp add: life_inv_def)
  have "leave_steps (if workers p ! w = At_local then At_loop_head else In_run) (workers p ! w)
      < leave_steps In_run (workers (life_pool s) ! w)"
    using worker_step_leaves [OF _ w p(1)] inv by (auto simp: life_inv_def)
  then show ?thesis using life_inv_worker [OF inv w s'] st s' p(2) In_run w len
    by (auto simp: nth_list_update)
qed

lemma threads_leave:
  "life_inv fs s \<Longrightarrow> stage s = Done_set \<Longrightarrow> set ws \<subseteq> {..<NUM_THREADS} \<Longrightarrow>
   \<exists>s'. life_run (map Life_worker ws) s = Inr s' \<and> life_inv fs s' \<and> stage s' = Done_set
    \<and> (\<forall>v<NUM_THREADS. leave_left v s' \<le> leave_left v s - count_list ws v)"
proof (induction ws arbitrary: s)
  case (Cons w ws)
  have w: "w < NUM_THREADS" using Cons.prems(3) by simp
  obtain s1 where s1: "worker_thread_step w s = Inr s1" "life_inv fs s1" "stage s1 = Done_set"
    "\<And>v. v < NUM_THREADS \<Longrightarrow> leave_left v s1 \<le> leave_left v s - (if v = w then 1 else 0)"
    using thread_leaves [OF Cons.prems(1,2) w] by blast
  obtain s' where s': "life_run (map Life_worker ws) s1 = Inr s'" "life_inv fs s'" "stage s' = Done_set"
    "\<And>v. v < NUM_THREADS \<Longrightarrow> leave_left v s' \<le> leave_left v s1 - count_list ws v"
    using Cons.IH [OF s1(2,3)] Cons.prems(3) by auto
  have "leave_left v s' \<le> leave_left v s - count_list (w # ws) v" if "v < NUM_THREADS" for v
    using s'(4) [OF that] s1(4) [OF that] by (cases "v = w") auto
  then show ?case using s1 s' by simp
qed simp

section \<open>Property\<close>

text \<open>C35: the destruction of the thread pool. Whatever was submitted and however the workers ran before: if a worker
  is searching for a task when the destructor starts and the queues go before its next step, that step reads a destroyed queue,
  which has no defined behaviour, because nothing waits for the threads before the queues go. If every worker gets seven steps
  between the end of the destructor's body and the queues, all of them leave their loops in any interleaving and the
  destruction ends; then the tasks submitted are those that ran, each once, and the last ones, still queued, which are
  dropped.\<close>

theorem pool_destruction:
  assumes "life_run es life_new = Inr s" "events_ok es" "stage s = Pool_alive" "set ws \<subseteq> {..<NUM_THREADS}"
  shows "(\<forall>w<NUM_THREADS. positions s ! w = In_run \<and> (\<forall>t. workers (life_pool s) ! w \<noteq> In_task t) \<longrightarrow>
      life_run [Life_destructor, Life_destructor, Life_destructor, Life_worker w] s = Inl Undefined)
    \<and> ((\<forall>w<NUM_THREADS. 7 \<le> count_list ws w) \<longrightarrow> (\<exists>s' k.
      life_run (Life_destructor # map Life_worker ws @ [Life_destructor, Life_destructor, Life_destructor]) s = Inr s'
      \<and> stage s' = Threads_joined \<and> positions s' = replicate NUM_THREADS Thread_left
      \<and> global_worker_queue (life_pool s') = map Some (drop k (tasks_of es))
      \<and> mset (finished (life_pool s')) = mset (take k (tasks_of es))))"
proof -
  have inv: "life_inv (tasks_of es) s" using life_inv_events [OF life_inv_new assms(2,1)] by simp
  have race: "life_run [Life_destructor, Life_destructor, Life_destructor, Life_worker w] s = Inl Undefined"
    if "positions s ! w = In_run" "\<forall>t. workers (life_pool s) ! w \<noteq> In_task t" "w < NUM_THREADS" for w
  proof -
    have "life_run [Life_destructor, Life_destructor, Life_destructor] s = Inr (s\<lparr>stage := Global_destroyed\<rparr>)"
      using assms(3) by (simp add: destructor_step_def)
    moreover have "worker_thread_step w (s\<lparr>stage := Global_destroyed\<rparr>) = Inl Undefined"
      using that by (cases "workers (life_pool s) ! w") (simp_all add: worker_thread_step_def reads_destroyed_def)
    ultimately show ?thesis
      using life_run_append [of "[Life_destructor, Life_destructor, Life_destructor]" "[Life_worker w]" s] by simp
  qed
  let ?s1 = "s\<lparr>stage := Done_set\<rparr>"
  have join: "\<exists>s' k. life_run (Life_destructor # map Life_worker ws @ [Life_destructor, Life_destructor, Life_destructor]) s = Inr s'
      \<and> stage s' = Threads_joined \<and> positions s' = replicate NUM_THREADS Thread_left
      \<and> global_worker_queue (life_pool s') = map Some (drop k (tasks_of es))
      \<and> mset (finished (life_pool s')) = mset (take k (tasks_of es))" if seven: "\<forall>w<NUM_THREADS. 7 \<le> count_list ws w"
  proof -
    have "life_inv (tasks_of es) ?s1" using inv by (simp add: life_inv_def)
    then obtain s2 where s2: "life_run (map Life_worker ws) ?s1 = Inr s2" "life_inv (tasks_of es) s2" "stage s2 = Done_set"
      and left: "\<And>v. v < NUM_THREADS \<Longrightarrow> leave_left v s2 \<le> leave_left v ?s1 - count_list ws v"
      using threads_leave [OF _ _ assms(4), of "tasks_of es" ?s1] by auto
    have gone: "positions s2 ! v = Thread_left" if "v < NUM_THREADS" for v
    proof -
      have "7 \<le> count_list ws v" using seven that by blast
      then have "leave_left v s2 = 0"
        using left [OF that] leave_steps_bound [of "positions ?s1 ! v" "workers (life_pool ?s1) ! v"] by linarith
      then show ?thesis by (simp add: leave_steps_0)
    qed
    then have pos: "positions s2 = replicate NUM_THREADS Thread_left"
      using s2(2) by (intro nth_equalityI) (simp_all add: life_inv_def)
    have "running (workers (life_pool s2)) = []"
      using s2(2) gone by (intro running_none) (auto simp: life_inv_def pool_inv_def task_list_def)
    then obtain k where k: "global_worker_queue (life_pool s2) = map Some (drop k (tasks_of es))"
      "mset (finished (life_pool s2)) = mset (take k (tasks_of es))"
      using s2(2) by (auto simp: life_inv_def pool_inv_def)
    have "life_run [Life_destructor, Life_destructor, Life_destructor] s2 = Inr (s2\<lparr>stage := Threads_joined\<rparr>)"
      using s2(3) pos by (simp add: destructor_step_def)
    then have "life_run (Life_destructor # map Life_worker ws @ [Life_destructor, Life_destructor, Life_destructor]) s
        = Inr (s2\<lparr>stage := Threads_joined\<rparr>)"
      using s2(1) assms(3) by (simp add: destructor_step_def [of s])
    then show ?thesis using pos k by (intro exI [of _ "s2\<lparr>stage := Threads_joined\<rparr>"] exI [of _ k]) simp
  qed
  show ?thesis using race join by blast
qed

lemma example_life:
  "life_run [Life_submit (5 :: nat), Life_worker 2, Life_submit 6] life_new = Inr
    \<lparr>life_pool = submit 6 (submit 5 pool_new), positions = [At_loop_head, At_loop_head, In_run], stage = Pool_alive\<rparr>"
  by (simp add: life_new_def worker_thread_step_def NUM_THREADS_def numeral_eq_Suc)

lemma pool_destruction_witness:
  "life_run [Life_submit (5 :: nat), Life_worker 2, Life_submit 6, Life_destructor, Life_destructor, Life_destructor, Life_worker 2]
     life_new = Inl Undefined
   \<and> (\<exists>s' k. life_run ([Life_submit (5 :: nat), Life_worker 2, Life_submit 6, Life_destructor]
        @ map Life_worker (concat (replicate 7 [0, 1, 2])) @ [Life_destructor, Life_destructor, Life_destructor]) life_new = Inr s'
      \<and> stage s' = Threads_joined \<and> mset (finished (life_pool s')) = mset (take k [5, 6]))"
proof -
  let ?ws = "concat (replicate 7 [0, 1, 2 :: nat])"
  let ?es = "[Life_submit (5 :: nat), Life_worker 2, Life_submit 6]"
  let ?s = "\<lparr>life_pool = submit 6 (submit (5 :: nat) pool_new), positions = [At_loop_head, At_loop_head, In_run], stage = Pool_alive\<rparr>"
  have count: "\<forall>w<NUM_THREADS. 7 \<le> count_list ?ws w"
    by (simp add: NUM_THREADS_def numeral_eq_Suc less_Suc_eq)
  have ok: "events_ok ?es" "stage ?s = Pool_alive" "set ?ws \<subseteq> {..<NUM_THREADS}" "positions ?s ! 2 = In_run"
    "workers (life_pool ?s) ! 2 = At_local" "2 < NUM_THREADS"
    by (simp_all add: events_ok_def NUM_THREADS_def submit_def pool_new_def)
  note destroy = pool_destruction [OF example_life ok(1-3)]
  have "life_run [Life_destructor, Life_destructor, Life_destructor, Life_worker 2] ?s = Inl Undefined"
    using destroy ok(4-6) by (metis worker_pc.distinct(5))
  moreover have "\<exists>s' k. life_run (Life_destructor # map Life_worker ?ws @ [Life_destructor, Life_destructor, Life_destructor]) ?s = Inr s'
      \<and> stage s' = Threads_joined \<and> mset (finished (life_pool s')) = mset (take k (tasks_of ?es))"
    using destroy count by blast
  moreover have "life_run (?es @ xs) life_new = life_run xs ?s" for xs by (simp only: life_run_append example_life res_bind_simps)
  ultimately show ?thesis by simp
qed

end
