(* ===== verification/Merger.thy ===== *)
theory Merger
  imports Netlist Bus_Ports
begin

text \<open>
  The component that merges the buffer addresses into a command stream, \<^verbatim>\<open>accm\<close> of \<^verbatim>\<open>nucleus.cc\<close>, its instances in the nucleus,
  and the widths on both sides of the connection between nucleus and merger.
\<close>

section \<open>The component\<close>

text \<open>\<open>num_addr\<close> is the size of the port array \<^verbatim>\<open>ctrl\<close>, which starts at zero and grows by one with each port that is appended to it.
  The keys of the metadata are the names of the constants of Cerata.\<close>

record merger =
  mg_name :: string
  mg_generics :: "(string \<times> hw_default) list"
  mg_ports :: "hw_port list"
  mg_ctrl :: hw_port
  mg_meta :: "(string \<times> string) list"

definition accm :: "nat \<Rightarrow> merger" where
  "accm num_addr =
    (let ba = Text_node (fst (bus_addr_width 64 '''')); iw = Text_node (fst (index_width 32 '''')); tw = Text_node (fst (tag_width 1 ''''))
     in \<lparr>mg_name = ''ArrayCmdCtrlMerger'',
         mg_generics = [(''num_addr'', Int_default (of_nat num_addr)), bus_addr_width 64 '''', index_width 32 '''', tag_width 1 ''''],
         mg_ports =
          [\<lparr>port_name = ''kernel_cmd'', port_type = cmd_type iw tw None, port_direction = DIR_IN, port_domain = KCD\<rparr>,
           \<lparr>port_name = ''nucleus_cmd'', port_type = cmd_type iw tw (Some (Node_times ba num_addr)), port_direction = DIR_OUT,
             port_domain = KCD\<rparr>],
         mg_ctrl = \<lparr>port_name = ''ctrl'', port_type = Hw_vector None ba [], port_direction = DIR_IN, port_domain = KCD\<rparr>,
         mg_meta = [(''PRIMITIVE'', ''true''), (''LIBRARY'', ''work''), (''PACKAGE'', ''Array_pkg'')]\<rparr>)"

section \<open>Its instances\<close>

text \<open>The values that the nucleus gives the generics of the instance for a command port.\<close>

definition accm_values :: "field_port \<Rightarrow> (string \<times> hw_width) list" where
  "accm_values cmd =
    [(''BUS_ADDR_WIDTH'', Text_node (fst (bus_addr_width 64 (fs_name (fp_schema cmd) @ ''_'' @ field_name (fp_field cmd))))),
     (''INDEX_WIDTH'', INDEX_WIDTH_node), (''TAG_WIDTH'', TAG_WIDTH_node)]"

text \<open>The generics of the nucleus: two, and the address width of each command stream.\<close>

definition nucleus_generics :: "batch_component list \<Rightarrow> (string \<times> hw_default) list" where
  "nucleus_generics rbs = [index_width 32 '''', tag_width 1 ''''] @
     concat (map (\<lambda>rb. map (\<lambda>cmd. bus_addr_width 64 (fs_name (bc_schema rb) @ ''_'' @ field_name (fp_field cmd)))
       (GetFieldPorts (Some FP_COMMAND) rb)) rbs)"

definition Nucleus_GetFieldPorts :: "port_function \<Rightarrow> nucleus \<Rightarrow> field_port list" where
  "Nucleus_GetFieldPorts fn nu = filter (\<lambda>p. fp_function p = fn) (nu_ports nu)"

text \<open>Types with the values of generics put in.\<close>

fun rebind :: "(string \<times> hw_width) list \<Rightarrow> hw_width \<Rightarrow> hw_width" where
  "rebind vs (Bits n) = Bits n"
| "rebind vs (Text_node s) = (case map_of vs s of Some w \<Rightarrow> w | None \<Rightarrow> Text_node s)"
| "rebind vs (Node_times w n) = Node_times (rebind vs w) n"
| "rebind vs (Node_div w n) = Node_div (rebind vs w) n"

fun rebind_type :: "(string \<times> hw_width) list \<Rightarrow> hw_type \<Rightarrow> hw_type"
  and rebind_field :: "(string \<times> hw_width) list \<Rightarrow> hw_field \<Rightarrow> hw_field" where
  "rebind_type vs (Hw_bit nm m) = Hw_bit nm m"
| "rebind_type vs (Hw_vector nm w m) = Hw_vector nm (rebind vs w) m"
| "rebind_type vs (Hw_record nm fs) = Hw_record nm (map (rebind_field vs) fs)"
| "rebind_type vs (Hw_stream nms t fs) = Hw_stream nms (rebind_type vs t) (map (rebind_field vs) fs)"
| "rebind_field vs (Hw_field nm t backward) = Hw_field nm (rebind_type vs t) backward"

text \<open>How many lanes the instance at a position has.\<close>

definition lane_of_merger :: "nat \<Rightarrow> edge \<Rightarrow> bool" where
  "lane_of_merger k e = (case fst e of Accm_ctrl j _ \<Rightarrow> j = k | _ \<Rightarrow> False)"

definition lanes_of :: "nucleus \<Rightarrow> nat \<Rightarrow> nat" where
  "lanes_of nu k = length (filter (lane_of_merger k) (nu_edges nu))"

section \<open>Numbers of lanes\<close>

lemma lanes_in_order_of:
  "length (filter (lane_of_merger k) (lanes_in_order bps a b ns)) = (if a \<le> k \<and> k < a + length ns then ns ! (k - a) else 0)"
proof (induction ns arbitrary: a b)
  case (Cons n ns)
  have "filter (lane_of_merger k) (map (\<lambda>l. (Accm_ctrl a l, Mmio_port (bps ! (b + l)))) [0..<n]) =
      (if k = a then map (\<lambda>l. (Accm_ctrl a l, Mmio_port (bps ! (b + l)))) [0..<n] else [])"
    by (auto simp: lane_of_merger_def filter_map comp_def)
  moreover have "k - a = Suc x \<Longrightarrow> k - Suc a = x" for x by simp
  ultimately show ?case using Cons.IH [of "Suc a" "b + n"] by (auto simp: nth_Cons split: nat.split)
qed simp

lemma lanes_of_counts:
  assumes "filter is_lane (nu_edges nu) = lanes_in_order bps 0 0 ns" "k < length ns"
  shows "lanes_of nu k = ns ! k"
proof -
  have "lane_of_merger k e \<Longrightarrow> is_lane e" for e
    by (auto simp: lane_of_merger_def is_lane_def split: endpoint.splits prod.splits)
  then have "filter (lane_of_merger k) (nu_edges nu) = filter (lane_of_merger k) (filter is_lane (nu_edges nu))"
    by (auto intro!: filter_cong simp: filter_filter)
  then show ?thesis using assms(2) by (simp add: lanes_of_def assms(1) lanes_in_order_of)
qed

section \<open>Buffers of a field\<close>

text \<open>As many buffers as a field has addresses in its command stream.\<close>

definition field_buffer_count :: "arrow_field \<Rightarrow> nat" where
  "field_buffer_count f = length (field_buffers False [] f)"

lemma length_buffers_prefix:
  "length (type_buffers nv p t) = length (type_buffers nv q t)"
  "length (children_buffers nv p cs) = length (children_buffers nv q cs)"
  by (induction t and cs arbitrary: p q and p q rule: nested_nullables_nullables_children.induct)
    (auto simp: validity_name_def intro!: arg_cong2 [where f = "(+)"])

lemma length_field_buffers_prefix: "length (field_buffers False p f) = field_buffer_count f"
  using length_buffers_prefix(1) [of False p "field_type f" "[]"]
  by (simp add: field_buffers_def field_buffer_count_def validity_name_def)

lemma GetCtrlBufferCount_eq: "supported (field_type f) \<Longrightarrow> GetCtrlBufferCount f = Inr (field_buffer_count f)"
proof -
  assume "supported (field_type f)"
  then obtain fm where fm: "FieldAnalyzer_Analyze [] f = Inr fm" using FieldAnalyzer_ok_iff by blast
  have "length (map buf_desc (fm_buffers fm)) = field_buffer_count f"
    using FieldAnalyzer_result [OF fm] by (simp add: field_buffer_count_def)
  then show ?thesis by (simp add: GetCtrlBufferCount_def fm)
qed

text \<open>Fields whose arrays can be generated have nulls at the top only.\<close>

lemma per_cycle_value:
  assumes "per_cycle f g = Some c"
  shows "\<exists>e l x. g e l = Some x \<and> c = (if field_nullable f then Null_of x else x)"
  using assms by (rule per_cycle_SomeD) blast

lemma plain_no_nulls:
  "config_of f = Some c \<Longrightarrow> plain_cfg nested c \<Longrightarrow> nested_nullables (field_type f) = 0 \<and> (nested \<longrightarrow> \<not> field_nullable f)"
proof (induction f arbitrary: c nested rule: config_of.induct)
  case (5 n g nl md)
  from per_cycle_value [OF "5.prems"(1) [unfolded config_of.simps]] obtain x where
    x: "config_of g = Some x" "c = (if nl then Null_of (List_of x) else List_of x)" "GetConfigType (field_type g) \<noteq> CT_PRIM"
    by (auto split: if_splits)
  then have "plain_cfg True x" "nested \<longrightarrow> \<not> nl" using "5.prems"(2) by (auto split: if_splits)
  then show ?case using "5.IH" [of 1 1 x True] x by (cases g) auto
next
  case (6 n a b nl md)
  from per_cycle_value [OF "6.prems"(1) [unfolded config_of.simps]] obtain x y where
    x: "config_of a = Some x" "config_of b = Some y" "c = Struct_of x y" "\<not> nl" by (auto split: if_splits bind_splits)
  then have "nested_nullables (field_type a) = 0 \<and> \<not> field_nullable a" "nested_nullables (field_type b) = 0 \<and> \<not> field_nullable b"
    using "6.IH"(1) [of 1 1 x True] "6.IH"(2) [of 1 1 x y True] "6.prems"(2) by auto
  then show ?case using x(4) by (cases a; cases b) auto
qed (auto dest!: per_cycle_value split: if_splits)

lemma generable_buffers: "generable f \<Longrightarrow> length (field_buffers nv p f) = field_buffer_count f"
proof -
  assume "generable f"
  then obtain c where "config_of f = Some c" "plain_cfg False c" by (auto simp: generable_def split: option.splits)
  from plain_no_nulls [OF this] show ?thesis
    using length_field_buffers [of p f] length_field_buffers_prefix [of p f] by (cases nv) simp_all
qed

text \<open>The batches that are given have the columns of the schema of their name.\<close>

definition batches_conform :: "record_batch list \<Rightarrow> fletcher_schema \<Rightarrow> bool" where
  "batches_conform bs s \<longleftrightarrow> (case GetRecordBatchWithName bs (fs_name s) of
      None \<Rightarrow> True
    | Some b \<Rightarrow> schema_fields (rb_schema b) = schema_fields_of s \<and> conforms_list (schema_fields_of s) (rb_columns b))"

lemma analyzed_counts:
  assumes "analyze_one bs s = Inr desc" "\<forall>f\<in>set (schema_fields_of s). generable f" "batches_conform bs s"
  shows "buffer_counts desc = map field_buffer_count (schema_fields_of s)"
proof -
  have "\<exists>nv. map (\<lambda>fm. map buf_desc (fm_buffers fm)) (bd_fields desc) = map (\<lambda>f. field_buffers nv [field_name f] f) (schema_fields_of s)"
  proof (cases "GetRecordBatchWithName bs (fs_name s)")
    case None
    have "\<forall>f\<in>set (schema_fields_of s). supported (field_type f)" using assms(2) by (simp add: generable_def)
    from SchemaAnalyzer_descs [OF this] show ?thesis
      using assms(1) None by (auto simp: analyze_one_def SchemaAnalyzer_Analyze_def schema_fields_of_def empty_description_def intro!: exI [of _ False])
  next
    case (Some b)
    then have b: "schema_fields (rb_schema b) = schema_fields_of s" "conforms_list (schema_fields_of s) (rb_columns b)"
      using assms(3) by (simp_all add: batches_conform_def)
    from RBA_columns_descs [OF b(2), of 0 "[]"] show ?thesis
      using assms(1) Some b(1) by (auto simp: analyze_one_def RecordBatchAnalyzer_Analyze_def empty_description_def intro!: exI [of _ True])
  qed
  then obtain nv where "map (length \<circ> (\<lambda>fm. map buf_desc (fm_buffers fm))) (bd_fields desc) =
      map (length \<circ> (\<lambda>f. field_buffers nv [field_name f] f)) (schema_fields_of s)"
    by (auto simp flip: map_map)
  then show ?thesis using assms(2) by (simp add: buffer_counts_def comp_def generable_buffers cong: map_cong)
qed

section \<open>The command ports of the nucleus\<close>

definition ctrl_type :: "fletcher_schema \<Rightarrow> arrow_field \<Rightarrow> nat \<Rightarrow> hw_type" where
  "ctrl_type s f n = cmd_type INDEX_WIDTH_node TAG_WIDTH_node
     (Some (Node_times (Text_node (fs_name s @ ''_'' @ field_name f @ ''_BUS_ADDR_WIDTH'')) n))"

definition port_view :: "field_port \<Rightarrow> string \<times> arrow_field \<times> fletcher_schema \<times> hw_type" where
  "port_view p = (fp_name p, fp_field p, fp_schema p, fp_type p)"

lemma reversed_command_view:
  assumes "reversed_command (Some (Text_node (fs_name s @ ''_'' @ field_name (fp_field p) @ ''_BUS_ADDR_WIDTH''))) p = Inr c"
    "supported (field_type (fp_field p))" "fp_schema p = s"
  shows "port_view c = (cmd_name s (fp_field p), fp_field p, s, ctrl_type s (fp_field p) (field_buffer_count (fp_field p)))"
    "fp_function c = FP_COMMAND"
  using assms by (auto simp: reversed_command_def command_port_def GetCtrlBufferCount_eq port_view_def cmd_name_def ctrl_type_def)

lemma nucleus_batch_commands:
  assumes "nucleus_batch_ports rb = Inr ps" "\<forall>p\<in>set (commands rb). supported (field_type (fp_field p)) \<and> fp_schema p = bc_schema rb"
  shows "map port_view (filter (\<lambda>p. fp_function p = FP_COMMAND) ps) =
    map (\<lambda>p. (cmd_name (bc_schema rb) (fp_field p), fp_field p, bc_schema rb, ctrl_type (bc_schema rb) (fp_field p) (field_buffer_count (fp_field p))))
      (commands rb)"
proof -
  obtain cmds where c: "res_mapM (\<lambda>p. reversed_command
        (Some (Text_node (fs_name (bc_schema rb) @ ''_'' @ field_name (fp_field p) @ ''_BUS_ADDR_WIDTH''))) p) (commands rb) = Inr cmds"
    "ps = CopyFieldPorts rb FP_ARROW @ CopyFieldPorts rb FP_UNLOCK @ cmds"
    using assms(1) by (auto simp: nucleus_batch_ports_def commands_def res_bind_Inr_iff)
  have l: "length cmds = length (commands rb)" using c(1) by (simp add: res_mapM_Inr_iff)
  have v: "port_view (cmds ! i) = (cmd_name (bc_schema rb) (fp_field (commands rb ! i)), fp_field (commands rb ! i), bc_schema rb,
        ctrl_type (bc_schema rb) (fp_field (commands rb ! i)) (field_buffer_count (fp_field (commands rb ! i))))
      \<and> fp_function (cmds ! i) = FP_COMMAND" if "i < length cmds" for i
    using reversed_command_view [of "bc_schema rb" "commands rb ! i" "cmds ! i"] c(1) assms(2) that l
    by (simp add: res_mapM_Inr_iff)
  have "filter (\<lambda>p. fp_function p = FP_COMMAND) cmds = cmds" using v by (auto simp: filter_id_conv in_set_conv_nth)
  moreover have "filter (\<lambda>p. fp_function p = FP_COMMAND) (CopyFieldPorts rb fn) = []" if "fn \<noteq> FP_COMMAND" for fn
    using that by (auto simp: CopyFieldPorts_def GetFieldPorts_def filter_empty_conv)
  ultimately show ?thesis using v l by (auto simp: c(2) intro!: nth_equalityI)
qed

lemma RecordBatch_new_schema: "RecordBatch_new lib nm s desc = Inr rb \<Longrightarrow> bc_schema rb = s"
  by (auto simp: RecordBatch_new_def res_bind_Inr_iff)

lemma nucleus_commands:
  assumes "documented_lib lib" "regular_design d" "design_nucleus lib nm d = Inr nu"
  shows "map port_view (Nucleus_GetFieldPorts FP_COMMAND nu) =
    map (\<lambda>(s, f). (cmd_name s f, f, s, ctrl_type s f (field_buffer_count f))) (array_fields d)"
proof -
  let ?ss = "ss_schemas (d_schema_set d)" and ?ds = "d_batch_desc d"
  let ?fs = "\<lambda>s. filter (\<lambda>f. \<not> ignored f) (schema_fields_of s)"
  let ?V = "\<lambda>s f. (cmd_name s f, f, s, ctrl_type s f (field_buffer_count f))"
  have gen: "\<forall>s\<in>set ?ss. \<forall>f\<in>set (schema_fields_of s). generable f" using assms(2) by (simp add: regular_design_def)
  have "length (map (\<lambda>desc. length (bd_fields desc)) ?ds) = length (map (\<lambda>s. length (schema_fields_of s)) ?ss)"
    using assms(2) unfolding regular_design_def by metis
  then have len: "length ?ss = length ?ds" by simp
  obtain rbs where rbs: "design_components lib nm d = Inr rbs" "Nucleus_new rbs (concat (all_regs d)) = Inr nu"
    using assms(3) by (auto simp: design_nucleus_def res_bind_Inr_iff)
  obtain pss where pss: "res_mapM nucleus_batch_ports rbs = Inr pss" "nu_ports nu = concat pss"
    using rbs(2) by (auto simp: Nucleus_new_def res_bind_Inr_iff)
  have "\<forall>(s, desc)\<in>set (zip ?ss ?ds). \<forall>f\<in>set (schema_fields_of s). generable f" using gen by (auto dest: set_zip_leftD)
  from components_ok [OF assms(1) this, of nm] have T: "map (\<lambda>rb. map (\<lambda>p. (fp_name p, fp_field p, fp_schema p)) (commands rb)) rbs =
      map (\<lambda>(s, _). map (\<lambda>f. (cmd_name s f, f, s)) (?fs s)) (zip ?ss ?ds)"
    using rbs(1) by (auto simp: design_components_def)
  have n: "length rbs = length ?ss" "length pss = length rbs"
    using arg_cong [OF T, of length] len pss(1) by (simp_all add: res_mapM_Inr_iff)
  have "map port_view (filter (\<lambda>p. fp_function p = FP_COMMAND) (pss ! i)) = map (?V (?ss ! i)) (?fs (?ss ! i))" if i: "i < length pss" for i
  proof -
    have s: "bc_schema (rbs ! i) = ?ss ! i"
      using rbs(1) i n len by (auto simp: design_components_def res_mapM_Inr_iff dest!: RecordBatch_new_schema)
    have Ti: "map (\<lambda>p. (fp_name p, fp_field p, fp_schema p)) (commands (rbs ! i)) = map (\<lambda>f. (cmd_name (?ss ! i) f, f, ?ss ! i)) (?fs (?ss ! i))"
      using arg_cong [OF T, of "\<lambda>xs. xs ! i"] i n len by simp
    have f: "map fp_field (commands (rbs ! i)) = ?fs (?ss ! i)"
      using arg_cong [OF Ti, of "map (\<lambda>x. fst (snd x))"] by (simp add: comp_def)
    have sc: "map fp_schema (commands (rbs ! i)) = map (\<lambda>_. ?ss ! i) (?fs (?ss ! i))"
      using arg_cong [OF Ti, of "map (\<lambda>x. snd (snd x))"] by (simp add: comp_def)
    have "\<forall>p\<in>set (commands (rbs ! i)). supported (field_type (fp_field p)) \<and> fp_schema p = bc_schema (rbs ! i)"
    proof
      fix p assume "p \<in> set (commands (rbs ! i))"
      then have "fp_field p \<in> set (?fs (?ss ! i))" "fp_schema p \<in> set (map (\<lambda>_. ?ss ! i) (?fs (?ss ! i)))"
        using f sc by (metis image_eqI list.set_map)+
      then show "supported (field_type (fp_field p)) \<and> fp_schema p = bc_schema (rbs ! i)"
        using gen i n s by (auto simp: generable_def)
    qed
    from nucleus_batch_commands [OF _ this, of "pss ! i"] have
      "map port_view (filter (\<lambda>p. fp_function p = FP_COMMAND) (pss ! i)) = map (?V (?ss ! i)) (map fp_field (commands (rbs ! i)))"
      using pss(1) i n s by (simp add: res_mapM_Inr_iff comp_def)
    then show ?thesis using f by simp
  qed
  then have "map (\<lambda>ps. map port_view (filter (\<lambda>p. fp_function p = FP_COMMAND) ps)) pss = map (\<lambda>s. map (?V s) (?fs s)) ?ss"
    using n by (intro nth_equalityI) simp_all
  then have "concat (map (\<lambda>ps. map port_view (filter (\<lambda>p. fp_function p = FP_COMMAND) ps)) pss) = concat (map (\<lambda>s. map (?V s) (?fs s)) ?ss)"
    by (rule arg_cong)
  then show ?thesis
    by (simp add: Nucleus_GetFieldPorts_def pss(2) filter_concat map_concat comp_def array_fields_def)
qed

lemma design_counts:
  assumes "Design_new profiling opts = Inr d" "regular_design d"
    "\<forall>s\<in>set (ss_schemas (d_schema_set d)). \<forall>f\<in>set (schema_fields_of s). \<not> ignored f"
    "\<forall>s\<in>set (ss_schemas (d_schema_set d)). batches_conform (opt_recordbatches opts) s"
  shows "lane_counts d = map (\<lambda>(s, f). field_buffer_count f) (array_fields d)"
proof -
  let ?ss = "ss_schemas (d_schema_set d)" and ?ds = "d_batch_desc d"
  have an: "length ?ds = length ?ss" "\<forall>i<length ?ss. analyze_one (opt_recordbatches opts) (?ss ! i) = Inr (?ds ! i)"
    using Design_new_parts(2) [OF assms(1)] by (simp_all add: AnalyzeRecordBatches_def res_mapM_Inr_iff)
  have "buffer_counts (?ds ! i) = map field_buffer_count (schema_fields_of (?ss ! i))" if "i < length ?ss" for i
  proof (rule analyzed_counts)
    show "analyze_one (opt_recordbatches opts) (?ss ! i) = Inr (?ds ! i)" using an(2) that by blast
    show "\<forall>f\<in>set (schema_fields_of (?ss ! i)). generable f" "batches_conform (opt_recordbatches opts) (?ss ! i)"
      using assms(2,4) nth_mem [OF that] unfolding regular_design_def by blast+
  qed
  then have "map buffer_counts ?ds = map (\<lambda>s. map field_buffer_count (schema_fields_of s)) ?ss"
    using an(1) by (intro nth_equalityI) simp_all
  then have "lane_counts d = concat (map (\<lambda>s. map field_buffer_count (schema_fields_of s)) ?ss)"
    by (simp add: no_ignored_counts [OF assms(2,3)])
  moreover have "filter (\<lambda>f. \<not> ignored f) (schema_fields_of s) = schema_fields_of s" if "s \<in> set ?ss" for s
    using assms(3) that by (auto simp: filter_id_conv)
  then have "map (\<lambda>s. map field_buffer_count (filter (\<lambda>f. \<not> ignored f) (schema_fields_of s))) ?ss =
      map (\<lambda>s. map field_buffer_count (schema_fields_of s)) ?ss"
    by (intro map_cong refl) simp
  ultimately show ?thesis by (simp add: array_fields_def map_concat comp_def cong: map_cong)
qed

section \<open>Property\<close>

text \<open>C23: The two ends of the connection between the nucleus and a merger have the same type: in a design without ignored fields, made
  of schemas and of batches that have the columns of their schemas, command port \<open>k\<close> of the nucleus is connected to merger
  \<open>k\<close>, and the width of its control vector, which comes from the analysis of the field, is the one that the merger has with as many lanes as
  registers are connected to it, which comes from the description of the batch.\<close>

theorem merger_types_agree:
  assumes "documented_lib lib" "Design_new profiling opts = Inr d" "regular_design d"
    and "\<forall>s\<in>set (ss_schemas (d_schema_set d)). \<forall>f\<in>set (schema_fields_of s). \<not> ignored f"
    and "\<forall>s\<in>set (ss_schemas (d_schema_set d)). batches_conform (opt_recordbatches opts) s"
  shows "\<exists>nu. design_nucleus lib nm d = Inr nu \<and> length (Nucleus_GetFieldPorts FP_COMMAND nu) = length (array_fields d)
    \<and> (\<forall>k<length (array_fields d). let cmd = Nucleus_GetFieldPorts FP_COMMAND nu ! k in
        (Nucleus_port (fp_name cmd), Accm_port k ''nucleus_cmd'') \<in> set (nu_edges nu)
        \<and> port_name (mg_ports (accm (lanes_of nu k)) ! 1) = ''nucleus_cmd''
        \<and> fp_type cmd = rebind_type (accm_values cmd) (port_type (mg_ports (accm (lanes_of nu k)) ! 1)))"
proof -
  obtain nu where nu: "design_nucleus lib nm d = Inr nu"
    "filter is_lane (nu_edges nu) = lanes_in_order (buffer_ports (concat (all_regs d))) 0 0 (lane_counts d)"
    "length (lane_counts d) = length (array_fields d)"
    "\<forall>k<length (array_fields d). (Nucleus_port (case_prod cmd_name (array_fields d ! k)), Accm_port k ''nucleus_cmd'') \<in> set (nu_edges nu)"
    using design_nucleus_lanes [OF assms(1-3), of nm] by blast
  let ?cmds = "Nucleus_GetFieldPorts FP_COMMAND nu"
  note V = nucleus_commands [OF assms(1,3) nu(1)]
  have n: "length ?cmds = length (array_fields d)" using arg_cong [OF V, of length] by simp
  have "(Nucleus_port (fp_name (?cmds ! k)), Accm_port k ''nucleus_cmd'') \<in> set (nu_edges nu)
      \<and> fp_type (?cmds ! k) = rebind_type (accm_values (?cmds ! k)) (port_type (mg_ports (accm (lanes_of nu k)) ! 1))"
    if k: "k < length (array_fields d)" for k
  proof -
    obtain s f where sf: "array_fields d ! k = (s, f)" by fastforce
    have v: "port_view (?cmds ! k) = (cmd_name s f, f, s, ctrl_type s f (field_buffer_count f))"
      using arg_cong [OF V, of "\<lambda>xs. xs ! k"] k n sf by simp
    have "lanes_of nu k = field_buffer_count f"
      using lanes_of_counts [OF nu(2), of k] nu(3) k sf by (simp add: design_counts [OF assms(2-5)])
    then have "rebind_type (accm_values (?cmds ! k)) (port_type (mg_ports (accm (lanes_of nu k)) ! 1)) = ctrl_type s f (field_buffer_count f)"
      using v by (simp add: port_view_def accm_def accm_values_def ctrl_type_def cmd_type_def bus_addr_width_def index_width_def tag_width_def
          param_factory_def Let_def)
    then show ?thesis using nu(4) k v sf by (auto simp: port_view_def)
  qed
  moreover have "port_name (mg_ports (accm m) ! 1) = ''nucleus_cmd''" for m by (simp add: accm_def Let_def)
  ultimately show ?thesis using nu(1) n by (auto simp: Let_def)
qed

lemma merger_types_agree_witness:
  "\<exists>d nu. Design_new (\<lambda>_ _. []) example_options = Inr d \<and> design_nucleus example_lib ''Kernel'' d = Inr nu
    \<and> length (Nucleus_GetFieldPorts FP_COMMAND nu) = length (array_fields d)"
proof -
  obtain d where d: "Design_new (\<lambda>_ _. []) example_options = Inr d" "regular_design d"
    "\<forall>s\<in>set (ss_schemas (d_schema_set d)). \<forall>f\<in>set (schema_fields_of s). \<not> ignored f"
    using example_regular by blast
  have "\<forall>s\<in>set (ss_schemas (d_schema_set d)). batches_conform (opt_recordbatches example_options) s"
    by (simp add: batches_conform_def GetRecordBatchWithName_def example_options_def Options_default_def)
  from merger_types_agree [OF example_lib_documented d this, of "''Kernel''"] show ?thesis using d(1) by blast
qed

end
