(* ===== verification/Debug_Tools.thy ===== *)
theory Debug_Tools
  imports Cxx_Text
begin

text \<open>
  The hex dump of \<^verbatim>\<open>native_root/arrow/include/Util.h\<close>, which works in a buffer of 100 characters on the stack, and the reader of the first
  column of a Parquet file. What the buffer holds at first, and whether the file can be opened, are parameters, as are the
  functions of Arrow. Writing outside of the buffer, or printing it when it has no end, is undefined.
\<close>

section \<open>The dump\<close>

definition NUL :: char where "NUL = CHR 0x00"

definition put :: "nat \<Rightarrow> string \<Rightarrow> string \<Rightarrow> string res" where
  "put i s buf = (if i + length s \<le> length buf then Inr (take i buf @ s @ drop (i + length s) buf) else Inl Undefined)"

text \<open>\<^verbatim>\<open>"%02X "\<close> and \<^verbatim>\<open>isprint\<close>.\<close>

definition hex2 :: "u8 \<Rightarrow> string" where
  "hex2 b = setw (CHR ''0'') 2 (show_hex True (unat b))"

definition printable_or_dot :: "u8 \<Rightarrow> char" where
  "printable_or_dot b = (if 32 \<le> unat b \<and> unat b \<le> 126 then char_of (unat b) else CHR ''.'')"

text \<open>The loop over the bytes of a row; \<open>lRelPos\<close> counts them, and \<open>lRelPos & 3\<close> is zero after every fourth.\<close>

fun row_bytes :: "u8 list \<Rightarrow> nat \<Rightarrow> nat \<Rightarrow> nat \<Rightarrow> string \<Rightarrow> (nat \<times> nat \<times> string) res" where
  "row_bytes [] lIndex lIndex2 lRelPos szBuf = Inr (lIndex, lRelPos, szBuf)"
| "row_bytes (ucTmp # rest) lIndex lIndex2 lRelPos szBuf =
    res_bind (put lIndex (hex2 ucTmp @ [CHR '' '', NUL]) szBuf) (\<lambda>szBuf.
    res_bind (put lIndex2 [printable_or_dot ucTmp] szBuf) (\<lambda>szBuf.
    if (lRelPos + 1) mod 4 = 0
    then res_bind (put (lIndex + 3) [CHR '' ''] szBuf) (\<lambda>szBuf. row_bytes rest (lIndex + 3) (lIndex2 + 1) (lRelPos + 1) szBuf)
    else row_bytes rest (lIndex + 2) (lIndex2 + 1) (lRelPos + 1) szBuf))"

text \<open>The line that is printed ends before the first null character.\<close>

definition dump_row :: "u8 list \<Rightarrow> nat \<Rightarrow> string \<Rightarrow> (string \<times> string) res" where
  "dump_row bytes offset szBuf =
    res_bind (put 0 ('' >'' @ replicate 54 (CHR '' '') @ setw (CHR ''0'') 8 (show_hex True offset) @ [NUL]) szBuf) (\<lambda>szBuf.
    res_bind (row_bytes bytes 2 39 0 szBuf) (\<lambda>(lIndex, lRelPos, szBuf).
    let lIndex = (if lRelPos mod 4 = 0 then lIndex - 1 else lIndex) in
    res_bind (put lIndex ''<'' szBuf) (\<lambda>szBuf.
    res_bind (put (lIndex + 1) '' '' szBuf) (\<lambda>szBuf.
    if NUL \<in> set szBuf then Inr (takeWhile (\<lambda>c. c \<noteq> NUL) szBuf, szBuf) else Inl Undefined))))"

text \<open>The length of a row is the number of bytes left as an \<^verbatim>\<open>int\<close>, at most 16. At zero the loop never ends; a negative one writes
  outside of the buffer.\<close>

function dump_rows :: "u8 list \<Rightarrow> nat \<Rightarrow> string \<Rightarrow> string res option" where
  "dump_rows [] offset szBuf = Some (Inr [])"
| "dump_rows (b # bs) offset szBuf =
    (let lOutLen = min 16 (sint (of_nat (length (b # bs)) :: u32)) in
     if lOutLen = 0 then None
     else if lOutLen < 0 then Some (Inl Undefined)
     else case dump_row (take (nat lOutLen) (b # bs)) offset szBuf of
        Inl e \<Rightarrow> Some (Inl e)
      | Inr (line, szBuf) \<Rightarrow>
          map_option (map_sum id (\<lambda>text. line @ [newline] @ text))
            (dump_rows (drop (nat lOutLen) (b # bs)) (offset + nat lOutLen) szBuf))"
  by pat_completeness auto
termination by (relation "measure (\<lambda>(bs, _, _). length bs)") auto

definition hexdump :: "bool \<Rightarrow> string \<Rightarrow> u8 list \<Rightarrow> string res option" where
  "hexdump opened szBuf bytes = (if opened then dump_rows bytes 0 szBuf else Some (Inl Undefined))"

section \<open>Reading a column\<close>

text \<open>The statuses of the Parquet library are not looked at: without a reader there is an access through a null pointer, and
  without a column the result is the null pointer.\<close>

definition readArray :: "(string \<Rightarrow> 'f option) \<Rightarrow> ('f \<Rightarrow> 'r option) \<Rightarrow> ('r \<Rightarrow> nat \<Rightarrow> 'a option) \<Rightarrow> string \<Rightarrow> 'a option res" where
  "readArray open_file open_reader read_column path =
    (case open_file path of
       None \<Rightarrow> Inl Exited
     | Some infile \<Rightarrow> (case open_reader infile of None \<Rightarrow> Inl Undefined | Some reader \<Rightarrow> Inr (read_column reader 0)))"

section \<open>What a row looks like\<close>

lemma put_split: "length pre = i \<Longrightarrow> length mid = length s \<Longrightarrow> put i s (pre @ mid @ post) = Inr (pre @ s @ post)"
  by (simp add: put_def)

text \<open>The hex digits of the bytes, with a blank after every fourth; \<open>r\<close> bytes come before them.\<close>

fun hex_cells :: "nat \<Rightarrow> u8 list \<Rightarrow> string" where
  "hex_cells r [] = []"
| "hex_cells r (b # bs) = hex2 b @ (if (r + 1) mod 4 = 0 then '' '' else []) @ hex_cells (r + 1) bs"

lemma length_hex2 [simp]: "length (hex2 b) = 2"
proof -
  have "unat b < 16 ^ 2" using unsigned_less [of b, where ?'a = nat] by simp
  then show ?thesis by (simp add: hex2_def setw_show_hex)
qed

definition room :: "nat \<Rightarrow> string \<Rightarrow> bool" where
  "room r w \<longleftrightarrow> w = (if r mod 4 = 0 then replicate (length w) (CHR '' '') else [CHR '' '', NUL] @ replicate (length w - 2) (CHR '' ''))"

lemma room_drop: "room r w \<Longrightarrow> 4 \<le> length w \<Longrightarrow> drop 4 w = replicate (length w - 4) (CHR '' '')"
  unfolding room_def by (elim ssubst) (simp add: drop_replicate)

lemma row_step:
  assumes "room r w" "4 \<le> length w" "length e + 2 = i" "2 + length e + length w + length a = j" "t \<noteq> []"
  defines "w' \<equiv> (if (r + 1) mod 4 = 0 then '' '' @ drop 4 w else [CHR '' '', NUL] @ drop 4 w)"
    and "sep \<equiv> (if (r + 1) mod 4 = 0 then '' '' else [])"
  shows "row_bytes (b # bs) i j r ('' >'' @ e @ w @ a @ t) = row_bytes bs (i + 2 + length sep) (j + 1) (r + 1)
      ('' >'' @ (e @ hex2 b @ sep) @ w' @ (a @ [printable_or_dot b]) @ tl t)"
    and "room (r + 1) w'" "length w' + 2 + length sep = length w"
proof -
  have four: "w = take 4 w @ drop 4 w" "length (take 4 w) = 4" using assms(2) by simp_all
  let ?h = "hex2 b @ [CHR '' '', NUL]" and ?p = "[printable_or_dot b]"
  have "put i ?h (('' >'' @ e) @ take 4 w @ (drop 4 w @ a @ t)) = Inr (('' >'' @ e) @ ?h @ (drop 4 w @ a @ t))"
    by (rule put_split) (use assms(3) four(2) in simp_all)
  then have p1: "put i ?h ('' >'' @ e @ w @ a @ t) = Inr ('' >'' @ e @ ?h @ drop 4 w @ a @ t)"
    using four(1) by (metis append_assoc)
  have "put j ?p (('' >'' @ e @ ?h @ drop 4 w @ a) @ [hd t] @ tl t) = Inr (('' >'' @ e @ ?h @ drop 4 w @ a) @ ?p @ tl t)"
    by (rule put_split) (use assms(2,4) in simp_all)
  then have p2: "put j ?p ('' >'' @ e @ ?h @ drop 4 w @ a @ t) = Inr ('' >'' @ e @ ?h @ drop 4 w @ a @ ?p @ tl t)"
    using assms(5) by simp
  have "put (i + 3) '' '' (('' >'' @ e @ hex2 b @ '' '') @ [NUL] @ (drop 4 w @ a @ ?p @ tl t))
      = Inr (('' >'' @ e @ hex2 b @ '' '') @ '' '' @ (drop 4 w @ a @ ?p @ tl t))"
    by (rule put_split) (use assms(3) in simp_all)
  then have p3: "put (i + 3) '' '' ('' >'' @ e @ ?h @ drop 4 w @ a @ ?p @ tl t) = Inr ('' >'' @ e @ hex2 b @ ''  '' @ drop 4 w @ a @ ?p @ tl t)"
    by simp
  show "row_bytes (b # bs) i j r ('' >'' @ e @ w @ a @ t) = row_bytes bs (i + 2 + length sep) (j + 1) (r + 1)
      ('' >'' @ (e @ hex2 b @ sep) @ w' @ (a @ ?p) @ tl t)"
  proof (cases "(r + 1) mod 4 = 0")
    case True
    then show ?thesis unfolding row_bytes.simps p1 p2 p3 res_bind_simps by (simp add: sep_def w'_def p3 numeral_3_eq_3)
  next
    case False
    then show ?thesis unfolding row_bytes.simps p1 p2 res_bind_simps by (simp add: sep_def w'_def)
  qed
  show "room (r + 1) w'" "length w' + 2 + length sep = length w"
    using assms(2) room_drop [OF assms(1,2)] by (auto simp: room_def w'_def sep_def)
qed

lemma row_bytes_text:
  assumes "room r w" "length (hex_cells r bs) + (if (r + length bs) mod 4 = 0 then 1 else 2) \<le> length w" "length e + 2 = i"
    "2 + length e + length w + length a = j" "length bs \<le> length t"
  shows "\<exists>w'. row_bytes bs i j r ('' >'' @ e @ w @ a @ t) = Inr (i + length (hex_cells r bs), r + length bs,
      '' >'' @ (e @ hex_cells r bs) @ w' @ (a @ map printable_or_dot bs) @ drop (length bs) t)
    \<and> room (r + length bs) w' \<and> length w' + length (hex_cells r bs) = length w"
  using assms
proof (induction bs arbitrary: r i j e w a t)
  case (Cons b bs)
  define sep where "sep = (if (r + 1) mod 4 = 0 then '' '' else [])"
  define w' where "w' = (if (r + 1) mod 4 = 0 then '' '' @ drop 4 w else [CHR '' '', NUL] @ drop 4 w)"
  have w: "4 \<le> length w"
    using Cons.prems(2) by (cases bs) (auto split: if_splits)
  have t: "t \<noteq> []" using Cons.prems(5) by auto
  note step = row_step [OF Cons.prems(1) w Cons.prems(3,4) t, folded sep_def w'_def]
  have cells: "hex_cells r (b # bs) = hex2 b @ sep @ hex_cells (r + 1) bs" by (simp add: sep_def)
  have "\<exists>w''. row_bytes bs (i + 2 + length sep) (j + 1) (r + 1) ('' >'' @ (e @ hex2 b @ sep) @ w' @ (a @ [printable_or_dot b]) @ tl t)
      = Inr (i + 2 + length sep + length (hex_cells (r + 1) bs), r + 1 + length bs,
        '' >'' @ ((e @ hex2 b @ sep) @ hex_cells (r + 1) bs) @ w'' @ ((a @ [printable_or_dot b]) @ map printable_or_dot bs) @ drop (length bs) (tl t))
      \<and> room (r + 1 + length bs) w'' \<and> length w'' + length (hex_cells (r + 1) bs) = length w'"
    using Cons.prems step(3) t by (intro Cons.IH [OF step(2)]) (auto simp: cells simp del: hex_cells.simps(2))
  then obtain w'' where
    "row_bytes bs (i + 2 + length sep) (j + 1) (r + 1) ('' >'' @ (e @ hex2 b @ sep) @ w' @ (a @ [printable_or_dot b]) @ tl t)
      = Inr (i + 2 + length sep + length (hex_cells (r + 1) bs), r + 1 + length bs,
        '' >'' @ ((e @ hex2 b @ sep) @ hex_cells (r + 1) bs) @ w'' @ ((a @ [printable_or_dot b]) @ map printable_or_dot bs) @ drop (length bs) (tl t))"
    "room (r + 1 + length bs) w''" "length w'' + length (hex_cells (r + 1) bs) = length w'" by blast
  then show ?case unfolding step(1) cells using step(3) t by (intro exI [of _ w'']) (simp add: drop_Suc add.assoc)
qed auto

text \<open>The row without the blank that a group of four leaves behind it.\<close>

definition hex_columns :: "u8 list \<Rightarrow> string" where
  "hex_columns bs = (if length bs mod 4 = 0 then butlast (hex_cells 0 bs) else hex_cells 0 bs)"

lemma length_hex_cells: "length (hex_cells r bs) + r div 4 = 2 * length bs + (r + length bs) div 4"
proof (induction bs arbitrary: r)
  case (Cons b bs)
  have "(r + 1) div 4 = (if (r + 1) mod 4 = 0 then r div 4 + 1 else r div 4)" by presburger
  then show ?case using Cons.IH [of "r + 1"] by (auto split: if_splits)
qed simp

lemma last_hex_cell: "bs \<noteq> [] \<Longrightarrow> (r + length bs) mod 4 = 0 \<Longrightarrow> \<exists>h. hex_cells r bs = h @ '' ''"
proof (induction bs arbitrary: r)
  case (Cons b bs)
  show ?case
  proof (cases "bs = []")
    case True
    then show ?thesis using Cons.prems(2) by (intro exI [of _ "hex2 b"]) simp
  next
    case False
    then obtain h where "hex_cells (r + 1) bs = h @ '' ''" using Cons.IH [of "r + 1"] Cons.prems(2) by auto
    then show ?thesis by (intro exI [of _ "hex2 b @ (if (r + 1) mod 4 = 0 then '' '' else []) @ h"]) simp
  qed
qed simp

definition row_line :: "u8 list \<Rightarrow> nat \<Rightarrow> string" where
  "row_line bs offset = '' >'' @ hex_columns bs @ ''<'' @ replicate (36 - length (hex_columns bs)) (CHR '' '') @
     map printable_or_dot bs @ replicate (17 - length bs) (CHR '' '') @ setw (CHR ''0'') 8 (show_hex True offset)"

lemma NUL_neq [simp]: "NUL \<noteq> CHR '' ''" "NUL \<noteq> CHR ''<''" "NUL \<noteq> CHR ''>''"
  by (simp_all add: NUL_def)

lemma digit_not_NUL: "d < 16 \<Longrightarrow> digit_char True d \<noteq> NUL"
  by (rule of_char_neq) (simp add: of_char_digit_char NUL_def)

lemma hex_text_not_NUL: "n < 16 ^ w \<Longrightarrow> 0 < w \<Longrightarrow> NUL \<notin> set (setw (CHR ''0'') w (show_hex True n))"
  using digit_not_NUL fixed_digits_bound [of 16] by (fastforce simp: setw_show_hex)

lemma hex2_not_NUL: "NUL \<notin> set (hex2 b)"
  using hex_text_not_NUL [of "unat b" 2] unsigned_less [of b, where ?'a = nat] by (simp add: hex2_def)

lemma hex_cells_not_NUL: "NUL \<notin> set (hex_cells r bs)"
  by (induction bs arbitrary: r) (auto simp: hex2_not_NUL)

lemma printable_not_NUL: "printable_or_dot b \<noteq> NUL"
  by (rule of_char_neq) (simp add: printable_or_dot_def NUL_def)

lemma row_line_not_NUL: "offset < 16 ^ 8 \<Longrightarrow> NUL \<notin> set (row_line bs offset)"
  using hex_cells_not_NUL [of 0 bs] printable_not_NUL printable_not_NUL [symmetric] hex_text_not_NUL [of offset 8] in_set_butlastD [of NUL "hex_cells 0 bs"]
  by (auto simp: row_line_def hex_columns_def)

lemma dump_row_line:
  assumes "bs \<noteq> []" "length bs \<le> 16" "offset < 16 ^ 8" "length szBuf = 100"
  shows "\<exists>buf. dump_row bs offset szBuf = Inr (row_line bs offset, buf) \<and> length buf = 100"
proof -
  let ?addr = "setw (CHR ''0'') 8 (show_hex True offset)" and ?n = "length bs"
  let ?blanks = "\<lambda>n. replicate n (CHR '' '')"
  let ?rest = "?addr @ [NUL] @ drop 65 szBuf"
  have addr: "length ?addr = 8" using assms(3) by (simp add: setw_show_hex)
  have "(54 :: nat) = 37 + 17" by simp
  then have split: "?blanks 54 = ?blanks 37 @ ?blanks 17" by (simp only: replicate_add)
  have init: "put 0 ('' >'' @ ?blanks 54 @ ?addr @ [NUL]) szBuf = Inr ('' >'' @ [] @ ?blanks 37 @ [] @ ?blanks 17 @ ?rest)"
    using addr assms(4) by (simp add: put_def split)
  have cells: "length (hex_cells 0 bs) = 2 * ?n + ?n div 4" using length_hex_cells [of 0 bs] by simp
  have "2 * ?n + ?n div 4 + (if ?n mod 4 = 0 then 1 else 2) \<le> 37" using assms(2) by presburger
  then have small: "length (hex_cells 0 bs) + (if (0 + ?n) mod 4 = 0 then 1 else 2) \<le> length (?blanks 37)" by (simp add: cells)
  have "room 0 (?blanks 37)" "?n \<le> length (?blanks 17 @ ?rest)" using assms(2) by (simp_all add: room_def)
  from row_bytes_text [OF this(1) small _ _ this(2), of "[]" 2 "[]" 39] obtain w' where
    w': "row_bytes bs 2 39 0 ('' >'' @ [] @ ?blanks 37 @ [] @ ?blanks 17 @ ?rest) = Inr (2 + length (hex_cells 0 bs), ?n,
        '' >'' @ hex_cells 0 bs @ w' @ map printable_or_dot bs @ ?blanks (17 - ?n) @ ?rest)"
      "room ?n w'" "length w' + length (hex_cells 0 bs) = 37"
    using assms(2) by (auto simp: drop_append)
  let ?tail = "map printable_or_dot bs @ ?blanks (17 - ?n) @ ?rest"
  let ?i = "2 + length (hex_columns bs)"
  have "(if ?n mod 4 = 0 then 2 + length (hex_cells 0 bs) - 1 else 2 + length (hex_cells 0 bs)) = ?i
    \<and> res_bind (put ?i ''<'' ('' >'' @ hex_cells 0 bs @ w' @ ?tail)) (put (?i + 1) '' '') =
      Inr ('' >'' @ hex_columns bs @ ''<'' @ ?blanks (36 - length (hex_columns bs)) @ ?tail)"
  proof (cases "?n mod 4 = 0")
    case True
    then obtain h where h: "hex_cells 0 bs = h @ '' ''" using last_hex_cell [OF assms(1), of 0] by auto
    then have hc: "hex_columns bs = h" using True by (simp add: hex_columns_def)
    have len: "length w' = 36 - length h" "1 \<le> length w'" using w'(3) small True h by simp_all
    have "w' = ?blanks (length w')" using w'(2) True by (simp add: room_def)
    then obtain v where v: "w' = '' '' @ v" "v = ?blanks (length v)" using len(2) by (cases w') auto
    have "put (2 + length h) ''<'' (('' >'' @ h) @ '' '' @ (w' @ ?tail)) = Inr (('' >'' @ h) @ ''<'' @ (w' @ ?tail))"
      by (rule put_split) simp_all
    moreover have "put (2 + length h + 1) '' '' (('' >'' @ h @ ''<'') @ '' '' @ (v @ ?tail)) = Inr (('' >'' @ h @ ''<'') @ '' '' @ (v @ ?tail))"
      by (rule put_split) simp_all
    moreover have "?blanks (36 - length h) = w'" using \<open>w' = ?blanks (length w')\<close> len(1) by simp
    ultimately show ?thesis using True h hc v(1) by simp
  next
    case False
    then have hc: "hex_columns bs = hex_cells 0 bs" by (simp add: hex_columns_def)
    have "2 \<le> length w'" using w'(3) small False by simp
    then have "w' = [CHR '' '', NUL] @ ?blanks (length w' - 2)" using w'(2) False by (simp add: room_def)
    then obtain u where w2: "w' = [CHR '' '', NUL] @ ?blanks u" by blast
    let ?h = "hex_cells 0 bs" and ?b = "?blanks u"
    have "put (2 + length ?h) ''<'' (('' >'' @ ?h) @ '' '' @ ([NUL] @ ?b @ ?tail)) = Inr (('' >'' @ ?h) @ ''<'' @ ([NUL] @ ?b @ ?tail))"
      by (rule put_split) simp_all
    moreover have "put (2 + length ?h + 1) '' '' (('' >'' @ ?h @ ''<'') @ [NUL] @ (?b @ ?tail)) = Inr (('' >'' @ ?h @ ''<'') @ '' '' @ (?b @ ?tail))"
      by (rule put_split) simp_all
    moreover have "?blanks (36 - length ?h) = '' '' @ ?b"
    proof -
      have "36 - length ?h = Suc u" using w'(3) w2 by simp
      then show ?thesis by simp
    qed
    ultimately show ?thesis using False hc w2 by simp
  qed
  then have i: "(if ?n mod 4 = 0 then 2 + length (hex_cells 0 bs) - 1 else 2 + length (hex_cells 0 bs)) = ?i"
    and marks: "res_bind (put ?i ''<'' ('' >'' @ hex_cells 0 bs @ w' @ ?tail)) (put (?i + 1) '' '') = Inr (row_line bs offset @ [NUL] @ drop 65 szBuf)"
    by (simp_all add: row_line_def)
  obtain b1 where b1: "put ?i ''<'' ('' >'' @ hex_cells 0 bs @ w' @ ?tail) = Inr b1"
    "put (?i + 1) '' '' b1 = Inr (row_line bs offset @ [NUL] @ drop 65 szBuf)"
    using marks by (auto simp: res_bind_Inr_iff)
  have "takeWhile (\<lambda>c. c \<noteq> NUL) (row_line bs offset @ [NUL] @ drop 65 szBuf) = row_line bs offset"
    using row_line_not_NUL [OF assms(3), of bs] by (subst takeWhile_append2) auto
  moreover have "length (row_line bs offset) = 64"
    using addr assms(2) w'(3) small by (auto simp: row_line_def hex_columns_def split: if_splits)
  ultimately show ?thesis
    unfolding dump_row_def init res_bind_simps w'(1) prod.case Let_def i b1 using assms(4) by simp
qed

section \<open>What the file holds\<close>

lemma int_cut: "n < 2 ^ 31 \<Longrightarrow> sint (of_nat n :: u32) = int n"
  using sint_small [of "of_nat n :: u32"] by (simp add: take_bit_nat_eq_self unat_of_nat)

lemma dump_rows_nonempty:
  assumes "bs \<noteq> []"
  shows "dump_rows bs offset szBuf =
    (let lOutLen = min 16 (sint (of_nat (length bs) :: u32)) in
     if lOutLen = 0 then None
     else if lOutLen < 0 then Some (Inl Undefined)
     else case dump_row (take (nat lOutLen) bs) offset szBuf of
        Inl e \<Rightarrow> Some (Inl e)
      | Inr (line, szBuf) \<Rightarrow>
          map_option (map_sum id (\<lambda>text. line @ [newline] @ text)) (dump_rows (drop (nat lOutLen) bs) (offset + nat lOutLen) szBuf))"
  using assms by (cases bs) (simp_all only: dump_rows.simps simp_thms list.simps)

lemma dump_rows_text:
  assumes "16 * k + length bs < 2 ^ 31" "length szBuf = 100"
  shows "dump_rows bs (16 * k) szBuf = Some (Inr (concat (map (\<lambda>j. row_line (take 16 (drop (16 * j) bs)) (16 * (k + j)) @ [newline])
    [0..<(length bs + 15) div 16])))"
  using assms
proof (induction "length bs" arbitrary: bs k szBuf rule: less_induct)
  case less
  show ?case
  proof (cases bs)
    case (Cons b bs')
    let ?n = "min 16 (length bs)"
    have "sint (of_nat (length bs) :: u32) = int (length bs)" using less.prems(1) by (intro int_cut) simp
    then have n: "min 16 (sint (of_nat (length bs) :: u32)) = int ?n" by simp
    have pos: "0 < ?n" "?n \<noteq> 0" using Cons by simp_all
    obtain buf where row: "dump_row (take ?n bs) (16 * k) szBuf = Inr (row_line (take ?n bs) (16 * k), buf)" "length buf = 100"
      using dump_row_line [of "take ?n bs" "16 * k" szBuf] less.prems Cons by auto
    have t: "take ?n bs = take 16 bs" by (cases "length bs \<le> 16") (simp_all add: min_def)
    have rest: "map_option (map_sum id (\<lambda>text. row_line (take 16 bs) (16 * k) @ [newline] @ text)) (dump_rows (drop ?n bs) (16 * k + ?n) buf) =
        Some (Inr (concat (map (\<lambda>j. row_line (take 16 (drop (16 * j) bs)) (16 * (k + j)) @ [newline]) [0..<(length bs + 15) div 16])))"
    proof (cases "length bs \<le> 16")
      case True
      then have "(length bs + 15) div 16 = Suc 0" using Cons by simp
      then show ?thesis using True by (simp add: min_def)
    next
      case False
      let ?d = "drop 16 bs"
      have m: "(length bs + 15) div 16 = Suc ((length ?d + 15) div 16)" using False by simp
      have IH: "dump_rows ?d (16 * (k + 1)) buf = Some (Inr (concat (map (\<lambda>j. row_line (take 16 (drop (16 * j) ?d)) (16 * (k + 1 + j)) @ [newline])
          [0..<(length ?d + 15) div 16])))"
        using False less.prems(1) row(2) by (intro less.hyps) simp_all
      show ?thesis using False IH unfolding m map_upt_Suc by (simp add: algebra_simps)
    qed
    have "bs \<noteq> []" using Cons by simp
    moreover have "int ?n \<noteq> 0" "\<not> int ?n < 0" using pos by simp_all
    ultimately show ?thesis
      unfolding dump_rows_nonempty [OF \<open>bs \<noteq> []\<close>] n Let_def using rest row t by (simp only: if_False nat_int sum.case prod.case append_assoc)
  qed simp
qed

text \<open>Where a row shows its bytes: the digits of byte \<open>j\<close> at column \<open>2 + 2 * j + j div 4\<close>, its character at column \<open>39 + j\<close>.\<close>

lemma hex_cells_append: "hex_cells r (xs @ ys) = hex_cells r xs @ hex_cells (r + length xs) ys"
  by (induction xs arbitrary: r) simp_all

lemma row_line_byte:
  assumes "j < length bs" "length bs \<le> 16"
  shows "take 2 (drop (2 + 2 * j + j div 4) (row_line bs offset)) = hex2 (bs ! j)" "row_line bs offset ! (39 + j) = printable_or_dot (bs ! j)"
proof -
  let ?p = "2 * j + j div 4" and ?c = "hex_cells 0 bs"
  have "bs = take j bs @ [bs ! j] @ drop (Suc j) bs" using assms(1) by (simp add: id_take_nth_drop)
  then have "?c = hex_cells 0 (take j bs) @ hex_cells j [bs ! j] @ hex_cells (Suc j) (drop (Suc j) bs)"
    using assms(1) hex_cells_append [of 0 "take j bs" "[bs ! j] @ drop (Suc j) bs"] hex_cells_append [of j "[bs ! j]" "drop (Suc j) bs"] by simp
  moreover have "length (hex_cells 0 (take j bs)) = ?p" using length_hex_cells [of 0 "take j bs"] assms(1) by simp
  ultimately have c: "take 2 (drop ?p ?c) = hex2 (bs ! j)" by simp
  have n: "length ?c = 2 * length bs + length bs div 4" using length_hex_cells [of 0 bs] by simp
  have g: "j div 4 \<le> (length bs - 1) div 4" using assms(1) by (intro div_le_mono) simp
  have "(m + 1) div 4 = (if (m + 1) mod 4 = 0 then m div 4 + 1 else m div 4)" for m :: nat by presburger
  moreover have "length bs = (length bs - 1) + 1" using assms(1) by simp
  ultimately have "length bs div 4 = (if length bs mod 4 = 0 then (length bs - 1) div 4 + 1 else (length bs - 1) div 4)" by metis
  then have L: "length (hex_columns bs) = 2 * length bs + (length bs - 1) div 4" using n by (simp add: hex_columns_def)
  have room: "?p + 2 \<le> length (hex_columns bs)" using assms(1) g L by linarith
  obtain m where m: "length (hex_columns bs) = ?p + 2 + m" using room le_Suc_ex by blast
  have "hex_columns bs = take (length (hex_columns bs)) ?c" by (simp add: hex_columns_def butlast_conv_take)
  then have "hex_columns bs = take (?p + 2 + m) ?c" unfolding m .
  moreover have "take 2 (drop ?p (take (?p + 2 + m) ?c)) = take 2 (drop ?p ?c)" by (simp add: drop_take numeral_2_eq_2)
  ultimately have "take 2 (drop ?p (hex_columns bs)) = take 2 (drop ?p ?c)" by (simp only:)
  moreover have "take 2 (drop ?p (hex_columns bs @ x)) = take 2 (drop ?p (hex_columns bs))" for x
    using room by simp
  moreover have "drop (2 + 2 * j + j div 4) (row_line bs offset) = drop ?p (drop 2 (row_line bs offset))" by (simp add: add.assoc add.commute)
  ultimately show "take 2 (drop (2 + 2 * j + j div 4) (row_line bs offset)) = hex2 (bs ! j)"
    using c room by (simp add: row_line_def)
  have "(length bs - 1) div 4 \<le> 15 div 4" using assms(2) by (intro div_le_mono) simp
  then have "length (hex_columns bs) \<le> 35" using L assms(2) by simp
  then obtain a where a: "length a = 39" "row_line bs offset = a @ map printable_or_dot bs @ replicate (17 - length bs) (CHR '' '') @
      setw (CHR ''0'') 8 (show_hex True offset)"
    by (auto simp: row_line_def intro!: that [of "'' >'' @ hex_columns bs @ ''<'' @ replicate (36 - length (hex_columns bs)) (CHR '' '')"])
  then show "row_line bs offset ! (39 + j) = printable_or_dot (bs ! j)"
    using assms(1) nth_append_length_plus [of a "map printable_or_dot bs @ replicate (17 - length bs) (CHR '' '') @
      setw (CHR ''0'') 8 (show_hex True offset)" j] by (simp add: nth_append)
qed

section \<open>Theorems\<close>

text \<open>Below two gigabytes the dump ends without leaving its buffer, and the file has a line for every 16 bytes, with the digits and the
  characters of its bytes and their offset.\<close>

theorem hexdump_text:
  assumes "length bytes < 2 ^ 31" "length szBuf = 100"
  shows "hexdump True szBuf bytes = Some (Inr (concat (map (\<lambda>k. row_line (take 16 (drop (16 * k) bytes)) (16 * k) @ [newline])
    [0..<(length bytes + 15) div 16])))"
  using dump_rows_text [of 0 bytes szBuf] assms by (simp add: hexdump_def)

text \<open>A dump of a multiple of four gigabytes never ends; one of two gigabytes leaves its buffer.\<close>

theorem hexdump_large:
  assumes "bytes \<noteq> []"
  shows "length bytes mod 2 ^ 32 = 0 \<Longrightarrow> hexdump True szBuf bytes = None"
    "length bytes mod 2 ^ 32 = 2 ^ 31 \<Longrightarrow> hexdump True szBuf bytes = Some (Inl Undefined)"
proof -
  have w: "of_nat (length bytes) = (of_nat (length bytes mod 2 ^ 32) :: u32)"
    by (simp add: word_unat_eq_iff unat_of_nat)
  show "length bytes mod 2 ^ 32 = 0 \<Longrightarrow> hexdump True szBuf bytes = None"
    using w by (simp add: hexdump_def dump_rows_nonempty [OF assms])
  show "length bytes mod 2 ^ 32 = 2 ^ 31 \<Longrightarrow> hexdump True szBuf bytes = Some (Inl Undefined)"
    using w by (simp add: hexdump_def dump_rows_nonempty [OF assms])
qed

end
