(* ===== verification/Spec2Isabelle.thy ===== *)
theory Spec2Isabelle
  imports Srec_Batch Kernel Echo Netlist Mantle Fletchgen Column_Threads Parquet_Regs Profiler Jni_Batches Tpch Table_Batches Proto_Schema
    Hls_Packets Example_Programs Test_Bench Bench_Run Pool_Life Merger Debug_Tools
begin

text \<open>
  Fletcher generates hardware that reads and writes Apache Arrow data, and has a run-time library to drive it. This
  repository uses both for an accelerator of TPC-H queries that is called from Spark. The development models the C++ code
  of the repository and proves what makes its parts correct, alone and together.

  \<^bold>\<open>The program.\<close>

  \<^item> \<^verbatim>\<open>fletcher/common\<close> reads and writes the Fletcher metadata of Arrow schemas and describes record
  batches: names, lengths and buffers.

  \<^item> \<^verbatim>\<open>fletcher/codegen/cpp/fletchgen\<close> is the program fletchgen: it takes schemas and
  batches, decides on the registers of the accelerator, and builds a kernel, the array readers and writers of each
  schema, a nucleus that connects both, a mantle with the memory buses, and a top level for simulation. For simulation
  it also writes the data of the batches into an SREC memory image.

  \<^item> \<^verbatim>\<open>fletcher/runtime\<close> finds a platform, brings the buffers
  of the queued batches to the device, writes their addresses to the registers, starts the kernel and waits for
  it.

  \<^item> \<^verbatim>\<open>fletcher/platforms/echo\<close> is a platform that keeps everything in the memory of the process.

  \<^item> \<^verbatim>\<open>native_root\<close>
  reads the column chunks of Parquet files, hands them to three hardware instances through a pool of threads and
  gives the results to Java; it also carries record batches from and to Java.

  \<^bold>\<open>Theories and sources.\<close> Shared: \<^theory_text>\<open>Prelude\<close> (machine words, the errors of C++ code, the error monad), \<^theory_text>\<open>Cxx_Text\<close>
  (printing and parsing of numbers in the standard library), \<^theory_text>\<open>Layout\<close> (locale \<open>sequential_layout\<close>: things placed one after the
  other; \<open>strict_layout\<close>: at different places), \<^theory_text>\<open>Host_Memory\<close> and \<^theory_text>\<open>Transfers\<close> (memory, \<^verbatim>\<open>memcpy\<close>, \<^verbatim>\<open>memset\<close>), \<^theory_text>\<open>Doubles\<close>. Common library: \<^theory_text>\<open>Meta\<close>
  (\<^verbatim>\<open>arrow-utils.cc\<close>), \<^theory_text>\<open>Batch_Desc\<close> (\<^verbatim>\<open>arrow-recordbatch.cc\<close>, \<^verbatim>\<open>arrow-schema.cc\<close>), \<^theory_text>\<open>Hex_View\<close> (\<^verbatim>\<open>hex-view.cc\<close>). SREC images:
  \<^theory_text>\<open>Srec_Record\<close>, \<^theory_text>\<open>Srec_File\<close> (\<^verbatim>\<open>srec/srec.cc\<close>), \<^theory_text>\<open>Srec_Batch\<close> (\<^verbatim>\<open>srec/recordbatch.cc\<close>). Fletchgen: \<^theory_text>\<open>Options\<close>
  (\<^verbatim>\<open>options.cc\<close>), \<^theory_text>\<open>Bus\<close> and \<^theory_text>\<open>Bus_Ports\<close> (\<^verbatim>\<open>bus.cc\<close>, \<^verbatim>\<open>axi4_lite.cc\<close>), \<^theory_text>\<open>Schema_Set\<close> (\<^verbatim>\<open>schema.cc\<close>), \<^theory_text>\<open>Mmio\<close> (\<^verbatim>\<open>mmio.cc\<close>),
  \<^theory_text>\<open>Design\<close> (\<^verbatim>\<open>design.cc\<close>), \<^theory_text>\<open>Arrays\<close>, \<^theory_text>\<open>Array_Types\<close> (\<^verbatim>\<open>array.cc\<close>, \<^verbatim>\<open>basic_types.cc\<close>), \<^theory_text>\<open>Array_Config\<close> (how the VHDL of the array
  readers parses the configuration strings of \<^verbatim>\<open>array.cc\<close>), \<^theory_text>\<open>Netlist\<close> (\<^verbatim>\<open>recordbatch.cc\<close>, \<^verbatim>\<open>kernel.cc\<close>, \<^verbatim>\<open>nucleus.cc\<close>),
  \<^theory_text>\<open>Merger\<close> (the component in \<^verbatim>\<open>nucleus.cc\<close> that adds buffer addresses to commands),
  \<^theory_text>\<open>Mantle\<close> (\<^verbatim>\<open>mantle.cc\<close>), \<^theory_text>\<open>Profiler\<close> (\<^verbatim>\<open>profiler.cc\<close>), \<^theory_text>\<open>Top_Text\<close> and \<^theory_text>\<open>Top_Level\<close> (\<^verbatim>\<open>top/sim.cc\<close>, \<^verbatim>\<open>top/axi.cc\<close>),
  \<^theory_text>\<open>Top_Templates\<close> (the text of \<^verbatim>\<open>top/sim_template.h\<close> and \<^verbatim>\<open>top/axi_template.h\<close>), \<^theory_text>\<open>Test_Bench\<close> (their constants and
  placeholders), \<^theory_text>\<open>Bench_Run\<close> (the test bench of the simulation against the run-time library),
  \<^theory_text>\<open>Fletchgen\<close> (\<^verbatim>\<open>fletchgen.cc\<close>). Run-time: \<^theory_text>\<open>Platform\<close>, \<^theory_text>\<open>Context\<close>, \<^theory_text>\<open>Kernel\<close> (\<^verbatim>\<open>platform.cc\<close>, \<^verbatim>\<open>context.cc\<close>,
  \<^verbatim>\<open>kernel.cc\<close>), \<^theory_text>\<open>Echo\<close> (\<^verbatim>\<open>fletcher_echo.c\<close>). Accelerator: \<^theory_text>\<open>Column_Platform\<close>, \<^theory_text>\<open>Column_Threads\<close>, \<^theory_text>\<open>Task_Pool\<close>, \<^theory_text>\<open>Pool_Life\<close>
  (\<^verbatim>\<open>ColumnScheduler.h\<close>, \<^verbatim>\<open>ColumnScheduler.cpp\<close>, \<^verbatim>\<open>Util.h\<close>), \<^theory_text>\<open>Parquet_Regs\<close> (\<^verbatim>\<open>FileReader.cpp\<close>, \<^verbatim>\<open>JNIFletcherParquetReader.cpp\<close>),
  \<^theory_text>\<open>Tpch\<close> (\<^verbatim>\<open>Tpch.h\<close>, \<^verbatim>\<open>Util.h\<close>), \<^theory_text>\<open>Table_Batches\<close> and \<^theory_text>\<open>Debug_Tools\<close> (\<^verbatim>\<open>Util.h\<close>), \<^theory_text>\<open>Jni_Batches\<close> (\<^verbatim>\<open>Converters.cpp\<close>,
  \<^verbatim>\<open>DataSetParquetReader.cpp\<close> and others), \<^theory_text>\<open>Proto_Schema\<close> (\<^verbatim>\<open>ProtobufSchemaDeserializer.cpp\<close>). Around the library: \<^theory_text>\<open>Hls_Packets\<close>
  (\<^verbatim>\<open>integrations/vivado_hls\<close>), \<^theory_text>\<open>String_Data\<close> and \<^theory_text>\<open>Example_Programs\<close> (\<^verbatim>\<open>fletcher/examples\<close>).
  This theory holds what spans the generator and the run-time.
  Definitions have the names of the functions they model; members of a C++ object are the fields of a record that is
  passed on updated.

  \<^bold>\<open>How code is modelled.\<close> A function that may end the program, throw, or run into undefined behaviour returns a
  value of type \<open>res\<close>; logging with level ERROR ends the program, as \<^verbatim>\<open>logging.h\<close> makes it. Integers whose overflow matters are
  words. The functions of a platform form a record over a state of any type, and \<open>has_registers\<close> is their
  contract. Threads are programs of atomic actions and theorems hold for every
  interleaving; \<open>worker_progress\<close> counts the steps that workers need in any of them. Loops that may not end are partial functions: \<open>Kernel_WaitForFinish\<close> has a theorem that says exactly when
  it returns, and \<open>read_whole\<close> of the data set reader ends always. \<open>strtoul\<close> and its like recurse on the text, so
  no fuel is used anywhere. Cerata, which holds the graph of the generated hardware, is not in the repository: components are the
  lists of ports, instances and connections that the code asks Cerata for.

  \<^bold>\<open>Interfaces.\<close> \<open>strict_layout\<close>, which extends \<open>sequential_layout\<close>, is interpreted by the address assignment of \<^theory_text>\<open>Mmio\<close>,
  \<open>sequential_layout\<close> by the memory image of \<^theory_text>\<open>Srec_Batch\<close>, \<open>line_codec\<close> (printing and
  parsing of the lines of a file) by the records of SREC files, \<open>device_memory\<close> (what a platform promises of device
  addresses and copies) by the echo platform, \<open>task_queue\<close> by both kinds of queue of the thread pool.

  \<^bold>\<open>What is shown.\<close>

  \<^item> The addresses that the generated hardware gives its registers are the ones that the run-time
  writes (\<open>hardware_and_runtime_agree\<close>, \<open>arguments_reach_custom_registers\<close>, \<open>result_from_custom_registers\<close>), and the address written
  for a buffer arrives at the lane of the array whose field owns the buffer (\<open>buffer_addresses_reach_arrays\<close>).

  \<^item> Data, command
  and unlock streams run between record batches and kernel in the right direction, memory buses have one arbiter lane
  each, profiling counters reach the profiling registers, in the order of addresses of their signals, the control vectors of the command streams have the width of the addresses that are put into
  them (\<^theory_text>\<open>Mantle\<close>, \<^theory_text>\<open>Profiler\<close>, \<^theory_text>\<open>Merger\<close>).

  \<^item> The configuration strings and stream types of the array
  readers mean to the hardware what the generator means (\<^theory_text>\<open>Array_Config\<close>, \<^theory_text>\<open>Array_Types\<close>).

  \<^item> SREC files are read back, and the image
  of record batches holds their buffers at the addresses that the simulation is told (\<^theory_text>\<open>Srec_File\<close>,
  \<^theory_text>\<open>Srec_Batch\<close>, \<^theory_text>\<open>Top_Level\<close>); its test bench leaves the registers of the hardware,
  but for the control register, as the run-time library does (\<^theory_text>\<open>Bench_Run\<close>).

  \<^item> The instances of the accelerator do not disturb each other, no task is lost or run twice, all tasks end when every
  worker gets enough steps, no deadlock occurs, results come in the order of the chunks (\<^theory_text>\<open>Column_Threads\<close>, \<^theory_text>\<open>Task_Pool\<close>,
  \<^theory_text>\<open>Parquet_Regs\<close>).

  \<^item> Batches keep their
  buffers on the way to Java, within the memory set aside for them, and on the way from Java as long as no field is nullable (\<^theory_text>\<open>Jni_Batches\<close>).

  \<^item> Where the code does something else
  than it means to, a theorem states what it does: a field that is ignored shifts the registers of the arrays behind
  it, the program races with its own thread for the register addresses, lists of fixed-width values get a configuration that
  the hardware cannot read, stealing loses a task of those that a task submits, a nullable field gets its validity bits as values,
  destroying the thread pool under a running worker makes it read a destroyed queue.

  \<^bold>\<open>Not modelled.\<close> The generated protobuf code \<^verbatim>\<open>Types_.pb.cc\<close>; the JNI glue that looks up classes and methods and copies
  strings; printing, logging and timers, which only read clocks; the command line declarations of \<^verbatim>\<open>options.cc\<close>, which CLI11 interprets;
  clocks and resets of the generated components; tests and the test kernel SodaBeer; the VHDL, Scala, Java and Python parts but for the
  parser of configuration strings and the text of the templates. Arrow, Parquet, Cerata, CLI11 and vhdmmio
  are parameters where the code depends on what they return.
\<close>

section \<open>The generated registers and the run-time library\<close>

text \<open>
  The run-time library counts registers of 32 bits, the generated hardware has byte addresses. Where the context
  has as many batches and buffers as the design, they mean the same registers.
\<close>

definition register_at :: "('d \<Rightarrow> u64 \<Rightarrow> u32) \<Rightarrow> 'd \<Rightarrow> mmio_reg \<Rightarrow> nat \<Rightarrow> u32" where
  "register_at reg d r word = reg d (of_nat (unat (the (mr_addr r)) div 4 + word))"

lemma runtime_registers:
  assumes "Design_new profiling opts = Inr ds" "extra_regs_fit ds"
    "GenerateVhdmmioYaml (all_regs ds) = (yaml, regs', next_addr)"
    and "has_registers p (ctx_reg_offset c) reg" "\<not> metadata_written k" "num_buffers c \<le> length (device_buffers c)"
    and "num_recordbatches c = length (d_batch_desc ds)" "num_buffers c = length (all_desc_buffers (d_batch_desc ds))"
    "0 < num_recordbatches c"
  shows "\<exists>st d'. Kernel_Start p k c d = Inr (st, k\<lparr>metadata_written := True\<rparr>, d') \<and> status_ok st
    \<and> (\<forall>i<num_recordbatches c. register_at reg d' (regs' ! 1 ! (2 * i)) 0 = 0
        \<and> register_at reg d' (regs' ! 1 ! (2 * i + 1)) 0 = of_int (rb_num_rows (host_batches c ! i)))
    \<and> (\<forall>b<num_buffers c. \<forall>w<2. register_at reg d' (regs' ! 1 ! (2 * num_recordbatches c + b)) w =
        (if w = 0 then dau_lo else dau_hi) (db_device_address (device_buffers c ! b)))"
proof -
  let ?n = "num_recordbatches c" and ?m = "num_buffers c"
  have small: "4 + 2 * ?n + 2 * ?m \<le> 2 ^ 64"
    using assms(2) Design_new_parts(4) [OF assms(1)] assms(7,8)
    by (simp add: extra_regs_fit_def mmio_layout.total_append total_RecordBatchRegs)
  have ne: "host_batches c \<noteq> [] \<or> ?m = 0" using assms(9) by (auto simp: num_recordbatches_def)
  obtain st d' where st: "Kernel_Start p k c d = Inr (st, k\<lparr>metadata_written := True\<rparr>, d')" "status_ok st"
    and rng: "\<forall>i<?n. reg d' (of_nat (4 + 2 * i)) = 0 \<and> reg d' (of_nat (4 + 2 * i + 1)) = of_int (rb_num_rows (host_batches c ! i))"
    and buf: "\<forall>b<?m. reg d' (of_nat (4 + 2 * ?n + 2 * b)) = dau_lo (db_device_address (device_buffers c ! b))
      \<and> reg d' (of_nat (4 + 2 * ?n + 2 * b + 1)) = dau_hi (db_device_address (device_buffers c ! b))"
    using start_registers [OF assms(4,5,6) ne small, of d] by blast
  note A = register_addresses [OF assms(1-3), folded assms(7,8)]
  have "register_at reg d' (regs' ! 1 ! (2 * i)) 0 = 0
      \<and> register_at reg d' (regs' ! 1 ! (2 * i + 1)) 0 = of_int (rb_num_rows (host_batches c ! i))" if "i < ?n" for i
  proof -
    have "(16 + 8 * i) div 4 = 4 + 2 * i" "(20 + 8 * i) div 4 = 4 + 2 * i + 1" by simp_all
    then show ?thesis using A(1) rng that unfolding register_at_def by simp
  qed
  moreover have "register_at reg d' (regs' ! 1 ! (2 * ?n + b)) w =
      (if w = 0 then dau_lo else dau_hi) (db_device_address (device_buffers c ! b))" if "b < ?m" "w < 2" for b w
  proof -
    have "(16 + 8 * ?n + 8 * b) div 4 = 4 + 2 * ?n + 2 * b" by simp
    then show ?thesis using A(2) buf that unfolding register_at_def by (auto simp: less_2_cases_iff)
  qed
  ultimately show ?thesis using st by blast
qed

text \<open>C1: after Start the registers that the generated hardware has for a batch hold its range, and the registers
  that it has for a buffer hold the two halves of the address of the device buffer, when the queued batches of
  the context have the shape of the batches of the design: as many batches and as many buffers. The design assigns the byte
  addresses, the run-time library computes the register numbers on its own.\<close>

theorem hardware_and_runtime_agree:
  assumes "Design_new profiling opts = Inr ds" "extra_regs_fit ds"
    "GenerateVhdmmioYaml (all_regs ds) = (yaml, regs', next_addr)"
    and "has_registers p (ctx_reg_offset c) reg" "\<not> metadata_written k" "num_buffers c \<le> length (device_buffers c)"
    and "num_recordbatches c = length (d_batch_desc ds)" "num_buffers c = length (all_desc_buffers (d_batch_desc ds))"
    "0 < num_recordbatches c"
  shows "\<exists>st d'. Kernel_Start p k c d = Inr (st, k\<lparr>metadata_written := True\<rparr>, d') \<and> status_ok st
    \<and> (\<forall>i<num_recordbatches c. register_at reg d' (regs' ! 1 ! (2 * i)) 0 = 0
        \<and> register_at reg d' (regs' ! 1 ! (2 * i + 1)) 0 = of_int (rb_num_rows (host_batches c ! i)))
    \<and> (\<forall>b<num_buffers c. \<forall>w<2. register_at reg d' (regs' ! 1 ! (2 * num_recordbatches c + b)) w =
        (if w = 0 then dau_lo else dau_hi) (db_device_address (device_buffers c ! b)))"
  using runtime_registers [OF assms] .

lemma hardware_and_runtime_agree_witness:
  "\<exists>ds yaml regs' n st d'. Design_new (\<lambda>_ _. []) example_options = Inr ds
    \<and> GenerateVhdmmioYaml (all_regs ds) = (yaml, regs', n)
    \<and> Kernel_Start toy_api Kernel_new example_ctx (\<lambda>_. 7) = Inr (st, Kernel_new\<lparr>metadata_written := True\<rparr>, d')
    \<and> register_at (\<lambda>d. d) d' (regs' ! 1 ! 2) 1 = dau_hi (db_device_address (device_buffers example_ctx ! 0))"
proof -
  obtain ds where ds: "Design_new (\<lambda>_ _. []) example_options = Inr ds" "extra_regs_fit ds"
    "length (d_batch_desc ds) = 1" "length (all_desc_buffers (d_batch_desc ds)) = 1"
    using example_design by blast
  obtain yaml regs' n where y: "GenerateVhdmmioYaml (all_regs ds) = (yaml, regs', n)"
    by (cases "GenerateVhdmmioYaml (all_regs ds)")
  have c: "\<not> metadata_written Kernel_new" "num_buffers example_ctx \<le> length (device_buffers example_ctx)"
    "num_recordbatches example_ctx = length (d_batch_desc ds)"
    "num_buffers example_ctx = length (all_desc_buffers (d_batch_desc ds))" "0 < num_recordbatches example_ctx"
    using ds by (simp_all add: example_ctx_counts Kernel_new_def)
  obtain st d' where "Kernel_Start toy_api Kernel_new example_ctx (\<lambda>_. 7) = Inr (st, Kernel_new\<lparr>metadata_written := True\<rparr>, d')"
    "\<forall>b<num_buffers example_ctx. \<forall>w<2. register_at (\<lambda>d. d) d' (regs' ! 1 ! (2 * num_recordbatches example_ctx + b)) w =
        (if w = 0 then dau_lo else dau_hi) (db_device_address (device_buffers example_ctx ! b))"
    using hardware_and_runtime_agree [OF ds(1,2) y toy_registers c, of "\<lambda>_. 7"] by blast
  then show ?thesis using ds(1) y by (force simp: example_ctx_counts)
qed

section \<open>From the run-time library to the arrays\<close>

lemma concat_second: "length xs = 4 \<Longrightarrow> length (xs ! 0) = n \<Longrightarrow> i < length (xs ! 1) \<Longrightarrow> concat xs ! (n + i) = xs ! 1 ! i"
  by (auto simp: numeral_eq_Suc length_Suc_conv nth_append)

text \<open>C2: in a design without ignored fields the address of every buffer reaches the array of its field: lane \<open>l\<close> of the control vector
  of array \<open>a\<close>, whose command stream is that of field \<open>a\<close> of the design, is connected to one register, and after Start this
  register holds the address of the device buffer that has that place in the context, counting the buffers of
  the fields before it.\<close>

theorem buffer_addresses_reach_arrays:
  assumes "Design_new profiling opts = Inr ds" "extra_regs_fit ds"
    "GenerateVhdmmioYaml (all_regs ds) = (yaml, regs', next_addr)"
    and "has_registers p (ctx_reg_offset c) reg" "\<not> metadata_written k" "num_buffers c \<le> length (device_buffers c)"
    and "num_recordbatches c = length (d_batch_desc ds)" "num_buffers c = length (all_desc_buffers (d_batch_desc ds))"
    "0 < num_recordbatches c"
    and "documented_lib lib" "regular_design ds"
    "\<forall>s\<in>set (ss_schemas (d_schema_set ds)). \<forall>f\<in>set (schema_fields_of s). \<not> ignored f"
  shows "\<exists>nu st d'. design_nucleus lib nm ds = Inr nu
    \<and> Kernel_Start p k c d = Inr (st, k\<lparr>metadata_written := True\<rparr>, d') \<and> status_ok st
    \<and> (let counts = concat (map buffer_counts (d_batch_desc ds)) in length (array_fields ds) = length counts
      \<and> (\<forall>a<length counts. (Accm_port a ''kernel_cmd'', Kernel_port (case_prod cmd_name (array_fields ds ! a))) \<in> set (nu_edges nu)
        \<and> (\<forall>l<counts ! a. \<exists>port. (\<forall>e. (Accm_ctrl a l, e) \<in> set (nu_edges nu) \<longleftrightarrow> e = Mmio_port port)
          \<and> (\<forall>w<2. register_at reg d' (concat regs' ! port) w =
              (if w = 0 then dau_lo else dau_hi) (db_device_address (device_buffers c ! (sum_list (take a counts) + l)))))))"
proof -
  let ?n = "num_recordbatches c" and ?counts = "concat (map buffer_counts (d_batch_desc ds))"
  obtain st d' where st: "Kernel_Start p k c d = Inr (st, k\<lparr>metadata_written := True\<rparr>, d')" "status_ok st"
    and buf: "\<forall>b<num_buffers c. \<forall>w<2. register_at reg d' (regs' ! 1 ! (2 * ?n + b)) w =
        (if w = 0 then dau_lo else dau_hi) (db_device_address (device_buffers c ! b))"
    using runtime_registers [OF assms(1-9), of d] by blast
  obtain nu where nu: "design_nucleus lib nm ds = Inr nu"
    "filter is_lane (nu_edges nu) = lanes_in_order (buffer_ports (concat (all_regs ds))) 0 0 (lane_counts ds)"
    "length (lane_counts ds) = length (array_fields ds)"
    "\<forall>a<length (array_fields ds). (Accm_port a ''kernel_cmd'', Kernel_port (case_prod cmd_name (array_fields ds ! a))) \<in> set (nu_edges nu)"
    using design_nucleus_lanes [OF assms(10,1,11), of nm] by blast
  have lc: "lane_counts ds = ?counts" by (rule no_ignored_counts [OF assms(11,12)])
  note y = yaml_design [OF assms(1-3)]
  have "length (regs' ! 0) = 7" using y(1) by (simp add: GetDefaultRegs_def)
  moreover have "length (regs' ! 1) = 2 * ?n + num_buffers c"
    using arg_cong [OF yaml_sub_names, of length] RecordBatchRegs_nth(4) [of "d_batch_desc ds"] assms(7,8)
      Design_new_parts(4) [OF assms(1)] unfolding y(2) by simp
  ultimately have pos: "concat regs' ! (7 + 2 * ?n + b) = regs' ! 1 ! (2 * ?n + b)" if "b < num_buffers c" for b
    using concat_second [OF y(4), of 7 "2 * ?n + b"] that by (simp add: add.assoc)
  have "\<exists>port. (\<forall>e. (Accm_ctrl a l, e) \<in> set (nu_edges nu) \<longleftrightarrow> e = Mmio_port port)
      \<and> (\<forall>w<2. register_at reg d' (concat regs' ! port) w =
          (if w = 0 then dau_lo else dau_hi) (db_device_address (device_buffers c ! (sum_list (take a ?counts) + l))))"
    if "a < length ?counts" "l < ?counts ! a" for a l
  proof -
    note L = design_lane [OF assms(1,11) nu(2), of a l, unfolded lc, OF that]
    have b: "sum_list (take a ?counts) + l < num_buffers c" using L(2) assms(8) by simp
    show ?thesis
      using L(1) pos [OF b] buf b assms(7) by (intro exI [of _ "7 + 2 * ?n + (sum_list (take a ?counts) + l)"]) auto
  qed
  then show ?thesis using nu(1,3,4) lc st by (auto simp: Let_def)
qed

lemma buffer_addresses_reach_arrays_witness:
  "\<exists>ds yaml regs' n nu st d' port. Design_new (\<lambda>_ _. []) example_options = Inr ds
    \<and> GenerateVhdmmioYaml (all_regs ds) = (yaml, regs', n) \<and> design_nucleus example_lib ''Kernel'' ds = Inr nu
    \<and> Kernel_Start toy_api Kernel_new example_ctx (\<lambda>_. 7) = Inr (st, Kernel_new\<lparr>metadata_written := True\<rparr>, d')
    \<and> (Accm_ctrl 0 0, Mmio_port port) \<in> set (nu_edges nu)
    \<and> register_at (\<lambda>d. d) d' (concat regs' ! port) 0 = dau_lo (db_device_address (device_buffers example_ctx ! 0))"
proof -
  obtain ds where ds: "Design_new (\<lambda>_ _. []) example_options = Inr ds" "extra_regs_fit ds"
    "length (d_batch_desc ds) = 1" "concat (map buffer_counts (d_batch_desc ds)) = [1]" "regular_design ds"
    "\<forall>s\<in>set (ss_schemas (d_schema_set ds)). \<forall>f\<in>set (schema_fields_of s). \<not> ignored f"
    using example_regular by blast
  have one_buffer: "length (all_desc_buffers (d_batch_desc ds)) = 1"
  proof -
    obtain desc where "d_batch_desc ds = [desc]" using ds(3) by (auto simp: length_Suc_conv)
    then show ?thesis using ds(4) by (auto simp: buffer_counts_def all_desc_buffers_def Cons_eq_map_conv map_eq_Cons_conv)
  qed
  obtain yaml regs' n where y: "GenerateVhdmmioYaml (all_regs ds) = (yaml, regs', n)"
    by (cases "GenerateVhdmmioYaml (all_regs ds)")
  have c: "\<not> metadata_written Kernel_new" "num_buffers example_ctx \<le> length (device_buffers example_ctx)"
    "num_recordbatches example_ctx = length (d_batch_desc ds)"
    "num_buffers example_ctx = length (all_desc_buffers (d_batch_desc ds))" "0 < num_recordbatches example_ctx"
    using ds one_buffer by (simp_all add: example_ctx_counts Kernel_new_def)
  show ?thesis
    using buffer_addresses_reach_arrays [OF ds(1,2) y toy_registers c example_lib_documented ds(5,6), of "''Kernel''" "\<lambda>_. 7"] ds(1,4) y
    by (fastforce simp: Let_def)
qed

text \<open>The words that a list of registers takes.\<close>

definition words_used :: "mmio_reg list \<Rightarrow> nat" where
  "words_used rs = mmio_layout.total rs div 4"

lemma total_words: "mmio_layout.total rs = 4 * words_used rs"
proof -
  have "4 dvd space_used r" for r by (simp add: space_used_def)
  then have "4 dvd mmio_layout.total rs" by (induction rs) simp_all
  then show ?thesis by (simp add: words_used_def)
qed

text \<open>C19: the arguments given to SetArguments land in the custom registers of the design: the register that follows
  \<open>w\<close> words of custom registers gets argument \<open>w\<close>, so with registers of at most 32 bits register \<open>j\<close>
  gets argument \<open>j\<close>, whatever its direction. A wider register shifts the arguments of those behind it.\<close>

theorem arguments_reach_custom_registers:
  assumes "Design_new profiling opts = Inr ds" "extra_regs_fit ds"
    "GenerateVhdmmioYaml (all_regs ds) = (yaml, regs', next_addr)"
    and "has_registers p (ctx_reg_offset c) reg"
    and "num_recordbatches c = length (d_batch_desc ds)" "num_buffers c = length (all_desc_buffers (d_batch_desc ds))"
    and "length args \<le> 2 ^ 32" "j < length (d_kernel_regs ds)"
    "words_used (take j (d_kernel_regs ds)) < length args"
  shows "status_ok (fst (Kernel_SetArguments p k c args d))
    \<and> register_at reg (snd (Kernel_SetArguments p k c args d)) (regs' ! 2 ! j) 0 = args ! words_used (take j (d_kernel_regs ds))
    \<and> ((\<forall>r\<in>set (d_kernel_regs ds). unat (mr_width r) \<le> 32) \<longrightarrow> words_used (take j (d_kernel_regs ds)) = j)"
proof -
  let ?n = "num_recordbatches c" and ?m = "num_buffers c" and ?w = "words_used (take j (d_kernel_regs ds))"
  have "16 + 8 * ?n + 8 * ?m \<le> 2 ^ 32"
    using assms(2) Design_new_parts(4) [OF assms(1)] assms(5,6)
    by (simp add: extra_regs_fit_def mmio_layout.total_append total_RecordBatchRegs)
  then have small: "4 + 2 * ?n + 2 * ?m + length args \<le> 2 ^ 64" using assms(7) by simp
  have "unat (the (mr_addr (regs' ! 2 ! j))) = 4 * (4 + 2 * ?n + 2 * ?m + ?w)"
    using register_addresses(3) [OF assms(1-3,8)] assms(5,6) total_words by simp
  then have "unat (the (mr_addr (regs' ! 2 ! j))) div 4 = 4 + 2 * ?n + 2 * ?m + ?w" by simp
  then have "register_at reg (snd (Kernel_SetArguments p k c args d)) (regs' ! 2 ! j) 0 = args ! ?w"
    using reg_consecutive(1) [OF assms(4) small assms(9), of d] SetArguments_regs [of p c 0 args d]
    unfolding register_at_def Kernel_SetArguments_def by simp
  moreover have "status_ok (fst (Kernel_SetArguments p k c args d))" by (simp add: Kernel_SetArguments_def)
  moreover have "?w = j" if narrow: "\<forall>r\<in>set (d_kernel_regs ds). unat (mr_width r) \<le> 32"
  proof -
    have one: "space_used r = 4" if "fresh_reg r" "unat (mr_width r) \<le> 32" for r
    proof -
      have "0 < unat (mr_width r)" using that(1) by (simp add: fresh_reg_def word_less_nat_alt)
      then have "(unat (mr_width r) + 31) div 32 = 1" using that(2) by (intro div_nat_eqI) auto
      then show ?thesis by (simp add: space_used_def)
    qed
    have "\<forall>r\<in>set (d_kernel_regs ds). fresh_reg r" using assms(2) by (simp add: extra_regs_fit_def)
    then have "\<forall>r\<in>set (take j (d_kernel_regs ds)). space_used r = 4"
      using narrow one by (meson in_set_takeD)
    moreover have "mmio_layout.total rs = 4 * length rs" if "\<forall>r\<in>set rs. space_used r = 4" for rs
      using that by (induction rs) simp_all
    ultimately have "mmio_layout.total (take j (d_kernel_regs ds)) = 4 * length (take j (d_kernel_regs ds))"
      by blast
    then have "mmio_layout.total (take j (d_kernel_regs ds)) = 4 * j" using assms(8) by simp
    then show ?thesis by (simp add: words_used_def)
  qed
  ultimately show ?thesis by blast
qed

lemma arguments_reach_custom_registers_witness:
  "\<exists>ds yaml regs' n. Design_new (\<lambda>_ _. []) example_options = Inr ds
    \<and> GenerateVhdmmioYaml (all_regs ds) = (yaml, regs', n)
    \<and> register_at (\<lambda>d. d) (snd (Kernel_SetArguments toy_api Kernel_new example_ctx [42] (\<lambda>_. 7))) (regs' ! 2 ! 0) 0 = 42"
proof -
  obtain ds where ds: "Design_new (\<lambda>_ _. []) example_options = Inr ds" "extra_regs_fit ds"
    "length (d_batch_desc ds) = 1" "length (all_desc_buffers (d_batch_desc ds)) = 1" "length (d_kernel_regs ds) = 1"
    using example_design by blast
  obtain yaml regs' n where y: "GenerateVhdmmioYaml (all_regs ds) = (yaml, regs', n)"
    by (cases "GenerateVhdmmioYaml (all_regs ds)")
  have c: "num_recordbatches example_ctx = length (d_batch_desc ds)"
    "num_buffers example_ctx = length (all_desc_buffers (d_batch_desc ds))"
    using ds by (simp_all add: example_ctx_counts)
  have "words_used (take 0 (d_kernel_regs ds)) = 0" by (simp add: words_used_def)
  then show ?thesis
    using arguments_reach_custom_registers [OF ds(1,2) y toy_registers c, of "[42]" 0 Kernel_new "\<lambda>_. 7"] ds y by auto
qed

text \<open>C20: The result that the TPC-H software reads is put together from the two words that the design has from its
  first custom register on: the first is the upper half, so two custom registers of 32 bits hold the upper and the
  lower half in this order, while the halves of one register of 64 bits are exchanged. The registers are read at the base address 0,
  whatever the base address of the context.\<close>

theorem result_from_custom_registers:
  assumes "Design_new profiling opts = Inr ds" "extra_regs_fit ds"
    "GenerateVhdmmioYaml (all_regs ds) = (yaml, regs', next_addr)" "reads_registers p 0 reg"
    and "num_recordbatches (tp_context t) = length (d_batch_desc ds)"
    "num_buffers (tp_context t) = length (all_desc_buffers (d_batch_desc ds))" "0 < length (d_kernel_regs ds)"
  shows "GetReturnValueStatusReg p t old hi0 lo0 d =
    (fixed_to_float (combine_result (register_at reg d (regs' ! 2 ! 0) 0) (register_at reg d (regs' ! 2 ! 0) 1)), d)"
proof -
  let ?n = "num_recordbatches (tp_context t)" and ?m = "num_buffers (tp_context t)"
  have "unat (the (mr_addr (regs' ! 2 ! 0))) = 4 * (4 + 2 * ?n + 2 * ?m)"
    using register_addresses(3) [OF assms(1-3,7)] assms(5,6) by simp
  then have "unat (the (mr_addr (regs' ! 2 ! 0))) div 4 = 4 + 2 * ?n + 2 * ?m" by simp
  then have "register_at reg d (regs' ! 2 ! 0) i = reg d (result_register (tp_context t) i)" for i
    by (simp add: register_at_def result_register_def FLETCHER_REG_SCHEMA_def)
  then show ?thesis by (simp add: result_read [OF assms(4)])
qed

lemma result_from_custom_registers_witness:
  "\<exists>ds yaml regs' n. Design_new (\<lambda>_ _. []) example_options = Inr ds \<and> GenerateVhdmmioYaml (all_regs ds) = (yaml, regs', n)
    \<and> GetReturnValueStatusReg toy_api \<lparr>tp_base_offset = 0, tp_context = example_ctx, tp_kernel = Kernel_new\<rparr> 0 0 0 (\<lambda>_. 7) =
      (fixed_to_float (combine_result 7 7), \<lambda>_. 7)"
proof -
  obtain ds where ds: "Design_new (\<lambda>_ _. []) example_options = Inr ds" "extra_regs_fit ds"
    "length (d_batch_desc ds) = 1" "length (all_desc_buffers (d_batch_desc ds)) = 1" "length (d_kernel_regs ds) = 1"
    using example_design by blast
  obtain yaml regs' n where y: "GenerateVhdmmioYaml (all_regs ds) = (yaml, regs', n)"
    by (cases "GenerateVhdmmioYaml (all_regs ds)")
  let ?t = "\<lparr>tp_base_offset = 0, tp_context = example_ctx, tp_kernel = Kernel_new\<rparr>"
  have c: "num_recordbatches (tp_context ?t) = length (d_batch_desc ds)"
    "num_buffers (tp_context ?t) = length (all_desc_buffers (d_batch_desc ds))" "0 < length (d_kernel_regs ds)"
    using ds by (simp_all add: example_ctx_counts)
  show ?thesis
    using result_from_custom_registers [OF ds(1,2) y toy_reads c, of 0 0 0 "\<lambda>_. 7"] ds(1) y by (auto simp: register_at_def)
qed

end
